(* ===== verification/Prelude.thy ===== *)
theory Prelude
  imports Main "HOL-Library.Word"
begin

text \<open>
  Shared vocabulary of the development: the machine types of the C++ sources as words, C strings
  as byte lists without the terminating NUL, the bounded string copies the sources write by hand,
  and the list facts the ring buffers and the slot tables use.
\<close>

unbundle bit_operations_syntax

type_synonym byte = "8 word"
type_synonym u16 = "16 word"
type_synonym u32 = "32 word"
type_synonym u64 = "64 word"
type_synonym cstring = "byte list"

named_theorems ring_simps \<open>index arithmetic of the ring buffers\<close>
named_theorems handler_simps \<open>unfolding rules of the request handlers\<close>
named_theorems ladder_simps \<open>unfolding rules of the time-driven state machines\<close>

text \<open>The bytes of a string literal.\<close>

definition bytes :: "string \<Rightarrow> cstring" where
  "bytes s = map of_char s"

text \<open>A C string: the bytes before the terminating NUL, none of which is NUL.\<close>

definition is_cstr :: "cstring \<Rightarrow> bool" where
  "is_cstr s \<longleftrightarrow> 0 \<notin> set s"

text \<open>Reading a fixed-size character field up to its first NUL.\<close>

definition cstr_of :: "byte list \<Rightarrow> cstring" where
  "cstr_of f = takeWhile (\<lambda>b. b \<noteq> 0) f"

lemma is_cstr_Nil [simp]: "is_cstr []"
  by (simp add: is_cstr_def)

lemma is_cstr_Cons [simp]: "is_cstr (b # s) \<longleftrightarrow> b \<noteq> 0 \<and> is_cstr s"
  by (auto simp: is_cstr_def)

lemma is_cstr_append [simp]: "is_cstr (s @ t) \<longleftrightarrow> is_cstr s \<and> is_cstr t"
  by (auto simp: is_cstr_def)

lemma is_cstr_take [simp]: "is_cstr s \<Longrightarrow> is_cstr (take n s)"
  by (auto simp: is_cstr_def dest: in_set_takeD)

lemma is_cstr_of [simp]: "is_cstr (cstr_of f)"
  by (auto simp: is_cstr_def cstr_of_def dest: set_takeWhileD)

lemma cstr_of_append_nul [simp]: "is_cstr s \<Longrightarrow> cstr_of (s @ 0 # t) = s"
  by (induction s) (auto simp: cstr_of_def)

lemma cstr_of_id [simp]: "is_cstr s \<Longrightarrow> cstr_of s = s"
  by (induction s) (auto simp: cstr_of_def)

lemma length_cstr_of [simp]: "length (cstr_of f) \<le> length f"
  by (simp add: cstr_of_def length_takeWhile_le)

text \<open>
  The loop \<open>for (n = 0; n < sz - 1 && src[n]; ++n) dst[n] = src[n]; dst[n] = 0\<close> that copies a
  C string into a field of \<open>sz\<close> bytes: what is read back from the field.
\<close>

definition copy_str_field :: "nat \<Rightarrow> cstring \<Rightarrow> cstring" where
  "copy_str_field sz src = take (sz - 1) (cstr_of src)"

lemma copy_str_field_cstr [simp]: "is_cstr (copy_str_field n s)"
  by (simp add: copy_str_field_def)

lemma copy_str_field_fits: "is_cstr s \<Longrightarrow> length s < n \<Longrightarrow> copy_str_field n s = s"
  by (simp add: copy_str_field_def)

lemma length_copy_str_field: "0 < n \<Longrightarrow> length (copy_str_field n s) < n"
  by (auto simp: copy_str_field_def)

text \<open>Incrementing a counter that is below another one does not wrap.\<close>

lemma unat_suc_less:
  assumes "(c :: 'a :: len word) < n"
  shows "unat (c + 1) = Suc (unat c)"
proof -
  have "unat n < 2 ^ LENGTH('a)" by (rule unsigned_less)
  then have "Suc (unat c) < 2 ^ LENGTH('a)"
    using assms unfolding word_less_nat_alt by linarith
  then show ?thesis by (simp add: unat_word_ariths)
qed

text \<open>The index of the first entry that satisfies the test, as the search loops return it.\<close>

fun find_index :: "('a \<Rightarrow> bool) \<Rightarrow> 'a list \<Rightarrow> nat option" where
  "find_index P [] = None"
| "find_index P (x # xs) = (if P x then Some 0 else map_option Suc (find_index P xs))"

lemma find_index_Some:
  "find_index P xs = Some k \<Longrightarrow> k < length xs \<and> P (xs ! k) \<and> (\<forall>j < k. \<not> P (xs ! j))"
  by (induction P xs arbitrary: k rule: find_index.induct)
     (auto simp: nth_Cons less_Suc_eq_0_disj split: if_splits nat.splits)

lemma find_index_None: "find_index P xs = None \<longleftrightarrow> (\<forall>x \<in> set xs. \<not> P x)"
  by (induction P xs rule: find_index.induct) auto

lemma find_index_map:
  "(\<And>x. P (f x) = P x) \<Longrightarrow> find_index P (map f xs) = find_index P xs"
  by (induction xs) auto

end
