(* ===== verification/Dropout.thy ===== *)
theory Dropout
  imports Complex_Main Prelude
begin

text \<open>
  The dropout ladder of the phantom-tracker module: \<open>modules/phantom/src/driver/DropoutState.cpp\<close>
  with its types (\<open>PhantomTypes.h\<close>, \<open>BlendCurves.h\<close>) and the way the pose hook drives it
  (\<open>PhantomModule::OnRealPoseObserved\<close> and \<open>MaybeOverridePose\<close>, called back to back from
  \<open>ServerTrackedDeviceProvider.cpp\<close>). Counter values are mathematical integers: the products
  \<open>dt * 1000\<close> stay below \<open>2 ^ 63\<close> for spans of centuries. Of an observed pose the ladder only reads
  whether it is healthy (result \<open>Running_OK\<close>, valid, connected).
\<close>

section \<open>State and operations\<close>

datatype tracker_state =
    REAL
  | BLEND_OUT
  | SYNTH_RECKON
  | SYNTH_IK
  | SYNTH_ML
  | BLEND_IN
  | OUT_OF_RANGE
  | LOST

record ladder_timings =
  dropout_silence_ms :: u32
  blend_out_ms :: u32
  blend_in_ms :: u32
  reckon_hold_ms :: u32
  synth_hold_ms :: u32
  lost_hold_ms :: u32

definition LadderTimings_Defaults :: ladder_timings where
  "LadderTimings_Defaults = \<lparr>dropout_silence_ms = 40, blend_out_ms = 80, blend_in_ms = 150,
     reckon_hold_ms = 250, synth_hold_ms = 2000, lost_hold_ms = 5000\<rparr>"

record dropout_state =
  timings :: ladder_timings
  state :: tracker_state
  ik_available :: bool
  last_real_qpc_ns :: int
  dropout_start_qpc_ns :: int
  blend_in_start_qpc_ns :: int
  dropout_count :: u32
  longest_dropout_ms :: u32

definition DropoutState_init :: dropout_state where
  "DropoutState_init = \<lparr>timings = LadderTimings_Defaults, state = REAL, ik_available = False,
     last_real_qpc_ns = -1, dropout_start_qpc_ns = -1, blend_in_start_qpc_ns = -1,
     dropout_count = 0, longest_dropout_ms = 0\<rparr>"

definition SetTimings :: "ladder_timings \<Rightarrow> dropout_state \<Rightarrow> dropout_state" where
  "SetTimings t s = s\<lparr>timings := t\<rparr>"

definition SetIkAvailable :: "bool \<Rightarrow> dropout_state \<Rightarrow> dropout_state" where
  "SetIkAvailable v s = s\<lparr>ik_available := v\<rparr>"

definition QpcMs :: "int \<Rightarrow> int \<Rightarrow> int" where
  "QpcMs dt_ns qpc_freq = (if qpc_freq \<le> 0 \<or> dt_ns \<le> 0 then 0 else dt_ns * 1000 div qpc_freq)"

definition Ladder_OnRealPoseObserved :: "int \<Rightarrow> bool \<Rightarrow> dropout_state \<Rightarrow> dropout_state" where
  "Ladder_OnRealPoseObserved qpc_ns healthy s =
     (let s = s\<lparr>last_real_qpc_ns := qpc_ns\<rparr>
      in if healthy
         then if state s \<in> {OUT_OF_RANGE, LOST, SYNTH_RECKON, SYNTH_IK, SYNTH_ML}
              then s\<lparr>state := BLEND_IN, blend_in_start_qpc_ns := qpc_ns\<rparr>
              else if state s = BLEND_OUT
              then s\<lparr>state := BLEND_IN, blend_in_start_qpc_ns := qpc_ns\<rparr>
              else s
         else s)"

text \<open>The three parts of \<open>Tick\<close>, in order: silence detection, escalation, return from \<open>BLEND_IN\<close>.\<close>

definition tick_silence :: "int \<Rightarrow> int \<Rightarrow> dropout_state \<Rightarrow> dropout_state" where
  "tick_silence qpc_ns qpc_freq s =
     (let silence_ms = (if last_real_qpc_ns s < 0 then 0 else QpcMs (qpc_ns - last_real_qpc_ns s) qpc_freq)
      in if state s = REAL \<and> last_real_qpc_ns s \<ge> 0 \<and> silence_ms \<ge> uint (dropout_silence_ms (timings s))
         then s\<lparr>state := BLEND_OUT, dropout_start_qpc_ns := last_real_qpc_ns s,
                dropout_count := dropout_count s + 1\<rparr>
         else s)"

definition tick_escalate :: "int \<Rightarrow> int \<Rightarrow> dropout_state \<Rightarrow> dropout_state" where
  "tick_escalate qpc_ns qpc_freq s =
     (if dropout_start_qpc_ns s \<ge> 0 \<and> state s \<noteq> REAL \<and> state s \<noteq> BLEND_IN
      then let t = timings s;
               age_ms = QpcMs (qpc_ns - dropout_start_qpc_ns s) qpc_freq;
               s = (if state s = BLEND_OUT \<and> age_ms \<ge> uint (blend_out_ms t)
                    then s\<lparr>state := SYNTH_RECKON\<rparr> else s);
               s = (if state s = SYNTH_RECKON \<and> ik_available s \<and> age_ms \<ge> uint (reckon_hold_ms t)
                    then s\<lparr>state := SYNTH_IK\<rparr> else s);
               s = (if age_ms \<ge> uint (synth_hold_ms t) \<and> state s \<noteq> OUT_OF_RANGE \<and> state s \<noteq> LOST
                    then s\<lparr>state := OUT_OF_RANGE\<rparr> else s)
           in if age_ms \<ge> uint (lost_hold_ms t) \<and> state s \<noteq> LOST
              then s\<lparr>state := LOST, longest_dropout_ms := max (longest_dropout_ms s) (of_int age_ms)\<rparr>
              else s
      else s)"

definition tick_blend_in :: "int \<Rightarrow> int \<Rightarrow> dropout_state \<Rightarrow> dropout_state" where
  "tick_blend_in qpc_ns qpc_freq s =
     (if state s = BLEND_IN \<and> blend_in_start_qpc_ns s \<ge> 0
      then let blend_age_ms = QpcMs (qpc_ns - blend_in_start_qpc_ns s) qpc_freq
           in if blend_age_ms \<ge> uint (blend_in_ms (timings s))
              then let s = (if dropout_start_qpc_ns s \<ge> 0
                            then s\<lparr>longest_dropout_ms := max (longest_dropout_ms s)
                                   (of_int (max 0 (QpcMs (blend_in_start_qpc_ns s - dropout_start_qpc_ns s) qpc_freq)))\<rparr>
                            else s)
                   in s\<lparr>state := REAL, dropout_start_qpc_ns := -1, blend_in_start_qpc_ns := -1\<rparr>
              else s
      else s)"

definition Tick :: "int \<Rightarrow> int \<Rightarrow> dropout_state \<Rightarrow> dropout_state" where
  "Tick qpc_ns qpc_freq s =
     tick_blend_in qpc_ns qpc_freq (tick_escalate qpc_ns qpc_freq (tick_silence qpc_ns qpc_freq s))"

definition should_publish :: "dropout_state \<Rightarrow> bool" where
  "should_publish s \<longleftrightarrow> state s \<noteq> LOST"

datatype tracking_result = Running_OutOfRange | Running_OK

definition tracking_result_override :: "dropout_state \<Rightarrow> tracking_result" where
  "tracking_result_override s = (if state s = OUT_OF_RANGE then Running_OutOfRange else Running_OK)"

text \<open>The blend fraction, in exact arithmetic.\<close>

definition clamp01 :: "real \<Rightarrow> real" where
  "clamp01 x = (if x < 0 then 0 else if 1 < x then 1 else x)"

definition blend_alpha :: "int \<Rightarrow> int \<Rightarrow> dropout_state \<Rightarrow> real" where
  "blend_alpha qpc_ns qpc_freq s =
     (if state s = BLEND_OUT \<and> dropout_start_qpc_ns s \<ge> 0
      then clamp01 (of_int (QpcMs (qpc_ns - dropout_start_qpc_ns s) qpc_freq)
                    / of_int (max 1 (uint (blend_out_ms (timings s)))))
      else if state s = BLEND_IN \<and> blend_in_start_qpc_ns s \<ge> 0
      then clamp01 (of_int (QpcMs (qpc_ns - blend_in_start_qpc_ns s) qpc_freq)
                    / of_int (max 1 (uint (blend_in_ms (timings s)))))
      else 0)"

definition SmoothBlendWeight :: "real \<Rightarrow> real" where
  "SmoothBlendWeight t = (let t = clamp01 t in t * t * (3 - 2 * t))"

definition dropout_age_ms :: "int \<Rightarrow> int \<Rightarrow> dropout_state \<Rightarrow> u32" where
  "dropout_age_ms qpc_ns qpc_freq s =
     (if state s = REAL \<or> dropout_start_qpc_ns s < 0 then 0
      else of_int (max 0 (QpcMs (qpc_ns - dropout_start_qpc_ns s) qpc_freq)))"

text \<open>What the pose hook does with one pose of a device: \<open>PhantomModule::OnRealPoseObserved\<close> sets the
  timings and the IK flag and observes the pose, then \<open>MaybeOverridePose\<close> ticks, both with the same
  counter value.\<close>

definition hook_pose :: "ladder_timings \<Rightarrow> bool \<Rightarrow> int \<Rightarrow> int \<Rightarrow> bool \<Rightarrow> dropout_state \<Rightarrow> dropout_state" where
  "hook_pose t ik qpc_ns qpc_freq healthy s =
     Tick qpc_ns qpc_freq
       (Ladder_OnRealPoseObserved qpc_ns healthy (SetIkAvailable ik (SetTimings t s)))"

section \<open>Reachable states\<close>

text \<open>Any interleaving of poses and ticks at counter values that do not go back.\<close>

inductive ladder_reach :: "ladder_timings \<Rightarrow> int \<Rightarrow> dropout_state \<Rightarrow> bool" for t where
  reach_init: "0 \<le> q \<Longrightarrow> ladder_reach t q (SetTimings t DropoutState_init)"
| reach_pose: "ladder_reach t q s \<Longrightarrow> q \<le> q' \<Longrightarrow> ladder_reach t q' (Ladder_OnRealPoseObserved q' h s)"
| reach_tick: "ladder_reach t q s \<Longrightarrow> q \<le> q' \<Longrightarrow> ladder_reach t q' (Tick q' f s)"
| reach_ik: "ladder_reach t q s \<Longrightarrow> ladder_reach t q (SetIkAvailable v s)"

text \<open>The time stamps of a reachable state at time \<open>q\<close>.\<close>

definition ladder_inv :: "ladder_timings \<Rightarrow> int \<Rightarrow> dropout_state \<Rightarrow> bool" where
  "ladder_inv t q s \<longleftrightarrow> timings s = t \<and> 0 \<le> q \<and> last_real_qpc_ns s \<le> q \<and> state s \<noteq> SYNTH_ML \<and>
     (state s \<noteq> REAL \<longrightarrow> 0 \<le> dropout_start_qpc_ns s \<and> dropout_start_qpc_ns s \<le> last_real_qpc_ns s) \<and>
     (state s = BLEND_IN \<longrightarrow> 0 \<le> blend_in_start_qpc_ns s \<and> blend_in_start_qpc_ns s \<le> last_real_qpc_ns s)"

lemma ladder_inv_pose:
  "ladder_inv t q s \<Longrightarrow> q \<le> q' \<Longrightarrow> ladder_inv t q' (Ladder_OnRealPoseObserved q' h s)"
  by (cases "state s") (auto simp: ladder_inv_def Ladder_OnRealPoseObserved_def Let_def)

lemma tick_silence_inv: "ladder_inv t q s \<Longrightarrow> q \<le> q' \<Longrightarrow> ladder_inv t q' (tick_silence q' f s)"
  by (auto simp: ladder_inv_def tick_silence_def Let_def)

lemma tick_escalate_fields:
  "timings (tick_escalate q f s) = timings s" "last_real_qpc_ns (tick_escalate q f s) = last_real_qpc_ns s"
  "dropout_start_qpc_ns (tick_escalate q f s) = dropout_start_qpc_ns s"
  "blend_in_start_qpc_ns (tick_escalate q f s) = blend_in_start_qpc_ns s"
  "dropout_count (tick_escalate q f s) = dropout_count s"
  by (simp_all add: tick_escalate_def Let_def)

text \<open>The state the escalation leaves a dropout of age \<open>a\<close> in.\<close>

definition escalated :: "ladder_timings \<Rightarrow> bool \<Rightarrow> int \<Rightarrow> tracker_state \<Rightarrow> tracker_state" where
  "escalated t ik a st =
     (if st = LOST \<or> a \<ge> uint (lost_hold_ms t) then LOST
      else if st = OUT_OF_RANGE \<or> a \<ge> uint (synth_hold_ms t) then OUT_OF_RANGE
      else if st = SYNTH_IK then SYNTH_IK
      else if (st = SYNTH_RECKON \<or> a \<ge> uint (blend_out_ms t))
      then if ik \<and> a \<ge> uint (reckon_hold_ms t) then SYNTH_IK else SYNTH_RECKON
      else BLEND_OUT)"

lemma tick_escalate_state:
  assumes "0 \<le> dropout_start_qpc_ns s" and "state s \<notin> {REAL, BLEND_IN, SYNTH_ML}"
  shows "state (tick_escalate q f s) =
    escalated (timings s) (ik_available s) (QpcMs (q - dropout_start_qpc_ns s) f) (state s)"
  using assms by (cases "state s") (auto simp: tick_escalate_def escalated_def Let_def)

lemma tick_escalate_idle: "state s = REAL \<or> state s = BLEND_IN \<Longrightarrow> tick_escalate q f s = s"
  by (auto simp: tick_escalate_def)

lemma tick_escalate_inv:
  assumes "ladder_inv t q s"
  shows "ladder_inv t q (tick_escalate q f s)"
proof (cases "state s = REAL \<or> state s = BLEND_IN")
  case True
  then show ?thesis using assms by (simp add: tick_escalate_idle)
next
  case False
  then have st: "0 \<le> dropout_start_qpc_ns s" "state s \<notin> {REAL, BLEND_IN, SYNTH_ML}"
    using assms by (auto simp: ladder_inv_def)
  have "escalated (timings s) ik a (state s) \<notin> {REAL, BLEND_IN, SYNTH_ML}" for ik a
    by (simp add: escalated_def)
  then show ?thesis using assms False tick_escalate_state [OF st, of q f]
    by (auto simp: ladder_inv_def tick_escalate_fields)
qed

lemma tick_blend_in_inv: "ladder_inv t q s \<Longrightarrow> ladder_inv t q (tick_blend_in q f s)"
  by (auto simp: ladder_inv_def tick_blend_in_def Let_def)

lemma ladder_inv_Tick: "ladder_inv t q s \<Longrightarrow> q \<le> q' \<Longrightarrow> ladder_inv t q' (Tick q' f s)"
  by (simp add: Tick_def tick_silence_inv tick_escalate_inv tick_blend_in_inv)

lemma ladder_reach_inv: "ladder_reach t q s \<Longrightarrow> ladder_inv t q s"
proof (induction rule: ladder_reach.induct)
  case (reach_init q)
  then show ?case by (simp add: ladder_inv_def SetTimings_def DropoutState_init_def)
next
  case (reach_ik q s v)
  then show ?case by (simp add: ladder_inv_def SetIkAvailable_def)
qed (auto intro: ladder_inv_pose ladder_inv_Tick)

section \<open>No frozen tracker\<close>

lemma QpcMs_mono: "dt \<le> dt' \<Longrightarrow> QpcMs dt f \<le> QpcMs dt' f"
  by (auto simp: QpcMs_def zdiv_mono1 pos_imp_zdiv_nonneg_iff)

lemma QpcMs_nonneg [simp]: "0 \<le> QpcMs dt f"
  by (simp add: QpcMs_def pos_imp_zdiv_nonneg_iff)

lemma tick_last_real [simp]:
  "last_real_qpc_ns (tick_silence q f s) = last_real_qpc_ns s"
  "last_real_qpc_ns (tick_blend_in q f s) = last_real_qpc_ns s"
  "last_real_qpc_ns (Tick q f s) = last_real_qpc_ns s"
  by (simp_all add: Tick_def tick_silence_def tick_blend_in_def tick_escalate_fields Let_def)

lemma tick_blend_in_idle: "state s \<noteq> BLEND_IN \<Longrightarrow> tick_blend_in q f s = s"
  by (simp add: tick_blend_in_def)

lemma escalated_late: "a \<ge> uint (synth_hold_ms t) \<Longrightarrow> escalated t ik a st \<in> {OUT_OF_RANGE, LOST}"
  by (simp add: escalated_def)

definition silent_for :: "dropout_state \<Rightarrow> int \<Rightarrow> int \<Rightarrow> u32 \<Rightarrow> bool" where
  "silent_for s q f ms \<longleftrightarrow> QpcMs (q - last_real_qpc_ns s) f \<ge> uint ms"

lemma Tick_late:
  assumes "ladder_inv t q0 s" and "q0 \<le> q" and "0 \<le> last_real_qpc_ns s" and "state s \<noteq> BLEND_IN"
    and "silent_for s q f (dropout_silence_ms t)" and "silent_for s q f (synth_hold_ms t)"
  shows "state (Tick q f s) \<in> {OUT_OF_RANGE, LOST}"
proof -
  have t: "timings s = t" using assms(1) by (simp add: ladder_inv_def)
  let ?s = "tick_silence q f s"
  have k: "timings ?s = t" "state ?s \<notin> {REAL, BLEND_IN, SYNTH_ML}" "0 \<le> dropout_start_qpc_ns ?s"
      "dropout_start_qpc_ns ?s \<le> last_real_qpc_ns s"
    using assms t by (auto simp: tick_silence_def ladder_inv_def silent_for_def Let_def)
  have "QpcMs (q - dropout_start_qpc_ns ?s) f \<ge> QpcMs (q - last_real_qpc_ns s) f"
    using k(4) by (intro QpcMs_mono) simp
  then have "state (tick_escalate q f ?s) \<in> {OUT_OF_RANGE, LOST}"
    using tick_escalate_state [OF k(3,2), of q f] escalated_late assms(6) k(1) by (simp add: silent_for_def)
  then show ?thesis by (auto simp: Tick_def tick_blend_in_idle)
qed

lemma Tick_from_BLEND_IN:
  assumes "ladder_inv t q0 s" and "q0 \<le> q" and "state s = BLEND_IN" and "silent_for s q f (blend_in_ms t)"
  shows "state (Tick q f s) = REAL"
proof -
  have "tick_escalate q f (tick_silence q f s) = s"
    using assms(3) by (simp add: tick_silence_def tick_escalate_idle)
  moreover have "QpcMs (q - blend_in_start_qpc_ns s) f \<ge> QpcMs (q - last_real_qpc_ns s) f"
    using assms(1,3) by (intro QpcMs_mono) (simp add: ladder_inv_def)
  ultimately show ?thesis
    using assms by (auto simp: Tick_def tick_blend_in_def silent_for_def ladder_inv_def Let_def)
qed



section \<open>Recovery\<close>

text \<open>A healthy pose during a dropout starts the blend back, and the first tick after the blend-in
  time returns the tracker to \<open>REAL\<close>, publishing it as healthy, with the dropout's bookkeeping
  cleared.\<close>

theorem healthy_pose_recovers:
  assumes "ladder_reach t q s" and "state s \<noteq> REAL" and "state s \<noteq> BLEND_IN" and "q \<le> q1"
    and "QpcMs (q2 - q1) f \<ge> uint (blend_in_ms t)"
  shows "state (Ladder_OnRealPoseObserved q1 True s) = BLEND_IN
    \<and> state (Tick q2 f (Ladder_OnRealPoseObserved q1 True s)) = REAL
    \<and> dropout_start_qpc_ns (Tick q2 f (Ladder_OnRealPoseObserved q1 True s)) = -1
    \<and> tracking_result_override (Tick q2 f (Ladder_OnRealPoseObserved q1 True s)) = Running_OK"
proof -
  note inv = ladder_reach_inv [OF assms(1)]
  let ?s = "Ladder_OnRealPoseObserved q1 True s"
  have s: "state ?s = BLEND_IN" "blend_in_start_qpc_ns ?s = q1" "timings ?s = t" "0 \<le> q1"
    using assms(2,3,4) inv
    by (cases "state s"; simp add: Ladder_OnRealPoseObserved_def ladder_inv_def Let_def)+
  then have "Tick q2 f ?s = tick_blend_in q2 f ?s"
    by (simp add: Tick_def tick_silence_def tick_escalate_idle)
  then show ?thesis using s assms(5)
    by (simp add: tick_blend_in_def tracking_result_override_def Let_def)
qed

theorem healthy_pose_recovers_witness:
  "state (Tick 700 1000 (Ladder_OnRealPoseObserved 500 True (Tick 300 1000
     (Ladder_OnRealPoseObserved 0 True (SetTimings LadderTimings_Defaults DropoutState_init))))) = REAL"
proof -
  let ?s = "Tick 300 1000 (Ladder_OnRealPoseObserved 0 True (SetTimings LadderTimings_Defaults DropoutState_init))"
  have "ladder_reach LadderTimings_Defaults 300 ?s"
    by (intro reach_tick [OF reach_pose [OF reach_init [of 0]]]) simp_all
  moreover have "state ?s = SYNTH_RECKON"
    by (simp add: Tick_def tick_silence_def tick_escalate_def tick_blend_in_def
        Ladder_OnRealPoseObserved_def SetTimings_def DropoutState_init_def LadderTimings_Defaults_def QpcMs_def Let_def)
  ultimately show ?thesis
    using healthy_pose_recovers [of LadderTimings_Defaults 300 ?s 500 700 1000]
    by (simp add: QpcMs_def LadderTimings_Defaults_def)
qed

section \<open>The ladder behind the pose hook\<close>

text \<open>Driven by the pose hook, the ladder never leaves \<open>REAL\<close>: the hook records every pose, healthy or
  not, as the last real one and ticks with the same counter value, so the silence it measures is
  always zero. As long as the silence threshold is positive no dropout is ever detected or
  counted.\<close>

theorem hook_never_drops:
  assumes "\<forall>(t, ik, q, f, h) \<in> set poses. 0 < dropout_silence_ms t"
  shows "state (fold (\<lambda>(t, ik, q, f, h). hook_pose t ik q f h) poses DropoutState_init) = REAL
    \<and> dropout_count (fold (\<lambda>(t, ik, q, f, h). hook_pose t ik q f h) poses DropoutState_init) = 0"
proof -
  have step: "state (hook_pose t ik q f h s) = REAL \<and> dropout_count (hook_pose t ik q f h s) = dropout_count s"
    if "state s = REAL" "0 < dropout_silence_ms t" for t ik q f h s
  proof -
    let ?s = "Ladder_OnRealPoseObserved q h (SetIkAvailable ik (SetTimings t s))"
    have s: "state ?s = REAL" "last_real_qpc_ns ?s = q" "timings ?s = t" "dropout_count ?s = dropout_count s"
      using that(1) by (simp_all add: Ladder_OnRealPoseObserved_def SetTimings_def SetIkAvailable_def Let_def)
    have "0 < uint (dropout_silence_ms t)" using that(2) unfolding word_less_def by simp
    then have "tick_silence q f ?s = ?s" using s by (simp add: tick_silence_def QpcMs_def)
    then have "Tick q f ?s = ?s" using s(1) by (simp add: Tick_def tick_escalate_idle tick_blend_in_idle)
    then show ?thesis using s by (simp add: hook_pose_def)
  qed
  have "state s = REAL \<Longrightarrow> state (fold (\<lambda>(t, ik, q, f, h). hook_pose t ik q f h) poses s) = REAL
      \<and> dropout_count (fold (\<lambda>(t, ik, q, f, h). hook_pose t ik q f h) poses s) = dropout_count s" for s
    using assms by (induction poses arbitrary: s) (auto simp: step)
  then show ?thesis by (simp add: DropoutState_init_def)
qed

theorem hook_never_drops_witness:
  "state (fold (\<lambda>(t, ik, q, f, h). hook_pose t ik q f h)
     [(LadderTimings_Defaults, False, 0, 1000, True), (LadderTimings_Defaults, False, 9000, 1000, False)]
     DropoutState_init) = REAL"
  using hook_never_drops [of "[(LadderTimings_Defaults, False, 0, 1000, True),
      (LadderTimings_Defaults, False, 9000, 1000, False)]"]
  by (simp add: LadderTimings_Defaults_def)

section \<open>Escalation\<close>

definition ladder_rank :: "tracker_state \<Rightarrow> nat" where
  "ladder_rank st = (case st of REAL \<Rightarrow> 0 | BLEND_IN \<Rightarrow> 0 | BLEND_OUT \<Rightarrow> 1 | SYNTH_RECKON \<Rightarrow> 2 | SYNTH_IK \<Rightarrow> 3
     | SYNTH_ML \<Rightarrow> 4 | OUT_OF_RANGE \<Rightarrow> 5 | LOST \<Rightarrow> 6)"

text \<open>Within a dropout a tick never moves back down the ladder, and the state it leaves depends only on
  the age of the dropout, the timings and the state before: \<open>LOST\<close> past the lost time, else
  \<open>OUT_OF_RANGE\<close> past the synthesis time, else IK past the reckoning time when it is available, else
  dead reckoning past the blend-out time.\<close>

theorem Tick_escalates:
  assumes "ladder_reach t q s" and "state s \<notin> {REAL, BLEND_IN}"
  shows "state (Tick q' f s) = escalated t (ik_available s) (QpcMs (q' - dropout_start_qpc_ns s) f) (state s)
    \<and> ladder_rank (state s) \<le> ladder_rank (state (Tick q' f s))"
proof -
  have inv: "timings s = t" "0 \<le> dropout_start_qpc_ns s" "state s \<notin> {REAL, BLEND_IN, SYNTH_ML}"
    using ladder_reach_inv [OF assms(1)] assms(2) by (auto simp: ladder_inv_def)
  have sil: "tick_silence q' f s = s" using assms(2) by (simp add: tick_silence_def)
  have st: "state (tick_escalate q' f s) =
      escalated t (ik_available s) (QpcMs (q' - dropout_start_qpc_ns s) f) (state s)"
    using tick_escalate_state [OF inv(2,3)] inv(1) by simp
  then have "state (tick_escalate q' f s) \<noteq> BLEND_IN" by (simp add: escalated_def)
  then have "Tick q' f s = tick_escalate q' f s" by (simp add: Tick_def sil tick_blend_in_idle)
  moreover have "ladder_rank (state s) \<le> ladder_rank (escalated t ik a (state s))" for ik a
    using inv(3) by (cases "state s") (auto simp: escalated_def ladder_rank_def)
  ultimately show ?thesis using st by simp
qed

theorem Tick_escalates_witness:
  "state (Tick 2500 1000 (Tick 300 1000
     (Ladder_OnRealPoseObserved 0 True (SetTimings LadderTimings_Defaults DropoutState_init)))) = OUT_OF_RANGE"
proof -
  let ?s = "Tick 300 1000 (Ladder_OnRealPoseObserved 0 True (SetTimings LadderTimings_Defaults DropoutState_init))"
  have "ladder_reach LadderTimings_Defaults 300 ?s"
    by (intro reach_tick [OF reach_pose [OF reach_init [of 0]]]) simp_all
  moreover have "state ?s = SYNTH_RECKON" "dropout_start_qpc_ns ?s = 0" "\<not> ik_available ?s"
    by (simp_all add: Tick_def tick_silence_def tick_escalate_def tick_blend_in_def
        Ladder_OnRealPoseObserved_def SetTimings_def DropoutState_init_def LadderTimings_Defaults_def QpcMs_def Let_def)
  ultimately show ?thesis
    using Tick_escalates [of LadderTimings_Defaults 300 ?s 2500 1000]
    by (simp add: QpcMs_def LadderTimings_Defaults_def escalated_def)
qed

section \<open>Blend weights\<close>

lemma clamp01_range: "0 \<le> clamp01 x \<and> clamp01 x \<le> 1"
  by (simp add: clamp01_def)

text \<open>The blend fraction is always between 0 and 1, and the smoothed weight maps it monotonically onto
  the same interval with the end points fixed.\<close>

theorem blend_weights:
  "0 \<le> blend_alpha q f s \<and> blend_alpha q f s \<le> 1
   \<and> 0 \<le> SmoothBlendWeight x \<and> SmoothBlendWeight x \<le> 1
   \<and> SmoothBlendWeight 0 = 0 \<and> SmoothBlendWeight 1 = 1
   \<and> (x \<le> y \<longrightarrow> SmoothBlendWeight x \<le> SmoothBlendWeight y)"
proof -
  have mono: "a * a * (3 - 2 * a) \<le> b * b * (3 - 2 * b)" if "0 \<le> a" "a \<le> b" "b \<le> 1" for a b :: real
  proof -
    have "b * b * (3 - 2 * b) - a * a * (3 - 2 * a)
        = (b - a) * (3 * (a + b) - 2 * (a * a + a * b + b * b))" by algebra
    moreover have "0 \<le> 3 * (a + b) - 2 * (a * a + a * b + b * b)"
    proof -
      have "a * a \<le> a" "b * b \<le> b" "a * b \<le> (a + b) / 2"
        using that mult_left_le [of a a] mult_left_le [of b b] mult_left_le [of b a] mult_left_le_one_le [of b a]
        by (auto simp: mult.commute)
      then show ?thesis by (simp add: field_simps)
    qed
    ultimately show ?thesis using that(2) by (metis diff_ge_0_iff_ge mult_nonneg_nonneg)
  qed
  have cm: "x \<le> y \<Longrightarrow> clamp01 x \<le> clamp01 y" by (simp add: clamp01_def)
  have "0 \<le> SmoothBlendWeight x" "SmoothBlendWeight x \<le> 1"
    using mono [of 0 "clamp01 x"] mono [of "clamp01 x" 1] clamp01_range [of x]
    by (simp_all add: SmoothBlendWeight_def Let_def)
  moreover have "x \<le> y \<longrightarrow> SmoothBlendWeight x \<le> SmoothBlendWeight y"
    using mono cm clamp01_range by (simp add: SmoothBlendWeight_def Let_def)
  moreover have "0 \<le> blend_alpha q f s \<and> blend_alpha q f s \<le> 1"
    by (simp add: blend_alpha_def clamp01_range)
  ultimately show ?thesis by (simp add: SmoothBlendWeight_def clamp01_def)
qed

theorem blend_weights_witness: "SmoothBlendWeight (1 / 4) \<le> SmoothBlendWeight (1 / 2)"
  using blend_weights [of 0 0 DropoutState_init "1 / 4" "1 / 2"] by simp

end
