(* ===== verification/PhantomData.thy ===== *)
theory PhantomData
  imports Prelude
begin

text \<open>
  Data structures of the phantom-tracker module: the pose-history ring
  (\<open>modules/phantom/src/driver/PoseHistory.cpp\<close>), the body-role catalogue
  (\<open>modules/phantom/src/common/RoleCatalog.h\<close>) and the serial hash of
  \<open>PhantomDriverModule.cpp\<close>. The pose type of the OpenVR SDK is a type parameter.
\<close>

section \<open>PoseHistory\<close>

definition kCapacity :: nat where "kCapacity = 256"

record 'p pose_sample =
  ps_qpc_ns :: int
  ps_pose :: 'p
  was_real :: bool

record 'p pose_history =
  samples :: "nat \<Rightarrow> 'p pose_sample"
  head :: nat
  ph_count :: nat

definition PoseHistory_init :: "'p \<Rightarrow> 'p pose_history" where
  "PoseHistory_init zero = \<lparr>samples = (\<lambda>_. \<lparr>ps_qpc_ns = 0, ps_pose = zero, was_real = False\<rparr>), head = 0, ph_count = 0\<rparr>"

definition Push :: "int \<Rightarrow> 'p \<Rightarrow> 'p pose_history \<Rightarrow> 'p pose_history" where
  "Push qpc_ns p h =
     h\<lparr>samples := (samples h)(head h := \<lparr>ps_qpc_ns = qpc_ns, ps_pose = p, was_real = True\<rparr>),
       head := (head h + 1) mod kCapacity,
       ph_count := (if ph_count h < kCapacity then ph_count h + 1 else ph_count h)\<rparr>"

definition ClearRealFlags :: "'p pose_history \<Rightarrow> 'p pose_history" where
  "ClearRealFlags h = h\<lparr>samples := (\<lambda>i. (samples h i)\<lparr>was_real := False\<rparr>)\<rparr>"

definition GetNewest :: "nat \<Rightarrow> 'p pose_history \<Rightarrow> 'p pose_sample option" where
  "GetNewest index h =
     (if index \<ge> ph_count h then None
      else Some (samples h ((head h + kCapacity - 1 - index) mod kCapacity)))"

text \<open>The history after the samples \<open>xs\<close> were pushed, the newest first.\<close>

definition history_of :: "'p pose_history \<Rightarrow> 'p pose_sample list \<Rightarrow> bool" where
  "history_of h xs \<longleftrightarrow> head h = length xs mod kCapacity \<and> ph_count h = min kCapacity (length xs) \<and>
     (\<forall>i < min kCapacity (length xs). samples h ((length xs - 1 - i) mod kCapacity) = xs ! i)"

lemma mod_capacity_neq:
  assumes "i < n" and "n - i < kCapacity"
  shows "i mod kCapacity \<noteq> n mod kCapacity"
proof
  assume "i mod kCapacity = n mod kCapacity"
  then have "kCapacity dvd n - i" using mod_eq_dvd_iff_nat [of i n kCapacity] assms(1) by simp
  then show False using nat_dvd_not_less [of "n - i" kCapacity] assms by simp
qed

lemma history_of_init: "history_of (PoseHistory_init z) []"
  by (simp add: history_of_def PoseHistory_init_def)

lemma history_of_Push:
  assumes "history_of h xs"
  shows "history_of (Push q p h) (\<lparr>ps_qpc_ns = q, ps_pose = p, was_real = True\<rparr> # xs)"
proof -
  let ?x = "\<lparr>ps_qpc_ns = q, ps_pose = p, was_real = True\<rparr>" and ?n = "length xs"
  have h: "head h = ?n mod kCapacity" "ph_count h = min kCapacity ?n"
      "\<And>i. i < min kCapacity ?n \<Longrightarrow> samples h ((?n - 1 - i) mod kCapacity) = xs ! i"
    using assms by (auto simp: history_of_def)
  have "samples (Push q p h) ((?n - i) mod kCapacity) = (?x # xs) ! i" if "i < min kCapacity (Suc ?n)" for i
  proof (cases i)
    case 0
    then show ?thesis by (simp add: Push_def h(1))
  next
    case (Suc j)
    then have j: "j < min kCapacity ?n" "?n - Suc j < ?n" "?n - (?n - Suc j) < kCapacity" using that by auto
    then have "(?n - Suc j) mod kCapacity \<noteq> ?n mod kCapacity" by (intro mod_capacity_neq) auto
    then show ?thesis using h(3) [OF j(1)] Suc by (simp add: Push_def h(1))
  qed
  then show ?thesis using h(1,2) by (auto simp: history_of_def Push_def mod_Suc_eq)
qed

lemma newest_slot:
  assumes "i < min kCapacity n"
  shows "(n mod kCapacity + kCapacity - 1 - i) mod kCapacity = (n - 1 - i) mod kCapacity"
proof -
  have i: "i < n" "i < kCapacity" using assms by auto
  have "n = n mod kCapacity + kCapacity * (n div kCapacity)" by simp
  then have "n + kCapacity - 1 - i = (n mod kCapacity + kCapacity - 1 - i) + kCapacity * (n div kCapacity)"
    using i by linarith
  then have "(n mod kCapacity + kCapacity - 1 - i) mod kCapacity = (n + kCapacity - 1 - i) mod kCapacity"
    by (metis mod_mult_self2)
  also have "n + kCapacity - 1 - i = (n - 1 - i) + kCapacity" using i by simp
  finally show ?thesis by simp
qed

text \<open>After any sequence of pushes the ring answers from the newest sample backwards, for the last 256
  samples at most, and reports everything older or absent as missing.\<close>

theorem PoseHistory_newest:
  "GetNewest i (fold (\<lambda>(q, p). Push q p) ps (PoseHistory_init z)) =
     (if i < min kCapacity (length ps)
      then Some \<lparr>ps_qpc_ns = fst (rev ps ! i), ps_pose = snd (rev ps ! i), was_real = True\<rparr> else None)"
proof -
  let ?mk = "\<lambda>(q, p). \<lparr>ps_qpc_ns = q, ps_pose = p, was_real = True\<rparr>"
  have "history_of h xs \<Longrightarrow> history_of (fold (\<lambda>(q, p). Push q p) ps h) (rev (map ?mk ps) @ xs)" for h xs
    by (induction ps arbitrary: h xs) (auto dest: history_of_Push)
  then have h: "history_of (fold (\<lambda>(q, p). Push q p) ps (PoseHistory_init z)) (rev (map ?mk ps))"
    using history_of_init by force
  show ?thesis
  proof (cases "i < min kCapacity (length ps)")
    case True
    then have "rev (map ?mk ps) ! i = ?mk (rev ps ! i)" by (simp add: rev_map)
    then show ?thesis
      using h True newest_slot [OF True] by (auto simp: history_of_def GetNewest_def split: prod.splits)
  next
    case False
    then show ?thesis using h by (auto simp: history_of_def GetNewest_def)
  qed
qed

section \<open>Body roles\<close>

definition kBodyRoleCount :: nat where "kBodyRoleCount = 14"

text \<open>Roles are byte values; only 0 to 13 are named.\<close>

definition body_role_keys :: "string list" where
  "body_role_keys = [''none'', ''hmd'', ''left_hand'', ''right_hand'', ''waist'', ''chest'', ''left_foot'',
     ''right_foot'', ''left_knee'', ''right_knee'', ''left_elbow'', ''right_elbow'', ''left_shoulder'',
     ''right_shoulder'']"

definition BodyRoleToKey :: "nat \<Rightarrow> string" where
  "BodyRoleToKey r = (if r < kBodyRoleCount then body_role_keys ! r else ''none'')"

definition BodyRoleToControllerType :: "nat \<Rightarrow> string option" where
  "BodyRoleToControllerType r =
     (if 4 \<le> r \<and> r < kBodyRoleCount then Some (''vive_tracker_'' @ body_role_keys ! r) else None)"

text \<open>\<open>BodyRoleFromKey\<close>: the first role whose key equals the text; a null pointer is \<open>None\<close>.\<close>

definition BodyRoleFromKey :: "string option \<Rightarrow> nat" where
  "BodyRoleFromKey s =
     (case s of
        None \<Rightarrow> 0
      | Some k \<Rightarrow>
          if k = [] then 0
          else case filter (\<lambda>r. BodyRoleToKey r = k) [0..<kBodyRoleCount] of
                 [] \<Rightarrow> 0
               | r # _ \<Rightarrow> r)"

text \<open>Role keys round-trip: every named role is read back from its key, distinct roles have distinct
  keys, and any other text is read as no role.\<close>

theorem BodyRole_key_roundtrip:
  "(r < kBodyRoleCount \<longrightarrow> BodyRoleFromKey (Some (BodyRoleToKey r)) = r)
   \<and> (k \<notin> set body_role_keys \<longrightarrow> BodyRoleFromKey (Some k) = 0)"
proof -
  have all: "list_all (\<lambda>r. BodyRoleFromKey (Some (BodyRoleToKey r)) = r) [0..<kBodyRoleCount]"
    by (simp add: BodyRoleFromKey_def BodyRoleToKey_def body_role_keys_def kBodyRoleCount_def upt_rec)
  have len: "length body_role_keys = kBodyRoleCount"
    by (simp add: body_role_keys_def kBodyRoleCount_def)
  have "filter (\<lambda>r. BodyRoleToKey r = k) [0..<kBodyRoleCount] = []" if "k \<notin> set body_role_keys"
    using that len by (auto simp: filter_empty_conv BodyRoleToKey_def)
  then show ?thesis using all by (auto simp: list_all_iff BodyRoleFromKey_def)
qed

theorem BodyRole_key_roundtrip_witness: "BodyRoleFromKey (Some (BodyRoleToKey 7)) = 7"
  using BodyRole_key_roundtrip [of 7] by (simp add: kBodyRoleCount_def)

section \<open>Serial hash\<close>

definition Fnv1a64 :: "cstring option \<Rightarrow> u64" where
  "Fnv1a64 s = (case s of None \<Rightarrow> 0xcbf29ce484222325
     | Some t \<Rightarrow> fold (\<lambda>c h. (h XOR ucast c) * 0x100000001b3) t 0xcbf29ce484222325)"

end
