(* ===== verification/Kinematics.thy ===== *)
theory Kinematics
  imports Dropout PhantomData
begin

text \<open>
  The pose arithmetic of the phantom-tracker module: quaternions, the rigid-offset fallback
  (\<open>modules/phantom/src/driver/IkFallback.cpp\<close>), the dead reckoner (\<open>DeadReckoner.cpp\<close>) and the blend
  of two poses (\<open>BlendController.cpp\<close>). Doubles are exact reals; whether all components of a pose that
  the code tests with \<open>isfinite\<close> are finite is a field of the pose.
\<close>

section \<open>Vectors, quaternions and poses\<close>

record vec3 =
  vx :: real
  vy :: real
  vz :: real

record quat =
  qw :: real
  qx :: real
  qy :: real
  qz :: real

definition vmap :: "(real \<Rightarrow> real) \<Rightarrow> vec3 \<Rightarrow> vec3" where
  "vmap f v = \<lparr>vx = f (vx v), vy = f (vy v), vz = f (vz v)\<rparr>"

definition vmap2 :: "(real \<Rightarrow> real \<Rightarrow> real) \<Rightarrow> vec3 \<Rightarrow> vec3 \<Rightarrow> vec3" where
  "vmap2 f a b = \<lparr>vx = f (vx a) (vx b), vy = f (vy a) (vy b), vz = f (vz a) (vz b)\<rparr>"

definition vadd :: "vec3 \<Rightarrow> vec3 \<Rightarrow> vec3" where
  "vadd = vmap2 (+)"

definition vzero :: vec3 where "vzero = \<lparr>vx = 0, vy = 0, vz = 0\<rparr>"
definition qone :: quat where "qone = \<lparr>qw = 1, qx = 0, qy = 0, qz = 0\<rparr>"

definition vnorm2 :: "vec3 \<Rightarrow> real" where
  "vnorm2 v = vx v * vx v + vy v * vy v + vz v * vz v"

definition qnorm2 :: "quat \<Rightarrow> real" where
  "qnorm2 q = qw q * qw q + qx q * qx q + qy q * qy q + qz q * qz q"

record driver_pose =
  poseTimeOffset :: real
  vecPosition :: vec3
  vecVelocity :: vec3
  vecAcceleration :: vec3
  qRotation :: quat
  vecAngularVelocity :: vec3
  vecAngularAcceleration :: vec3
  dp_result :: int
  poseIsValid :: bool
  deviceIsConnected :: bool
  dp_finite :: bool
  dp_world :: "quat \<times> vec3 \<times> quat \<times> vec3"
  dp_flags :: "bool \<times> bool"

definition TrackingResult_Running_OK :: int where "TrackingResult_Running_OK = 200"
definition TrackingResult_Running_OutOfRange :: int where "TrackingResult_Running_OutOfRange = 201"

definition zero_pose :: driver_pose where
  "zero_pose = \<lparr>poseTimeOffset = 0, vecPosition = vzero, vecVelocity = vzero, vecAcceleration = vzero,
     qRotation = \<lparr>qw = 0, qx = 0, qy = 0, qz = 0\<rparr>, vecAngularVelocity = vzero, vecAngularAcceleration = vzero,
     dp_result = 0, poseIsValid = False, deviceIsConnected = False, dp_finite = True,
     dp_world = (\<lparr>qw = 0, qx = 0, qy = 0, qz = 0\<rparr>, vzero, \<lparr>qw = 0, qx = 0, qy = 0, qz = 0\<rparr>, vzero),
     dp_flags = (False, False)\<rparr>"

definition QMul :: "quat \<Rightarrow> quat \<Rightarrow> quat" where
  "QMul a b =
     \<lparr>qw = qw a * qw b - qx a * qx b - qy a * qy b - qz a * qz b,
      qx = qw a * qx b + qx a * qw b + qy a * qz b - qz a * qy b,
      qy = qw a * qy b - qx a * qz b + qy a * qw b + qz a * qx b,
      qz = qw a * qz b + qx a * qy b - qy a * qx b + qz a * qw b\<rparr>"

definition QNormalize :: "quat \<Rightarrow> quat" where
  "QNormalize q =
     (let n = sqrt (qnorm2 q)
      in if n > 1 / 10 ^ 12
         then \<lparr>qw = qw q / n, qx = qx q / n, qy = qy q / n, qz = qz q / n\<rparr>
         else qone)"

definition QRotate :: "quat \<Rightarrow> vec3 \<Rightarrow> vec3" where
  "QRotate q v =
     (let ux = qx q; uy = qy q; uz = qz q; s = qw q;
          tx = 2 * (uy * vz v - uz * vy v);
          ty = 2 * (uz * vx v - ux * vz v);
          tz = 2 * (ux * vy v - uy * vx v)
      in \<lparr>vx = vx v + s * tx + (uy * tz - uz * ty),
          vy = vy v + s * ty + (uz * tx - ux * tz),
          vz = vz v + s * tz + (ux * ty - uy * tx)\<rparr>)"

definition QFromAxisAngle :: "vec3 \<Rightarrow> quat" where
  "QFromAxisAngle a =
     (let angle = sqrt (vnorm2 a)
      in if angle < 1 / 10 ^ 9 then qone
         else let half = angle * (1 / 2); s = sin half / angle
              in \<lparr>qw = cos half, qx = vx a * s, qy = vy a * s, qz = vz a * s\<rparr>)"

section \<open>IkFallback\<close>

record tracker_offset =
  ofs_role :: nat
  rel_position :: vec3
  rel_rotation :: quat
  calibrated :: bool

definition TrackerOffset_init :: tracker_offset where
  "TrackerOffset_init = \<lparr>ofs_role = 0, rel_position = vzero, rel_rotation = qone, calibrated = False\<rparr>"

type_synonym ik_fallback = "tracker_offset list"

definition IkFallback_init :: ik_fallback where
  "IkFallback_init = replicate kBodyRoleCount TrackerOffset_init"

definition SetOffset :: "nat \<Rightarrow> vec3 \<Rightarrow> quat \<Rightarrow> ik_fallback \<Rightarrow> ik_fallback" where
  "SetOffset role rel_pos rel_rot ik =
     (if role \<ge> length ik then ik
      else ik[role := \<lparr>ofs_role = role, rel_position = rel_pos, rel_rotation = QNormalize rel_rot,
                       calibrated = True\<rparr>])"

definition ClearOffset :: "nat \<Rightarrow> ik_fallback \<Rightarrow> ik_fallback" where
  "ClearOffset role ik = (if role \<ge> length ik then ik else ik[role := TrackerOffset_init])"

definition ClearAll :: "ik_fallback \<Rightarrow> ik_fallback" where
  "ClearAll ik = map (\<lambda>_. TrackerOffset_init) ik"

definition HasOffset :: "nat \<Rightarrow> ik_fallback \<Rightarrow> bool" where
  "HasOffset role ik = (if role \<ge> length ik then False else calibrated (ik ! role))"

definition AnyCalibrated :: "ik_fallback \<Rightarrow> bool" where
  "AnyCalibrated ik = list_ex calibrated ik"

definition Solve :: "nat \<Rightarrow> driver_pose \<Rightarrow> ik_fallback \<Rightarrow> driver_pose option" where
  "Solve role hmd_pose ik =
     (if role \<ge> length ik then None
      else let ofs = ik ! role
           in if \<not> calibrated ofs then None
              else let rotated = QRotate (qRotation hmd_pose) (rel_position ofs)
                   in Some (hmd_pose\<lparr>vecPosition := vadd (vecPosition hmd_pose) rotated,
                        qRotation := QNormalize (QMul (qRotation hmd_pose) (rel_rotation ofs)),
                        poseTimeOffset := 0, poseIsValid := True, deviceIsConnected := True,
                        dp_result := TrackingResult_Running_OK\<rparr>))"

section \<open>DeadReckoner\<close>

definition kFullDampMs :: int where "kFullDampMs = 250"

text \<open>C++ integer division truncates toward zero.\<close>

definition trunc_div :: "int \<Rightarrow> int \<Rightarrow> int" where
  "trunc_div a b = (if a \<ge> 0 then a div b else - ((- a) div b))"

definition reckon_damp :: "int \<Rightarrow> int \<Rightarrow> real" where
  "reckon_damp dt qpc_freq =
     clamp01 (1 - of_int (max 0 (trunc_div (dt * 1000) qpc_freq)) / of_int kFullDampMs)"

definition Project :: "driver_pose pose_history \<Rightarrow> int \<Rightarrow> int \<Rightarrow> driver_pose option" where
  "Project history qpc_freq target_qpc_ns =
     (case GetNewest 0 history of
        None \<Rightarrow> None
      | Some newest \<Rightarrow>
          if \<not> was_real newest \<or> qpc_freq \<le> 0 then None
          else let p = ps_pose newest
               in if \<not> dp_finite p then None
                  else let dt_ns = target_qpc_ns - ps_qpc_ns newest;
                           dt_s = (if dt_ns > 0 then of_int dt_ns / of_int qpc_freq else 0);
                           damp = reckon_damp dt_ns qpc_freq;
                           v = vmap (\<lambda>c. c * damp) (vecVelocity p);
                           a = vmap (\<lambda>c. c * damp) (vecAcceleration p);
                           dq = QFromAxisAngle (vmap (\<lambda>c. c * dt_s * damp) (vecAngularVelocity p))
                       in Some (p\<lparr>vecPosition := vadd (vadd (vecPosition p) (vmap (\<lambda>c. c * dt_s) v))
                                                     (vmap (\<lambda>c. 1 / 2 * c * dt_s * dt_s) a),
                            vecVelocity := vmap (\<lambda>c. c * damp) v,
                            vecAcceleration := vmap (\<lambda>c. c * damp) a,
                            qRotation := QNormalize (QMul dq (qRotation p)),
                            vecAngularVelocity := vmap (\<lambda>c. c * (damp * damp)) (vecAngularVelocity p),
                            vecAngularAcceleration := vmap (\<lambda>c. c * (damp * damp)) (vecAngularAcceleration p),
                            poseTimeOffset := 0, poseIsValid := True, deviceIsConnected := True,
                            dp_result := TrackingResult_Running_OK\<rparr>))"

section \<open>BlendController\<close>

definition QuatDot :: "quat \<Rightarrow> quat \<Rightarrow> real" where
  "QuatDot a b = qw a * qw b + qx a * qx b + qy a * qy b + qz a * qz b"

definition qmap2 :: "(real \<Rightarrow> real \<Rightarrow> real) \<Rightarrow> quat \<Rightarrow> quat \<Rightarrow> quat" where
  "qmap2 f a b = \<lparr>qw = f (qw a) (qw b), qx = f (qx a) (qx b), qy = f (qy a) (qy b), qz = f (qz a) (qz b)\<rparr>"

definition qneg :: "quat \<Rightarrow> quat" where
  "qneg q = \<lparr>qw = - qw q, qx = - qx q, qy = - qy q, qz = - qz q\<rparr>"

definition Slerp :: "quat \<Rightarrow> quat \<Rightarrow> real \<Rightarrow> quat" where
  "Slerp a b alpha =
     (let dot = QuatDot a b;
          bAdj = (if dot < 0 then qneg b else b);
          dot = (if dot < 0 then - dot else dot);
          out = (if dot > 9995 / 10000
                 then qmap2 (\<lambda>x y. x + alpha * (y - x)) a bAdj
                 else let theta = arccos (if dot < -1 then -1 else if 1 < dot then 1 else dot);
                          sinT = sin theta;
                          wa = sin ((1 - alpha) * theta) / sinT;
                          wb = sin (alpha * theta) / sinT
                      in qmap2 (\<lambda>x y. wa * x + wb * y) a bAdj)
      in QNormalize out)"

definition blend_component :: "real \<Rightarrow> real \<Rightarrow> real \<Rightarrow> real" where
  "blend_component s x y = x * (1 - s) + y * s"

definition Lerp :: "driver_pose \<Rightarrow> driver_pose \<Rightarrow> real \<Rightarrow> driver_pose" where
  "Lerp a b alpha =
     (let s = SmoothBlendWeight (clamp01 alpha);
          mix = vmap2 (blend_component s)
      in a\<lparr>vecPosition := mix (vecPosition a) (vecPosition b),
           vecVelocity := mix (vecVelocity a) (vecVelocity b),
           vecAcceleration := mix (vecAcceleration a) (vecAcceleration b),
           vecAngularVelocity := mix (vecAngularVelocity a) (vecAngularVelocity b),
           vecAngularAcceleration := mix (vecAngularAcceleration a) (vecAngularAcceleration b),
           qRotation := Slerp (qRotation a) (qRotation b) s,
           poseTimeOffset := blend_component s (poseTimeOffset a) (poseTimeOffset b)\<rparr>)"

section \<open>Rotations\<close>

lemmas quat_simps = QMul_def QRotate_def qnorm2_def vnorm2_def Let_def qmap2_def vmap2_def vmap_def vadd_def qneg_def

lemma qnorm2_QMul: "qnorm2 (QMul a b) = qnorm2 a * qnorm2 b"
  by (simp add: quat_simps) algebra

lemma vnorm2_QRotate:
  assumes "qnorm2 q = 1"
  shows "vnorm2 (QRotate q v) = vnorm2 v"
  using assms by (simp add: quat_simps) algebra

lemma qnorm2_nonneg: "0 \<le> qnorm2 q"
  by (simp add: qnorm2_def)

lemma qnorm2_QNormalize: "qnorm2 (QNormalize q) = 1"
proof (cases "sqrt (qnorm2 q) > 1 / 10 ^ 12")
  case True
  have "(0 :: real) < 1 / 10 ^ 12" by simp
  with True have "0 < sqrt (qnorm2 q)" by (rule less_trans [rotated])
  then have pos: "qnorm2 q > 0" by simp
  have "qnorm2 \<lparr>qw = qw q / n, qx = qx q / n, qy = qy q / n, qz = qz q / n\<rparr> = qnorm2 q / (n * n)" for n
    by (simp add: qnorm2_def add_divide_distrib)
  then have "qnorm2 (QNormalize q) = qnorm2 q / (sqrt (qnorm2 q) * sqrt (qnorm2 q))"
    using True by (simp only: QNormalize_def Let_def if_True)
  also have "... = 1" using pos by simp
  finally show ?thesis .
next
  case False
  then show ?thesis by (simp add: QNormalize_def Let_def qone_def qnorm2_def)
qed

lemma QNormalize_unit:
  assumes "qnorm2 q = 1"
  shows "QNormalize q = q"
  using assms by (simp add: QNormalize_def)

text \<open>The fallback attaches a tracker rigidly to the head: for a unit head rotation the solved position
  is as far from the head as the calibrated offset is long, the rotation is a unit quaternion, and the
  pose is valid, connected and reported as tracking; without a calibration for the role, or for a role
  out of range, there is no pose.\<close>

theorem Solve_rigid:
  assumes "qnorm2 (qRotation hmd) = 1"
  shows "case Solve role hmd ik of
     Some p \<Rightarrow> HasOffset role ik \<and>
       vnorm2 (vmap2 (-) (vecPosition p) (vecPosition hmd)) = vnorm2 (rel_position (ik ! role)) \<and>
       qnorm2 (qRotation p) = 1 \<and> poseIsValid p \<and> deviceIsConnected p \<and> dp_result p = TrackingResult_Running_OK
   | None \<Rightarrow> \<not> HasOffset role ik"
proof (cases "HasOffset role ik")
  case True
  have "vmap2 (-) (vadd x y) x = y" for x y
    by (simp add: vmap2_def vadd_def)
  then show ?thesis
    using True vnorm2_QRotate [OF assms]
    by (auto simp: Solve_def HasOffset_def Let_def qnorm2_QNormalize split: if_splits)
next
  case False
  then show ?thesis by (auto simp: Solve_def HasOffset_def Let_def)
qed

definition turned_head :: driver_pose where
  "turned_head = zero_pose\<lparr>qRotation := \<lparr>qw = 0, qx = 0, qy = 1, qz = 0\<rparr>, vecPosition := \<lparr>vx = 0, vy = 2, vz = 0\<rparr>\<rparr>"

theorem Solve_rigid_witness:
  "case Solve 4 turned_head (SetOffset 4 \<lparr>vx = 3, vy = -1, vz = 0\<rparr> qone IkFallback_init) of
     Some p \<Rightarrow> vnorm2 (vmap2 (-) (vecPosition p) (vecPosition turned_head)) = 10 | None \<Rightarrow> False"
proof -
  let ?ik = "SetOffset 4 \<lparr>vx = 3, vy = -1, vz = 0\<rparr> qone IkFallback_init"
  have "qnorm2 (qRotation turned_head) = 1" by (simp add: turned_head_def qnorm2_def)
  moreover have "HasOffset 4 ?ik" "vnorm2 (rel_position (?ik ! 4)) = 10"
    by (simp_all add: HasOffset_def SetOffset_def IkFallback_init_def kBodyRoleCount_def vnorm2_def)
  ultimately show ?thesis
    using Solve_rigid [of turned_head 4 ?ik] by (auto split: option.splits)
qed

section \<open>Dead reckoning\<close>

lemma reckon_damp_range: "0 \<le> reckon_damp dt f \<and> reckon_damp dt f \<le> 1"
  by (simp add: reckon_damp_def clamp01_def)

lemma reckon_damp_zero:
  assumes "0 < f" "250 * f \<le> dt * 1000"
  shows "reckon_damp dt f = 0"
proof -
  have "250 \<le> dt * 1000 div f" using zdiv_mono1 [OF assms(2,1)] assms(1) by simp
  moreover have "0 \<le> dt" using assms by (smt (verit) mult_nonneg_nonneg zero_less_mult_iff)
  ultimately have t: "250 \<le> trunc_div (dt * 1000) f"
    by (simp add: trunc_div_def)
  then have "max 0 (trunc_div (dt * 1000) f) = trunc_div (dt * 1000) f" by simp
  moreover have "1 - of_int (trunc_div (dt * 1000) f) / 250 \<le> (0 :: real)" using t by simp
  ultimately show ?thesis by (simp add: reckon_damp_def clamp01_def kFullDampMs_def)
qed

text \<open>From 250 milliseconds after the newest sample on, the reckoned pose is that sample's position
  again, with every velocity and acceleration zero and a unit rotation: the damping multiplies the
  displacement itself, so the pose runs ahead, turns back and ends where the dropout began rather than
  where the extrapolation had carried it.\<close>

theorem Project_returns_to_start:
  assumes "GetNewest 0 h = Some x" "was_real x" "dp_finite (ps_pose x)" "0 < f"
    and "250 * f \<le> (t - ps_qpc_ns x) * 1000"
  shows "\<exists>p. Project h f t = Some p \<and> vecPosition p = vecPosition (ps_pose x) \<and> vecVelocity p = vzero \<and>
     vecAcceleration p = vzero \<and> vecAngularVelocity p = vzero \<and> vecAngularAcceleration p = vzero \<and>
     qnorm2 (qRotation p) = 1"
  using assms reckon_damp_zero [OF assms(4,5)]
  by (simp add: Project_def Let_def vmap_def vadd_def vmap2_def vzero_def qnorm2_QNormalize)

definition moving_history :: "driver_pose pose_history" where
  "moving_history = Push 0 (zero_pose\<lparr>vecVelocity := \<lparr>vx = 1, vy = 0, vz = 0\<rparr>\<rparr>) (PoseHistory_init zero_pose)"

lemma moving_newest:
  "GetNewest 0 moving_history = Some \<lparr>ps_qpc_ns = 0, ps_pose = zero_pose\<lparr>vecVelocity := \<lparr>vx = 1, vy = 0, vz = 0\<rparr>\<rparr>, was_real = True\<rparr>"
  by (simp add: moving_history_def GetNewest_def Push_def PoseHistory_init_def kCapacity_def)

theorem Project_returns_to_start_witness:
  "(\<exists>p. Project moving_history 1000 125 = Some p \<and> vx (vecPosition p) = 1 / 16) \<and>
   (\<exists>p. Project moving_history 1000 250 = Some p \<and> vx (vecPosition p) = 0)"
proof
  show "\<exists>p. Project moving_history 1000 125 = Some p \<and> vx (vecPosition p) = 1 / 16"
    by (simp add: Project_def moving_newest Let_def reckon_damp_def trunc_div_def clamp01_def kFullDampMs_def
        zero_pose_def vmap_def vadd_def vmap2_def vzero_def)
  show "\<exists>p. Project moving_history 1000 250 = Some p \<and> vx (vecPosition p) = 0"
    using Project_returns_to_start [OF moving_newest, of 1000 250] by (auto simp: zero_pose_def vzero_def)
qed

section \<open>Blending\<close>

lemma blend_weight_range: "0 \<le> SmoothBlendWeight t \<and> SmoothBlendWeight t \<le> 1"
proof -
  have "0 \<le> c * c * (3 - 2 * c) \<and> c * c * (3 - 2 * c) \<le> 1" if "0 \<le> c" "c \<le> 1" for c :: real
  proof -
    have "1 - c * c * (3 - 2 * c) = (1 - c) * (1 - c) * (1 + 2 * c)" by algebra
    then have "0 \<le> 1 - c * c * (3 - 2 * c)" using that by simp
    then show ?thesis using that by simp
  qed
  then show ?thesis by (simp add: SmoothBlendWeight_def clamp01_def Let_def)
qed

lemma blend_component_between:
  assumes "0 \<le> s" "s \<le> 1"
  shows "min x y \<le> blend_component s x y \<and> blend_component s x y \<le> max x y"
proof -
  have 1: "blend_component s x y - x = s * (y - x)" "y - blend_component s x y = (1 - s) * (y - x)"
    by (simp_all add: blend_component_def algebra_simps)
  show ?thesis
  proof (cases "x \<le> y")
    case True
    then have "0 \<le> s * (y - x)" "0 \<le> (1 - s) * (y - x)" using assms by simp_all
    then show ?thesis using 1 True by linarith
  next
    case False
    then have "0 \<le> s * (x - y)" "0 \<le> (1 - s) * (x - y)" using assms by simp_all
    then have "s * (y - x) \<le> 0" "(1 - s) * (y - x) \<le> 0" by (simp_all add: algebra_simps)
    then show ?thesis using 1 False by linarith
  qed
qed

text \<open>Every coordinate of the blended position lies between the two positions.\<close>

definition vbetween :: "vec3 \<Rightarrow> vec3 \<Rightarrow> vec3 \<Rightarrow> bool" where
  "vbetween a b v \<longleftrightarrow> min (vx a) (vx b) \<le> vx v \<and> vx v \<le> max (vx a) (vx b) \<and>
     min (vy a) (vy b) \<le> vy v \<and> vy v \<le> max (vy a) (vy b) \<and> min (vz a) (vz b) \<le> vz v \<and> vz v \<le> max (vz a) (vz b)"

lemma Slerp_ends:
  assumes "qnorm2 a = 1" "qnorm2 b = 1"
  shows "Slerp a b 0 = a" "Slerp a b 1 \<in> {b, qneg b}"
proof -
  have n: "qnorm2 (qneg b) = 1" using assms(2) by (simp add: qneg_def qnorm2_def)
  have sin: "sin (arccos d) \<noteq> 0" if "0 \<le> d" "d \<le> 9995 / 10000" for d
    using that by (simp add: sin_arccos_nonzero)
  have q0: "qmap2 (\<lambda>x y. x + 0 * (y - x)) a c = a" "qmap2 (\<lambda>x y. 1 * x + 0 * y) a c = a"
    "qmap2 (\<lambda>x y. x + 1 * (y - x)) a c = c" "qmap2 (\<lambda>x y. 0 * x + 1 * y) a c = c"
    "qmap2 (\<lambda>x. If False 0) a c = c" for c
    by (simp_all add: qmap2_def)
  show "Slerp a b 0 = a"
    using q0 sin [of "\<bar>QuatDot a b\<bar>"] QNormalize_unit [OF assms(1)]
    by (auto simp: Slerp_def Let_def)
  show "Slerp a b 1 \<in> {b, qneg b}"
    using q0 sin [of "\<bar>QuatDot a b\<bar>"] QNormalize_unit [OF assms(2)] QNormalize_unit [OF n]
    by (auto simp: Slerp_def Let_def)
qed

text \<open>A blend never leaves the segment between the two positions and always has a unit rotation; at
  its ends it is the first and the second pose's kinematics (the rotation up to sign), but it keeps the
  first pose's validity, connection and tracking result throughout.\<close>

theorem Lerp_blends:
  assumes "qnorm2 (qRotation a) = 1" "qnorm2 (qRotation b) = 1"
  shows "vbetween (vecPosition a) (vecPosition b) (vecPosition (Lerp a b alpha)) \<and>
     qnorm2 (qRotation (Lerp a b alpha)) = 1 \<and>
     Lerp a b 0 = a \<and>
     vecPosition (Lerp a b 1) = vecPosition b \<and> vecVelocity (Lerp a b 1) = vecVelocity b \<and>
     qRotation (Lerp a b 1) \<in> {qRotation b, qneg (qRotation b)} \<and>
     dp_result (Lerp a b alpha) = dp_result a \<and> poseIsValid (Lerp a b alpha) = poseIsValid a"
proof -
  let ?s = "SmoothBlendWeight (clamp01 alpha)"
  have "vbetween (vecPosition a) (vecPosition b) (vecPosition (Lerp a b alpha))"
    using blend_weight_range [of "clamp01 alpha"]
    by (simp add: Lerp_def Let_def vbetween_def vmap2_def blend_component_between)
  moreover have "qnorm2 (qRotation (Lerp a b alpha)) = 1"
    by (simp add: Lerp_def Let_def Slerp_def qnorm2_QNormalize)
  moreover have e: "SmoothBlendWeight (clamp01 0) = 0" "SmoothBlendWeight (clamp01 1) = 1"
    by (simp_all add: SmoothBlendWeight_def clamp01_def)
  have "vmap2 (blend_component 0) u v = u" "vmap2 (blend_component 1) u v = v" for u v
    by (simp_all add: vmap2_def blend_component_def)
  then have "Lerp a b 0 = a" "vecPosition (Lerp a b 1) = vecPosition b" "vecVelocity (Lerp a b 1) = vecVelocity b"
    "qRotation (Lerp a b 1) \<in> {qRotation b, qneg (qRotation b)}"
    using Slerp_ends [OF assms] by (simp_all add: Lerp_def Let_def e blend_component_def)
  ultimately show ?thesis by (simp add: Lerp_def Let_def)
qed

theorem Lerp_blends_witness:
  "Lerp turned_head (turned_head\<lparr>qRotation := qone\<rparr>) 0 = turned_head"
  using Lerp_blends [of turned_head "turned_head\<lparr>qRotation := qone\<rparr>" 0]
  by (simp add: turned_head_def qnorm2_def qone_def)

end
