(* ===== verification/DriverSynth.thy ===== *)
theory DriverSynth
  imports Kinematics
begin

text \<open>
  The headset pose made from a head-mounted tracker: the timing configuration
  (\<open>core/src/common/HeadMountDriverSynthConfig.h\<close>), the gates of the synthesis and the machine that
  fades between the headset's own pose and the synthesised one
  (\<open>core/src/driver/DriverSynthCompose.h\<close>). A time point of the steady clock is its count of
  nanoseconds. The field \<open>dp_world\<close> of a pose holds, in this order, the rotation and the translation
  from the driver to the world and from the head to the driver.
\<close>

section \<open>Timing configuration\<close>

record synth_timing =
  staleLimitMs :: int
  graceHoldMs :: int
  blendToFallbackMs :: int
  stableBeforeSynthMs :: int
  blendToSynthMs :: int

definition default_synth_timing :: synth_timing where
  "default_synth_timing = \<lparr>staleLimitMs = 80, graceHoldMs = 750, blendToFallbackMs = 500,
     stableBeforeSynthMs = 350, blendToSynthMs = 500\<rparr>"

definition ClampDriverSynthStaleLimitMs :: "int \<Rightarrow> int" where
  "ClampDriverSynthStaleLimitMs v = (if v < 10 then 10 else if 250 < v then 250 else v)"

definition ClampDriverSynthTransitionMs :: "int \<Rightarrow> int" where
  "ClampDriverSynthTransitionMs v = (if v < 0 then 0 else if 5000 < v then 5000 else v)"

definition ClampDriverSynthTimingConfig :: "synth_timing \<Rightarrow> synth_timing" where
  "ClampDriverSynthTimingConfig c = \<lparr>staleLimitMs = ClampDriverSynthStaleLimitMs (staleLimitMs c),
     graceHoldMs = ClampDriverSynthTransitionMs (graceHoldMs c),
     blendToFallbackMs = ClampDriverSynthTransitionMs (blendToFallbackMs c),
     stableBeforeSynthMs = ClampDriverSynthTransitionMs (stableBeforeSynthMs c),
     blendToSynthMs = ClampDriverSynthTransitionMs (blendToSynthMs c)\<rparr>"

definition DriverSynthTimingIsDefault :: "synth_timing \<Rightarrow> bool" where
  "DriverSynthTimingIsDefault c \<longleftrightarrow> staleLimitMs c = staleLimitMs default_synth_timing
     \<and> graceHoldMs c = graceHoldMs default_synth_timing
     \<and> blendToFallbackMs c = blendToFallbackMs default_synth_timing
     \<and> stableBeforeSynthMs c = stableBeforeSynthMs default_synth_timing
     \<and> blendToSynthMs c = blendToSynthMs default_synth_timing"

section \<open>Composing the pose\<close>

record synth_state =
  sy_mode :: int
  sy_deviceId :: int
  sy_headFromTrackerTrans :: vec3
  sy_headFromTrackerRot :: quat
  sy_offsetCalibrated :: bool

record tracker_snapshot =
  sn_pose :: driver_pose
  sn_capturedAt :: int
  sn_capturedForDeviceId :: int
  sn_valid :: bool

definition no_snapshot :: tracker_snapshot where
  "no_snapshot = \<lparr>sn_pose = zero_pose, sn_capturedAt = 0, sn_capturedForDeviceId = -1, sn_valid = False\<rparr>"

text \<open>\<open>duration_cast\<close> to milliseconds truncates toward zero.\<close>

definition ms_between :: "int \<Rightarrow> int \<Rightarrow> int" where
  "ms_between start now = trunc_div (now - start) 1000000"

definition IsTrackerFresh :: "tracker_snapshot \<Rightarrow> int \<Rightarrow> int \<Rightarrow> bool" where
  "IsTrackerFresh snap now limit =
     (if \<not> sn_valid snap then False
      else if \<not> poseIsValid (sn_pose snap) then False
      else ms_between (sn_capturedAt snap) now \<le> limit)"

definition SnapshotAgeMs :: "tracker_snapshot \<Rightarrow> int \<Rightarrow> int" where
  "SnapshotAgeMs snap now = (if \<not> sn_valid snap then -1 else ms_between (sn_capturedAt snap) now)"

definition Compose :: "synth_state \<Rightarrow> tracker_snapshot \<Rightarrow> int \<Rightarrow> synth_timing \<Rightarrow> driver_pose option" where
  "Compose st snap now config =
     (if sy_mode st \<noteq> 3 then None
      else if sy_deviceId st < 0 then None
      else if \<not> sy_offsetCalibrated st then None
      else if \<not> IsTrackerFresh snap now (staleLimitMs (ClampDriverSynthTimingConfig config)) then None
      else if sn_capturedForDeviceId snap \<noteq> sy_deviceId st then None
      else Some ((sn_pose snap)\<lparr>dp_world := (case dp_world (sn_pose snap) of
             (qw', tw, _, _) \<Rightarrow> (qw', tw, sy_headFromTrackerRot st, sy_headFromTrackerTrans st))\<rparr>))"

section \<open>Blending two poses\<close>

definition Clamp01 :: "real \<Rightarrow> real" where
  "Clamp01 x = (if x < 0 then 0 else if 1 < x then 1 else x)"

definition Smoothstep :: "real \<Rightarrow> real" where
  "Smoothstep x = (let x = Clamp01 x in x * x * (3 - 2 * x))"

definition DurationAlpha :: "int \<Rightarrow> int \<Rightarrow> int \<Rightarrow> real" where
  "DurationAlpha start now durationMs =
     (if durationMs \<le> 0 then 1
      else let elapsedMs = of_int (now - start) / 10 ^ 6
           in Clamp01 (elapsedMs / of_int durationMs))"

definition NormalizeQuat :: "quat \<Rightarrow> quat" where
  "NormalizeQuat q =
     (let n = sqrt (qw q * qw q + qx q * qx q + qy q * qy q + qz q * qz q)
      in if n > 1 / 10 ^ 12
         then \<lparr>qw = qw q / n, qx = qx q / n, qy = qy q / n, qz = qz q / n\<rparr>
         else \<lparr>qw = 1, qx = 0, qy = 0, qz = 0\<rparr>)"

definition SlerpQuat :: "quat \<Rightarrow> quat \<Rightarrow> real \<Rightarrow> quat" where
  "SlerpQuat a b alpha =
     (let alpha = Clamp01 alpha;
          dot = QuatDot a b;
          bAdj = (if dot < 0 then qneg b else b);
          dot = (if dot < 0 then - dot else dot);
          dot = (if dot < -1 then -1 else if 1 < dot then 1 else dot);
          out = (if dot > 9995 / 10000
                 then qmap2 (\<lambda>x y. x + alpha * (y - x)) a bAdj
                 else let theta = arccos dot;
                          sinT = sin theta;
                          wa = sin ((1 - alpha) * theta) / sinT;
                          wb = sin (alpha * theta) / sinT
                      in qmap2 (\<lambda>x y. wa * x + wb * y) a bAdj)
      in NormalizeQuat out)"

definition BlendPose :: "driver_pose \<Rightarrow> driver_pose \<Rightarrow> real \<Rightarrow> driver_pose" where
  "BlendPose a b alpha =
     (let s = Smoothstep alpha;
          mix = vmap2 (blend_component s);
          (wra, wta, hra, hta) = dp_world a;
          (wrb, wtb, hrb, htb) = dp_world b;
          out = (if 1 / 2 \<le> s then b else a)
      in out\<lparr>vecPosition := mix (vecPosition a) (vecPosition b),
             vecVelocity := mix (vecVelocity a) (vecVelocity b),
             vecAcceleration := mix (vecAcceleration a) (vecAcceleration b),
             vecAngularVelocity := mix (vecAngularVelocity a) (vecAngularVelocity b),
             vecAngularAcceleration := mix (vecAngularAcceleration a) (vecAngularAcceleration b),
             dp_world := (SlerpQuat wra wrb s, mix wta wtb, SlerpQuat hra hrb s, mix hta htb),
             qRotation := SlerpQuat (qRotation a) (qRotation b) s,
             poseTimeOffset := blend_component s (poseTimeOffset a) (poseTimeOffset b),
             poseIsValid := poseIsValid a \<or> poseIsValid b,
             deviceIsConnected := deviceIsConnected a \<or> deviceIsConnected b,
             dp_finite := dp_finite a \<and> dp_finite b\<rparr>)"

section \<open>The source of the headset pose\<close>

datatype SourceBlendPhase = Uninitialized | SynthStable | GraceHold | BlendingToFallback
  | FallbackStable | WaitingForStableSynth | BlendingToSynth

record blend_state =
  sb_phase :: SourceBlendPhase
  currentPose :: driver_pose
  lastGoodSynthPose :: driver_pose
  blendStartPose :: driver_pose
  phaseStartedAt :: int
  stableSynthSince :: int
  hasCurrentPose :: bool
  hasLastGoodSynthPose :: bool
  hasStableSynthSince :: bool

definition SourceBlendState_init :: blend_state where
  "SourceBlendState_init = \<lparr>sb_phase = Uninitialized, currentPose = zero_pose, lastGoodSynthPose = zero_pose,
     blendStartPose = zero_pose, phaseStartedAt = 0, stableSynthSince = 0, hasCurrentPose = False,
     hasLastGoodSynthPose = False, hasStableSynthSince = False\<rparr>"

definition SetPhase :: "SourceBlendPhase \<Rightarrow> int \<Rightarrow> blend_state \<Rightarrow> blend_state" where
  "SetPhase p now s = (if sb_phase s \<noteq> p then s\<lparr>sb_phase := p, phaseStartedAt := now\<rparr> else s)"

text \<open>\<open>finish\<close> records the published pose; the result of a step is that pose, the reported alpha and
  the new state. The phases before and after are the state's.\<close>

definition blend_finish :: "driver_pose \<Rightarrow> real \<Rightarrow> blend_state \<Rightarrow> driver_pose \<times> real \<times> blend_state" where
  "blend_finish out alpha s = (out, alpha, s\<lparr>currentPose := out, hasCurrentPose := True\<rparr>)"

definition first_pose :: "driver_pose \<Rightarrow> driver_pose option \<Rightarrow> int \<Rightarrow> blend_state
    \<Rightarrow> driver_pose \<times> real \<times> blend_state" where
  "first_pose fallbackPose synthPose now s =
     (case synthPose of
        Some p \<Rightarrow> blend_finish p 1 (SetPhase SynthStable now (s\<lparr>lastGoodSynthPose := p,
          hasLastGoodSynthPose := True, hasStableSynthSince := True, stableSynthSince := now\<rparr>))
      | None \<Rightarrow> blend_finish fallbackPose 0 (SetPhase FallbackStable now (s\<lparr>hasStableSynthSince := False\<rparr>)))"

definition blend_to_synth :: "synth_timing \<Rightarrow> driver_pose \<Rightarrow> int \<Rightarrow> blend_state
    \<Rightarrow> driver_pose \<times> real \<times> blend_state" where
  "blend_to_synth timing p now s =
     (let s = (if sb_phase s \<noteq> BlendingToSynth
               then SetPhase BlendingToSynth now (s\<lparr>blendStartPose := currentPose s\<rparr>) else s);
          alpha = DurationAlpha (phaseStartedAt s) now (blendToSynthMs timing)
      in if 1 \<le> alpha then blend_finish p 1 (SetPhase SynthStable now s)
         else blend_finish (BlendPose (blendStartPose s) p alpha) alpha s)"

definition step_synth :: "synth_timing \<Rightarrow> driver_pose \<Rightarrow> driver_pose \<Rightarrow> int \<Rightarrow> blend_state
    \<Rightarrow> driver_pose \<times> real \<times> blend_state" where
  "step_synth timing fallbackPose p now s =
     (let s = s\<lparr>lastGoodSynthPose := p, hasLastGoodSynthPose := True\<rparr>
      in if sb_phase s = SynthStable \<or> sb_phase s = GraceHold
         then blend_finish p 1 (SetPhase SynthStable now (s\<lparr>hasStableSynthSince := True, stableSynthSince := now\<rparr>))
         else let s = (if \<not> hasStableSynthSince s then s\<lparr>hasStableSynthSince := True, stableSynthSince := now\<rparr> else s);
                  stableAlpha = DurationAlpha (stableSynthSince s) now (stableBeforeSynthMs timing)
              in if stableAlpha < 1 \<and> sb_phase s \<noteq> BlendingToSynth
                 then if sb_phase s = BlendingToFallback
                      then let alpha = DurationAlpha (phaseStartedAt s) now (blendToFallbackMs timing)
                           in if 1 \<le> alpha then blend_finish fallbackPose 1 (SetPhase FallbackStable now s)
                              else blend_finish (BlendPose (blendStartPose s) fallbackPose alpha) alpha s
                      else blend_finish fallbackPose stableAlpha (SetPhase WaitingForStableSynth now s)
                 else blend_to_synth timing p now s)"

definition blend_to_fallback :: "synth_timing \<Rightarrow> driver_pose \<Rightarrow> int \<Rightarrow> blend_state
    \<Rightarrow> driver_pose \<times> real \<times> blend_state" where
  "blend_to_fallback timing fallbackPose now s =
     (if sb_phase s = BlendingToFallback
      then let alpha = DurationAlpha (phaseStartedAt s) now (blendToFallbackMs timing)
           in if 1 \<le> alpha then blend_finish fallbackPose 1 (SetPhase FallbackStable now s)
              else blend_finish (BlendPose (blendStartPose s) fallbackPose alpha) alpha s
      else blend_finish fallbackPose 1 (SetPhase FallbackStable now s))"

definition step_lost :: "synth_timing \<Rightarrow> driver_pose \<Rightarrow> int \<Rightarrow> blend_state
    \<Rightarrow> driver_pose \<times> real \<times> blend_state" where
  "step_lost timing fallbackPose now s =
     (let s = s\<lparr>hasStableSynthSince := False\<rparr>;
          s = (if sb_phase s = SynthStable
               then SetPhase GraceHold now (s\<lparr>blendStartPose :=
                      (if hasLastGoodSynthPose s then lastGoodSynthPose s else currentPose s)\<rparr>)
               else s)
      in if sb_phase s = GraceHold
         then let alpha = DurationAlpha (phaseStartedAt s) now (graceHoldMs timing)
              in if alpha < 1 then blend_finish (blendStartPose s) alpha s
                 else blend_to_fallback timing fallbackPose now (SetPhase BlendingToFallback now s)
         else if sb_phase s = BlendingToSynth \<or> sb_phase s = WaitingForStableSynth
         then blend_to_fallback timing fallbackPose now
                (SetPhase BlendingToFallback now (s\<lparr>blendStartPose := currentPose s\<rparr>))
         else blend_to_fallback timing fallbackPose now s)"

definition StepSourceBlend :: "synth_timing \<Rightarrow> driver_pose \<Rightarrow> driver_pose option \<Rightarrow> int \<Rightarrow> blend_state
    \<Rightarrow> driver_pose \<times> real \<times> blend_state" where
  "StepSourceBlend config fallbackPose synthPose now s =
     (let timing = ClampDriverSynthTimingConfig config
      in if \<not> hasCurrentPose s then first_pose fallbackPose synthPose now s
         else case synthPose of
                Some p \<Rightarrow> step_synth timing fallbackPose p now s
              | None \<Rightarrow> step_lost timing fallbackPose now s)"

section \<open>Blending\<close>

lemma NormalizeQuat_eq [simp]: "NormalizeQuat = QNormalize"
  by (rule ext) (simp add: NormalizeQuat_def QNormalize_def qnorm2_def qone_def Let_def)

lemma Clamp01_range [simp]: "0 \<le> Clamp01 x" "Clamp01 x \<le> 1"
  by (simp_all add: Clamp01_def)

lemma Clamp01_one: "1 \<le> Clamp01 x \<longleftrightarrow> 1 \<le> x"
  by (simp add: Clamp01_def)

lemma SlerpQuat_eq: "SlerpQuat a b alpha = Slerp a b (Clamp01 alpha)"
  by (simp add: SlerpQuat_def Slerp_def Let_def)

lemma SlerpQuat_unit: "qnorm2 (SlerpQuat a b alpha) = 1"
  by (simp add: SlerpQuat_def Let_def qnorm2_QNormalize)

lemma Smoothstep_range: "0 \<le> Smoothstep x" "Smoothstep x \<le> 1"
proof -
  have "0 \<le> c * c * (3 - 2 * c) \<and> c * c * (3 - 2 * c) \<le> 1" if "0 \<le> c" "c \<le> 1" for c :: real
  proof -
    have "1 - c * c * (3 - 2 * c) = (1 - c) * (1 - c) * (1 + 2 * c)" by algebra
    then have "0 \<le> 1 - c * c * (3 - 2 * c)" using that by simp
    then show ?thesis using that by simp
  qed
  from this [of "Clamp01 x"] show "0 \<le> Smoothstep x" "Smoothstep x \<le> 1"
    by (simp_all add: Smoothstep_def Let_def)
qed

lemma vmap2_blend_0 [simp]: "vmap2 (blend_component 0) u v = u"
  by (simp add: vmap2_def blend_component_def)

lemma BlendPose_between: "vbetween (vecPosition a) (vecPosition b) (vecPosition (BlendPose a b alpha))"
  using Smoothstep_range [of alpha]
  by (simp add: BlendPose_def Let_def vbetween_def vmap2_def blend_component_between split: prod.splits)

lemma BlendPose_rotation: "qnorm2 (qRotation (BlendPose a b alpha)) = 1"
  by (simp add: BlendPose_def Let_def SlerpQuat_unit split: prod.splits)

lemma BlendPose_start:
  "vecPosition (BlendPose a b 0) = vecPosition a" "vecVelocity (BlendPose a b 0) = vecVelocity a"
  "qnorm2 (qRotation a) = 1 \<Longrightarrow> qnorm2 (qRotation b) = 1 \<Longrightarrow> qRotation (BlendPose a b 0) = qRotation a"
  by (simp_all add: BlendPose_def Let_def Smoothstep_def Clamp01_def SlerpQuat_eq Slerp_ends split: prod.splits)

lemma DurationAlpha_range: "0 \<le> DurationAlpha a b d" "DurationAlpha a b d \<le> 1"
  by (simp_all add: DurationAlpha_def Let_def)

lemma DurationAlpha_start: "DurationAlpha t t d = (if d \<le> 0 then 1 else 0)"
  by (simp add: DurationAlpha_def Clamp01_def)

lemma DurationAlpha_elapsed: "1 \<le> DurationAlpha a b d \<longleftrightarrow> d \<le> 0 \<or> d * 1000000 \<le> b - a"
proof (cases "d \<le> 0")
  case False
  then have d: "(0 :: real) < of_int d" by simp
  have "1 \<le> DurationAlpha a b d \<longleftrightarrow> 1 \<le> of_int (b - a) / 10 ^ 6 / (of_int d :: real)"
    using False by (simp add: DurationAlpha_def Let_def Clamp01_one)
  also have "\<dots> \<longleftrightarrow> of_int (d * 1000000) \<le> (of_int (b - a) :: real)"
    using d by (simp add: pos_le_divide_eq mult.commute)
  also have "\<dots> \<longleftrightarrow> d * 1000000 \<le> b - a" by (simp only: of_int_le_iff)
  finally show ?thesis using False by simp
qed (simp add: DurationAlpha_def)

lemmas DurationAlpha_running = DurationAlpha_elapsed [THEN arg_cong [of _ _ Not], unfolded not_le]

section \<open>Runs of the machine\<close>

text \<open>A tick brings the headset's own pose, the synthesised pose if there is one, and the time.\<close>

type_synonym synth_tick = "driver_pose \<times> driver_pose option \<times> int"

definition tick_time :: "synth_tick \<Rightarrow> int" where "tick_time t = snd (snd t)"
definition tick_synth :: "synth_tick \<Rightarrow> bool" where "tick_synth t \<longleftrightarrow> fst (snd t) \<noteq> None"

definition blend_tick :: "synth_timing \<Rightarrow> synth_tick \<Rightarrow> blend_state \<Rightarrow> blend_state" where
  "blend_tick cfg t s = snd (snd (StepSourceBlend cfg (fst t) (fst (snd t)) (snd (snd t)) s))"

definition blend_run :: "synth_timing \<Rightarrow> synth_tick list \<Rightarrow> blend_state \<Rightarrow> blend_state" where
  "blend_run cfg ts s = fold (blend_tick cfg) ts s"

lemma blend_run_simps [simp]:
  "blend_run cfg [] s = s" "blend_run cfg (t # ts) s = blend_run cfg ts (blend_tick cfg t s)"
  "blend_run cfg (ts @ us) s = blend_run cfg us (blend_run cfg ts s)"
  by (simp_all add: blend_run_def)

lemmas blend_defs = StepSourceBlend_def first_pose_def step_synth_def step_lost_def blend_to_synth_def
  blend_to_fallback_def blend_finish_def SetPhase_def Let_def

text \<open>What the stored poses are in each phase.\<close>

definition blend_inv :: "blend_state \<Rightarrow> bool" where
  "blend_inv s \<longleftrightarrow> (hasCurrentPose s \<longleftrightarrow> sb_phase s \<noteq> Uninitialized)
     \<and> (sb_phase s = SynthStable \<longrightarrow> hasLastGoodSynthPose s \<and> lastGoodSynthPose s = currentPose s)
     \<and> (sb_phase s = GraceHold \<longrightarrow> blendStartPose s = currentPose s)"

lemma blend_inv_init: "blend_inv SourceBlendState_init"
  by (simp add: blend_inv_def SourceBlendState_init_def)

lemma blend_inv_tick: "blend_inv s \<Longrightarrow> blend_inv (blend_tick cfg t s)"
  by (cases "sb_phase s"; cases t rule: prod_cases3)
    (auto simp: blend_inv_def blend_tick_def blend_defs split: option.splits if_splits)

lemma blend_inv_run: "blend_inv s \<Longrightarrow> blend_inv (blend_run cfg ts s)"
  by (induction ts arbitrary: s) (simp_all add: blend_inv_tick)

lemma blend_tick_current [simp]: "hasCurrentPose (blend_tick cfg t u)"
  by (cases "sb_phase u"; cases t rule: prod_cases3)
    (auto simp: blend_tick_def blend_defs split: option.splits)

lemma blend_run_current: "ts \<noteq> [] \<Longrightarrow> hasCurrentPose (blend_run cfg ts s)"
  by (cases ts rule: rev_cases) simp_all

section \<open>The published pose never jumps when a fade begins\<close>

lemma vbetween_start [simp]: "vbetween a b a"
  by (simp add: vbetween_def)

text \<open>Poses with unit rotations, as OpenVR requires.\<close>

definition unit_pose :: "driver_pose \<Rightarrow> bool" where
  "unit_pose p \<longleftrightarrow> qnorm2 (qRotation p) = 1"

text \<open>C23: The headset never jumps when its source changes. Over any run of ticks, when a hold or a fade
  begins, towards the headset's own pose or towards the tracker, the published pose still has the
  position and the velocity of the pose published before (and its rotation, for unit rotations); and
  on every tick the published position is the headset's, the tracker's, the held one, or lies
  between the start of the fade and its target.
\<close>

theorem source_blend_continuous:
  assumes "ts \<noteq> []" and "s = blend_run cfg ts SourceBlendState_init"
    and "StepSourceBlend cfg f y now s = (out, alpha, s')"
  shows "(sb_phase s' \<noteq> sb_phase s \<and> sb_phase s' \<in> {GraceHold, BlendingToFallback, BlendingToSynth} \<longrightarrow>
            vecPosition out = vecPosition (currentPose s) \<and> vecVelocity out = vecVelocity (currentPose s)
            \<and> (unit_pose (currentPose s) \<and> unit_pose f \<and> (\<forall>p. y = Some p \<longrightarrow> unit_pose p) \<longrightarrow>
                 qRotation out = qRotation (currentPose s)))
    \<and> (out = f \<or> y = Some out \<or> out = blendStartPose s'
        \<or> vbetween (vecPosition (blendStartPose s')) (vecPosition f) (vecPosition out)
        \<or> (\<exists>p. y = Some p \<and> vbetween (vecPosition (blendStartPose s')) (vecPosition p) (vecPosition out)))"
proof -
  have cur: "hasCurrentPose s" using assms(1,2) by (simp add: blend_run_current)
  have inv: "blend_inv s" using assms(2) blend_inv_run [OF blend_inv_init] by simp
  show ?thesis
  proof (cases y)
    case None
    then show ?thesis
      using assms(3) cur inv
      by (cases "sb_phase s")
        (auto simp: blend_defs blend_inv_def unit_pose_def BlendPose_start BlendPose_between
          DurationAlpha_start split: if_splits)
  next
    case (Some p)
    then show ?thesis
      using assms(3) cur inv
      by (cases "sb_phase s")
        (auto simp: blend_defs blend_inv_def unit_pose_def BlendPose_start BlendPose_between
          DurationAlpha_start split: if_splits)
  qed
qed

section \<open>The tracker returns only after a stable stretch\<close>

text \<open>The clock of the stable stretch is the time of a tick since which the synthesised pose has
  always been there.\<close>

definition stable_since :: "synth_tick list \<Rightarrow> int \<Rightarrow> bool" where
  "stable_since ts t \<longleftrightarrow> (\<exists>pre u suf. ts = pre @ u # suf \<and> list_all tick_synth (u # suf) \<and> tick_time u = t)"

lemma stable_since_here: "tick_synth t \<Longrightarrow> stable_since (ts @ [t]) (tick_time t)"
  unfolding stable_since_def by (intro exI [of _ ts] exI [of _ t] exI [of _ "[]"]) simp

lemma stable_since_kept:
  assumes "stable_since ts u" and "tick_synth t"
  shows "stable_since (ts @ [t]) u"
proof -
  obtain pre v suf where "ts = pre @ v # suf" "list_all tick_synth (v # suf)" "tick_time v = u"
    using assms(1) unfolding stable_since_def by blast
  then show ?thesis
    using assms(2) unfolding stable_since_def
    by (intro exI [of _ pre] exI [of _ v] exI [of _ "suf @ [t]"]) simp
qed

lemma stable_clock_step:
  "hasStableSynthSince (blend_tick cfg t s) \<Longrightarrow> tick_synth t \<and>
     (stableSynthSince (blend_tick cfg t s) = tick_time t
      \<or> hasStableSynthSince s \<and> stableSynthSince (blend_tick cfg t s) = stableSynthSince s)"
  by (cases "sb_phase s"; cases t rule: prod_cases3)
    (auto simp: blend_tick_def blend_defs tick_synth_def tick_time_def split: option.splits if_splits)

lemma stable_clock_run:
  "hasStableSynthSince (blend_run cfg ts SourceBlendState_init) \<Longrightarrow>
     stable_since ts (stableSynthSince (blend_run cfg ts SourceBlendState_init))"
proof (induction ts rule: rev_induct)
  case (snoc t ts)
  then show ?case
    using stable_clock_step [of cfg t "blend_run cfg ts SourceBlendState_init"]
      stable_since_here [of t ts] stable_since_kept [of ts _ t]
    by auto
qed (simp add: SourceBlendState_init_def)

definition stable_start :: "int \<Rightarrow> blend_state \<Rightarrow> int" where
  "stable_start now s = (if hasStableSynthSince s then stableSynthSince s else now)"

lemma step_synth_clock:
  assumes "sb_phase s \<in> {BlendingToFallback, FallbackStable, WaitingForStableSynth}"
  shows "hasStableSynthSince (snd (snd (step_synth d f p now s)))"
    and "stableSynthSince (snd (snd (step_synth d f p now s))) = stable_start now s"
  using assms by (auto simp: step_synth_def blend_to_synth_def blend_finish_def SetPhase_def Let_def stable_start_def)

lemma step_synth_waits:
  assumes "sb_phase s \<in> {BlendingToFallback, FallbackStable, WaitingForStableSynth}"
    and "DurationAlpha (stable_start now s) now (stableBeforeSynthMs d) < 1"
  shows "sb_phase (snd (snd (step_synth d f p now s))) \<notin> {BlendingToSynth, SynthStable}"
  using assms by (cases "hasStableSynthSince s")
    (auto simp: step_synth_def blend_finish_def SetPhase_def Let_def stable_start_def)

lemma return_step:
  assumes "sb_phase s \<in> {BlendingToFallback, FallbackStable, WaitingForStableSynth}"
    and "hasCurrentPose s" and "sb_phase (blend_tick cfg t s) \<in> {BlendingToSynth, SynthStable}"
  shows "hasStableSynthSince (blend_tick cfg t s) \<and>
     (let d = stableBeforeSynthMs (ClampDriverSynthTimingConfig cfg)
      in d * 1000000 \<le> max 0 (tick_time t - stableSynthSince (blend_tick cfg t s)))"
proof -
  obtain f y now where t: "t = (f, y, now)" by (cases t rule: prod_cases3)
  have fade: "sb_phase (snd (snd (step_lost d f now s))) \<notin> {BlendingToSynth, SynthStable}" for d
    using assms(1) by (auto simp: blend_defs)
  obtain p where y: "y = Some p"
    using assms(2,3) fade by (cases y) (auto simp: t blend_tick_def StepSourceBlend_def Let_def)
  let ?d = "ClampDriverSynthTimingConfig cfg"
  have st: "blend_tick cfg t s = snd (snd (step_synth ?d f p now s))"
    using assms(2) by (simp add: t y blend_tick_def StepSourceBlend_def Let_def)
  have "1 \<le> DurationAlpha (stable_start now s) now (stableBeforeSynthMs ?d)"
    using step_synth_waits [OF assms(1)] assms(3) unfolding st by (meson not_le)
  then show ?thesis
    unfolding st step_synth_clock(2) [OF assms(1)] DurationAlpha_elapsed
    using step_synth_clock(1) [OF assms(1)] by (auto simp: t tick_time_def)
qed

text \<open>A lost tracker is followed again only when it has proved stable. If the machine shows the
  headset's own pose or fades to it, and after the next tick fades to the tracker or follows it,
  then the synthesised pose has been there on every tick of a stretch that ends with this tick and
  has lasted at least the configured stable time.
\<close>

theorem synth_return_stable:
  assumes "sb_phase (blend_run cfg ts SourceBlendState_init) \<in> {BlendingToFallback, FallbackStable, WaitingForStableSynth}"
    and "sb_phase (blend_run cfg (ts @ [t]) SourceBlendState_init) \<in> {BlendingToSynth, SynthStable}"
  shows "\<exists>pre u suf. ts @ [t] = pre @ u # suf \<and> list_all tick_synth (u # suf)
     \<and> stableBeforeSynthMs (ClampDriverSynthTimingConfig cfg) * 1000000 \<le> max 0 (tick_time t - tick_time u)"
proof -
  let ?s = "blend_run cfg ts SourceBlendState_init" and ?s' = "blend_run cfg (ts @ [t]) SourceBlendState_init"
  have "hasCurrentPose ?s" using blend_inv_run [OF blend_inv_init, of cfg ts] assms(1)
    by (auto simp: blend_inv_def)
  note r = return_step [OF assms(1) this, of cfg t]
  have "hasStableSynthSince ?s'" using r assms(2) by simp
  from stable_clock_run [OF this] obtain pre u suf
    where u: "ts @ [t] = pre @ u # suf" "list_all tick_synth (u # suf)" "tick_time u = stableSynthSince ?s'"
    unfolding stable_since_def by blast
  have "stableBeforeSynthMs (ClampDriverSynthTimingConfig cfg) * 1000000 \<le> max 0 (tick_time t - tick_time u)"
    using r assms(2) unfolding u(3) by (simp add: Let_def)
  then show ?thesis using u(1,2) by blast
qed

section \<open>A lost tracker is given up in time\<close>

abbreviation lost_tick :: "driver_pose \<times> int \<Rightarrow> synth_tick" where
  "lost_tick t \<equiv> (fst t, None, snd t)"

text \<open>On the way from the tracker to the headset's own pose, since time \<open>t0\<close> and, once the fade has
  begun, since \<open>t1\<close>.\<close>

definition leaving :: "int \<Rightarrow> int \<Rightarrow> blend_state \<Rightarrow> bool" where
  "leaving t0 t1 s \<longleftrightarrow> hasCurrentPose s \<and>
     (sb_phase s = GraceHold \<and> phaseStartedAt s \<le> t0
      \<or> sb_phase s = BlendingToFallback \<and> phaseStartedAt s \<le> t1 \<or> sb_phase s = FallbackStable)"

lemmas lost_defs = blend_tick_def StepSourceBlend_def step_lost_def blend_to_fallback_def blend_finish_def
  SetPhase_def Let_def

lemma lost_first:
  assumes "hasCurrentPose s" "sb_phase s \<noteq> Uninitialized" "phaseStartedAt s \<le> t"
  shows "leaving t t (blend_tick cfg (f, None, t) s)"
  using assms by (cases "sb_phase s") (simp_all add: leaving_def lost_defs)

lemma lost_next:
  assumes "leaving t0 t1 s" "t1 \<le> t"
  shows "leaving t0 t (blend_tick cfg (f, None, t) s)"
    and "t0 + graceHoldMs (ClampDriverSynthTimingConfig cfg) * 1000000 \<le> t \<Longrightarrow>
          sb_phase (blend_tick cfg (f, None, t) s) \<noteq> GraceHold"
    and "sb_phase s \<noteq> GraceHold \<Longrightarrow> t1 + blendToFallbackMs (ClampDriverSynthTimingConfig cfg) * 1000000 \<le> t \<Longrightarrow>
          sb_phase (blend_tick cfg (f, None, t) s) = FallbackStable \<and> currentPose (blend_tick cfg (f, None, t) s) = f"
    and "sb_phase s \<noteq> GraceHold \<Longrightarrow> leaving t0 t1 (blend_tick cfg (f, None, t) s)
          \<and> sb_phase (blend_tick cfg (f, None, t) s) \<noteq> GraceHold"
proof -
  have g: "\<not> DurationAlpha a t d < 1 \<longleftrightarrow> d \<le> 0 \<or> a + d * 1000000 \<le> t" for a d
    using DurationAlpha_elapsed [of a t d] by linarith
  have h: "1 \<le> DurationAlpha a t d \<longleftrightarrow> d \<le> 0 \<or> a + d * 1000000 \<le> t" for a d
    using DurationAlpha_elapsed [of a t d] by linarith
  show "leaving t0 t (blend_tick cfg (f, None, t) s)"
    using assms by (auto simp: leaving_def lost_defs)
  show "sb_phase (blend_tick cfg (f, None, t) s) \<noteq> GraceHold"
    if "t0 + graceHoldMs (ClampDriverSynthTimingConfig cfg) * 1000000 \<le> t"
    using assms that g [of "phaseStartedAt s" "graceHoldMs (ClampDriverSynthTimingConfig cfg)"]
    by (auto simp: leaving_def lost_defs)
  show "sb_phase (blend_tick cfg (f, None, t) s) = FallbackStable \<and> currentPose (blend_tick cfg (f, None, t) s) = f"
    if "sb_phase s \<noteq> GraceHold" "t1 + blendToFallbackMs (ClampDriverSynthTimingConfig cfg) * 1000000 \<le> t"
    using assms that h [of "phaseStartedAt s" "blendToFallbackMs (ClampDriverSynthTimingConfig cfg)"]
    by (auto simp: leaving_def lost_defs)
  show "leaving t0 t1 (blend_tick cfg (f, None, t) s) \<and> sb_phase (blend_tick cfg (f, None, t) s) \<noteq> GraceHold"
    if "sb_phase s \<noteq> GraceHold"
    using assms that by (auto simp: leaving_def lost_defs)
qed

lemma lost_until:
  assumes "leaving t0 t1 s" "sorted (t1 # map snd xs)"
  shows "leaving t0 (last (t1 # map snd xs)) (blend_run cfg (map lost_tick xs) s)"
  using assms
proof (induction xs arbitrary: s t1)
  case (Cons x xs)
  then show ?case using lost_next(1) [OF Cons.prems(1), of "snd x" cfg "fst x"] by simp
qed simp

lemma fading_until:
  assumes "leaving t0 t1 s" "sb_phase s \<noteq> GraceHold" "\<forall>t\<in>set xs. t1 \<le> snd t"
  shows "leaving t0 t1 (blend_run cfg (map lost_tick xs) s) \<and> sb_phase (blend_run cfg (map lost_tick xs) s) \<noteq> GraceHold"
  using assms
proof (induction xs arbitrary: s)
  case (Cons x xs)
  then show ?case using lost_next(4) [OF Cons.prems(1), of "snd x" cfg "fst x"] by simp
qed simp

text \<open>C26: A lost tracker is given up in time. From any state the machine can be in, if the synthesised pose
  is missing on every tick, then once one tick comes at least the grace time after the first one and
  another at least the fade time later, the headset's own pose is published, unblended.
\<close>

theorem lost_tracker_fades:
  assumes "s = blend_run cfg ts SourceBlendState_init" and "ts \<noteq> []" and "phaseStartedAt s \<le> snd x"
    and "sorted (map snd (x # xs @ k # ys @ [l]))"
    and "snd x + graceHoldMs (ClampDriverSynthTimingConfig cfg) * 1000000 \<le> snd k"
    and "snd k + blendToFallbackMs (ClampDriverSynthTimingConfig cfg) * 1000000 \<le> snd l"
  shows "sb_phase (blend_run cfg (map lost_tick (x # xs @ k # ys @ [l])) s) = FallbackStable
    \<and> currentPose (blend_run cfg (map lost_tick (x # xs @ k # ys @ [l])) s) = fst l"
proof -
  have cur: "hasCurrentPose s" using assms(1,2) by (simp add: blend_run_current)
  then have "sb_phase s \<noteq> Uninitialized"
    using blend_inv_run [OF blend_inv_init, of cfg ts] assms(1) by (simp add: blend_inv_def)
  note l1 = lost_first [OF cur this assms(3), of cfg "fst x"]
  let ?s1 = "blend_run cfg (map lost_tick xs) (blend_tick cfg (lost_tick x) s)"
  let ?t1 = "last (snd x # map snd xs)"
  have s1: "leaving (snd x) ?t1 ?s1"
    using lost_until [OF l1] assms(4) by (simp add: sorted_append)
  have "?t1 \<le> snd k" using assms(4) by (cases xs rule: rev_cases) (auto simp: sorted_append)
  note n = lost_next [OF s1 this, of cfg "fst k"]
  let ?s2 = "blend_tick cfg (lost_tick k) ?s1"
  have s2: "leaving (snd x) (snd k) ?s2" "sb_phase ?s2 \<noteq> GraceHold"
    using n(1,2) assms(5) by simp_all
  have "\<forall>t\<in>set ys. snd k \<le> snd t" "snd k \<le> snd l" using assms(4) by (auto simp: sorted_append)
  note s3 = fading_until [OF s2 this(1), of cfg] and kl = this(2)
  show ?thesis
    using lost_next(3) [OF conjunct1 [OF s3] kl conjunct2 [OF s3] assms(6), of "fst l"]
    by simp
qed

section \<open>Concrete runs\<close>

definition tracker_pose :: driver_pose where
  "tracker_pose = zero_pose\<lparr>vecPosition := \<lparr>vx = 1, vy = 2, vz = 3\<rparr>, poseIsValid := True\<rparr>"

lemmas synth_eval = blend_tick_def blend_defs SourceBlendState_init_def default_synth_timing_def
  ClampDriverSynthTimingConfig_def ClampDriverSynthTransitionMs_def ClampDriverSynthStaleLimitMs_def
  DurationAlpha_def Clamp01_def

theorem source_blend_continuous_witness:
  "sb_phase (blend_run default_synth_timing [(zero_pose, Some tracker_pose, 0), (zero_pose, None, 10)]
     SourceBlendState_init) = GraceHold
   \<and> vecPosition (fst (StepSourceBlend default_synth_timing zero_pose None 10
       (blend_run default_synth_timing [(zero_pose, Some tracker_pose, 0)] SourceBlendState_init))) = vecPosition tracker_pose"
proof -
  let ?s = "blend_run default_synth_timing [(zero_pose, Some tracker_pose, 0)] SourceBlendState_init"
  obtain out alpha s' where st: "StepSourceBlend default_synth_timing zero_pose None 10 ?s = (out, alpha, s')"
    by (cases "StepSourceBlend default_synth_timing zero_pose None 10 ?s" rule: prod_cases3)
  have ph: "sb_phase ?s = SynthStable" "currentPose ?s = tracker_pose" by (simp_all add: synth_eval)
  have "sb_phase (snd (snd (StepSourceBlend default_synth_timing zero_pose None 10 ?s))) = GraceHold"
    by (simp add: synth_eval)
  then have "sb_phase s' = GraceHold" using st by simp
  moreover from this have "vecPosition out = vecPosition tracker_pose"
    using source_blend_continuous [OF _ refl st] ph by simp
  ultimately show ?thesis using st by (simp add: blend_tick_def)
qed

theorem synth_return_stable_witness:
  "\<exists>pre u suf. [(zero_pose, None, 0), (zero_pose, Some tracker_pose, 10)] @ [(zero_pose, Some tracker_pose, 350000010)]
       = pre @ u # suf \<and> list_all tick_synth (u # suf)
     \<and> stableBeforeSynthMs (ClampDriverSynthTimingConfig default_synth_timing) * 1000000 \<le> max 0 (350000010 - tick_time u)"
  using synth_return_stable [of default_synth_timing "[(zero_pose, None, 0), (zero_pose, Some tracker_pose, 10)]"
      "(zero_pose, Some tracker_pose, 350000010)"]
  by (simp add: synth_eval tick_time_def)

theorem lost_tracker_fades_witness:
  "currentPose (blend_run default_synth_timing (map lost_tick [(zero_pose, 1), (zero_pose, 750000001), (zero_pose, 1250000001)])
     (blend_run default_synth_timing [(tracker_pose, Some tracker_pose, 0)] SourceBlendState_init)) = zero_pose"
proof -
  have "phaseStartedAt (blend_run default_synth_timing [(tracker_pose, Some tracker_pose, 0)] SourceBlendState_init) \<le> 1"
    by (simp add: synth_eval)
  then show ?thesis
    using lost_tracker_fades [OF refl, of "[(tracker_pose, Some tracker_pose, 0)]" default_synth_timing
        "(zero_pose, 1)" "[]" "(zero_pose, 750000001)" "[]" "(zero_pose, 1250000001)"]
    by (simp add: ClampDriverSynthTimingConfig_def ClampDriverSynthTransitionMs_def default_synth_timing_def)
qed

end
