(* ===== verification/OneEuro.thy ===== *)
theory OneEuro
  imports Kinematics
begin

text \<open>
  The speed-adaptive low-pass filter behind the Smoothing slider: the strength curves of
  \<open>core/src/common/PredictionSmoothingMath.h\<close> and the one-euro filter of
  \<open>core/src/common/SmartSmoothingShadowMath.h\<close>. Doubles are exact reals; what \<open>isfinite\<close> answers for
  an input is a separate flag.
\<close>

section \<open>Curves\<close>

definition SmoothnessToFactor :: "byte \<Rightarrow> real" where
  "SmoothnessToFactor smoothness =
     (let s = of_nat (unat smoothness);
          s = (if 100 < s then 100 else s);
          t = 1 - s / 100
      in t * t)"

definition PositionEwmAlpha :: "byte \<Rightarrow> real" where
  "PositionEwmAlpha smoothness =
     (let s = of_nat (unat smoothness);
          s = (if 100 < s then 100 else s);
          t = 1 - s / 100
      in if t \<le> 0 then 0 else t powr (18 / 10))"

definition kPi :: real where "kPi = 31415926535897932384626433832795 / 10000000000000000000000000000000"

definition SS_Clamp :: "real \<Rightarrow> real \<Rightarrow> real \<Rightarrow> real" where
  "SS_Clamp value lo hi = min hi (max lo value)"

definition Saturate :: "real \<Rightarrow> real" where
  "Saturate value = SS_Clamp value 0 1"

definition SS_Lerp :: "real \<Rightarrow> real \<Rightarrow> real \<Rightarrow> real" where
  "SS_Lerp a b t = a + (b - a) * Saturate t"

definition SS_SmoothStep :: "real \<Rightarrow> real \<Rightarrow> real \<Rightarrow> real" where
  "SS_SmoothStep edge0 edge1 x =
     (if \<not> edge0 < edge1 then (if edge1 \<le> x then 1 else 0)
      else let t = Saturate ((x - edge0) / (edge1 - edge0)) in t * t * (3 - 2 * t))"

definition AlphaFromCutoffHz :: "real \<Rightarrow> real \<Rightarrow> real" where
  "AlphaFromCutoffHz cutoffHz dtSeconds =
     (let cutoffHz = SS_Clamp cutoffHz (1 / 1000) 120;
          dtSeconds = SS_Clamp dtSeconds (1 / 1000) (50 / 1000);
          tau = 1 / (2 * kPi * cutoffHz)
      in dtSeconds / (dtSeconds + tau))"

definition AlphaFromTau :: "real \<Rightarrow> real \<Rightarrow> real" where
  "AlphaFromTau tauSeconds dtSeconds =
     (let tauSeconds = max (5 / 10000) tauSeconds;
          dtSeconds = SS_Clamp dtSeconds (1 / 1000) (50 / 1000)
      in dtSeconds / (dtSeconds + tauSeconds))"

definition UpdateEnvelope :: "real \<Rightarrow> real \<Rightarrow> real \<Rightarrow> real \<Rightarrow> real \<Rightarrow> real" where
  "UpdateEnvelope current target dtSeconds attackTauSeconds releaseTauSeconds =
     (let target = Saturate target;
          tau = (if current < target then attackTauSeconds else releaseTauSeconds);
          alpha = AlphaFromTau tau dtSeconds
      in Saturate (current + alpha * (target - current)))"

definition ReleasedPredictionFactor :: "real \<Rightarrow> real \<Rightarrow> real" where
  "ReleasedPredictionFactor baseFactor release =
     (let baseFactor = Saturate baseFactor; release = Saturate release
      in baseFactor + (1 - baseFactor) * release)"

section \<open>Parameters\<close>

record ss_params =
  posMinCutoffHz :: real
  rotMinCutoffHz :: real
  posBetaHzPerMps :: real
  rotBetaHzPerRadps :: real
  derivCutoffHz :: real
  maxCutoffHz :: real
  basePredictionFactor :: real
  linDerivedDeadband :: real
  linReportedDeadband :: real
  angDerivedDeadband :: real
  angReportedDeadband :: real
  linStillSpeed :: real
  linMovingSpeed :: real
  angStillSpeed :: real
  angMovingSpeed :: real
  innovationTauSeconds :: real
  linInnovationDeadband :: real
  angInnovationDeadband :: real
  posErrStillM :: real
  posErrMovingM :: real
  rotErrStillRad :: real
  rotErrMovingRad :: real
  gateAttackTauSeconds :: real
  gateReleaseTauSeconds :: real
  positionJumpM :: real
  rotationJumpRad :: real
  resetGapSeconds :: real

definition default_params :: ss_params where
  "default_params = \<lparr>posMinCutoffHz = 12, rotMinCutoffHz = 16, posBetaHzPerMps = 6, rotBetaHzPerRadps = 15 / 10,
     derivCutoffHz = 4, maxCutoffHz = 90, basePredictionFactor = 1,
     linDerivedDeadband = 3 / 100, linReportedDeadband = 6 / 100, angDerivedDeadband = 8 / 100,
     angReportedDeadband = 15 / 100, linStillSpeed = 3 / 100, linMovingSpeed = 35 / 100,
     angStillSpeed = 10 / 100, angMovingSpeed = 12 / 10, innovationTauSeconds = 8 / 100,
     linInnovationDeadband = 0, angInnovationDeadband = 0, posErrStillM = 12 / 1000, posErrMovingM = 60 / 1000,
     rotErrStillRad = 1308996938995747 / 10 ^ 17, rotErrMovingRad = 10471975511965977 / 10 ^ 17,
     gateAttackTauSeconds = 6 / 1000, gateReleaseTauSeconds = 45 / 1000,
     positionJumpM = 50 / 100, rotationJumpRad = 10471975511965976 / 10 ^ 16, resetGapSeconds = 25 / 100\<rparr>"

definition BuildParams :: "byte \<Rightarrow> ss_params" where
  "BuildParams smoothness =
     (let s01 = SS_Clamp (of_nat (unat smoothness) / 100) 0 1;
          inv = 1 - s01
      in default_params\<lparr>posMinCutoffHz := 45 / 100 + 16 * inv powr (18 / 10),
           rotMinCutoffHz := 75 / 100 + 18 * inv powr (16 / 10),
           posBetaHzPerMps := SS_Lerp 6 24 s01,
           rotBetaHzPerRadps := SS_Lerp (15 / 10) (45 / 10) s01,
           basePredictionFactor := SmoothnessToFactor smoothness\<rparr>)"

datatype CandidateKind = Match | Strong | Responsive

definition BuildCandidateParams :: "byte \<Rightarrow> CandidateKind \<Rightarrow> ss_params" where
  "BuildCandidateParams smoothness kind =
     (let p = BuildParams smoothness
      in case kind of
           Strong \<Rightarrow> p\<lparr>posMinCutoffHz := posMinCutoffHz p * (5 / 10), rotMinCutoffHz := rotMinCutoffHz p * (5 / 10)\<rparr>
         | Responsive \<Rightarrow> p\<lparr>posBetaHzPerMps := posBetaHzPerMps p * (16 / 10),
             rotBetaHzPerRadps := rotBetaHzPerRadps p * (16 / 10), gateReleaseTauSeconds := gateReleaseTauSeconds p * (5 / 10)\<rparr>
         | Match \<Rightarrow> p)"

section \<open>Vectors and quaternions\<close>

definition Length3 :: "vec3 \<Rightarrow> real" where
  "Length3 v = sqrt (vx v * vx v + vy v * vy v + vz v * vz v)"

definition Distance3 :: "vec3 \<Rightarrow> vec3 \<Rightarrow> real" where
  "Distance3 a b =
     (let dx = vx a - vx b; dy = vy a - vy b; dz = vz a - vz b in sqrt (dx * dx + dy * dy + dz * dz))"

text \<open>The flag says whether all components are finite.\<close>

definition QuatNormalize :: "bool \<Rightarrow> quat \<Rightarrow> bool \<times> quat" where
  "QuatNormalize fin q =
     (if \<not> fin then (False, qone)
      else let n2 = QuatDot q q
           in if \<not> 1 / 10 ^ 18 < n2 then (False, qone)
              else let inv = 1 / sqrt n2
                   in (True, \<lparr>qw = qw q * inv, qx = qx q * inv, qy = qy q * inv, qz = qz q * inv\<rparr>))"

definition QuatSameHemisphere :: "quat \<Rightarrow> quat \<Rightarrow> quat" where
  "QuatSameHemisphere reference q =
     (let s = (if QuatDot reference q < 0 then -1 else 1)
      in \<lparr>qw = qw q * s, qx = qx q * s, qy = qy q * s, qz = qz q * s\<rparr>)"

definition QuatAngleRad :: "quat \<Rightarrow> quat \<Rightarrow> real" where
  "QuatAngleRad a b =
     (case (QuatNormalize True a, QuatNormalize True b) of
        ((okA, na), (okB, nb)) \<Rightarrow>
          if \<not> okA \<or> \<not> okB then 0
          else let d = SS_Clamp \<bar>QuatDot na nb\<bar> 0 1 in 2 * arccos d)"

definition QuatNlerpShortest :: "quat \<Rightarrow> quat \<Rightarrow> real \<Rightarrow> quat" where
  "QuatNlerpShortest from to alpha =
     (case (QuatNormalize True from, QuatNormalize True to) of
        ((okF, nf), (okT, nt)) \<Rightarrow>
          if \<not> okF then nt else if \<not> okT then nf
          else let hemi = QuatSameHemisphere nf nt;
                   alpha = Saturate alpha
               in snd (QuatNormalize True (qmap2 (\<lambda>f h. f + alpha * (h - f)) nf hemi)))"

section \<open>The filter\<close>

record filter_state =
  fs_initialized :: bool
  prevRawPos :: vec3
  prevRawRot :: quat
  filteredPos :: vec3
  filteredRot :: quat
  linearSpeedHat :: real
  angularSpeedHat :: real
  posRelease :: real
  rotRelease :: real

definition FilterState_init :: filter_state where
  "FilterState_init = \<lparr>fs_initialized = False, prevRawPos = vzero, prevRawRot = qone, filteredPos = vzero,
     filteredRot = qone, linearSpeedHat = 0, angularSpeedHat = 0, posRelease = 1, rotRelease = 1\<rparr>"

datatype ReseedReason = ReseedNone | ReseedInit | ReseedGap | ReseedJump

record step_result =
  sr_posAlpha :: real
  sr_rotAlpha :: real
  sr_posRelease :: real
  sr_rotRelease :: real
  sr_posCutoffHz :: real
  sr_rotCutoffHz :: real
  sr_reseeded :: bool
  sr_reason :: ReseedReason

definition StepResult_init :: step_result where
  "StepResult_init = \<lparr>sr_posAlpha = 1, sr_rotAlpha = 1, sr_posRelease = 1, sr_rotRelease = 1,
     sr_posCutoffHz = 0, sr_rotCutoffHz = 0, sr_reseeded = False, sr_reason = ReseedNone\<rparr>"

definition SeedFilter :: "vec3 \<Rightarrow> quat \<Rightarrow> filter_state \<Rightarrow> filter_state" where
  "SeedFilter rawPos rawRot s =
     (let n = snd (QuatNormalize True rawRot)
      in s\<lparr>prevRawPos := rawPos, filteredPos := rawPos, prevRawRot := n, filteredRot := n,
           linearSpeedHat := 0, angularSpeedHat := 0, posRelease := 1, rotRelease := 1, fs_initialized := True\<rparr>)"

text \<open>The three reseeding branches.\<close>

definition reseed :: "ReseedReason \<Rightarrow> vec3 \<Rightarrow> quat \<Rightarrow> filter_state \<Rightarrow> step_result \<times> filter_state" where
  "reseed reason rawPos rawRot s =
     (let s = SeedFilter rawPos rawRot s
      in (StepResult_init\<lparr>sr_reseeded := True, sr_reason := reason, sr_posRelease := posRelease s,
            sr_rotRelease := rotRelease s\<rparr>, s))"

text \<open>The estimate of one speed, its release and its blending weight; the linear and the angular
  channel differ in the parameters only.\<close>

record channel =
  ch_speedHat :: real
  ch_release :: real
  ch_cutoff :: real
  ch_alpha :: real

definition channel_speed :: "ss_params \<Rightarrow> real \<Rightarrow> real \<Rightarrow> real \<Rightarrow> real \<Rightarrow> real \<times> real \<times> real \<Rightarrow> real \<Rightarrow> real" where
  "channel_speed p dt derived reported innovation deadbands speedHat =
     (let (derivedDeadband, reportedDeadband, innovationDeadband) = deadbands;
          instant = max (max (max 0 (derived - derivedDeadband)) (max 0 (reported - reportedDeadband)))
                      (max 0 (innovation / innovationTauSeconds p - innovationDeadband));
          derivAlpha = AlphaFromCutoffHz (derivCutoffHz p) dt
      in speedHat + derivAlpha * (instant - speedHat))"

definition channel_release :: "ss_params \<Rightarrow> real \<Rightarrow> real \<Rightarrow> real \<times> real \<times> real \<times> real \<Rightarrow> real \<Rightarrow> real \<Rightarrow> real" where
  "channel_release p dt innovation ramps speedHat release =
     (let (still, moving, errStill, errMoving) = ramps;
          target = max (SS_SmoothStep still moving speedHat) (SS_SmoothStep errStill errMoving innovation)
      in UpdateEnvelope release target dt (gateAttackTauSeconds p) (gateReleaseTauSeconds p))"

definition channel_cutoff :: "ss_params \<Rightarrow> real \<Rightarrow> real \<Rightarrow> real \<Rightarrow> real \<times> real \<times> real \<Rightarrow> real \<Rightarrow> real \<Rightarrow> real" where
  "channel_cutoff p dt innovation errStill cutoffs speedHat release =
     (let (minCutoff, beta, maxErrSpeed) = cutoffs;
          errSpeed = min (max 0 (innovation - errStill) / dt) maxErrSpeed;
          speedForCutoff = max speedHat errSpeed;
          cutoff = SS_Clamp (minCutoff + beta * speedForCutoff) minCutoff (maxCutoffHz p)
      in max cutoff (SS_Lerp minCutoff (maxCutoffHz p) release))"

definition filter_channel :: "ss_params \<Rightarrow> real \<Rightarrow> real \<Rightarrow> real \<Rightarrow> real \<Rightarrow> real \<times> real \<times> real
    \<Rightarrow> real \<times> real \<times> real \<times> real \<Rightarrow> real \<times> real \<times> real \<Rightarrow> real \<times> real \<Rightarrow> channel" where
  "filter_channel p dt derived reported innovation deadbands ramps cutoffs old =
     (let speedHat = channel_speed p dt derived reported innovation deadbands (fst old);
          release = channel_release p dt innovation ramps speedHat (snd old);
          cutoff = channel_cutoff p dt innovation (fst (snd (snd ramps))) cutoffs speedHat release;
          alpha = AlphaFromCutoffHz cutoff dt;
          alpha = alpha + (1 - alpha) * release
      in \<lparr>ch_speedHat = speedHat, ch_release = release, ch_cutoff = cutoff, ch_alpha = alpha\<rparr>)"

definition FilterStep :: "bool \<Rightarrow> bool \<Rightarrow> ss_params \<Rightarrow> vec3 \<Rightarrow> quat \<Rightarrow> real \<Rightarrow> real \<Rightarrow> real \<Rightarrow> filter_state
    \<Rightarrow> step_result \<times> filter_state" where
  "FilterStep posFinite rotFinite p rawPos rawRotIn reportedLinearSpeed reportedAngularSpeed rawDtSeconds s =
     (case QuatNormalize rotFinite rawRotIn of (okRot, rawRot) \<Rightarrow>
        if \<not> okRot \<or> \<not> posFinite
        then (StepResult_init\<lparr>sr_reseeded := True, sr_reason := ReseedInit\<rparr>, s\<lparr>fs_initialized := False\<rparr>)
        else if \<not> fs_initialized s then reseed ReseedInit rawPos rawRot s
        else if \<not> 0 < rawDtSeconds \<or> resetGapSeconds p < rawDtSeconds then reseed ReseedGap rawPos rawRot s
        else
          let dt = SS_Clamp rawDtSeconds (1 / 1000) (50 / 1000);
              rawRot = QuatSameHemisphere (prevRawRot s) rawRot;
              posInnovation = Distance3 rawPos (filteredPos s);
              rotInnovation = QuatAngleRad rawRot (filteredRot s)
          in if positionJumpM p < posInnovation \<or> rotationJumpRad p < rotInnovation
             then reseed ReseedJump rawPos rawRot s
             else
               let derivedLinearSpeed = min (Distance3 rawPos (prevRawPos s) / dt) 15;
                   derivedAngularSpeed = min (QuatAngleRad rawRot (prevRawRot s) / dt) 80;
                   pos = filter_channel p dt derivedLinearSpeed reportedLinearSpeed posInnovation
                           (linDerivedDeadband p, linReportedDeadband p, linInnovationDeadband p)
                           (linStillSpeed p, linMovingSpeed p, posErrStillM p, posErrMovingM p)
                           (posMinCutoffHz p, posBetaHzPerMps p, 3) (linearSpeedHat s, posRelease s);
                   rot = filter_channel p dt derivedAngularSpeed reportedAngularSpeed rotInnovation
                           (angDerivedDeadband p, angReportedDeadband p, angInnovationDeadband p)
                           (angStillSpeed p, angMovingSpeed p, rotErrStillRad p, rotErrMovingRad p)
                           (rotMinCutoffHz p, rotBetaHzPerRadps p, 20) (angularSpeedHat s, rotRelease s)
               in (\<lparr>sr_posAlpha = ch_alpha pos, sr_rotAlpha = ch_alpha rot, sr_posRelease = ch_release pos,
                    sr_rotRelease = ch_release rot, sr_posCutoffHz = ch_cutoff pos, sr_rotCutoffHz = ch_cutoff rot,
                    sr_reseeded = False, sr_reason = ReseedNone\<rparr>,
                   s\<lparr>linearSpeedHat := ch_speedHat pos, angularSpeedHat := ch_speedHat rot,
                     posRelease := ch_release pos, rotRelease := ch_release rot,
                     filteredPos := vmap2 (\<lambda>f r. f + ch_alpha pos * (r - f)) (filteredPos s) rawPos,
                     filteredRot := QuatNlerpShortest (filteredRot s) rawRot (ch_alpha rot),
                     prevRawPos := rawPos, prevRawRot := rawRot\<rparr>))"

section \<open>Ranges of the curves\<close>

lemma Saturate_range [simp]: "0 \<le> Saturate x" "Saturate x \<le> 1"
  by (simp_all add: Saturate_def SS_Clamp_def)

lemma Saturate_id: "0 \<le> x \<Longrightarrow> x \<le> 1 \<Longrightarrow> Saturate x = x"
  by (simp add: Saturate_def SS_Clamp_def)

lemma kPi_bounds: "3 < kPi" "kPi < 4"
  unfolding kPi_def by (subst pos_less_divide_eq pos_divide_less_eq; simp)+

lemma SmoothnessToFactor_range: "0 \<le> SmoothnessToFactor s \<and> SmoothnessToFactor s \<le> 1"
proof -
  have "0 \<le> t * t \<and> t * t \<le> 1" if "0 \<le> t" "t \<le> 1" for t :: real
    using that mult_le_one by simp
  from this [of "1 - (let s = of_nat (unat s) in if 100 < s then 100 else s) / 100"]
  show ?thesis by (auto simp: SmoothnessToFactor_def Let_def simp del: of_nat_unat split: if_splits)
qed

lemma SmoothnessToFactor_mono: "a \<le> b \<Longrightarrow> SmoothnessToFactor b \<le> SmoothnessToFactor a"
proof -
  assume "a \<le> b"
  then have "unat a \<le> unat b" by (simp add: word_le_nat_alt)
  then have le: "(of_nat (unat a) :: real) \<le> of_nat (unat b)" by (simp only: of_nat_le_iff)
  let ?c = "\<lambda>s :: byte. if 100 < (of_nat (unat s) :: real) then 100 else of_nat (unat s) :: real"
  have "0 \<le> 1 - ?c b / 100" "1 - ?c b / 100 \<le> 1 - ?c a / 100" using le by simp_all
  from mult_mono [OF this(2,2) order_trans [OF this] this(1)]
  show ?thesis by (simp add: SmoothnessToFactor_def Let_def del: of_nat_unat)
qed

lemma clamped_dt: "1 / 1000 \<le> SS_Clamp dt (1 / 1000) (50 / 1000)" "SS_Clamp dt (1 / 1000) (50 / 1000) \<le> 50 / 1000"
  by (simp_all add: SS_Clamp_def)

lemma weight_range:
  assumes "0 < d" "0 < (t :: real)"
  shows "0 < d / (d + t)" "d / (d + t) < 1"
  using assms by simp_all

lemma AlphaFromCutoffHz_range: "0 < AlphaFromCutoffHz c dt" "AlphaFromCutoffHz c dt < 1"
proof -
  have "0 < 1 / (2 * kPi * SS_Clamp c (1 / 1000) 120)"
    using kPi_bounds by (simp add: SS_Clamp_def)
  from weight_range [OF _ this, of "SS_Clamp dt (1 / 1000) (50 / 1000)"] clamped_dt(1) [of dt]
  show "0 < AlphaFromCutoffHz c dt" "AlphaFromCutoffHz c dt < 1"
    by (simp_all add: AlphaFromCutoffHz_def Let_def)
qed

lemma AlphaFromTau_range: "0 < AlphaFromTau tau dt" "AlphaFromTau tau dt < 1"
proof -
  have "0 < max (5 / 10000) tau" by simp
  from weight_range [OF _ this, of "SS_Clamp dt (1 / 1000) (50 / 1000)"] clamped_dt(1) [of dt]
  show "0 < AlphaFromTau tau dt" "AlphaFromTau tau dt < 1" by (simp_all add: AlphaFromTau_def Let_def)
qed

text \<open>The slowest cutoff the slider can ask for still moves the output by 1/400 per sample.\<close>

lemma AlphaFromCutoffHz_lower:
  assumes "45 / 100 \<le> c"
  shows "1 / 400 \<le> AlphaFromCutoffHz c dt"
proof -
  define d where "d = SS_Clamp dt (1 / 1000) (50 / 1000)"
  define k where "k = SS_Clamp c (1 / 1000) 120"
  have d: "1 / 1000 \<le> d" by (simp add: d_def SS_Clamp_def)
  have k: "45 / 100 \<le> k" using assms by (simp add: k_def SS_Clamp_def)
  have "27 / 10 \<le> 2 * kPi * k"
    using mult_mono [of 6 "2 * kPi" "45 / 100" k] kPi_bounds k by simp
  then have t: "1 / (2 * kPi * k) \<le> 10 / 27" "0 < 1 / (2 * kPi * k)"
    using frac_le [of 1 1 "27 / 10" "2 * kPi * k"] by simp_all
  have "d + 1 / (2 * kPi * k) \<le> 400 * d" using t(1) d by linarith
  moreover have "0 < d + 1 / (2 * kPi * k)" using t(2) d by linarith
  moreover have "1 / 400 \<le> d / e" if "e \<le> 400 * d" "0 < e" for e
    using that by (subst pos_le_divide_eq) auto
  ultimately have "1 / 400 \<le> d / (d + 1 / (2 * kPi * k))" by blast
  then show ?thesis by (simp add: AlphaFromCutoffHz_def Let_def d_def k_def)
qed

section \<open>One channel\<close>

lemma channel_speed_nonneg:
  assumes "0 \<le> speedHat"
  shows "0 \<le> channel_speed p dt derived reported innovation deadbands speedHat"
proof -
  define w where "w = AlphaFromCutoffHz (derivCutoffHz p) dt"
  have mix: "0 \<le> speedHat + w * (i - speedHat)" if "0 \<le> i" for i
  proof -
    have "speedHat + w * (i - speedHat) = (1 - w) * speedHat + w * i" by (simp add: algebra_simps)
    then show ?thesis using that assms AlphaFromCutoffHz_range [of "derivCutoffHz p" dt] by (simp add: w_def)
  qed
  show ?thesis
    by (simp add: channel_speed_def Let_def w_def [symmetric] split: prod.splits) (intro allI impI mix, simp)
qed

lemma channel_release_range:
  "0 \<le> channel_release p dt innovation ramps speedHat release"
  "channel_release p dt innovation ramps speedHat release \<le> 1"
  by (simp_all add: channel_release_def UpdateEnvelope_def Let_def split: prod.splits)

lemma channel_cutoff_lower:
  assumes "45 / 100 \<le> fst cutoffs" "45 / 100 \<le> maxCutoffHz p"
  shows "45 / 100 \<le> channel_cutoff p dt innovation errStill cutoffs speedHat release"
proof -
  obtain lo beta m where c: "cutoffs = (lo, beta, m)" by (cases cutoffs rule: prod_cases3)
  have "45 / 100 \<le> SS_Clamp x lo (maxCutoffHz p)" for x using assms c by (simp add: SS_Clamp_def)
  then show ?thesis unfolding channel_cutoff_def c Let_def prod.case by (rule max.coboundedI1)
qed

lemma filter_channel_range:
  assumes "45 / 100 \<le> fst cutoffs" and "45 / 100 \<le> maxCutoffHz p" and "0 \<le> fst old"
    and c: "c = filter_channel p dt derived reported innovation deadbands ramps cutoffs old"
  shows "1 / 400 \<le> ch_alpha c" "ch_alpha c \<le> 1" "0 \<le> ch_release c" "ch_release c \<le> 1" "0 \<le> ch_speedHat c"
proof -
  have rel: "0 \<le> ch_release c" "ch_release c \<le> 1"
    unfolding c filter_channel_def Let_def by (simp_all add: channel_release_range)
  then show "0 \<le> ch_release c" "ch_release c \<le> 1" .
  show "0 \<le> ch_speedHat c"
    unfolding c filter_channel_def Let_def using assms(3) by (simp add: channel_speed_nonneg)
  define a where "a = AlphaFromCutoffHz (ch_cutoff c) dt"
  have al: "ch_alpha c = a + (1 - a) * ch_release c"
    unfolding a_def c filter_channel_def Let_def by simp
  have "45 / 100 \<le> ch_cutoff c"
    unfolding c filter_channel_def Let_def channel.simps by (rule channel_cutoff_lower [OF assms(1,2)])
  then have a: "1 / 400 \<le> a" "a < 1"
    unfolding a_def by (rule AlphaFromCutoffHz_lower, intro AlphaFromCutoffHz_range)
  have "0 \<le> (1 - a) * ch_release c" using a rel by simp
  then show "1 / 400 \<le> ch_alpha c" using al a by linarith
  have "(1 - a) * ch_release c \<le> (1 - a) * 1" using a rel by (intro mult_left_mono) simp_all
  then show "ch_alpha c \<le> 1" using al by simp
qed

section \<open>The output stays between its past and the input\<close>

lemma QuatNormalize_unit: "qnorm2 (snd (QuatNormalize fin q)) = 1"
proof (cases "fin \<and> 1 / 10 ^ 18 < QuatDot q q")
  case True
  have "(0 :: real) < 1 / 10 ^ 18" by simp
  then have "0 < QuatDot q q" using True by (meson less_trans)
  have sc: "qnorm2 \<lparr>qw = qw q * i, qx = qx q * i, qy = qy q * i, qz = qz q * i\<rparr> = QuatDot q q * (i * i)" for i
    by (simp add: qnorm2_def QuatDot_def algebra_simps)
  have "snd (QuatNormalize fin q) = (let i = 1 / sqrt (QuatDot q q)
      in \<lparr>qw = qw q * i, qx = qx q * i, qy = qy q * i, qz = qz q * i\<rparr>)"
    using True by (simp only: QuatNormalize_def Let_def if_False if_True not_True_eq_False snd_conv)
  then have "qnorm2 (snd (QuatNormalize fin q)) = QuatDot q q * (1 / sqrt (QuatDot q q) * (1 / sqrt (QuatDot q q)))"
    by (simp only: Let_def sc)
  also have "\<dots> = 1" using \<open>0 < QuatDot q q\<close> by simp
  finally show ?thesis .
qed (auto simp: QuatNormalize_def Let_def qone_def qnorm2_def)

lemma QuatNlerpShortest_unit: "qnorm2 (QuatNlerpShortest a b t) = 1"
proof -
  have "qnorm2 n = 1" if "QuatNormalize True q = (ok, n)" for q ok n
    using QuatNormalize_unit [of True q] that by simp
  then show ?thesis
    by (auto simp: QuatNlerpShortest_def Let_def QuatNormalize_unit split: prod.splits)
qed

lemma step_between:
  assumes "0 \<le> a" "a \<le> (1 :: real)"
  shows "min f r \<le> f + a * (r - f) \<and> f + a * (r - f) \<le> max f r"
proof -
  have "f + a * (r - f) = blend_component a f r" by (simp add: blend_component_def algebra_simps)
  then show ?thesis using blend_component_between [OF assms] by simp
qed

lemma BuildParams_cutoffs:
  "45 / 100 \<le> posMinCutoffHz (BuildParams sm)" "45 / 100 \<le> rotMinCutoffHz (BuildParams sm)"
  "maxCutoffHz (BuildParams sm) = 90"
  by (simp_all add: BuildParams_def Let_def default_params_def)

text \<open>What a step does to the position: it is reseeded, or moves by a weight between 1/400 and 1.\<close>

definition filter_ok :: "filter_state \<Rightarrow> bool" where
  "filter_ok s \<longleftrightarrow> 0 \<le> linearSpeedHat s \<and> 0 \<le> angularSpeedHat s \<and> 0 \<le> posRelease s \<and> posRelease s \<le> 1
     \<and> 0 \<le> rotRelease s \<and> rotRelease s \<le> 1 \<and> qnorm2 (filteredRot s) = 1"

lemma filter_ok_init: "filter_ok FilterState_init"
  by (simp add: filter_ok_def FilterState_init_def qone_def qnorm2_def)

lemma filter_ok_reseed: "filter_ok (snd (reseed r pos rot s))"
  by (simp add: filter_ok_def reseed_def SeedFilter_def Let_def QuatNormalize_unit)

lemma FilterStep_cases:
  assumes "fst (QuatNormalize rotFinite rot)" and "posFinite" and "filter_ok s"
    and "FilterStep posFinite rotFinite (BuildParams sm) pos rot lin ang dt s = (r, s')"
  shows "filter_ok s' \<and> fs_initialized s' \<and> (filteredPos s' = pos
      \<or> (fs_initialized s \<and> (\<exists>a. 1 / 400 \<le> a \<and> a \<le> 1
           \<and> filteredPos s' = vmap2 (\<lambda>f r. f + a * (r - f)) (filteredPos s) pos)))"
proof -
  obtain q where q: "QuatNormalize rotFinite rot = (True, q)"
    using assms(1) by (cases "QuatNormalize rotFinite rot") simp
  have seed: "filter_ok s' \<and> fs_initialized s' \<and> filteredPos s' = pos"
    if "reseed reason pos q' s = (r, s')" for reason q'
    using that filter_ok_reseed [of reason pos q' s] by (auto simp: reseed_def SeedFilter_def Let_def)
  show ?thesis
  proof (cases "\<exists>reason q'. reseed reason pos q' s = (r, s')")
    case True
    then show ?thesis using seed by blast
  next
    case False
    let ?ch = "filter_channel (BuildParams sm)"
    note range = filter_channel_range [where p = "BuildParams sm", OF _ _ _ refl]
    from False assms q obtain dt' d1 d2 i1 i2 b1 b2 r1 r2 x1 x2 q' pos' where
      init: "fs_initialized s" and
      s': "s' = (let c1 = ?ch dt' d1 lin i1 b1 r1 (posMinCutoffHz (BuildParams sm), x1) (linearSpeedHat s, posRelease s);
                c2 = ?ch dt' d2 ang i2 b2 r2 (rotMinCutoffHz (BuildParams sm), x2) (angularSpeedHat s, rotRelease s)
            in s\<lparr>linearSpeedHat := ch_speedHat c1, angularSpeedHat := ch_speedHat c2,
                 posRelease := ch_release c1, rotRelease := ch_release c2,
                 filteredPos := vmap2 (\<lambda>f r. f + ch_alpha c1 * (r - f)) (filteredPos s) pos,
                 filteredRot := QuatNlerpShortest (filteredRot s) q' (ch_alpha c2),
                 prevRawPos := pos, prevRawRot := q'\<rparr>)"
      unfolding FilterStep_def Let_def by (fastforce split: if_splits)
    have ok: "45 / 100 \<le> fst (posMinCutoffHz (BuildParams sm), x1)" "45 / 100 \<le> fst (rotMinCutoffHz (BuildParams sm), x2)"
      "45 / 100 \<le> maxCutoffHz (BuildParams sm)" "0 \<le> fst (linearSpeedHat s, posRelease s)"
      "0 \<le> fst (angularSpeedHat s, rotRelease s)"
      using BuildParams_cutoffs assms(3) by (simp_all add: filter_ok_def)
    define c1 where "c1 = ?ch dt' d1 lin i1 b1 r1 (posMinCutoffHz (BuildParams sm), x1) (linearSpeedHat s, posRelease s)"
    define c2 where "c2 = ?ch dt' d2 ang i2 b2 r2 (rotMinCutoffHz (BuildParams sm), x2) (angularSpeedHat s, rotRelease s)"
    note n1 = filter_channel_range [OF ok(1,3,4) c1_def] and n2 = filter_channel_range [OF ok(2,3,5) c2_def]
    have "filteredPos s' = vmap2 (\<lambda>f r. f + ch_alpha c1 * (r - f)) (filteredPos s) pos" "fs_initialized s'"
      using init unfolding s' c1_def [symmetric] c2_def [symmetric] Let_def by simp_all
    moreover have "filter_ok s'"
      using n1(3-5) n2(3-5) unfolding s' c1_def [symmetric] c2_def [symmetric] Let_def
      by (simp add: filter_ok_def QuatNlerpShortest_unit)
    ultimately show ?thesis using n1(1,2) init by blast
  qed
qed

section \<open>Runs\<close>

text \<open>A sample: the position, the rotation with the flag that it is finite, the reported speeds and the
  time since the sample before.\<close>

record filter_input =
  fi_pos :: vec3
  fi_rot :: quat
  fi_rotFinite :: bool
  fi_linear :: real
  fi_angular :: real
  fi_dt :: real

definition filter_tick :: "byte \<Rightarrow> filter_input \<Rightarrow> filter_state \<Rightarrow> filter_state" where
  "filter_tick sm i s = snd (FilterStep True (fi_rotFinite i) (BuildParams sm) (fi_pos i) (fi_rot i)
     (fi_linear i) (fi_angular i) (fi_dt i) s)"

definition usable :: "filter_input \<Rightarrow> bool" where
  "usable i \<longleftrightarrow> fst (QuatNormalize (fi_rotFinite i) (fi_rot i))"

lemma filter_tick_cases:
  assumes "usable i" "filter_ok s"
  shows "filter_ok (filter_tick sm i s) \<and> fs_initialized (filter_tick sm i s) \<and> (filteredPos (filter_tick sm i s) = fi_pos i
      \<or> (fs_initialized s \<and> (\<exists>a. 1 / 400 \<le> a \<and> a \<le> 1
           \<and> filteredPos (filter_tick sm i s) = vmap2 (\<lambda>f r. f + a * (r - f)) (filteredPos s) (fi_pos i))))"
  unfolding filter_tick_def
  by (rule FilterStep_cases [OF assms(1) [unfolded usable_def] TrueI assms(2) prod.collapse [symmetric]])

lemma filter_run_ok:
  "list_all usable is \<Longrightarrow> filter_ok s \<Longrightarrow> filter_ok (fold (filter_tick sm) is s)"
  by (induction "is" arbitrary: s) (auto simp: filter_tick_cases)

text \<open>C27: Smoothing never overshoots. Along any sequence of usable samples, at any slider setting, every
  coordinate of the filtered position lies between the filtered position before and the raw position
  of the sample, the filtered rotation is a unit quaternion, and both release factors stay between
  zero and one.
\<close>

theorem filter_never_overshoots:
  assumes "list_all usable is" and "usable i" and "is \<noteq> []"
  shows "let s = fold (filter_tick sm) is FilterState_init; s' = filter_tick sm i s
     in vbetween (filteredPos s) (fi_pos i) (filteredPos s') \<and> qnorm2 (filteredRot s') = 1
        \<and> 0 \<le> posRelease s' \<and> posRelease s' \<le> 1 \<and> 0 \<le> rotRelease s' \<and> rotRelease s' \<le> 1"
proof -
  let ?s = "fold (filter_tick sm) is FilterState_init"
  have "filter_ok ?s" using filter_run_ok [OF assms(1) filter_ok_init] .
  note c = filter_tick_cases [OF assms(2) this, of sm]
  then have "vbetween (filteredPos ?s) (fi_pos i) (filteredPos (filter_tick sm i ?s))"
    by (auto simp: vbetween_def vmap2_def step_between)
  then show ?thesis using c by (simp add: Let_def filter_ok_def)
qed

lemma Distance3_step:
  assumes "a \<le> 1"
  shows "Distance3 (vmap2 (\<lambda>f r. f + a * (r - f)) f r) r = (1 - a) * Distance3 f r"
proof -
  have e: "x + a * (y - x) - y = (1 - a) * (x - y)" for x y :: real by (simp add: algebra_simps)
  have "Distance3 (vmap2 (\<lambda>f r. f + a * (r - f)) f r) r
      = sqrt ((1 - a)\<^sup>2 * ((vx f - vx r) * (vx f - vx r) + (vy f - vy r) * (vy f - vy r) + (vz f - vz r) * (vz f - vz r)))"
    unfolding Distance3_def vmap2_def Let_def vec3.simps e by (simp add: power2_eq_square algebra_simps)
  then show ?thesis using assms by (simp add: real_sqrt_mult Distance3_def Let_def)
qed

lemma Distance3_refl [simp]: "Distance3 v v = 0"
  by (simp add: Distance3_def)

lemma Distance3_nonneg: "0 \<le> Distance3 a b"
  by (simp add: Distance3_def Let_def)

text \<open>Smoothing never freezes a device. While the device rests at one position, at any slider setting
  and for any time stamps and reported speeds, the distance of the published position to the real
  one shrinks by at least 1/400 with every sample.
\<close>

theorem filter_never_freezes:
  assumes "list_all usable is" and "\<forall>i\<in>set is. fi_pos i = p" and "filter_ok s"
  shows "Distance3 (filteredPos (fold (filter_tick sm) is s)) p
     \<le> (399 / 400) ^ length is * Distance3 (filteredPos s) p"
  using assms
proof (induction "is" arbitrary: s)
  case (Cons i "is")
  let ?s = "filter_tick sm i s"
  have c: "filter_ok ?s" "filteredPos ?s = p \<or> (\<exists>a. 1 / 400 \<le> a \<and> a \<le> 1
      \<and> filteredPos ?s = vmap2 (\<lambda>f r. f + a * (r - f)) (filteredPos s) p)"
    using filter_tick_cases [of i s sm] Cons.prems by auto
  have "Distance3 (filteredPos ?s) p \<le> 399 / 400 * Distance3 (filteredPos s) p"
  proof (cases "filteredPos ?s = p")
    case False
    then obtain a where "1 / 400 \<le> a" "a \<le> 1" "Distance3 (filteredPos ?s) p = (1 - a) * Distance3 (filteredPos s) p"
      using c(2) Distance3_step by metis
    moreover from this have "(1 - a) * Distance3 (filteredPos s) p \<le> 399 / 400 * Distance3 (filteredPos s) p"
      by (intro mult_right_mono Distance3_nonneg) simp
    ultimately show ?thesis by simp
  qed (simp add: Distance3_nonneg)
  then have "(399 / 400) ^ length is * Distance3 (filteredPos ?s) p
      \<le> (399 / 400) ^ length is * (399 / 400 * Distance3 (filteredPos s) p)"
    by (intro mult_left_mono) simp_all
  moreover have "Distance3 (filteredPos (fold (filter_tick sm) is ?s)) p
      \<le> (399 / 400) ^ length is * Distance3 (filteredPos ?s) p"
    using Cons.IH [of ?s] Cons.prems c(1) by simp
  ultimately show ?case by (simp only: fold_simps length_Cons power_Suc2 mult.assoc)
qed simp

section \<open>Concrete samples\<close>

definition still_sample :: "real \<Rightarrow> filter_input" where
  "still_sample x = \<lparr>fi_pos = \<lparr>vx = x, vy = 0, vz = 0\<rparr>, fi_rot = qone, fi_rotFinite = True,
     fi_linear = 0, fi_angular = 0, fi_dt = 1 / 100\<rparr>"

lemma still_sample_usable: "usable (still_sample x)"
  by (simp add: usable_def still_sample_def QuatNormalize_def QuatDot_def qone_def)

theorem filter_never_overshoots_witness:
  "vbetween (filteredPos (filter_tick 50 (still_sample 1) FilterState_init)) (fi_pos (still_sample 2))
     (filteredPos (filter_tick 50 (still_sample 2) (filter_tick 50 (still_sample 1) FilterState_init)))"
  using filter_never_overshoots [of "[still_sample 1]" "still_sample 2" 50]
  by (simp add: still_sample_usable Let_def)

theorem filter_never_freezes_witness:
  "Distance3 (filteredPos (fold (filter_tick 100) [still_sample 1, still_sample 1] FilterState_init)) (fi_pos (still_sample 1))
     \<le> (399 / 400) ^ 2"
  using filter_never_freezes [of "[still_sample 1, still_sample 1]" "fi_pos (still_sample 1)" FilterState_init 100]
  by (simp add: still_sample_usable filter_ok_init)
    (simp add: still_sample_def FilterState_init_def Distance3_def vzero_def power2_eq_square)

end
