(* ===== verification/Protocol.thy ===== *)
theory Protocol
  imports Prelude
begin

text \<open>
  The IPC messages of \<open>core/src/common/Protocol.h\<close> and \<open>ProtocolPayloads.h\<close>. A request is a type tag
  and a union of which the handlers read the member that belongs to the tag: one constructor per tag,
  with the payload where a modelled module reads it (as records below, padding left out) and the raw
  bytes where not. Double-precision payload fields are kept as bit patterns.
\<close>

definition Version :: u32 where "Version = 26"

record osc_route_subscribe =
  sub_subscriber_id :: u32
  sub_enabled :: byte
  sub_pattern :: "byte list"

record osc_publish =
  pub_address :: "byte list"
  pub_typetag :: "byte list"
  pub_arg_len :: byte
  pub_arg_bytes :: "byte list"

record phantom_config =
  pc_master_enabled :: byte
  pc_blend_out_ms :: u32
  pc_blend_in_ms :: u32
  pc_reckon_hold_ms :: u32
  pc_synth_hold_ms :: u32
  pc_lost_hold_ms :: u32

record phantom_device_opt_in =
  oi_device_serial_hash :: u64
  oi_dropout_enabled :: byte

record phantom_device_role =
  dr_device_serial_hash :: u64
  dr_body_role :: byte

record phantom_tracker_offset =
  to_body_role :: byte
  to_calibrated :: byte
  to_rel_position :: "u64 list"
  to_rel_rotation :: "u64 list"

record phantom_virtual_enabled =
  ve_body_role :: byte
  ve_enabled :: byte

datatype request =
    RequestInvalid
  | RequestHandshake
  | RequestSetDeviceTransform "byte list"
  | RequestSetAlignmentSpeedParams "byte list"
  | RequestDebugOffset
  | RequestSetTrackingSystemFallback "byte list"
  | RequestSetFingerSmoothing "byte list"
  | RequestSetInputHealthConfig "byte list"
  | RequestResetInputHealthStats "byte list"
  | RequestSetInputHealthCompensation "byte list"
  | RequestSetDevicePrediction "byte list"
  | RequestSetFaceTrackingConfig "byte list"
  | RequestSetFaceCalibrationCommand "byte list"
  | RequestSetFaceActiveModule "byte list"
  | RequestFaceHostRestart
  | RequestOscRouteSubscribe osc_route_subscribe
  | RequestOscRouteUnsubscribe u32
  | RequestOscPublish osc_publish
  | RequestOscGetStats
  | RequestSetCaptionsConfig "byte list"
  | RequestCaptionsRestartHost
  | RequestCaptionsGetSupervisorStatus
  | RequestSetPhantomConfig phantom_config
  | RequestSetPhantomDeviceOptIn phantom_device_opt_in
  | RequestSetPhantomDeviceRole phantom_device_role
  | RequestSetPhantomTrackerOffset phantom_tracker_offset
  | RequestSetPhantomVirtualEnabled phantom_virtual_enabled
  | RequestSetOscRouterConfig u16
  | RequestSetHeadMountConfig "byte list"
  | RequestUnknown int

record router_stats =
  os_packets_sent :: u64
  os_bytes_sent :: u64
  os_packets_dropped :: u64
  os_active_routes :: u32

datatype response =
    ResponseInvalid
  | ResponseHandshake u32
  | ResponseSuccess
  | ResponseOscRouterStats router_stats
  | ResponseCaptionsSupervisorStatus byte u32 cstring

end
