(* ===== verification/Phantom.thy ===== *)
theory Phantom
  imports Kinematics Protocol
begin

text \<open>
  The phantom-tracker module, \<open>modules/phantom/src/driver/PhantomDriverModule.cpp\<close>, with the virtual
  trackers (\<open>VirtualTrackerManager.cpp\<close>, \<open>VirtualTrackerDevice.cpp\<close>) and the reader of the inference
  sidecar (\<open>SidecarBridge.cpp\<close>): the request handler, the pose hook and the override of a pose. The
  answers of the OpenVR runtime, the time and the content of the sidecar's segment are arguments.
\<close>

section \<open>Virtual trackers\<close>

record virtual_device =
  vd_object_id :: "nat option"
  vd_published :: "driver_pose list"

record virtual_trackers =
  vt_devices :: "virtual_device option list"
  vt_enabled :: "bool list"
  hmd_pose_seen :: bool
  init_time :: int

definition kInitSettleDelay :: int where "kInitSettleDelay = 3000"

definition virtual_init :: virtual_trackers where
  "virtual_init = \<lparr>vt_devices = replicate kBodyRoleCount None, vt_enabled = replicate kBodyRoleCount False,
     hmd_pose_seen = False, init_time = 0\<rparr>"

definition OnDriverInit :: "int \<Rightarrow> virtual_trackers \<Rightarrow> virtual_trackers" where
  "OnDriverInit now v = v\<lparr>init_time := now\<rparr>"

definition SetEnabled :: "nat \<Rightarrow> bool \<Rightarrow> virtual_trackers \<Rightarrow> virtual_trackers" where
  "SetEnabled role enabled v =
     (if role \<ge> length (vt_enabled v) then v else v\<lparr>vt_enabled := (vt_enabled v)[role := enabled]\<rparr>)"

text \<open>The runtime's answers: the time, whether the driver host exists, and for each role whether
  \<open>TrackedDeviceAdded\<close> succeeds and the object id it activates the device with, if it does so at once.\<close>

record virtual_env =
  ve_now :: int
  ve_host :: bool
  ve_added :: "nat \<Rightarrow> bool"
  ve_object :: "nat \<Rightarrow> nat option"

definition MaybeActivate :: "virtual_env \<Rightarrow> ik_fallback \<Rightarrow> nat \<Rightarrow> virtual_trackers \<Rightarrow> virtual_trackers" where
  "MaybeActivate e ik role v =
     (if role \<ge> length (vt_devices v) then v
      else if vt_devices v ! role \<noteq> None then v
      else if \<not> vt_enabled v ! role then v
      else if \<not> HasOffset role ik then v
      else if \<not> hmd_pose_seen v then v
      else if ve_now e - init_time v < kInitSettleDelay then v
      else if \<not> ve_host e then v
      else if \<not> ve_added e role then v
      else v\<lparr>vt_devices := (vt_devices v)[role := Some \<lparr>vd_object_id = ve_object e role, vd_published = []\<rparr>]\<rparr>)"

definition device_Publish :: "driver_pose \<Rightarrow> virtual_device \<Rightarrow> virtual_device" where
  "device_Publish pose d = d\<lparr>vd_published := vd_published d @ [pose]\<rparr>"

definition tick_role :: "virtual_env \<Rightarrow> driver_pose \<Rightarrow> ik_fallback \<Rightarrow> nat \<Rightarrow> virtual_trackers \<Rightarrow> virtual_trackers" where
  "tick_role e hmd_pose ik role v =
     (if BodyRoleToControllerType role = None then v
      else let v = MaybeActivate e ik role v
           in case vt_devices v ! role of
                None \<Rightarrow> v
              | Some d \<Rightarrow>
                  if vd_object_id d = None then v
                  else if \<not> vt_enabled v ! role then v
                  else case Solve role hmd_pose ik of
                         None \<Rightarrow> v
                       | Some synth \<Rightarrow> v\<lparr>vt_devices := (vt_devices v)[role := Some (device_Publish synth d)]\<rparr>)"

definition healthy_pose :: "driver_pose \<Rightarrow> bool" where
  "healthy_pose p \<longleftrightarrow> poseIsValid p \<and> deviceIsConnected p \<and> dp_result p = TrackingResult_Running_OK"

definition Virtual_Tick :: "virtual_env \<Rightarrow> driver_pose \<Rightarrow> ik_fallback \<Rightarrow> virtual_trackers \<Rightarrow> virtual_trackers" where
  "Virtual_Tick e hmd_pose ik v =
     (let v = (if healthy_pose hmd_pose then v\<lparr>hmd_pose_seen := True\<rparr> else v)
      in fold (tick_role e hmd_pose ik) [0..<kBodyRoleCount] v)"

section \<open>The sidecar's poses\<close>

record sidecar_tracker =
  st_valid :: bool
  st_position :: vec3
  st_rotation :: quat

record sidecar_out =
  global_confidence :: real
  out_trackers :: "sidecar_tracker list"

text \<open>\<open>None\<close> is a bridge that is not ready.\<close>

definition FetchPose :: "nat \<Rightarrow> real \<Rightarrow> sidecar_out option \<Rightarrow> driver_pose option" where
  "FetchPose role min_global out =
     (case out of
        None \<Rightarrow> None
      | Some L \<Rightarrow>
          if global_confidence L < min_global then None
          else if role \<ge> kBodyRoleCount then None
          else let t = out_trackers L ! role
               in if \<not> st_valid t then None
                  else Some (zero_pose\<lparr>dp_world := (qone, vzero, qone, vzero), vecPosition := st_position t,
                         qRotation := st_rotation t, poseIsValid := True, deviceIsConnected := True,
                         dp_result := TrackingResult_Running_OK\<rparr>))"

section \<open>The module\<close>

record device_slot =
  ds_history :: "driver_pose pose_history"
  ladder :: dropout_state
  serial :: cstring
  serial_hash :: u64
  opted_in :: bool
  ds_role :: nat
  is_hmd :: bool
  last_published :: driver_pose
  last_published_valid :: bool

definition DeviceSlot_init :: device_slot where
  "DeviceSlot_init = \<lparr>ds_history = PoseHistory_init zero_pose, ladder = DropoutState_init, serial = [],
     serial_hash = 0, opted_in = False, ds_role = 0, is_hmd = False, last_published = zero_pose,
     last_published_valid = False\<rparr>"

definition k_unMaxTrackedDeviceCount :: nat where "k_unMaxTrackedDeviceCount = 64"

text \<open>The records of the state segment and of the inference input segment.\<close>

record device_state =
  pds_epoch :: u32
  pds_state :: tracker_state
  pds_opted_in :: bool
  pds_dropout_count :: u32
  pds_dropout_age_ms :: u32
  pds_longest_dropout_ms :: u32
  pds_serial :: cstring

record tracker_input =
  ti_has_real_pose :: bool
  ti_has_offset :: bool
  ti_position :: vec3
  ti_rotation :: quat

record inference_in =
  in_epoch :: u32
  in_frame_id :: u32
  in_hmd_position :: vec3
  in_hmd_rotation :: quat
  in_trackers :: "tracker_input list"

record phantom_module =
  pm_timings :: ladder_timings
  master_enabled :: bool
  opt_in_by_serial_hash :: "u64 \<rightharpoonup> bool"
  role_by_serial_hash :: "u64 \<rightharpoonup> nat"
  last_hmd_pose :: driver_pose
  last_hmd_valid :: bool
  ik :: ik_fallback
  virtual :: virtual_trackers
  pm_slots :: "device_slot list"
  inference :: "inference_in option"
  inference_frame_id :: u32
  pm_shmem :: "device_state list option"
  last_snapshot_qpc :: int

definition PhantomModule_init :: phantom_module where
  "PhantomModule_init = \<lparr>pm_timings = LadderTimings_Defaults, master_enabled = False,
     opt_in_by_serial_hash = Map.empty, role_by_serial_hash = Map.empty, last_hmd_pose = zero_pose,
     last_hmd_valid = False, ik = IkFallback_init, virtual = virtual_init,
     pm_slots = replicate k_unMaxTrackedDeviceCount DeviceSlot_init, inference = None,
     inference_frame_id = 0, pm_shmem = None, last_snapshot_qpc = 0\<rparr>"

section \<open>Requests\<close>

definition or_default :: "u32 \<Rightarrow> u32 \<Rightarrow> u32" where
  "or_default v d = (if v \<noteq> 0 then v else d)"

definition config_timings :: "phantom_config \<Rightarrow> ladder_timings" where
  "config_timings c =
     \<lparr>dropout_silence_ms = dropout_silence_ms LadderTimings_Defaults,
      blend_out_ms = or_default (pc_blend_out_ms c) (blend_out_ms LadderTimings_Defaults),
      blend_in_ms = or_default (pc_blend_in_ms c) (blend_in_ms LadderTimings_Defaults),
      reckon_hold_ms = or_default (pc_reckon_hold_ms c) (reckon_hold_ms LadderTimings_Defaults),
      synth_hold_ms = or_default (pc_synth_hold_ms c) (synth_hold_ms LadderTimings_Defaults),
      lost_hold_ms = or_default (pc_lost_hold_ms c) (lost_hold_ms LadderTimings_Defaults)\<rparr>"

definition map_slots :: "(device_slot \<Rightarrow> device_slot) \<Rightarrow> phantom_module \<Rightarrow> phantom_module" where
  "map_slots f m = m\<lparr>pm_slots := map f (pm_slots m)\<rparr>"

definition HandlePhantomConfig :: "phantom_config \<Rightarrow> phantom_module \<Rightarrow> phantom_module" where
  "HandlePhantomConfig c m =
     map_slots (\<lambda>s. s\<lparr>ladder := SetTimings (config_timings c) (ladder s)\<rparr>)
       (m\<lparr>pm_timings := config_timings c, master_enabled := (pc_master_enabled c \<noteq> 0)\<rparr>)"

definition HandleDeviceOptIn :: "phantom_device_opt_in \<Rightarrow> phantom_module \<Rightarrow> phantom_module" where
  "HandleDeviceOptIn e m =
     map_slots (\<lambda>s. if serial_hash s = oi_device_serial_hash e
                    then s\<lparr>opted_in := (oi_dropout_enabled e \<noteq> 0)\<rparr> else s)
       (m\<lparr>opt_in_by_serial_hash := (opt_in_by_serial_hash m)(oi_device_serial_hash e \<mapsto> (oi_dropout_enabled e \<noteq> 0))\<rparr>)"

definition HandleDeviceRole :: "phantom_device_role \<Rightarrow> phantom_module \<Rightarrow> phantom_module" where
  "HandleDeviceRole e m =
     (let role = unat (dr_body_role e)
      in map_slots (\<lambda>s. if serial_hash s = dr_device_serial_hash e
                        then s\<lparr>ds_role := role, ladder := SetIkAvailable (HasOffset role (ik m)) (ladder s)\<rparr> else s)
           (m\<lparr>role_by_serial_hash := (if role = 0 then (role_by_serial_hash m)(dr_device_serial_hash e := None)
                                      else (role_by_serial_hash m)(dr_device_serial_hash e \<mapsto> role))\<rparr>))"

text \<open>\<open>dbl\<close> reads the bit pattern of a double.\<close>

definition HandleTrackerOffset :: "(u64 \<Rightarrow> real) \<Rightarrow> phantom_tracker_offset \<Rightarrow> phantom_module \<Rightarrow> phantom_module" where
  "HandleTrackerOffset dbl e m =
     (let role = unat (to_body_role e);
          p = map dbl (to_rel_position e); r = map dbl (to_rel_rotation e);
          ik' = (if to_calibrated e = 0 then ClearOffset role (ik m)
                 else SetOffset role \<lparr>vx = p ! 0, vy = p ! 1, vz = p ! 2\<rparr>
                        \<lparr>qw = r ! 0, qx = r ! 1, qy = r ! 2, qz = r ! 3\<rparr> (ik m))
      in map_slots (\<lambda>s. s\<lparr>ladder := SetIkAvailable (ds_role s \<noteq> 0 \<and> HasOffset (ds_role s) ik') (ladder s)\<rparr>)
           (m\<lparr>ik := ik'\<rparr>))"

definition HandleVirtualEnabled :: "phantom_virtual_enabled \<Rightarrow> phantom_module \<Rightarrow> phantom_module" where
  "HandleVirtualEnabled e m = m\<lparr>virtual := SetEnabled (unat (ve_body_role e)) (ve_enabled e \<noteq> 0) (virtual m)\<rparr>"

definition Phantom_HandleRequest ::
  "(u64 \<Rightarrow> real) \<Rightarrow> request \<Rightarrow> phantom_module \<Rightarrow> response option \<times> phantom_module" where
  "Phantom_HandleRequest dbl req m =
     (case req of
        RequestSetPhantomConfig c \<Rightarrow> (Some ResponseSuccess, HandlePhantomConfig c m)
      | RequestSetPhantomDeviceOptIn e \<Rightarrow> (Some ResponseSuccess, HandleDeviceOptIn e m)
      | RequestSetPhantomDeviceRole e \<Rightarrow> (Some ResponseSuccess, HandleDeviceRole e m)
      | RequestSetPhantomTrackerOffset e \<Rightarrow> (Some ResponseSuccess, HandleTrackerOffset dbl e m)
      | RequestSetPhantomVirtualEnabled e \<Rightarrow> (Some ResponseSuccess, HandleVirtualEnabled e m)
      | _ \<Rightarrow> (None, m))"

section \<open>The pose hook\<close>

text \<open>What \<open>VRProperties\<close> answers for a device: its serial (\<open>None\<close> when there is no property interface or
  container, an error or an empty string) and whether its class is the HMD's.\<close>

record property_answers =
  pa_serial :: "cstring option"
  pa_is_hmd :: bool

definition ResolveSerialIfMissing :: "property_answers \<Rightarrow> phantom_module \<Rightarrow> device_slot \<Rightarrow> device_slot" where
  "ResolveSerialIfMissing pa m s =
     (if serial s \<noteq> [] then s
      else case pa_serial pa of
             None \<Rightarrow> s
           | Some sn \<Rightarrow>
               if sn = [] then s
               else let h = Fnv1a64 (Some sn);
                        s = s\<lparr>serial := sn, serial_hash := h\<rparr>;
                        s = (if pa_is_hmd pa then s\<lparr>is_hmd := True\<rparr> else s);
                        s = (case opt_in_by_serial_hash m h of Some b \<Rightarrow> s\<lparr>opted_in := b\<rparr> | None \<Rightarrow> s)
                    in case role_by_serial_hash m h of Some r \<Rightarrow> s\<lparr>ds_role := r\<rparr> | None \<Rightarrow> s)"

text \<open>The pose the inference frame carries for a slot.\<close>

definition current_pose :: "device_slot \<Rightarrow> driver_pose" where
  "current_pose s =
     (if last_published_valid s then last_published s
      else case GetNewest 0 (ds_history s) of Some x \<Rightarrow> ps_pose x | None \<Rightarrow> zero_pose)"

definition put_tracker :: "device_slot \<Rightarrow> tracker_input list \<Rightarrow> tracker_input list" where
  "put_tracker s ts =
     (if ds_role s = 0 then ts
      else ts[ds_role s := (ts ! ds_role s)\<lparr>ti_has_real_pose := (state (ladder s) = REAL),
                ti_position := vecPosition (current_pose s), ti_rotation := qRotation (current_pose s)\<rparr>])"

definition write_inference :: "driver_pose \<Rightarrow> phantom_module \<Rightarrow> phantom_module" where
  "write_inference pose m =
     (case inference m of
        None \<Rightarrow> m
      | Some L \<Rightarrow>
          let fid = inference_frame_id m + 1;
              ts = map (\<lambda>(i, t). t\<lparr>ti_has_real_pose := False, ti_has_offset := HasOffset i (ik m)\<rparr>)
                     (enumerate 0 (in_trackers L));
              ts = fold put_tracker (pm_slots m) ts
          in m\<lparr>inference_frame_id := fid,
               inference := Some (L\<lparr>in_epoch := in_epoch L + 1 + 1, in_frame_id := fid,
                 in_hmd_position := vecPosition pose, in_hmd_rotation := qRotation pose, in_trackers := ts\<rparr>)\<rparr>)"

definition observe_slot :: "property_answers \<Rightarrow> int \<Rightarrow> driver_pose \<Rightarrow> phantom_module \<Rightarrow> device_slot \<Rightarrow> device_slot" where
  "observe_slot pa qpc_ns pose m s =
     (let s = ResolveSerialIfMissing pa m s;
          s = s\<lparr>ds_history := Push qpc_ns pose (ds_history s)\<rparr>
      in s\<lparr>ladder := Ladder_OnRealPoseObserved qpc_ns (healthy_pose pose)
            (SetIkAvailable (ds_role s \<noteq> 0 \<and> HasOffset (ds_role s) (ik m)) (SetTimings (pm_timings m) (ladder s)))\<rparr>)"

definition OnRealPoseObserved ::
  "property_answers \<Rightarrow> virtual_env \<Rightarrow> nat \<Rightarrow> int \<Rightarrow> driver_pose \<Rightarrow> phantom_module \<Rightarrow> phantom_module" where
  "OnRealPoseObserved pa ve openVRID qpc_ns pose m =
     (if openVRID \<ge> length (pm_slots m) then m
      else let s = observe_slot pa qpc_ns pose m (pm_slots m ! openVRID);
               m = m\<lparr>pm_slots := (pm_slots m)[openVRID := s]\<rparr>
           in if is_hmd s \<and> healthy_pose pose
              then let m = m\<lparr>last_hmd_pose := pose, last_hmd_valid := True\<rparr>;
                       m = m\<lparr>virtual := Virtual_Tick ve pose (ik m) (virtual m)\<rparr>
                   in write_inference pose m
              else m)"

section \<open>Overriding a pose\<close>

definition result_code :: "tracking_result \<Rightarrow> int" where
  "result_code r = (case r of Running_OutOfRange \<Rightarrow> TrackingResult_Running_OutOfRange
                            | Running_OK \<Rightarrow> TrackingResult_Running_OK)"

definition snapshot_slot :: "int \<Rightarrow> int \<Rightarrow> device_slot \<Rightarrow> device_state \<Rightarrow> device_state" where
  "snapshot_slot now_qpc freq s d =
     d\<lparr>pds_epoch := pds_epoch d + 1 + 1, pds_state := state (ladder s), pds_opted_in := opted_in s,
       pds_dropout_count := dropout_count (ladder s),
       pds_dropout_age_ms := dropout_age_ms now_qpc freq (ladder s),
       pds_longest_dropout_ms := longest_dropout_ms (ladder s), pds_serial := take 63 (serial s)\<rparr>"

definition PublishStateSnapshot :: "int \<Rightarrow> phantom_module \<Rightarrow> phantom_module" where
  "PublishStateSnapshot freq m =
     (case pm_shmem m of
        None \<Rightarrow> m
      | Some ds \<Rightarrow> m\<lparr>pm_shmem := Some (map (\<lambda>(s, d). snapshot_slot (last_snapshot_qpc m) freq s d)
                                          (zip (pm_slots m) ds))\<rparr>)"

text \<open>The pose a slot publishes when bridging is enabled, \<open>None\<close> when the update is suppressed.\<close>

definition synth_pose :: "sidecar_out option \<Rightarrow> int \<Rightarrow> int \<Rightarrow> phantom_module \<Rightarrow> device_slot \<Rightarrow> driver_pose option" where
  "synth_pose ml qpc_ns qpc_freq m s =
     (case (if ds_role s \<noteq> 0 then FetchPose (ds_role s) (6 / 10) ml else None) of
        Some p \<Rightarrow> Some p
      | None \<Rightarrow>
          case (if last_hmd_valid m \<and> ds_role s \<noteq> 0 then Solve (ds_role s) (last_hmd_pose m) (ik m) else None) of
            Some p \<Rightarrow> Some p
          | None \<Rightarrow> Project (ds_history s) qpc_freq qpc_ns)"

definition override_pose ::
  "sidecar_out option \<Rightarrow> int \<Rightarrow> int \<Rightarrow> phantom_module \<Rightarrow> device_slot \<Rightarrow> driver_pose \<Rightarrow> driver_pose option" where
  "override_pose ml qpc_ns qpc_freq m s pose =
     (case state (ladder s) of
        REAL \<Rightarrow> Some pose
      | BLEND_OUT \<Rightarrow>
          (case Project (ds_history s) qpc_freq qpc_ns of
             None \<Rightarrow> Some pose
           | Some synth \<Rightarrow> Some ((Lerp pose synth (blend_alpha qpc_ns qpc_freq (ladder s)))
                             \<lparr>dp_result := result_code (tracking_result_override (ladder s))\<rparr>))
      | BLEND_IN \<Rightarrow>
          Some (if last_published_valid s
                then Lerp (last_published s) pose (blend_alpha qpc_ns qpc_freq (ladder s)) else pose)
      | LOST \<Rightarrow> None
      | _ \<Rightarrow>
          (let p = (case synth_pose ml qpc_ns qpc_freq m s of Some synth \<Rightarrow> synth | None \<Rightarrow> pose)
           in Some (p\<lparr>dp_result := result_code (tracking_result_override (ladder s))\<rparr>)))"

definition maybe_snapshot :: "int \<Rightarrow> int \<Rightarrow> int \<Rightarrow> phantom_module \<Rightarrow> phantom_module" where
  "maybe_snapshot freq qpc_ns qpc_freq m =
     (let snap_window = (if qpc_freq > 0 then qpc_freq div 10 else 0)
      in if snap_window > 0 \<and> qpc_ns - last_snapshot_qpc m \<ge> snap_window
         then PublishStateSnapshot freq (m\<lparr>last_snapshot_qpc := qpc_ns\<rparr>)
         else m)"

text \<open>The pose handed on, \<open>None\<close> when the caller drops the update, and the module afterwards.\<close>

definition MaybeOverridePose ::
  "sidecar_out option \<Rightarrow> int \<Rightarrow> nat \<Rightarrow> int \<Rightarrow> int \<Rightarrow> driver_pose \<Rightarrow> phantom_module
     \<Rightarrow> driver_pose option \<times> phantom_module" where
  "MaybeOverridePose ml freq openVRID qpc_ns qpc_freq pose m =
     (if openVRID \<ge> length (pm_slots m) then (Some pose, m)
      else let s = pm_slots m ! openVRID;
               s = s\<lparr>ladder := Tick qpc_ns qpc_freq (ladder s)\<rparr>;
               m = maybe_snapshot freq qpc_ns qpc_freq (m\<lparr>pm_slots := (pm_slots m)[openVRID := s]\<rparr>);
               published = (if master_enabled m \<and> opted_in s then override_pose ml qpc_ns qpc_freq m s pose
                            else Some pose)
           in (published,
               case published of
                 None \<Rightarrow> m
               | Some p \<Rightarrow> m\<lparr>pm_slots := (pm_slots m)[openVRID :=
                                s\<lparr>last_published := p, last_published_valid := True\<rparr>]\<rparr>))"

section \<open>Per-device settings\<close>

text \<open>A slot of a device that is not yet known is untouched; a known device's slot has the settings last
  sent for its serial.\<close>

definition slot_ok :: "phantom_module \<Rightarrow> device_slot \<Rightarrow> bool" where
  "slot_ok m s \<longleftrightarrow>
     (if serial s = [] then serial_hash s = 0 \<and> \<not> opted_in s \<and> ds_role s = 0
      else serial_hash s = Fnv1a64 (Some (serial s)) \<and>
           opted_in s = (opt_in_by_serial_hash m (serial_hash s) = Some True) \<and>
           ds_role s = (case role_by_serial_hash m (serial_hash s) of Some r \<Rightarrow> r | None \<Rightarrow> 0))"

definition phantom_inv :: "phantom_module \<Rightarrow> bool" where
  "phantom_inv m \<longleftrightarrow> length (pm_slots m) = k_unMaxTrackedDeviceCount \<and> list_all (slot_ok m) (pm_slots m) \<and>
     opt_in_by_serial_hash m 0 = None \<and> role_by_serial_hash m 0 = None"

text \<open>What the slots of a module depend on when they are compared with its settings.\<close>

definition same_settings :: "phantom_module \<Rightarrow> phantom_module \<Rightarrow> bool" where
  "same_settings m m' \<longleftrightarrow> opt_in_by_serial_hash m' = opt_in_by_serial_hash m \<and>
     role_by_serial_hash m' = role_by_serial_hash m"

lemma phantom_inv_slots:
  assumes "phantom_inv m" "same_settings m m'" "length (pm_slots m') = length (pm_slots m)"
    and "\<And>i. i < length (pm_slots m) \<Longrightarrow> slot_ok m (pm_slots m ! i) \<Longrightarrow> slot_ok m (pm_slots m' ! i)"
  shows "phantom_inv m'"
  using assms by (auto simp: phantom_inv_def same_settings_def list_all_length slot_ok_def)

lemma slot_ok_same:
  assumes "slot_ok m s" "serial s' = serial s" "serial_hash s' = serial_hash s" "opted_in s' = opted_in s" "ds_role s' = ds_role s"
  shows "slot_ok m s'"
  using assms by (simp add: slot_ok_def)

datatype phantom_event =
    PRequest request
  | PObserve property_answers virtual_env nat int driver_pose
  | POverride "sidecar_out option" int nat int int driver_pose

definition phantom_step :: "(u64 \<Rightarrow> real) \<Rightarrow> phantom_event \<Rightarrow> phantom_module \<Rightarrow> phantom_module" where
  "phantom_step dbl ev m =
     (case ev of
        PRequest r \<Rightarrow> snd (Phantom_HandleRequest dbl r m)
      | PObserve pa ve i q p \<Rightarrow> OnRealPoseObserved pa ve i q p m
      | POverride ml f i q qf p \<Rightarrow> snd (MaybeOverridePose ml f i q qf p m))"

text \<open>The requests address a device by a hash that is not zero.\<close>

definition addressed :: "phantom_event \<Rightarrow> bool" where
  "addressed ev =
     (case ev of
        PRequest (RequestSetPhantomDeviceOptIn e) \<Rightarrow> oi_device_serial_hash e \<noteq> 0
      | PRequest (RequestSetPhantomDeviceRole e) \<Rightarrow> dr_device_serial_hash e \<noteq> 0
      | _ \<Rightarrow> True)"

lemma phantom_inv_map:
  assumes "phantom_inv m" "opt_in_by_serial_hash m' 0 = None" "role_by_serial_hash m' 0 = None"
    and "pm_slots m' = map f (pm_slots m)" "\<And>s. slot_ok m s \<Longrightarrow> slot_ok m' (f s)"
  shows "phantom_inv m'"
  using assms by (simp add: phantom_inv_def list_all_length)

lemma HandleDeviceOptIn_inv:
  assumes "phantom_inv m" "oi_device_serial_hash e \<noteq> 0"
  shows "phantom_inv (HandleDeviceOptIn e m)"
  using assms(1)
proof (rule phantom_inv_map)
  fix s
  assume "slot_ok m s"
  then show "slot_ok (HandleDeviceOptIn e m)
      (if serial_hash s = oi_device_serial_hash e then s\<lparr>opted_in := (oi_dropout_enabled e \<noteq> 0)\<rparr> else s)"
    using assms(2) by (cases "serial s = []") (auto simp: slot_ok_def HandleDeviceOptIn_def map_slots_def)
qed (use assms in \<open>auto simp: phantom_inv_def HandleDeviceOptIn_def map_slots_def\<close>)

lemma HandleDeviceRole_inv:
  assumes "phantom_inv m" "dr_device_serial_hash e \<noteq> 0"
  shows "phantom_inv (HandleDeviceRole e m)"
  using assms(1)
proof (rule phantom_inv_map)
  let ?r = "unat (dr_body_role e)"
  fix s
  assume "slot_ok m s"
  then show "slot_ok (HandleDeviceRole e m)
      (if serial_hash s = dr_device_serial_hash e
       then s\<lparr>ds_role := ?r, ladder := SetIkAvailable (HasOffset ?r (ik m)) (ladder s)\<rparr> else s)"
    using assms(2) by (cases "serial s = []"; cases "?r = 0") (auto simp: slot_ok_def HandleDeviceRole_def map_slots_def Let_def)
qed (use assms in \<open>auto simp: phantom_inv_def HandleDeviceRole_def map_slots_def Let_def\<close>)

lemma map_slots_inv:
  assumes "phantom_inv m" "same_settings m m'" "pm_slots m' = pm_slots m"
    and "\<And>s. slot_ok m s \<Longrightarrow> slot_ok m (f s)"
  shows "phantom_inv (map_slots f m')"
  using assms(1) by (rule phantom_inv_slots) (use assms in \<open>auto simp: map_slots_def same_settings_def\<close>)

lemma HandleRequest_inv:
  assumes "phantom_inv m" "addressed (PRequest r)"
  shows "phantom_inv (snd (Phantom_HandleRequest dbl r m))"
proof (cases r)
  case (RequestSetPhantomConfig c)
  then show ?thesis
    using assms(1) by (auto simp: Phantom_HandleRequest_def HandlePhantomConfig_def same_settings_def
        intro!: map_slots_inv elim: slot_ok_same)
next
  case (RequestSetPhantomTrackerOffset e)
  then show ?thesis
    using assms(1) by (auto simp: Phantom_HandleRequest_def HandleTrackerOffset_def same_settings_def Let_def
        intro!: map_slots_inv elim: slot_ok_same)
next
  case (RequestSetPhantomVirtualEnabled e)
  then show ?thesis
    using assms(1) by (auto simp: Phantom_HandleRequest_def HandleVirtualEnabled_def same_settings_def
        intro: phantom_inv_slots)
qed (use assms in \<open>auto simp: Phantom_HandleRequest_def addressed_def HandleDeviceOptIn_inv HandleDeviceRole_inv\<close>)

lemma Resolve_ok: "slot_ok m s \<Longrightarrow> slot_ok m (ResolveSerialIfMissing pa m s)"
  by (auto simp: slot_ok_def ResolveSerialIfMissing_def Let_def split: option.splits if_splits)

lemma observe_slot_ok: "slot_ok m s \<Longrightarrow> slot_ok m (observe_slot pa q p m s)"
  using Resolve_ok [of m s pa] by (auto simp: observe_slot_def Let_def elim: slot_ok_same)

lemma OnRealPoseObserved_slots:
  "pm_slots (OnRealPoseObserved pa ve i q p m) =
     (if i < length (pm_slots m) then (pm_slots m)[i := observe_slot pa q p m (pm_slots m ! i)] else pm_slots m)"
  "same_settings m (OnRealPoseObserved pa ve i q p m)"
  by (auto simp: OnRealPoseObserved_def write_inference_def same_settings_def Let_def split: option.splits)

lemma OnRealPoseObserved_inv:
  assumes "phantom_inv m"
  shows "phantom_inv (OnRealPoseObserved pa ve i q p m)"
  by (rule phantom_inv_slots [OF assms])
    (auto simp: OnRealPoseObserved_slots nth_list_update observe_slot_ok split: if_splits)

lemma maybe_snapshot_fields [simp]:
  "pm_slots (maybe_snapshot f q qf m) = pm_slots m" "same_settings m' (maybe_snapshot f q qf m) = same_settings m' m"
  "master_enabled (maybe_snapshot f q qf m) = master_enabled m"
  by (auto simp: maybe_snapshot_def PublishStateSnapshot_def same_settings_def Let_def split: option.splits)

text \<open>The slot after the tick, before anything is published.\<close>

definition ticked :: "nat \<Rightarrow> int \<Rightarrow> int \<Rightarrow> phantom_module \<Rightarrow> device_slot" where
  "ticked i q qf m = (pm_slots m ! i)\<lparr>ladder := Tick q qf (ladder (pm_slots m ! i))\<rparr>"

lemma MaybeOverridePose_slots:
  assumes "i < length (pm_slots m)"
  shows "pm_slots (snd (MaybeOverridePose ml f i q qf p m)) =
     (pm_slots m)[i := (case fst (MaybeOverridePose ml f i q qf p m) of
        None \<Rightarrow> ticked i q qf m
      | Some p' \<Rightarrow> (ticked i q qf m)\<lparr>last_published := p', last_published_valid := True\<rparr>)]"
  using assms by (auto simp: MaybeOverridePose_def ticked_def Let_def split: option.splits)

lemma MaybeOverridePose_settings: "same_settings m (snd (MaybeOverridePose ml f i q qf p m))"
proof -
  have "same_settings m (maybe_snapshot f q qf m')" if "same_settings m m'" for m'
    using that by simp
  then show ?thesis
    by (auto simp: MaybeOverridePose_def same_settings_def Let_def split: option.splits)
qed

lemma MaybeOverridePose_inv:
  assumes "phantom_inv m"
  shows "phantom_inv (snd (MaybeOverridePose ml f i q qf p m))"
proof (cases "i < length (pm_slots m)")
  case True
  show ?thesis
    by (rule phantom_inv_slots [OF assms MaybeOverridePose_settings])
      (auto simp: MaybeOverridePose_slots [OF True] nth_list_update [OF True] ticked_def elim: slot_ok_same split: option.splits)
next
  case False
  then show ?thesis using assms by (simp add: MaybeOverridePose_def)
qed

lemma phantom_step_inv: "phantom_inv m \<Longrightarrow> addressed ev \<Longrightarrow> phantom_inv (phantom_step dbl ev m)"
  by (cases ev) (simp_all add: phantom_step_def HandleRequest_inv OnRealPoseObserved_inv MaybeOverridePose_inv)

text \<open>The settings a sequence of events leaves for a device: those of the last request that names it.\<close>

definition note_opt_in :: "phantom_event \<Rightarrow> (u64 \<rightharpoonup> bool) \<Rightarrow> (u64 \<rightharpoonup> bool)" where
  "note_opt_in ev f =
     (case ev of PRequest (RequestSetPhantomDeviceOptIn e) \<Rightarrow> f(oi_device_serial_hash e \<mapsto> (oi_dropout_enabled e \<noteq> 0))
      | _ \<Rightarrow> f)"

definition note_role :: "phantom_event \<Rightarrow> (u64 \<Rightarrow> nat) \<Rightarrow> (u64 \<Rightarrow> nat)" where
  "note_role ev f =
     (case ev of PRequest (RequestSetPhantomDeviceRole e) \<Rightarrow> f(dr_device_serial_hash e := unat (dr_body_role e))
      | _ \<Rightarrow> f)"

definition module_role :: "phantom_module \<Rightarrow> u64 \<Rightarrow> nat" where
  "module_role m h = (case role_by_serial_hash m h of Some r \<Rightarrow> r | None \<Rightarrow> 0)"

lemma same_settings_role: "same_settings m m' \<Longrightarrow> module_role m' = module_role m"
  by (simp add: same_settings_def module_role_def fun_eq_iff)

lemma request_settings:
  "opt_in_by_serial_hash (snd (Phantom_HandleRequest dbl r m)) = note_opt_in (PRequest r) (opt_in_by_serial_hash m)"
  "module_role (snd (Phantom_HandleRequest dbl r m)) = note_role (PRequest r) (module_role m)"
  by (cases r; simp add: Phantom_HandleRequest_def note_opt_in_def note_role_def HandlePhantomConfig_def
      HandleDeviceOptIn_def HandleDeviceRole_def HandleTrackerOffset_def HandleVirtualEnabled_def map_slots_def
      module_role_def fun_eq_iff Let_def)+

lemma step_settings:
  "opt_in_by_serial_hash (phantom_step dbl ev m) = note_opt_in ev (opt_in_by_serial_hash m)"
  "module_role (phantom_step dbl ev m) = note_role ev (module_role m)"
proof -
  have other: "opt_in_by_serial_hash (phantom_step dbl ev m) = opt_in_by_serial_hash m \<and>
      module_role (phantom_step dbl ev m) = module_role m" if "\<forall>r. ev \<noteq> PRequest r"
  proof -
    have "same_settings m (phantom_step dbl ev m)"
      using that by (cases ev) (simp_all add: phantom_step_def OnRealPoseObserved_slots(2) MaybeOverridePose_settings)
    then show ?thesis using same_settings_role [of m "phantom_step dbl ev m"] by (simp add: same_settings_def)
  qed
  show "opt_in_by_serial_hash (phantom_step dbl ev m) = note_opt_in ev (opt_in_by_serial_hash m)"
    using other by (cases ev) (simp_all add: phantom_step_def request_settings note_opt_in_def)
  show "module_role (phantom_step dbl ev m) = note_role ev (module_role m)"
    using other by (cases ev) (simp_all add: phantom_step_def request_settings note_role_def)
qed

lemma run_settings:
  "opt_in_by_serial_hash (fold (phantom_step dbl) evs m) = fold note_opt_in evs (opt_in_by_serial_hash m)"
  "module_role (fold (phantom_step dbl) evs m) = fold note_role evs (module_role m)"
  by (induction evs arbitrary: m) (simp_all add: step_settings)

lemma phantom_run_inv:
  "phantom_inv m \<Longrightarrow> list_all addressed evs \<Longrightarrow> phantom_inv (fold (phantom_step dbl) evs m)"
  by (induction evs arbitrary: m) (simp_all add: phantom_step_inv)

lemma phantom_inv_init: "phantom_inv PhantomModule_init"
  by (simp add: phantom_inv_def PhantomModule_init_def list_all_length slot_ok_def DeviceSlot_init_def)

text \<open>C29: Settings and devices may arrive in any order: after any interleaving of requests, observed poses
  and overrides, every device whose serial is known has exactly the opt-in and the body role of the
  last request for that serial, whether the request came before or after the device appeared, and a
  device that is not known is neither opted in nor given a role.\<close>

theorem phantom_settings_converge:
  assumes "list_all addressed evs" "i < k_unMaxTrackedDeviceCount"
    and "s = pm_slots (fold (phantom_step dbl) evs PhantomModule_init) ! i"
  shows "if serial s = [] then \<not> opted_in s \<and> ds_role s = 0
     else opted_in s = (fold note_opt_in evs Map.empty (Fnv1a64 (Some (serial s))) = Some True) \<and>
          ds_role s = fold note_role evs (\<lambda>_. 0) (Fnv1a64 (Some (serial s)))"
proof -
  let ?m = "fold (phantom_step dbl) evs PhantomModule_init"
  have "phantom_inv ?m" by (rule phantom_run_inv [OF phantom_inv_init assms(1)])
  then have "slot_ok ?m s" using assms(2,3) by (simp add: phantom_inv_def list_all_length)
  moreover have "opt_in_by_serial_hash ?m = fold note_opt_in evs Map.empty"
    by (simp add: run_settings PhantomModule_init_def)
  moreover have "module_role PhantomModule_init = (\<lambda>_. 0)"
    by (simp add: module_role_def fun_eq_iff PhantomModule_init_def)
  then have "module_role ?m = fold note_role evs (\<lambda>_. 0)"
    by (simp add: run_settings)
  ultimately show ?thesis
    by (auto simp: slot_ok_def module_role_def fun_eq_iff dest: sym)
qed

definition late_opt_in :: "phantom_event list" where
  "late_opt_in =
     [PObserve \<lparr>pa_serial = Some [65], pa_is_hmd = False\<rparr>
        \<lparr>ve_now = 0, ve_host = False, ve_added = (\<lambda>_. False), ve_object = (\<lambda>_. None)\<rparr> 3 10 zero_pose,
      PRequest (RequestSetPhantomDeviceOptIn \<lparr>oi_device_serial_hash = Fnv1a64 (Some [65]), oi_dropout_enabled = 1\<rparr>)]"

lemma Fnv1a64_A: "Fnv1a64 (Some [65]) \<noteq> 0"
  by (simp add: Fnv1a64_def)

lemma late_serial: "serial (pm_slots (fold (phantom_step (\<lambda>_. 0)) late_opt_in PhantomModule_init) ! 3) = [65]"
  by (simp add: late_opt_in_def phantom_step_def OnRealPoseObserved_slots Phantom_HandleRequest_def
      HandleDeviceOptIn_def map_slots_def PhantomModule_init_def k_unMaxTrackedDeviceCount_def observe_slot_def
      ResolveSerialIfMissing_def DeviceSlot_init_def Let_def)

theorem phantom_settings_converge_witness:
  "opted_in (pm_slots (fold (phantom_step (\<lambda>_. 0)) late_opt_in PhantomModule_init) ! 3)"
proof -
  have "list_all addressed late_opt_in" by (simp add: late_opt_in_def addressed_def Fnv1a64_A)
  then show ?thesis
    using phantom_settings_converge [of late_opt_in 3 _ "\<lambda>_. 0"]
    by (simp add: late_serial k_unMaxTrackedDeviceCount_def)
      (simp add: late_opt_in_def note_opt_in_def)
qed

section \<open>What is published\<close>

text \<open>A device that is not opted in, or any device while bridging is off, passes through unchanged; a
  bridged device is handed on unchanged while it tracks, with the out-of-range result while it is out
  of range, with the tracking result while it is synthesised, and is dropped only when it is lost; what
  is handed on is what the slot remembers as published.\<close>

theorem MaybeOverridePose_outcome:
  assumes "i < length (pm_slots m)"
  shows "(let (out, m') = MaybeOverridePose ml f i q qf p m; s = ticked i q qf m; bridged = master_enabled m \<and> opted_in s in
     (\<not> bridged \<longrightarrow> out = Some p) \<and>
     (bridged \<and> state (ladder s) = REAL \<longrightarrow> out = Some p) \<and>
     (out = None \<longleftrightarrow> bridged \<and> state (ladder s) = LOST) \<and>
     (bridged \<and> state (ladder s) = OUT_OF_RANGE \<longrightarrow> map_option dp_result out = Some TrackingResult_Running_OutOfRange) \<and>
     (bridged \<and> state (ladder s) \<in> {SYNTH_RECKON, SYNTH_IK, SYNTH_ML} \<longrightarrow>
        map_option dp_result out = Some TrackingResult_Running_OK) \<and>
     (\<forall>p'. out = Some p' \<longrightarrow> last_published (pm_slots m' ! i) = p' \<and> last_published_valid (pm_slots m' ! i)))"
proof -
  let ?r = "MaybeOverridePose ml f i q qf p m" and ?s = "ticked i q qf m"
  let ?m = "maybe_snapshot f q qf (m\<lparr>pm_slots := (pm_slots m)[i := ?s]\<rparr>)"
  have out: "fst ?r = (if master_enabled m \<and> opted_in ?s then override_pose ml q qf ?m ?s p else Some p)"
    using assms by (simp add: MaybeOverridePose_def ticked_def Let_def)
  have st: "fst ?r = Some p' \<Longrightarrow> last_published (pm_slots (snd ?r) ! i) = p' \<and> last_published_valid (pm_slots (snd ?r) ! i)" for p'
    using assms by (simp add: MaybeOverridePose_slots)
  show ?thesis
    using st unfolding case_prod_beta Let_def out
    by (cases "state (ladder ?s)")
      (auto simp: override_pose_def result_code_def tracking_result_override_def Let_def split: option.splits)
qed

theorem MaybeOverridePose_outcome_witness:
  "fst (MaybeOverridePose None 1000 3 0 1000 zero_pose PhantomModule_init) = Some zero_pose"
  using MaybeOverridePose_outcome [of 3 PhantomModule_init None 1000 0 1000 zero_pose]
  by (simp add: PhantomModule_init_def k_unMaxTrackedDeviceCount_def Let_def case_prod_beta)

section \<open>Virtual trackers\<close>

text \<open>A change of a virtual device within a tick was permitted.\<close>

definition permitted :: "virtual_env \<Rightarrow> ik_fallback \<Rightarrow> virtual_trackers \<Rightarrow> nat \<Rightarrow> bool" where
  "permitted e ikf v r \<longleftrightarrow> BodyRoleToControllerType r \<noteq> None \<and> vt_enabled v ! r \<and> HasOffset r ikf \<and>
     (vt_devices v ! r = None \<longrightarrow> hmd_pose_seen v \<and> ve_now e - init_time v \<ge> kInitSettleDelay \<and> ve_host e \<and> ve_added e r)"

definition tick_rel :: "virtual_env \<Rightarrow> ik_fallback \<Rightarrow> virtual_trackers \<Rightarrow> virtual_trackers \<Rightarrow> bool" where
  "tick_rel e ikf v v' \<longleftrightarrow> vt_enabled v' = vt_enabled v \<and> hmd_pose_seen v' = hmd_pose_seen v \<and>
     init_time v' = init_time v \<and> length (vt_devices v') = length (vt_devices v) \<and>
     (\<forall>r. vt_devices v' ! r \<noteq> vt_devices v ! r \<longrightarrow> permitted e ikf v r)"

lemma tick_rel_refl: "tick_rel e ikf v v"
  by (simp add: tick_rel_def)

lemma tick_rel_trans: "tick_rel e ikf u v \<Longrightarrow> tick_rel e ikf v w \<Longrightarrow> tick_rel e ikf u w"
  unfolding tick_rel_def permitted_def by metis

lemma MaybeActivate_rel: "BodyRoleToControllerType r \<noteq> None \<Longrightarrow> tick_rel e ikf v (MaybeActivate e ikf r v)"
  unfolding tick_rel_def
proof (intro conjI allI impI)
  fix r'
  assume "BodyRoleToControllerType r \<noteq> None" "vt_devices (MaybeActivate e ikf r v) ! r' \<noteq> vt_devices v ! r'"
  then show "permitted e ikf v r'"
    by (cases "r' = r") (auto simp: MaybeActivate_def permitted_def split: if_splits)
qed (simp_all add: MaybeActivate_def)

lemma Solve_HasOffset: "Solve r p ikf = Some q \<Longrightarrow> HasOffset r ikf"
  by (auto simp: Solve_def HasOffset_def Let_def split: if_splits)

lemma publish_rel:
  assumes "BodyRoleToControllerType r \<noteq> None" "vt_devices v ! r = Some d" "vt_enabled v ! r" "HasOffset r ikf"
  shows "tick_rel e ikf v (v\<lparr>vt_devices := (vt_devices v)[r := x]\<rparr>)"
  unfolding tick_rel_def
proof (intro conjI allI impI)
  fix r'
  assume "vt_devices (v\<lparr>vt_devices := (vt_devices v)[r := x]\<rparr>) ! r' \<noteq> vt_devices v ! r'"
  then show "permitted e ikf v r'" using assms by (cases "r' = r") (auto simp: permitted_def)
qed simp_all

lemma tick_role_rel: "tick_rel e ikf v (tick_role e p ikf r v)"
proof (cases "BodyRoleToControllerType r = None")
  case False
  let ?v = "MaybeActivate e ikf r v"
  have 1: "tick_rel e ikf v ?v" using False by (rule MaybeActivate_rel)
  have "tick_rel e ikf ?v (tick_role e p ikf r v)"
    using False publish_rel [OF False, of ?v] Solve_HasOffset [of r p ikf]
    by (auto simp: tick_role_def tick_rel_refl Let_def split: option.splits)
  with 1 show ?thesis by (rule tick_rel_trans)
qed (simp add: tick_role_def tick_rel_refl)

lemma tick_roles_rel: "tick_rel e ikf v (fold (tick_role e p ikf) rs v)"
  by (induction rs arbitrary: v) (auto simp: tick_rel_refl intro: tick_rel_trans tick_role_rel)

text \<open>A virtual tracker is added, or given a pose, only for a role that can be published, that the user
  enabled and that is calibrated; it is added only after a healthy head pose was seen and three seconds
  after the driver started.\<close>

theorem virtual_tracker_gate:
  assumes "vt_devices (Virtual_Tick e hmd ikf v) ! r \<noteq> vt_devices v ! r"
  shows "BodyRoleToControllerType r \<noteq> None \<and> vt_enabled v ! r \<and> HasOffset r ikf \<and>
     (vt_devices v ! r = None \<longrightarrow> (hmd_pose_seen v \<or> healthy_pose hmd) \<and> ve_now e - init_time v \<ge> 3000 \<and> ve_added e r)"
proof -
  let ?v = "if healthy_pose hmd then v\<lparr>hmd_pose_seen := True\<rparr> else v"
  have "permitted e ikf ?v r"
    using assms tick_roles_rel [of e ikf ?v hmd "[0..<kBodyRoleCount]"]
    by (auto simp: Virtual_Tick_def tick_rel_def Let_def split: if_splits)
  then show ?thesis by (auto simp: permitted_def kInitSettleDelay_def split: if_splits)
qed

definition waist_ready :: virtual_trackers where
  "waist_ready = (SetEnabled 4 True virtual_init)\<lparr>hmd_pose_seen := True\<rparr>"

definition waist_env :: virtual_env where
  "waist_env = \<lparr>ve_now = 4000, ve_host = True, ve_added = (\<lambda>r. r = 4), ve_object = (\<lambda>_. Some 9)\<rparr>"

lemma waist_fold_other:
  assumes "4 \<notin> set rs"
  shows "vt_devices (fold (tick_role e p ikf) rs v) ! 4 = vt_devices v ! 4"
  using assms
proof (induction rs arbitrary: v)
  case (Cons r rs)
  have "vt_devices (MaybeActivate e ikf r v) ! 4 = vt_devices v ! 4"
    using Cons.prems by (auto simp: MaybeActivate_def)
  then have "vt_devices (tick_role e p ikf r v) ! 4 = vt_devices v ! 4"
    using Cons.prems by (auto simp: tick_role_def Let_def split: option.splits)
  with Cons show ?case by simp
qed simp

theorem virtual_tracker_gate_witness:
  "\<exists>ikf. HasOffset 4 ikf \<and> vt_devices (Virtual_Tick waist_env zero_pose ikf waist_ready) ! 4 \<noteq> vt_devices waist_ready ! 4"
proof -
  let ?ik = "SetOffset 4 vzero qone IkFallback_init"
  have has: "HasOffset 4 ?ik" by (simp add: HasOffset_def SetOffset_def IkFallback_init_def kBodyRoleCount_def)
  have nh: "\<not> healthy_pose zero_pose" by (simp add: healthy_pose_def zero_pose_def)
  have low: "fold (tick_role waist_env zero_pose ?ik) [0, 1, 2, 3] waist_ready = waist_ready"
    by (simp add: tick_role_def BodyRoleToControllerType_def)
  have up: "[0..<kBodyRoleCount] = [0, 1, 2, 3] @ 4 # [5..<kBodyRoleCount]"
    by (simp add: kBodyRoleCount_def upt_rec)
  have "vt_devices (tick_role waist_env zero_pose ?ik 4 waist_ready) ! 4 \<noteq> None"
    using has by (auto simp: tick_role_def MaybeActivate_def BodyRoleToControllerType_def kBodyRoleCount_def waist_ready_def
        waist_env_def virtual_init_def SetEnabled_def kInitSettleDelay_def Let_def split: option.splits)
  moreover have "vt_devices waist_ready ! 4 = None"
    by (simp add: waist_ready_def SetEnabled_def virtual_init_def kBodyRoleCount_def)
  ultimately have d: "vt_devices (Virtual_Tick waist_env zero_pose ?ik waist_ready) ! 4 \<noteq> vt_devices waist_ready ! 4"
    using nh low waist_fold_other [of "[5..<kBodyRoleCount]"] by (simp add: Virtual_Tick_def up)
  with virtual_tracker_gate [OF d] show ?thesis by blast
qed

end
