(* ===== verification/BoundedMap.thy ===== *)
theory BoundedMap
  imports Prelude
begin

text \<open>
  The contract of a table of bounded capacity: a finite map that takes a new key only while it has
  room. \<open>bounded_insert\<close> is a table that only grows (the slot directory of the InputHealth
  publisher); \<open>bounded_map\<close> extends it with removal (the OSC route table).
\<close>

datatype ('k, 'v) map_op = MIns 'k 'v | MDel 'k

definition bounded_step :: "nat \<Rightarrow> ('v \<Rightarrow> 'w) \<Rightarrow> ('k, 'v) map_op \<Rightarrow> ('k \<rightharpoonup> 'w) \<Rightarrow> ('k \<rightharpoonup> 'w)" where
  "bounded_step cap st op m =
     (case op of
        MIns k v \<Rightarrow> if m k \<noteq> None \<or> card (dom m) < cap then m(k \<mapsto> st v) else m
      | MDel k \<Rightarrow> m(k := None))"

locale bounded_insert =
  fixes wf :: "'t \<Rightarrow> bool"
    and lookup :: "'t \<Rightarrow> 'k \<Rightarrow> 'w option"
    and ins :: "'k \<Rightarrow> 'v \<Rightarrow> 't \<Rightarrow> bool \<times> 't"
    and st :: "'v \<Rightarrow> 'w"
    and cap :: nat
  assumes wf_ins: "wf t \<Longrightarrow> wf (snd (ins k v t))"
    and ins_ok: "wf t \<Longrightarrow> fst (ins k v t) \<longleftrightarrow> lookup t k \<noteq> None \<or> card (dom (lookup t)) < cap"
    and lookup_ins: "wf t \<Longrightarrow> fst (ins k v t) \<Longrightarrow> lookup (snd (ins k v t)) = (lookup t)(k \<mapsto> st v)"
    and ins_full: "wf t \<Longrightarrow> \<not> fst (ins k v t) \<Longrightarrow> lookup (snd (ins k v t)) = lookup t"
begin

lemma lookup_ins_step: "wf t \<Longrightarrow> lookup (snd (ins k v t)) = bounded_step cap st (MIns k v) (lookup t)"
  by (auto simp: bounded_step_def ins_ok lookup_ins ins_full)

definition insert_all :: "('k \<times> 'v) list \<Rightarrow> 't \<Rightarrow> 't" where
  "insert_all kvs t = fold (\<lambda>(k, v) t. snd (ins k v t)) kvs t"

lemma wf_insert_all: "wf t \<Longrightarrow> wf (insert_all kvs t)"
  unfolding insert_all_def by (induction kvs arbitrary: t) (auto simp: wf_ins)

lemma lookup_insert_all:
  "wf t \<Longrightarrow> lookup (insert_all kvs t) = fold (\<lambda>(k, v). bounded_step cap st (MIns k v)) kvs (lookup t)"
  unfolding insert_all_def by (induction kvs arbitrary: t) (auto simp: wf_ins lookup_ins_step)

end

text \<open>A key that is in the map keeps its last value through a batch of insertions.\<close>

lemma bounded_inserts_last:
  assumes "fold (\<lambda>(k, v). bounded_step cap st (MIns k v)) kvs m k = Some w"
  shows "(case map_of (rev kvs) k of Some v \<Rightarrow> w = st v | None \<Rightarrow> m k = Some w) \<or> m k = None"
  using assms
proof (induction kvs arbitrary: m)
  case (Cons kv kvs)
  obtain k' v where kv: "kv = (k', v)" by (cases kv)
  let ?m = "bounded_step cap st (MIns k' v) m"
  have "(case map_of (rev kvs) k of Some v \<Rightarrow> w = st v | None \<Rightarrow> ?m k = Some w) \<or> ?m k = None"
    using Cons.prems kv by (intro Cons.IH) simp
  then show ?case
    by (auto simp: kv bounded_step_def map_add_def split: option.splits if_splits)
qed simp

locale bounded_map = bounded_insert wf lookup ins st cap
  for wf :: "'t \<Rightarrow> bool" and lookup :: "'t \<Rightarrow> 'k \<Rightarrow> 'w option"
    and ins :: "'k \<Rightarrow> 'v \<Rightarrow> 't \<Rightarrow> bool \<times> 't" and st :: "'v \<Rightarrow> 'w" and cap :: nat +
  fixes del :: "'k \<Rightarrow> 't \<Rightarrow> 't"
  assumes wf_del: "wf t \<Longrightarrow> wf (del k t)"
    and lookup_del: "wf t \<Longrightarrow> lookup (del k t) = (lookup t)(k := None)"
begin

definition run_op :: "('k, 'v) map_op \<Rightarrow> 't \<Rightarrow> 't" where
  "run_op op t = (case op of MIns k v \<Rightarrow> snd (ins k v t) | MDel k \<Rightarrow> del k t)"

lemma wf_run_op: "wf t \<Longrightarrow> wf (run_op op t)"
  by (cases op) (simp_all add: run_op_def wf_ins wf_del)

lemma lookup_run_op: "wf t \<Longrightarrow> lookup (run_op op t) = bounded_step cap st op (lookup t)"
  by (cases op) (simp_all add: run_op_def lookup_ins_step lookup_del bounded_step_def)

lemma refines: "wf t \<Longrightarrow> lookup (fold run_op ops t) = fold (bounded_step cap st) ops (lookup t)"
  by (induction ops arbitrary: t) (simp_all add: wf_run_op lookup_run_op)

end

end
