(* ===== verification/PoseTransforms.thy ===== *)
theory PoseTransforms
  imports DriverSynth OneEuro Phantom BoundedMap
begin

text \<open>
  What the driver knows about each device and how the overlay changes it: isometries
  (\<open>core/src/driver/IsometryTransform.h\<close>), the blending of a calibration
  (\<open>ServerTrackedDeviceProviderTransforms.cpp\<close>), the table of per-system fallbacks, and the handlers
  \<open>SetDeviceTransform\<close>, \<open>SetTrackingSystemFallback\<close>, \<open>SetDevicePrediction\<close> and \<open>SetHeadMountConfig\<close> of
  \<open>ServerTrackedDeviceProvider.cpp\<close>. The quaternion operations of the Eigen package are a record of
  functions. Doubles are exact reals, so that the comparisons of doubles with \<open>memcmp\<close> compare values.
\<close>

section \<open>Isometries\<close>

record eigen_quat =
  eq_mul :: "quat \<Rightarrow> quat \<Rightarrow> quat"
  eq_rotate :: "quat \<Rightarrow> vec3 \<Rightarrow> vec3"
  eq_normalized :: "quat \<Rightarrow> quat"
  eq_slerp :: "quat \<Rightarrow> real \<Rightarrow> quat \<Rightarrow> quat"
  eq_angularDistance :: "quat \<Rightarrow> quat \<Rightarrow> real"

record iso_transform =
  iso_rotation :: quat
  iso_translation :: vec3

definition iso_identity :: iso_transform where
  "iso_identity = \<lparr>iso_rotation = qone, iso_translation = vzero\<rparr>"

definition vscale :: "real \<Rightarrow> vec3 \<Rightarrow> vec3" where "vscale c = vmap (\<lambda>x. x * c)"
definition vminus :: "vec3 \<Rightarrow> vec3 \<Rightarrow> vec3" where "vminus = vmap2 (-)"

definition iso_mult :: "eigen_quat \<Rightarrow> iso_transform \<Rightarrow> iso_transform \<Rightarrow> iso_transform" where
  "iso_mult e a b =
     \<lparr>iso_rotation = eq_normalized e (eq_mul e (iso_rotation a) (iso_rotation b)),
      iso_translation = vadd (iso_translation a) (eq_rotate e (iso_rotation a) (iso_translation b))\<rparr>"

definition iso_apply :: "eigen_quat \<Rightarrow> iso_transform \<Rightarrow> vec3 \<Rightarrow> vec3" where
  "iso_apply e a p = vadd (iso_translation a) (eq_rotate e (iso_rotation a) p)"

definition interpolateAround :: "eigen_quat \<Rightarrow> iso_transform \<Rightarrow> real \<Rightarrow> iso_transform \<Rightarrow> vec3 \<Rightarrow> iso_transform" where
  "interpolateAround e this lerp target localPoint =
     (let initialPos = iso_apply e this localPoint;
          finalPos = vadd (vscale (1 - lerp) initialPos) (vscale lerp (iso_apply e target localPoint));
          newRotation = eq_normalized e (eq_slerp e (iso_rotation this) lerp (iso_rotation target));
          newTranslation = vminus finalPos (eq_rotate e newRotation localPoint)
      in \<lparr>iso_rotation = newRotation, iso_translation = newTranslation\<rparr>)"

section \<open>State per device\<close>

datatype DeltaSize = TINY | SMALL | LARGE

text \<open>The enumerators in the order of the source.\<close>

instantiation DeltaSize :: linorder
begin

definition delta_rank :: "DeltaSize \<Rightarrow> nat" where
  "delta_rank d = (case d of TINY \<Rightarrow> 0 | SMALL \<Rightarrow> 1 | LARGE \<Rightarrow> 2)"

definition less_eq_DeltaSize :: "DeltaSize \<Rightarrow> DeltaSize \<Rightarrow> bool" where
  "less_eq_DeltaSize a b \<longleftrightarrow> delta_rank a \<le> delta_rank b"

definition less_DeltaSize :: "DeltaSize \<Rightarrow> DeltaSize \<Rightarrow> bool" where
  "less_DeltaSize a b \<longleftrightarrow> delta_rank a < delta_rank b"

instance
  by standard (auto simp: less_eq_DeltaSize_def less_DeltaSize_def delta_rank_def split: DeltaSize.splits)

end

record device_transform =
  tf_enabled :: bool
  tf_quash :: bool
  tf_prevQuash :: bool
  tf_transform :: iso_transform
  tf_targetTransform :: iso_transform
  tf_scale :: real
  tf_lastPoll :: int
  tf_currentRate :: DeltaSize
  tf_fallbackActive :: bool
  tf_predictionSmoothness :: byte
  tf_smartEnabled :: bool
  tf_smartShadowParams :: ss_params
  tf_smartFilter :: filter_state
  tf_smartFilterLastSample :: int
  tf_recalibrateOnMovement :: bool
  tf_blendMotionInitialized :: bool

definition DeviceTransform_init :: device_transform where
  "DeviceTransform_init = \<lparr>tf_enabled = False, tf_quash = False, tf_prevQuash = False,
     tf_transform = iso_identity, tf_targetTransform = iso_identity, tf_scale = 1, tf_lastPoll = 0,
     tf_currentRate = TINY, tf_fallbackActive = False, tf_predictionSmoothness = 0, tf_smartEnabled = False,
     tf_smartShadowParams = default_params, tf_smartFilter = FilterState_init, tf_smartFilterLastSample = 0,
     tf_recalibrateOnMovement = False, tf_blendMotionInitialized = False\<rparr>"

record fallback_transform =
  fb_enabled :: bool
  fb_transform :: iso_transform
  fb_scale :: real
  fb_predictionSmoothness :: byte
  fb_recalibrateOnMovement :: bool

definition FallbackTransform_init :: fallback_transform where
  "FallbackTransform_init = \<lparr>fb_enabled = False, fb_transform = iso_identity, fb_scale = 1,
     fb_predictionSmoothness = 0, fb_recalibrateOnMovement = False\<rparr>"

record fallback_slot =
  sl_system_name :: "byte list"
  sl_tf :: fallback_transform
  sl_occupied :: bool

definition MaxTrackingSystemNameLen :: nat where "MaxTrackingSystemNameLen = 32"
definition MaxFallbackSlots :: nat where "MaxFallbackSlots = 8"

definition FallbackSlot_init :: fallback_slot where
  "FallbackSlot_init = \<lparr>sl_system_name = replicate MaxTrackingSystemNameLen 0, sl_tf = FallbackTransform_init,
     sl_occupied = False\<rparr>"

datatype LookupState = NotTried | Cached | LookupFailed

record alignment_speed =
  thr_trans_tiny :: real
  thr_trans_small :: real
  thr_trans_large :: real
  thr_rot_tiny :: real
  thr_rot_small :: real
  thr_rot_large :: real
  align_speed_tiny :: real
  align_speed_small :: real
  align_speed_large :: real
  slew_stationary_pos_rate :: real
  slew_stationary_rot_rate :: real
  slew_moving_pos_rate :: real
  slew_moving_rot_rate :: real

text \<open>The values that \<open>Init\<close> sets; \<open>EIGEN_PI\<close> is \<open>pi\<close>.\<close>

definition init_alignment_speed :: alignment_speed where
  "init_alignment_speed = \<lparr>thr_trans_tiny = 1 / 10000, thr_trans_small = 1 / 1000, thr_trans_large = 20 / 1000,
     thr_rot_tiny = 1 / 10 * (pi / 180), thr_rot_small = pi / 180, thr_rot_large = 5 * (pi / 180),
     align_speed_tiny = 5 / 100, align_speed_small = 2 / 10, align_speed_large = 2,
     slew_stationary_pos_rate = 5 / 10000, slew_stationary_rot_rate = 873 / 1000000,
     slew_moving_pos_rate = 10 / 1000, slew_moving_rot_rate = 1745 / 100000\<rparr>"

record head_mount_state =
  hs_mode :: int
  hs_deviceId :: int
  hs_trackerSerial :: cstring
  hs_trackerTrackingSystem :: cstring
  hs_headFromTrackerTrans :: vec3
  hs_headFromTrackerRot :: quat
  hs_hideTracker :: bool
  hs_offsetCalibrated :: bool
  hs_driverSynthTiming :: synth_timing

definition HeadMountDriverState_init :: head_mount_state where
  "HeadMountDriverState_init = \<lparr>hs_mode = 0, hs_deviceId = -1, hs_trackerSerial = [],
     hs_trackerTrackingSystem = [], hs_headFromTrackerTrans = vzero, hs_headFromTrackerRot = qone,
     hs_hideTracker = True, hs_offsetCalibrated = False, hs_driverSynthTiming = default_synth_timing\<rparr>"

text \<open>What the driver writes to the pose segment, in order.\<close>

datatype telemetry = TELEMETRY_FALLBACK_APPLY | TELEMETRY_PER_ID_APPLY | TELEMETRY_QUASH_APPLY
  | TELEMETRY_DRIVER_SYNTH_FALLBACK
datatype shmem_call = ShmemSetPose nat driver_pose | ShmemIncrement telemetry

record provider =
  pr_transforms :: "device_transform list"
  pr_deviceSystem :: "cstring list"
  pr_lookupState :: "LookupState list"
  pr_lastLookupAttempt :: "int list"
  pr_systemFallbacks :: "fallback_slot list"
  pr_qpcFreq :: int
  pr_alignmentSpeedParams :: alignment_speed
  pr_debugTransform :: vec3
  pr_debugRotation :: quat
  pr_headMountState :: head_mount_state
  pr_trackerSnap :: tracker_snapshot
  pr_driverSynthBlendState :: blend_state
  pr_driverSynthBlendReset :: bool
  pr_phantomEnabled :: bool
  pr_phantom :: phantom_module
  pr_shmem :: "shmem_call list"

definition Provider_init :: "int \<Rightarrow> bool \<Rightarrow> phantom_module \<Rightarrow> provider" where
  "Provider_init qpcFreq phantomEnabled ph = \<lparr>
     pr_transforms = replicate k_unMaxTrackedDeviceCount DeviceTransform_init,
     pr_deviceSystem = replicate k_unMaxTrackedDeviceCount [],
     pr_lookupState = replicate k_unMaxTrackedDeviceCount NotTried,
     pr_lastLookupAttempt = replicate k_unMaxTrackedDeviceCount 0,
     pr_systemFallbacks = replicate MaxFallbackSlots FallbackSlot_init,
     pr_qpcFreq = qpcFreq, pr_alignmentSpeedParams = init_alignment_speed,
     pr_debugTransform = vzero, pr_debugRotation = qone,
     pr_headMountState = HeadMountDriverState_init, pr_trackerSnap = no_snapshot,
     pr_driverSynthBlendState = SourceBlendState_init, pr_driverSynthBlendReset = False,
     pr_phantomEnabled = phantomEnabled, pr_phantom = ph, pr_shmem = []\<rparr>"

definition upd_tf :: "nat \<Rightarrow> (device_transform \<Rightarrow> device_transform) \<Rightarrow> provider \<Rightarrow> provider" where
  "upd_tf i f pr = pr\<lparr>pr_transforms := (pr_transforms pr)[i := f (pr_transforms pr ! i)]\<rparr>"

section \<open>Blending a calibration\<close>

definition toIsoWorldTransform :: "driver_pose \<Rightarrow> iso_transform" where
  "toIsoWorldTransform pose = (case dp_world pose of (qw', tw, _) \<Rightarrow> \<lparr>iso_rotation = qw', iso_translation = tw\<rparr>)"

definition toIsoPose :: "eigen_quat \<Rightarrow> driver_pose \<Rightarrow> iso_transform" where
  "toIsoPose e pose = iso_mult e (toIsoWorldTransform pose)
     \<lparr>iso_rotation = qRotation pose, iso_translation = vecPosition pose\<rparr>"

definition delta_level :: "real \<Rightarrow> real \<Rightarrow> real \<Rightarrow> DeltaSize" where
  "delta_level delta small large = (if large < delta then LARGE else if small < delta then SMALL else TINY)"

definition GetTransformDeltaSize :: "eigen_quat \<Rightarrow> alignment_speed \<Rightarrow> DeltaSize \<Rightarrow> iso_transform
    \<Rightarrow> iso_transform \<Rightarrow> iso_transform \<Rightarrow> DeltaSize" where
  "GetTransformDeltaSize e sp prior_delta deviceWorldPose src target =
     (let src_pose = iso_mult e src deviceWorldPose;
          target_pose = iso_mult e target deviceWorldPose;
          trans_delta = sqrt (vnorm2 (vminus (iso_translation src_pose) (iso_translation target_pose)));
          rot_delta = eq_angularDistance e (iso_rotation src_pose) (iso_rotation target_pose);
          trans_level = delta_level trans_delta (thr_trans_small sp) (thr_trans_large sp);
          rot_level = delta_level rot_delta (thr_rot_small sp) (thr_rot_large sp)
      in if trans_level = TINY \<and> rot_level = TINY then TINY
         else max prior_delta (max trans_level rot_level))"

definition GetTransformRate :: "alignment_speed \<Rightarrow> DeltaSize \<Rightarrow> real" where
  "GetTransformRate sp delta =
     (case delta of TINY \<Rightarrow> align_speed_tiny sp | SMALL \<Rightarrow> align_speed_small sp | LARGE \<Rightarrow> align_speed_large sp)"

definition blend_lerp :: "alignment_speed \<Rightarrow> int \<Rightarrow> int \<Rightarrow> device_transform \<Rightarrow> real" where
  "blend_lerp sp qpcFreq timestamp device =
     (let dt = of_int (timestamp - tf_lastPoll device) / of_int qpcFreq;
          lerp = dt * GetTransformRate sp (tf_currentRate device);
          lerp = (if 1 < lerp then 1 else lerp)
      in if lerp < 0 then 0 else lerp)"

definition BlendTransform :: "eigen_quat \<Rightarrow> alignment_speed \<Rightarrow> int \<Rightarrow> int \<Rightarrow> iso_transform \<Rightarrow> device_transform
    \<Rightarrow> device_transform" where
  "BlendTransform e sp qpcFreq timestamp deviceWorldPose device =
     device\<lparr>tf_lastPoll := timestamp,
       tf_transform := interpolateAround e (tf_transform device) (blend_lerp sp qpcFreq timestamp device)
         (tf_targetTransform device) (iso_translation deviceWorldPose)\<rparr>"

definition ApplyTransform :: "eigen_quat \<Rightarrow> device_transform \<Rightarrow> driver_pose \<Rightarrow> driver_pose" where
  "ApplyTransform e device pose =
     (let w = iso_mult e (tf_transform device) (toIsoWorldTransform pose)
      in pose\<lparr>dp_world := (case dp_world pose of (_, _, rest) \<Rightarrow> (iso_rotation w, iso_translation w, rest))\<rparr>)"

section \<open>The fallback table\<close>

definition slot_matches :: "byte list \<Rightarrow> fallback_slot \<Rightarrow> bool" where
  "slot_matches name s \<longleftrightarrow> sl_occupied s \<and> take (length name) (sl_system_name s) = name
     \<and> (length name = MaxTrackingSystemNameLen \<or> sl_system_name s ! length name = 0)"

definition FindFallbackSlot :: "byte list \<Rightarrow> fallback_slot list \<Rightarrow> nat option" where
  "FindFallbackSlot name slots =
     (if length name = 0 \<or> length name > MaxTrackingSystemNameLen then None
      else find_index (slot_matches name) slots)"

definition AcquireFallbackSlot :: "byte list \<Rightarrow> fallback_slot list \<Rightarrow> nat option \<times> fallback_slot list" where
  "AcquireFallbackSlot name slots =
     (if length name = 0 \<or> length name > MaxTrackingSystemNameLen then (None, slots)
      else case FindFallbackSlot name slots of
             Some i \<Rightarrow> (Some i, slots)
           | None \<Rightarrow>
               (case find_index (\<lambda>s. \<not> sl_occupied s) slots of
                  Some i \<Rightarrow> (Some i, slots[i := \<lparr>sl_system_name = name @ replicate (MaxTrackingSystemNameLen - length name) 0,
                                          sl_tf = FallbackTransform_init, sl_occupied = True\<rparr>])
                | None \<Rightarrow> (None, slots)))"

section \<open>Messages of the overlay\<close>

record set_device_transform =
  sdt_openVRID :: nat
  sdt_enabled :: bool
  sdt_updateTranslation :: bool
  sdt_updateRotation :: bool
  sdt_updateScale :: bool
  sdt_translation :: vec3
  sdt_rotation :: quat
  sdt_scale :: real
  sdt_lerp :: bool
  sdt_quash :: bool
  sdt_updateQuash :: bool
  sdt_target_system :: "byte list"
  sdt_predictionSmoothness :: byte
  sdt_recalibrateOnMovement :: bool

definition device_of_message :: "set_device_transform \<Rightarrow> int \<Rightarrow> device_transform \<Rightarrow> device_transform" where
  "device_of_message m now tf =
     (let wasEnabled = tf_enabled tf;
          tf = tf\<lparr>tf_enabled := sdt_enabled m, tf_fallbackActive := False\<rparr>;
          tf = (if tf_recalibrateOnMovement tf \<and> \<not> sdt_recalibrateOnMovement m
                then tf\<lparr>tf_blendMotionInitialized := False\<rparr> else tf);
          tf = tf\<lparr>tf_recalibrateOnMovement := sdt_recalibrateOnMovement m\<rparr>;
          tf = (if sdt_updateTranslation m
                then let tf = tf\<lparr>tf_targetTransform := (tf_targetTransform tf)\<lparr>iso_translation := sdt_translation m\<rparr>\<rparr>
                     in if \<not> sdt_lerp m
                        then tf\<lparr>tf_transform := (tf_transform tf)\<lparr>iso_translation := iso_translation (tf_targetTransform tf)\<rparr>\<rparr>
                        else tf
                else tf);
          tf = (if sdt_updateRotation m
                then let tf = tf\<lparr>tf_targetTransform := (tf_targetTransform tf)\<lparr>iso_rotation := sdt_rotation m\<rparr>\<rparr>
                     in if \<not> sdt_lerp m
                        then tf\<lparr>tf_transform := (tf_transform tf)\<lparr>iso_rotation := iso_rotation (tf_targetTransform tf)\<rparr>\<rparr>
                        else tf
                else tf);
          tf = (if sdt_updateScale m then tf\<lparr>tf_scale := sdt_scale m\<rparr> else tf);
          tf = (if sdt_updateQuash m then tf\<lparr>tf_quash := sdt_quash m\<rparr> else tf);
          tf = (if \<not> wasEnabled \<and> tf_enabled tf then tf\<lparr>tf_transform := tf_targetTransform tf\<rparr> else tf);
          tf = (if wasEnabled \<and> \<not> tf_enabled tf then tf\<lparr>tf_targetTransform := tf_transform tf\<rparr> else tf)
      in tf\<lparr>tf_lastPoll := now, tf_currentRate := TINY\<rparr>)"

definition SetDeviceTransform :: "int \<Rightarrow> set_device_transform \<Rightarrow> provider \<Rightarrow> provider" where
  "SetDeviceTransform now m pr =
     (let id = sdt_openVRID m
      in if id \<ge> k_unMaxTrackedDeviceCount then pr
         else let sys = cstr_of (sdt_target_system m)
              in upd_tf id (device_of_message m now)
                   (pr\<lparr>pr_deviceSystem := (pr_deviceSystem pr)[id := sys],
                       pr_lookupState := (pr_lookupState pr)[id := (if sys \<noteq> [] then Cached else NotTried)]\<rparr>))"

record set_device_prediction =
  sdp_openVRID :: nat
  sdp_predictionSmoothness :: byte
  sdp_smart_enabled :: byte

definition SetDevicePrediction :: "set_device_prediction \<Rightarrow> provider \<Rightarrow> provider" where
  "SetDevicePrediction m pr =
     (if sdp_openVRID m \<ge> k_unMaxTrackedDeviceCount then pr
      else upd_tf (sdp_openVRID m) (\<lambda>tf.
        let oldSmoothness = tf_predictionSmoothness tf;
            tf = tf\<lparr>tf_predictionSmoothness := sdp_predictionSmoothness m,
                   tf_smartEnabled := (sdp_smart_enabled m \<noteq> 0),
                   tf_smartShadowParams := BuildParams (sdp_predictionSmoothness m)\<rparr>
        in if oldSmoothness \<noteq> sdp_predictionSmoothness m
           then tf\<lparr>tf_smartFilter := FilterState_init, tf_smartFilterLastSample := 0\<rparr> else tf) pr)"

record set_tracking_system_fallback =
  sfb_system_name :: "byte list"
  sfb_enabled :: bool
  sfb_translation :: vec3
  sfb_rotation :: quat
  sfb_scale :: real
  sfb_predictionSmoothness :: byte
  sfb_recalibrateOnMovement :: bool

definition leave_fallback :: "int \<Rightarrow> device_transform \<Rightarrow> device_transform" where
  "leave_fallback now tf = tf\<lparr>tf_fallbackActive := False, tf_targetTransform := tf_transform tf,
     tf_currentRate := TINY, tf_lastPoll := now\<rparr>"

text \<open>The field \<open>predictionSmoothness\<close> of the message is ignored.\<close>

definition fallback_of_message :: "set_tracking_system_fallback \<Rightarrow> fallback_transform \<Rightarrow> fallback_transform" where
  "fallback_of_message m f = f\<lparr>fb_enabled := True,
     fb_transform := \<lparr>iso_rotation = sfb_rotation m, iso_translation = sfb_translation m\<rparr>,
     fb_scale := sfb_scale m, fb_recalibrateOnMovement := sfb_recalibrateOnMovement m\<rparr>"

definition put_fallback :: "byte list \<Rightarrow> set_tracking_system_fallback \<Rightarrow> fallback_slot list \<Rightarrow> bool \<times> fallback_slot list" where
  "put_fallback name m slots =
     (case AcquireFallbackSlot name slots of
        (None, slots) \<Rightarrow> (False, slots)
      | (Some i, slots) \<Rightarrow> (True, slots[i := (slots ! i)\<lparr>sl_tf := fallback_of_message m (sl_tf (slots ! i))\<rparr>]))"

definition disable_fallback :: "byte list \<Rightarrow> fallback_slot list \<Rightarrow> fallback_slot list" where
  "disable_fallback name slots =
     (case FindFallbackSlot name slots of
        None \<Rightarrow> slots
      | Some i \<Rightarrow> slots[i := (slots ! i)\<lparr>sl_tf := (sl_tf (slots ! i))\<lparr>fb_enabled := False\<rparr>\<rparr>])"

definition SetTrackingSystemFallback :: "int \<Rightarrow> set_tracking_system_fallback \<Rightarrow> provider \<Rightarrow> provider" where
  "SetTrackingSystemFallback now m pr =
     (let name = cstr_of (sfb_system_name m)
      in if name = [] then pr
         else if \<not> sfb_enabled m
         then pr\<lparr>pr_systemFallbacks := disable_fallback name (pr_systemFallbacks pr),
                 pr_transforms := map2 (\<lambda>tf sys. if tf_fallbackActive tf \<and> sys = name then leave_fallback now tf else tf)
                   (pr_transforms pr) (pr_deviceSystem pr)\<rparr>
         else pr\<lparr>pr_systemFallbacks := snd (put_fallback name m (pr_systemFallbacks pr))\<rparr>)"

record set_head_mount_config =
  shm_mode :: u32
  shm_deviceId :: int
  shm_trackerSerial :: "byte list"
  shm_trackerTrackingSystem :: "byte list"
  shm_headFromTrackerTrans :: vec3
  shm_headFromTrackerRot :: quat
  shm_hideTracker :: bool
  shm_offsetCalibrated :: bool
  shm_driverSynthStaleLimitMs :: u16
  shm_driverSynthGraceHoldMs :: u16
  shm_driverSynthBlendToFallbackMs :: u16
  shm_driverSynthStableBeforeSynthMs :: u16
  shm_driverSynthBlendToSynthMs :: u16

definition head_mount_of_message :: "set_head_mount_config \<Rightarrow> head_mount_state" where
  "head_mount_of_message c = \<lparr>hs_mode = sint (shm_mode c), hs_deviceId = shm_deviceId c,
     hs_trackerSerial = cstr_of (shm_trackerSerial c),
     hs_trackerTrackingSystem = cstr_of (shm_trackerTrackingSystem c),
     hs_headFromTrackerTrans = shm_headFromTrackerTrans c, hs_headFromTrackerRot = shm_headFromTrackerRot c,
     hs_hideTracker = shm_hideTracker c, hs_offsetCalibrated = shm_offsetCalibrated c,
     hs_driverSynthTiming = ClampDriverSynthTimingConfig
       \<lparr>staleLimitMs = uint (shm_driverSynthStaleLimitMs c), graceHoldMs = uint (shm_driverSynthGraceHoldMs c),
        blendToFallbackMs = uint (shm_driverSynthBlendToFallbackMs c),
        stableBeforeSynthMs = uint (shm_driverSynthStableBeforeSynthMs c),
        blendToSynthMs = uint (shm_driverSynthBlendToSynthMs c)\<rparr>\<rparr>"

definition source_changed :: "head_mount_state \<Rightarrow> head_mount_state \<Rightarrow> bool" where
  "source_changed next prev \<longleftrightarrow> hs_mode next \<noteq> hs_mode prev \<or> hs_deviceId next \<noteq> hs_deviceId prev
     \<or> hs_hideTracker next \<noteq> hs_hideTracker prev \<or> hs_offsetCalibrated next \<noteq> hs_offsetCalibrated prev
     \<or> hs_trackerSerial next \<noteq> hs_trackerSerial prev
     \<or> hs_trackerTrackingSystem next \<noteq> hs_trackerTrackingSystem prev
     \<or> hs_headFromTrackerTrans next \<noteq> hs_headFromTrackerTrans prev
     \<or> hs_headFromTrackerRot next \<noteq> hs_headFromTrackerRot prev"

definition SetHeadMountConfig :: "set_head_mount_config \<Rightarrow> provider \<Rightarrow> provider" where
  "SetHeadMountConfig c pr =
     (let next = head_mount_of_message c;
          sourceChanged = source_changed next (pr_headMountState pr);
          pr = pr\<lparr>pr_headMountState := next\<rparr>
      in if sourceChanged then pr\<lparr>pr_trackerSnap := no_snapshot, pr_driverSynthBlendReset := True\<rparr> else pr)"

text \<open>The random offset is drawn by the caller.\<close>

definition HandleApplyRandomOffset :: "vec3 \<Rightarrow> provider \<Rightarrow> provider" where
  "HandleApplyRandomOffset init pr = pr\<lparr>pr_debugTransform := vscale (1 / 4) init, pr_debugRotation := qone\<rparr>"

definition HandleSetAlignmentSpeedParams :: "alignment_speed \<Rightarrow> provider \<Rightarrow> provider" where
  "HandleSetAlignmentSpeedParams params pr = pr\<lparr>pr_alignmentSpeedParams := params\<rparr>"

datatype provider_msg =
    MsgDeviceTransform set_device_transform
  | MsgDevicePrediction set_device_prediction
  | MsgFallback set_tracking_system_fallback
  | MsgHeadMount set_head_mount_config
  | MsgRandomOffset vec3
  | MsgAlignmentSpeed alignment_speed

definition handle_msg :: "int \<Rightarrow> provider_msg \<Rightarrow> provider \<Rightarrow> provider" where
  "handle_msg now m = (case m of
      MsgDeviceTransform t \<Rightarrow> SetDeviceTransform now t
    | MsgDevicePrediction p \<Rightarrow> SetDevicePrediction p
    | MsgFallback f \<Rightarrow> SetTrackingSystemFallback now f
    | MsgHeadMount c \<Rightarrow> SetHeadMountConfig c
    | MsgRandomOffset v \<Rightarrow> HandleApplyRandomOffset v
    | MsgAlignmentSpeed p \<Rightarrow> HandleSetAlignmentSpeedParams p)"

end
