(* ===== verification/PoseHook.thy ===== *)
theory PoseHook
  imports PoseTransforms
begin

text \<open>
  The pose hook of the driver: \<open>HandleDevicePoseUpdated\<close> and \<open>ApplySmartSmoothing\<close> of
  \<open>core/src/driver/ServerTrackedDeviceProvider.cpp\<close> with the hiding of trackers
  (\<open>core/src/common/quash/QuashPose.h\<close>). The hook holds the state mutex except while it asks OpenVR for a
  property; the messages that the IPC thread handles in that window are an argument. The head-mount
  state has a mutex of its own: configurations that the IPC thread stores between the reads of that
  state are arguments too (after the test for the tracker, between the copies of the state and of
  the snapshot, and after both), as are the clocks, what \<open>isfinite\<close> says of the incoming pose, and the answers of OpenVR.
\<close>

section \<open>The stages of the hook\<close>

record hook_env =
  he_posFinite :: bool
  he_rotFinite :: bool
  he_velFinite :: bool
  he_angFinite :: bool
  he_qpc_filter :: int
  he_qpc_blend :: int
  he_qpc_lookup :: int
  he_qpc_activate :: int
  he_qpc_phantom :: int
  he_now_synth :: int
  he_now_snap :: int
  he_system :: "cstring option"
  he_window :: "(int \<times> provider_msg) list"
  he_configs_slot :: "set_head_mount_config list"
  he_configs_copy :: "set_head_mount_config list"
  he_configs_later :: "set_head_mount_config list"
  he_properties :: property_answers
  he_virtual :: virtual_env
  he_sidecar :: "sidecar_out option"

definition shmem_write :: "shmem_call \<Rightarrow> provider \<Rightarrow> provider" where
  "shmem_write c pr = pr\<lparr>pr_shmem := pr_shmem pr @ [c]\<rparr>"

definition apply_debug :: "eigen_quat \<Rightarrow> nat \<Rightarrow> provider \<Rightarrow> driver_pose \<Rightarrow> driver_pose" where
  "apply_debug e openVRID pr pose =
     (if openVRID > 0
      then pose\<lparr>vecPosition := vadd (vecPosition pose) (pr_debugTransform pr),
                qRotation := eq_mul e (qRotation pose) (pr_debugRotation pr)\<rparr>
      else pose)"

definition resolve_smoothness :: "nat \<Rightarrow> provider \<Rightarrow> byte" where
  "resolve_smoothness openVRID pr =
     (let tf = pr_transforms pr ! openVRID; smoothness = tf_predictionSmoothness tf; sys = pr_deviceSystem pr ! openVRID
      in if smoothness = 0 \<and> \<not> tf_enabled tf \<and> sys \<noteq> []
         then case FindFallbackSlot sys (pr_systemFallbacks pr) of
                Some i \<Rightarrow>
                  let fb = sl_tf (pr_systemFallbacks pr ! i)
                  in if fb_enabled fb \<and> fb_predictionSmoothness fb > 0 then fb_predictionSmoothness fb else smoothness
              | None \<Rightarrow> smoothness
         else smoothness)"

definition scale_motion :: "real \<Rightarrow> real \<Rightarrow> driver_pose \<Rightarrow> driver_pose" where
  "scale_motion linFactor angFactor pose =
     pose\<lparr>vecVelocity := vscale linFactor (vecVelocity pose),
          vecAcceleration := vscale linFactor (vecAcceleration pose),
          vecAngularVelocity := vscale angFactor (vecAngularVelocity pose),
          vecAngularAcceleration := vscale angFactor (vecAngularAcceleration pose),
          poseTimeOffset := poseTimeOffset pose * linFactor\<rparr>"

text \<open>The flag \<open>dev\<close> is the build channel.\<close>

definition ApplySmartSmoothing :: "bool \<Rightarrow> hook_env \<Rightarrow> int \<Rightarrow> driver_pose \<Rightarrow> byte \<Rightarrow> device_transform \<times> driver_pose
    \<Rightarrow> device_transform \<times> driver_pose" where
  "ApplySmartSmoothing dev he qpcFreq rawPose smoothness dp =
     (let (device, pose) = dp
      in if qpcFreq \<le> 0 then (device, pose)
         else if \<not> he_posFinite he \<or> \<not> fst (QuatNormalize (he_rotFinite he) (qRotation rawPose))
         then (device\<lparr>tf_smartFilter := (tf_smartFilter device)\<lparr>fs_initialized := False\<rparr>,
                      tf_smartFilterLastSample := 0\<rparr>, pose)
         else
           let now = he_qpc_filter he;
               dt = (if tf_smartFilterLastSample device > 0
                     then of_int (now - tf_smartFilterLastSample device) / of_int qpcFreq else - 1);
               reportedLinear = (if he_velFinite he then min (Length3 (vecVelocity rawPose)) 15 else 0);
               reportedAngular = (if he_angFinite he then min (Length3 (vecAngularVelocity rawPose)) 80 else 0);
               (r, filter) = FilterStep (he_posFinite he) (he_rotFinite he) (tf_smartShadowParams device)
                 (vecPosition rawPose) (qRotation rawPose) reportedLinear reportedAngular dt (tf_smartFilter device);
               base = Saturate (SmoothnessToFactor smoothness);
               linFactor = base + (1 - base) * sr_posRelease r;
               angFactor = base + (1 - base) * sr_rotRelease r;
               pose = (scale_motion linFactor angFactor pose)\<lparr>vecPosition := filteredPos filter\<rparr>;
               pose = (if dev \<and> tf_smartEnabled device then pose\<lparr>qRotation := filteredRot filter\<rparr> else pose)
           in (device\<lparr>tf_smartFilter := filter, tf_smartFilterLastSample := now\<rparr>, pose))"

definition smoothing_stage :: "bool \<Rightarrow> hook_env \<Rightarrow> nat \<Rightarrow> provider \<times> driver_pose \<Rightarrow> provider \<times> driver_pose" where
  "smoothing_stage dev he openVRID pp =
     (let (pr, pose) = pp;
          tf = pr_transforms pr ! openVRID;
          smoothness = resolve_smoothness openVRID pr
      in if smoothness > 0
         then let smoothness = (if smoothness > 100 then 100 else smoothness);
                  (tf, pose) = ApplySmartSmoothing dev he (pr_qpcFreq pr) pose smoothness (tf, pose)
              in (upd_tf openVRID (\<lambda>_. tf) pr, pose)
         else (upd_tf openVRID (\<lambda>tf. tf\<lparr>tf_smartFilter := (tf_smartFilter tf)\<lparr>fs_initialized := False\<rparr>,
                 tf_smartFilterLastSample := 0\<rparr>) pr, pose))"

definition is_synth_tracker :: "nat \<Rightarrow> provider \<Rightarrow> bool" where
  "is_synth_tracker openVRID pr \<longleftrightarrow> hs_mode (pr_headMountState pr) = 3 \<and> hs_deviceId (pr_headMountState pr) \<ge> 0
     \<and> int openVRID = hs_deviceId (pr_headMountState pr)"

definition snapshotDriverSynthTracker :: "hook_env \<Rightarrow> bool \<Rightarrow> nat \<Rightarrow> driver_pose \<Rightarrow> provider \<Rightarrow> provider" where
  "snapshotDriverSynthTracker he trackerSlot openVRID pose pr =
     (if \<not> trackerSlot then pr
      else pr\<lparr>pr_trackerSnap := \<lparr>sn_pose = pose, sn_capturedAt = he_now_snap he,
                sn_capturedForDeviceId = int openVRID, sn_valid = True\<rparr>\<rparr>)"

definition synth_state_of :: "head_mount_state \<Rightarrow> synth_state" where
  "synth_state_of h = \<lparr>sy_mode = hs_mode h, sy_deviceId = hs_deviceId h,
     sy_headFromTrackerTrans = hs_headFromTrackerTrans h, sy_headFromTrackerRot = hs_headFromTrackerRot h,
     sy_offsetCalibrated = hs_offsetCalibrated h\<rparr>"

definition run_configs :: "set_head_mount_config list \<Rightarrow> provider \<Rightarrow> provider" where
  "run_configs cs pr = fold SetHeadMountConfig cs pr"

text \<open>For the headset: the timing if the mode is on, and the synthesised pose.\<close>

definition synth_stage :: "hook_env \<Rightarrow> nat \<Rightarrow> provider \<Rightarrow> synth_timing option \<times> driver_pose option \<times> provider" where
  "synth_stage he openVRID pr =
     (let h = pr_headMountState pr;
          pr = run_configs (he_configs_copy he) pr
      in if openVRID = 0 \<and> hs_mode h = 3
         then case Compose (synth_state_of h) (pr_trackerSnap pr) (he_now_synth he) (hs_driverSynthTiming h) of
                Some p \<Rightarrow> (Some (hs_driverSynthTiming h), Some p, pr)
              | None \<Rightarrow> (Some (hs_driverSynthTiming h), None,
                          shmem_write (ShmemIncrement TELEMETRY_DRIVER_SYNTH_FALLBACK) pr)
         else (None, None, pr))"

definition kQuashOffsetX :: real where "kQuashOffsetX = 10000"
definition kQuashOffsetY :: real where "kQuashOffsetY = 0"
definition kQuashOffsetZ :: real where "kQuashOffsetZ = 10000"

definition ApplyQuashToPose :: "driver_pose \<Rightarrow> driver_pose" where
  "ApplyQuashToPose pose = pose\<lparr>vecPosition :=
     vadd (vecPosition pose) \<lparr>vx = kQuashOffsetX, vy = kQuashOffsetY, vz = kQuashOffsetZ\<rparr>\<rparr>"

text \<open>Scaling, choosing the rate, blending and applying a device's transform.\<close>

definition calibrate :: "eigen_quat \<Rightarrow> hook_env \<Rightarrow> alignment_speed \<Rightarrow> int \<Rightarrow> device_transform \<times> driver_pose
    \<Rightarrow> device_transform \<times> driver_pose" where
  "calibrate e he sp qpcFreq dp =
     (let (tf, pose) = dp;
          pose = pose\<lparr>vecPosition := vscale (tf_scale tf) (vecPosition pose)\<rparr>;
          deviceWorldPose = toIsoPose e pose;
          tf = tf\<lparr>tf_currentRate := GetTransformDeltaSize e sp (tf_currentRate tf) deviceWorldPose
                 (tf_transform tf) (tf_targetTransform tf)\<rparr>;
          tf = BlendTransform e sp qpcFreq (he_qpc_blend he) deviceWorldPose tf
      in (tf, ApplyTransform e tf pose))"

definition calibrate_slot :: "eigen_quat \<Rightarrow> hook_env \<Rightarrow> nat \<Rightarrow> provider \<times> driver_pose \<Rightarrow> provider \<times> driver_pose" where
  "calibrate_slot e he openVRID pp =
     (let (pr, pose) = pp;
          (tf, pose) = calibrate e he (pr_alignmentSpeedParams pr) (pr_qpcFreq pr) (pr_transforms pr ! openVRID, pose)
      in (upd_tf openVRID (\<lambda>_. tf) pr, pose))"

definition run_window :: "hook_env \<Rightarrow> provider \<Rightarrow> provider" where
  "run_window he pr = fold (\<lambda>(now, m). handle_msg now m) (he_window he) pr"

definition quash_stage :: "eigen_quat \<Rightarrow> hook_env \<Rightarrow> bool \<Rightarrow> bool \<Rightarrow> nat \<Rightarrow> provider \<times> driver_pose \<Rightarrow> provider \<times> driver_pose" where
  "quash_stage e he trackerSlot quashTransition openVRID pp =
     (let (pr, pose) = pp;
          pr = (if trackerSlot \<and> tf_enabled (pr_transforms pr ! openVRID)
                then let (pr, synthTrackerPose) = calibrate_slot e he openVRID (pr, pose)
                     in snapshotDriverSynthTracker he trackerSlot openVRID synthTrackerPose pr
                else pr);
          pr = shmem_write (ShmemIncrement TELEMETRY_QUASH_APPLY) pr;
          pr = (if quashTransition then run_window he pr else pr)
      in (pr, ApplyQuashToPose pose))"

definition enabled_stage :: "eigen_quat \<Rightarrow> hook_env \<Rightarrow> bool \<Rightarrow> nat \<Rightarrow> provider \<times> driver_pose \<Rightarrow> provider \<times> driver_pose" where
  "enabled_stage e he trackerSlot openVRID pp =
     (let (pr, pose) = calibrate_slot e he openVRID pp;
          pr = snapshotDriverSynthTracker he trackerSlot openVRID pose pr
      in (shmem_write (ShmemIncrement TELEMETRY_PER_ID_APPLY) pr, pose))"

definition should_look_up :: "hook_env \<Rightarrow> nat \<Rightarrow> provider \<Rightarrow> bool" where
  "should_look_up he openVRID pr \<longleftrightarrow>
     pr_deviceSystem pr ! openVRID = [] \<and> pr_lookupState pr ! openVRID \<noteq> Cached
     \<and> \<not> (pr_lookupState pr ! openVRID = LookupFailed \<and> pr_qpcFreq pr > 0
          \<and> he_qpc_lookup he - pr_lastLookupAttempt pr ! openVRID < pr_qpcFreq pr)"

definition look_up_system :: "hook_env \<Rightarrow> nat \<Rightarrow> provider \<Rightarrow> provider" where
  "look_up_system he openVRID pr =
     (if should_look_up he openVRID pr
      then let pr = run_window he pr
           in if pr_lookupState pr ! openVRID \<noteq> Cached
              then case he_system he of
                     Some sys \<Rightarrow> pr\<lparr>pr_deviceSystem := (pr_deviceSystem pr)[openVRID := sys],
                                   pr_lookupState := (pr_lookupState pr)[openVRID := Cached]\<rparr>
                   | None \<Rightarrow> pr\<lparr>pr_lookupState := (pr_lookupState pr)[openVRID := LookupFailed],
                               pr_lastLookupAttempt := (pr_lastLookupAttempt pr)[openVRID := he_qpc_lookup he]\<rparr>
              else pr
      else pr)"

definition follow_fallback :: "int \<Rightarrow> fallback_transform \<Rightarrow> device_transform \<Rightarrow> device_transform" where
  "follow_fallback now fb tf =
     (let tf = tf\<lparr>tf_targetTransform := fb_transform fb, tf_scale := fb_scale fb\<rparr>;
          tf = (if tf_recalibrateOnMovement tf \<and> \<not> fb_recalibrateOnMovement fb
                then tf\<lparr>tf_blendMotionInitialized := False\<rparr> else tf);
          tf = tf\<lparr>tf_recalibrateOnMovement := fb_recalibrateOnMovement fb\<rparr>
      in if \<not> tf_fallbackActive tf
         then tf\<lparr>tf_transform := fb_transform fb, tf_fallbackActive := True, tf_currentRate := TINY, tf_lastPoll := now\<rparr>
         else tf)"

definition fallback_apply :: "eigen_quat \<Rightarrow> hook_env \<Rightarrow> bool \<Rightarrow> nat \<Rightarrow> provider \<times> driver_pose \<Rightarrow> provider \<times> driver_pose" where
  "fallback_apply e he trackerSlot openVRID pp =
     (let (pr, pose) = pp
      in case FindFallbackSlot (pr_deviceSystem pr ! openVRID) (pr_systemFallbacks pr) of
           Some i \<Rightarrow>
             let fb = sl_tf (pr_systemFallbacks pr ! i)
             in if fb_enabled fb
                then let pr = upd_tf openVRID (follow_fallback (he_qpc_activate he) fb) pr;
                         (pr, pose) = calibrate_slot e he openVRID (pr, pose);
                         pr = snapshotDriverSynthTracker he trackerSlot openVRID pose pr
                     in (shmem_write (ShmemIncrement TELEMETRY_FALLBACK_APPLY) pr, pose)
                else (upd_tf openVRID (\<lambda>tf. if tf_fallbackActive tf then leave_fallback (he_qpc_activate he) tf else tf) pr, pose)
         | None \<Rightarrow> (upd_tf openVRID (\<lambda>tf. if tf_fallbackActive tf then leave_fallback (he_qpc_activate he) tf else tf) pr, pose))"

definition source_stage :: "hook_env \<Rightarrow> synth_timing option \<Rightarrow> driver_pose option \<Rightarrow> provider \<times> driver_pose
    \<Rightarrow> provider \<times> driver_pose" where
  "source_stage he hmdMode synth pp =
     (let (pr, pose) = pp
      in case hmdMode of
           Some timing \<Rightarrow>
             let pr = (if pr_driverSynthBlendReset pr
                       then pr\<lparr>pr_driverSynthBlendReset := False, pr_driverSynthBlendState := SourceBlendState_init\<rparr>
                       else pr);
                 (out, alpha, st) = StepSourceBlend timing pose synth (he_now_synth he) (pr_driverSynthBlendState pr)
             in (pr\<lparr>pr_driverSynthBlendState := st\<rparr>, out)
         | None \<Rightarrow> (pr, pose))"

definition phantom_stage :: "hook_env \<Rightarrow> nat \<Rightarrow> provider \<times> driver_pose \<Rightarrow> provider \<times> driver_pose option" where
  "phantom_stage he openVRID pp =
     (let (pr, pose) = pp
      in if pr_phantomEnabled pr \<and> \<not> tf_quash (pr_transforms pr ! openVRID)
         then let ph = OnRealPoseObserved (he_properties he) (he_virtual he) openVRID (he_qpc_phantom he) pose (pr_phantom pr);
                  (out, ph) = MaybeOverridePose (he_sidecar he) (pr_qpcFreq pr) openVRID (he_qpc_phantom he) (pr_qpcFreq pr) pose ph
              in (pr\<lparr>pr_phantom := ph\<rparr>, out)
         else (pr, Some pose))"

text \<open>The hook up to the point where the headset pose is composed: whether the device is the tracker of
  the head mount, the provider and the pose.\<close>

definition hook_front :: "bool \<Rightarrow> eigen_quat \<Rightarrow> hook_env \<Rightarrow> nat \<Rightarrow> driver_pose \<Rightarrow> provider \<Rightarrow> bool \<times> provider \<times> driver_pose" where
  "hook_front dev e he openVRID pose pr =
     (let pose = apply_debug e openVRID pr pose;
          (pr, pose) = smoothing_stage dev he openVRID (pr, pose);
          pr = shmem_write (ShmemSetPose openVRID pose) pr
      in (is_synth_tracker openVRID pr, run_configs (he_configs_slot he) pr, pose))"

text \<open>The transform of the device; the flag says that the function returns here.\<close>

definition device_stage :: "eigen_quat \<Rightarrow> hook_env \<Rightarrow> bool \<Rightarrow> nat \<Rightarrow> provider \<times> driver_pose \<Rightarrow> bool \<times> provider \<times> driver_pose" where
  "device_stage e he trackerSlot openVRID pp =
     (let (pr, pose) = pp;
          tf = pr_transforms pr ! openVRID;
          quashTransition = (tf_quash tf \<and> \<not> tf_prevQuash tf);
          pr = upd_tf openVRID (\<lambda>tf. tf\<lparr>tf_prevQuash := tf_quash tf\<rparr>) pr
      in if tf_quash tf then (False, quash_stage e he trackerSlot quashTransition openVRID (pr, pose))
         else if tf_enabled tf then (False, enabled_stage e he trackerSlot openVRID (pr, pose))
         else let pr = look_up_system he openVRID pr
              in if pr_deviceSystem pr ! openVRID = [] then (True, pr, pose)
                 else (False, fallback_apply e he trackerSlot openVRID (pr, pose)))"

text \<open>The pose handed to SteamVR, \<open>None\<close> when the update is dropped, and the provider afterwards.\<close>

definition HandleDevicePoseUpdated :: "bool \<Rightarrow> eigen_quat \<Rightarrow> hook_env \<Rightarrow> nat \<Rightarrow> driver_pose \<Rightarrow> provider
    \<Rightarrow> provider \<times> driver_pose option" where
  "HandleDevicePoseUpdated dev e he openVRID pose pr =
     (let (trackerSlot, pr, pose) = hook_front dev e he openVRID pose pr;
          (hmdMode, synth, pr) = synth_stage he openVRID pr;
          (ret, pr, pose) = device_stage e he trackerSlot openVRID (run_configs (he_configs_later he) pr, pose)
      in if ret then (pr, Some pose)
         else phantom_stage he openVRID (source_stage he hmdMode synth (pr, pose)))"

section \<open>Blending a calibration\<close>

lemma vec3_eqI: "vx a = vx b \<Longrightarrow> vy a = vy b \<Longrightarrow> vz a = vz b \<Longrightarrow> a = (b :: vec3)"
  by simp

lemmas vec_defs = vadd_def vminus_def vscale_def vmap_def vmap2_def

text \<open>Under an interpolated isometry the anchor point moves on a straight line.\<close>

lemma interpolateAround_anchor:
  "iso_apply e (interpolateAround e a l b p) p = vmap2 (blend_component l) (iso_apply e a p) (iso_apply e b p)"
  by (simp add: iso_apply_def interpolateAround_def vec_defs blend_component_def Let_def algebra_simps)

lemma blend_lerp_range: "0 \<le> blend_lerp sp f t d" "blend_lerp sp f t d \<le> 1"
  by (simp_all add: blend_lerp_def Let_def)

text \<open>What the code relies on of Eigen: rotations by unit quaternions are linear, and the normalised
  product of two unit quaternions rotates as the two one after the other.\<close>

definition eigen_rotations :: "eigen_quat \<Rightarrow> bool" where
  "eigen_rotations e \<longleftrightarrow>
     (\<forall>a u v. qnorm2 a = 1 \<longrightarrow> eq_rotate e a (vadd u v) = vadd (eq_rotate e a u) (eq_rotate e a v))
   \<and> (\<forall>a b v. qnorm2 a = 1 \<longrightarrow> qnorm2 b = 1 \<longrightarrow>
        eq_rotate e (eq_normalized e (eq_mul e a b)) v = eq_rotate e a (eq_rotate e b v))
   \<and> (\<forall>a b t. qnorm2 a = 1 \<longrightarrow> qnorm2 b = 1 \<longrightarrow> qnorm2 (eq_normalized e (eq_slerp e a t b)) = 1)"

lemma vadd_assoc: "vadd (vadd a b) c = vadd a (vadd b c)"
  by (simp add: vec_defs)

lemma iso_mult_apply:
  assumes "eigen_rotations e" "qnorm2 (iso_rotation a) = 1" "qnorm2 (iso_rotation b) = 1"
  shows "iso_apply e (iso_mult e a b) p = iso_apply e a (iso_apply e b p)"
  using assms by (simp add: eigen_rotations_def iso_apply_def iso_mult_def vadd_assoc)

text \<open>Where a pose puts its device in the world.\<close>

definition world_position :: "eigen_quat \<Rightarrow> driver_pose \<Rightarrow> vec3" where
  "world_position e pose = iso_apply e (toIsoWorldTransform pose) (vecPosition pose)"

lemma toIsoPose_translation: "iso_translation (toIsoPose e pose) = world_position e pose"
  by (simp add: toIsoPose_def iso_mult_def world_position_def iso_apply_def)

lemma ApplyTransform_fields [simp]:
  "vecPosition (ApplyTransform e d pose) = vecPosition pose" "qRotation (ApplyTransform e d pose) = qRotation pose"
  by (simp_all add: ApplyTransform_def Let_def)

lemma toIsoWorldTransform_Apply:
  "toIsoWorldTransform (ApplyTransform e d pose) = iso_mult e (tf_transform d) (toIsoWorldTransform pose)"
  by (simp add: ApplyTransform_def toIsoWorldTransform_def Let_def split: prod.splits)

lemma ApplyTransform_world:
  assumes "eigen_rotations e" "qnorm2 (iso_rotation (tf_transform d)) = 1"
    and "qnorm2 (iso_rotation (toIsoWorldTransform pose)) = 1"
  shows "world_position e (ApplyTransform e d pose) = iso_apply e (tf_transform d) (world_position e pose)"
  using iso_mult_apply [OF assms] by (simp add: world_position_def toIsoWorldTransform_Apply)

definition scaled :: "device_transform \<Rightarrow> driver_pose \<Rightarrow> driver_pose" where
  "scaled tf pose = pose\<lparr>vecPosition := vscale (tf_scale tf) (vecPosition pose)\<rparr>"

lemma toIsoWorldTransform_scaled [simp]: "toIsoWorldTransform (scaled tf pose) = toIsoWorldTransform pose"
  by (simp add: scaled_def toIsoWorldTransform_def)

definition unit_device :: "device_transform \<Rightarrow> bool" where
  "unit_device tf \<longleftrightarrow> qnorm2 (iso_rotation (tf_transform tf)) = 1 \<and> qnorm2 (iso_rotation (tf_targetTransform tf)) = 1"

lemma calibrate_world:
  assumes e: "eigen_rotations e" and u: "unit_device tf" and w: "qnorm2 (iso_rotation (toIsoWorldTransform pose)) = 1"
    and c: "calibrate e he sp f (tf, pose) = (tf', out)"
  shows "\<exists>l. 0 \<le> l \<and> l \<le> 1 \<and> world_position e out = vmap2 (blend_component l)
      (iso_apply e (tf_transform tf) (world_position e (scaled tf pose)))
      (iso_apply e (tf_targetTransform tf) (world_position e (scaled tf pose)))
    \<and> unit_device tf' \<and> tf_targetTransform tf' = tf_targetTransform tf"
proof -
  let ?p = "scaled tf pose"
  define rate where "rate = GetTransformDeltaSize e sp (tf_currentRate tf) (toIsoPose e ?p) (tf_transform tf) (tf_targetTransform tf)"
  define l where "l = blend_lerp sp f (he_qpc_blend he) (tf\<lparr>tf_currentRate := rate\<rparr>)"
  have tf': "tf' = BlendTransform e sp f (he_qpc_blend he) (toIsoPose e ?p) (tf\<lparr>tf_currentRate := rate\<rparr>)"
    and out: "out = ApplyTransform e tf' ?p"
    using c by (auto simp: calibrate_def Let_def rate_def scaled_def)
  have t: "tf_transform tf' = interpolateAround e (tf_transform tf) l (tf_targetTransform tf) (world_position e ?p)"
    by (simp add: tf' BlendTransform_def l_def toIsoPose_translation)
  have "qnorm2 (iso_rotation (tf_transform tf')) = 1"
    using e u by (simp add: t interpolateAround_def Let_def eigen_rotations_def unit_device_def)
  moreover from this have "world_position e out = iso_apply e (tf_transform tf') (world_position e ?p)"
    using ApplyTransform_world [OF e, of tf' ?p] w by (simp add: out)
  moreover have "tf_targetTransform tf' = tf_targetTransform tf" by (simp add: tf' BlendTransform_def)
  moreover have "0 \<le> l" "l \<le> 1" by (simp_all add: l_def blend_lerp_range)
  ultimately show ?thesis
    using u by (intro exI [of _ l]) (simp add: t interpolateAround_anchor unit_device_def)
qed

text \<open>A concrete instance of the rotations.\<close>

lemma QRotate_add: "QRotate a (vadd u v) = vadd (QRotate a u) (QRotate a v)"
  by (simp add: QRotate_def vec_defs Let_def algebra_simps)

lemma QRotate_QMul:
  assumes "qnorm2 a = 1" "qnorm2 b = 1"
  shows "QRotate (QMul a b) v = QRotate a (QRotate b v)"
proof -
  have a: "qw a * qw a + qx a * qx a + qy a * qy a + qz a * qz a = 1"
    and b: "qw b * qw b + qx b * qx b + qy b * qy b + qz b * qz b = 1"
    using assms by (simp_all add: qnorm2_def)
  show ?thesis
    unfolding QRotate_def QMul_def Let_def vec3.simps quat.simps
    by (rule vec3_eqI; unfold vec3.simps; use a b in algebra)
qed

definition reference_quat :: eigen_quat where
  "reference_quat = \<lparr>eq_mul = QMul, eq_rotate = QRotate, eq_normalized = QNormalize,
     eq_slerp = (\<lambda>a t b. Slerp a b t), eq_angularDistance = (\<lambda>a b. 2 * arccos \<bar>QuatDot a b\<bar>)\<rparr>"

lemma reference_rotations: "eigen_rotations reference_quat"
  by (simp add: eigen_rotations_def reference_quat_def QRotate_add QRotate_QMul QNormalize_unit qnorm2_QMul
      qnorm2_QNormalize)

section \<open>What the stages leave alone\<close>

definition same_calibration :: "device_transform \<Rightarrow> device_transform \<Rightarrow> bool" where
  "same_calibration a b \<longleftrightarrow> tf_enabled a = tf_enabled b \<and> tf_quash a = tf_quash b \<and> tf_transform a = tf_transform b
     \<and> tf_targetTransform a = tf_targetTransform b \<and> tf_scale a = tf_scale b"

lemma length_upd_tf [simp]: "length (pr_transforms (upd_tf i f pr)) = length (pr_transforms pr)"
  by (simp add: upd_tf_def)

lemma upd_tf_at [simp]: "i < length (pr_transforms pr) \<Longrightarrow> pr_transforms (upd_tf i f pr) ! i = f (pr_transforms pr ! i)"
  by (simp add: upd_tf_def)

lemma upd_tf_fields [simp]:
  "pr_trackerSnap (upd_tf i f pr) = pr_trackerSnap pr" "pr_headMountState (upd_tf i f pr) = pr_headMountState pr"
  "pr_phantomEnabled (upd_tf i f pr) = pr_phantomEnabled pr" "pr_deviceSystem (upd_tf i f pr) = pr_deviceSystem pr"
  "pr_systemFallbacks (upd_tf i f pr) = pr_systemFallbacks pr" "pr_lookupState (upd_tf i f pr) = pr_lookupState pr"
  by (simp_all add: upd_tf_def)

lemma shmem_write_fields [simp]:
  "pr_trackerSnap (shmem_write c pr) = pr_trackerSnap pr" "pr_headMountState (shmem_write c pr) = pr_headMountState pr"
  "pr_phantomEnabled (shmem_write c pr) = pr_phantomEnabled pr" "pr_transforms (shmem_write c pr) = pr_transforms pr"
  "pr_deviceSystem (shmem_write c pr) = pr_deviceSystem pr" "pr_systemFallbacks (shmem_write c pr) = pr_systemFallbacks pr"
  "pr_lookupState (shmem_write c pr) = pr_lookupState pr"
  by (simp_all add: shmem_write_def)

lemma snapshot_fields [simp]:
  "pr_phantomEnabled (snapshotDriverSynthTracker he b i p pr) = pr_phantomEnabled pr"
  "pr_transforms (snapshotDriverSynthTracker he b i p pr) = pr_transforms pr"
  by (simp_all add: snapshotDriverSynthTracker_def)

lemma SetHeadMountConfig_fields [simp]:
  "pr_phantomEnabled (SetHeadMountConfig c pr) = pr_phantomEnabled pr"
  "pr_transforms (SetHeadMountConfig c pr) = pr_transforms pr"
  "pr_deviceSystem (SetHeadMountConfig c pr) = pr_deviceSystem pr"
  by (simp_all add: SetHeadMountConfig_def Let_def)

lemma run_configs_fields [simp]:
  "pr_phantomEnabled (run_configs cs pr) = pr_phantomEnabled pr"
  "pr_transforms (run_configs cs pr) = pr_transforms pr"
  "pr_deviceSystem (run_configs cs pr) = pr_deviceSystem pr"
  unfolding run_configs_def by (induction cs arbitrary: pr) simp_all

lemma apply_debug_world [simp]: "dp_world (apply_debug e i pr pose) = dp_world pose"
  by (simp add: apply_debug_def)

lemma ApplySmartSmoothing_keeps:
  assumes "ApplySmartSmoothing dev he f raw sm (tf, pose) = (tf', pose')"
  shows "same_calibration tf' tf" "dp_world pose' = dp_world pose"
  using assms by (auto simp: ApplySmartSmoothing_def same_calibration_def scale_motion_def Let_def
      split: if_splits prod.splits)

lemma smoothing_stage_keeps:
  assumes "smoothing_stage dev he i (pr, pose) = (pr', pose')" "i < length (pr_transforms pr)"
  shows "same_calibration (pr_transforms pr' ! i) (pr_transforms pr ! i)" "dp_world pose' = dp_world pose"
    and "pr_trackerSnap pr' = pr_trackerSnap pr" "pr_headMountState pr' = pr_headMountState pr"
    and "pr_phantomEnabled pr' = pr_phantomEnabled pr" "length (pr_transforms pr') = length (pr_transforms pr)"
proof -
  let ?s = "resolve_smoothness i pr"
  let ?c = "if ?s > 100 then 100 else ?s"
  obtain tf q where a: "ApplySmartSmoothing dev he (pr_qpcFreq pr) pose ?c (pr_transforms pr ! i, pose) = (tf, q)"
    by fastforce
  note k = ApplySmartSmoothing_keeps [OF a]
  have "same_calibration (tf\<lparr>tf_smartFilter := x, tf_smartFilterLastSample := y\<rparr>) tf" for tf x y
    by (simp add: same_calibration_def)
  then show "same_calibration (pr_transforms pr' ! i) (pr_transforms pr ! i)" "dp_world pose' = dp_world pose"
    "pr_trackerSnap pr' = pr_trackerSnap pr" "pr_headMountState pr' = pr_headMountState pr"
    "pr_phantomEnabled pr' = pr_phantomEnabled pr" "length (pr_transforms pr') = length (pr_transforms pr)"
    using assms k by (auto simp: smoothing_stage_def Let_def a split: if_splits)
qed

lemma hook_front_keeps:
  assumes "hook_front dev e he i pose pr = (slot, pr', pose')" "i < length (pr_transforms pr)"
  shows "same_calibration (pr_transforms pr' ! i) (pr_transforms pr ! i)" "dp_world pose' = dp_world pose"
    and "pr_phantomEnabled pr' = pr_phantomEnabled pr" "length (pr_transforms pr') = length (pr_transforms pr)"
proof -
  obtain pr1 p1 where s: "smoothing_stage dev he i (pr, apply_debug e i pr pose) = (pr1, p1)" by fastforce
  note k = smoothing_stage_keeps [OF s assms(2)]
  show "same_calibration (pr_transforms pr' ! i) (pr_transforms pr ! i)" "dp_world pose' = dp_world pose"
    "pr_phantomEnabled pr' = pr_phantomEnabled pr" "length (pr_transforms pr') = length (pr_transforms pr)"
    using assms(1) k by (auto simp: hook_front_def Let_def s)
qed

lemma synth_stage_other:
  "i \<noteq> 0 \<Longrightarrow> synth_stage he i pr = (None, None, run_configs (he_configs_copy he) pr)"
  by (simp add: synth_stage_def Let_def)

text \<open>C8: A calibrated device is published between where it was and where it should be. For an enabled,
  visible device other than the headset, without the phantom module, every pose update is handed on;
  the world position of the published pose lies, coordinate by coordinate, between where the
  transform in use and where the target transform put the (smoothed and scaled) pose, whatever the
  clock says; and the hook never changes the target.
\<close>

theorem calibrated_device_between:
  assumes "eigen_rotations e" and "i \<noteq> 0" and "i < length (pr_transforms pr)"
    and "tf = pr_transforms pr ! i" and "tf_enabled tf" and "\<not> tf_quash tf" and "unit_device tf"
    and "\<not> pr_phantomEnabled pr" and "qnorm2 (iso_rotation (toIsoWorldTransform pose)) = 1"
    and "p = snd (snd (hook_front dev e he i pose pr))"
  shows "\<exists>pr' out. HandleDevicePoseUpdated dev e he i pose pr = (pr', Some out)
     \<and> vbetween (iso_apply e (tf_transform tf) (world_position e (scaled tf p)))
         (iso_apply e (tf_targetTransform tf) (world_position e (scaled tf p))) (world_position e out)
     \<and> tf_targetTransform (pr_transforms pr' ! i) = tf_targetTransform tf
     \<and> unit_device (pr_transforms pr' ! i)"
proof -
  obtain slot pr1 where f: "hook_front dev e he i pose pr = (slot, pr1, p)"
    using assms(10) by (metis prod.collapse)
  note k = hook_front_keeps [OF f assms(3)]
  let ?pr2 = "run_configs (he_configs_later he) (run_configs (he_configs_copy he) pr1)"
  let ?tf = "(pr_transforms pr1 ! i)\<lparr>tf_prevQuash := tf_quash (pr_transforms pr1 ! i)\<rparr>"
  obtain tf' out where c: "calibrate e he (pr_alignmentSpeedParams ?pr2) (pr_qpcFreq ?pr2) (?tf, p) = (tf', out)"
    by fastforce
  have st: "tf_transform ?tf = tf_transform tf" "tf_targetTransform ?tf = tf_targetTransform tf" "scaled ?tf p = scaled tf p"
    and en: "tf_enabled (pr_transforms pr1 ! i)" "\<not> tf_quash (pr_transforms pr1 ! i)"
    using k(1) assms(4-6) by (auto simp: same_calibration_def scaled_def)
  then have u: "unit_device ?tf" using assms(7) by (simp add: unit_device_def)
  have w: "qnorm2 (iso_rotation (toIsoWorldTransform p)) = 1"
    using assms(9) k(2) by (simp add: toIsoWorldTransform_def)
  from calibrate_world [OF assms(1) u w c] obtain l where l: "0 \<le> l" "l \<le> 1"
    "world_position e out = vmap2 (blend_component l)
      (iso_apply e (tf_transform tf) (world_position e (scaled tf p)))
      (iso_apply e (tf_targetTransform tf) (world_position e (scaled tf p)))"
    "unit_device tf'" "tf_targetTransform tf' = tf_targetTransform tf"
    unfolding st by blast
  have sp: "pr_alignmentSpeedParams (upd_tf i g q) = pr_alignmentSpeedParams q"
    "pr_qpcFreq (upd_tf i g q) = pr_qpcFreq q" for g q by (simp_all add: upd_tf_def)
  have il: "i < length (pr_transforms pr1)" using assms(3) k(4) by simp
  have "\<exists>pr'. HandleDevicePoseUpdated dev e he i pose pr = (pr', Some out) \<and> pr_transforms pr' ! i = tf'"
    using en il c k(3) assms(2,8)
    by (simp add: HandleDevicePoseUpdated_def f synth_stage_other device_stage_def enabled_stage_def
        calibrate_slot_def source_stage_def phantom_stage_def Let_def sp)
  moreover have "vbetween (iso_apply e (tf_transform tf) (world_position e (scaled tf p)))
      (iso_apply e (tf_targetTransform tf) (world_position e (scaled tf p))) (world_position e out)"
    using l(1,2) by (simp add: l(3) vbetween_def vmap2_def blend_component_between)
  ultimately show ?thesis using l(4,5) by blast
qed

section \<open>The headset follows the configured tracker only\<close>

text \<open>Messages of the overlay and pose updates in the order in which they take the mutex.\<close>

datatype driver_event = DMsg int provider_msg | DPose hook_env nat driver_pose

definition driver_step :: "bool \<Rightarrow> eigen_quat \<Rightarrow> driver_event \<Rightarrow> provider \<Rightarrow> provider" where
  "driver_step dev e ev pr =
     (case ev of DMsg now m \<Rightarrow> handle_msg now m pr | DPose he i pose \<Rightarrow> fst (HandleDevicePoseUpdated dev e he i pose pr))"

definition driver_run :: "bool \<Rightarrow> eigen_quat \<Rightarrow> driver_event list \<Rightarrow> provider \<Rightarrow> provider" where
  "driver_run dev e es pr = fold (driver_step dev e) es pr"

text \<open>A snapshot is kept, dropped, or taken by the hook of the device.\<close>

definition snap_step :: "hook_env \<Rightarrow> nat \<Rightarrow> tracker_snapshot \<Rightarrow> tracker_snapshot \<Rightarrow> bool" where
  "snap_step he i x y \<longleftrightarrow> y = x \<or> \<not> sn_valid y \<or> (sn_capturedForDeviceId y = int i \<and> sn_capturedAt y = he_now_snap he)"

lemma snap_step_refl [simp]: "snap_step he i x x"
  by (simp add: snap_step_def)

lemma snap_step_trans: "snap_step he i x y \<Longrightarrow> snap_step he i y z \<Longrightarrow> snap_step he i x z"
  by (auto simp: snap_step_def)

lemma snap_step_none [simp]: "snap_step he i x no_snapshot"
  by (simp add: snap_step_def no_snapshot_def)

lemma snap_config: "pr_trackerSnap (SetHeadMountConfig c pr) \<in> {pr_trackerSnap pr, no_snapshot}"
  by (simp add: SetHeadMountConfig_def Let_def)

lemma snap_msg: "pr_trackerSnap (handle_msg now m pr) \<in> {pr_trackerSnap pr, no_snapshot}"
  using snap_config by (cases m) (auto simp: handle_msg_def SetDeviceTransform_def SetDevicePrediction_def
      SetTrackingSystemFallback_def HandleApplyRandomOffset_def HandleSetAlignmentSpeedParams_def Let_def)

lemma snap_configs: "pr_trackerSnap (run_configs cs pr) \<in> {pr_trackerSnap pr, no_snapshot}"
  unfolding run_configs_def
proof (induction cs arbitrary: pr)
  case (Cons c cs)
  show ?case using Cons [of "SetHeadMountConfig c pr"] snap_config [of c pr] by auto
qed simp

lemma snap_window: "pr_trackerSnap (run_window he pr) \<in> {pr_trackerSnap pr, no_snapshot}"
proof -
  have "pr_trackerSnap (fold (\<lambda>(now, m). handle_msg now m) ms pr) \<in> {pr_trackerSnap pr, no_snapshot}" for ms
  proof (induction ms arbitrary: pr)
    case (Cons m ms)
    show ?case using Cons [of "handle_msg (fst m) (snd m) pr"] snap_msg [of "fst m" "snd m" pr]
      by (auto split: prod.splits)
  qed simp
  then show ?thesis by (simp add: run_window_def)
qed

lemma snap_step_intros:
  "y \<in> {x, no_snapshot} \<Longrightarrow> snap_step he i x y"
  by auto

lemma snap_taken: "snap_step he i (pr_trackerSnap pr) (pr_trackerSnap (snapshotDriverSynthTracker he b i p pr))"
  by (simp add: snapshotDriverSynthTracker_def snap_step_def)

lemma snap_calibrate_slot: "calibrate_slot e he i (pr, pose) = (pr', pose') \<Longrightarrow> pr_trackerSnap pr' = pr_trackerSnap pr"
  by (auto simp: calibrate_slot_def Let_def split: prod.splits)

lemma snap_quash:
  assumes "quash_stage e he b q i (pr, pose) = (pr', pose')"
  shows "snap_step he i (pr_trackerSnap pr) (pr_trackerSnap pr')"
proof -
  obtain pr1 p1 where c: "calibrate_slot e he i (pr, pose) = (pr1, p1)" by fastforce
  let ?snap = "\<lambda>b. if b \<and> tf_enabled (pr_transforms pr ! i) then snapshotDriverSynthTracker he b i p1 pr1 else pr"
  let ?pr3 = "shmem_write (ShmemIncrement TELEMETRY_QUASH_APPLY) (?snap b)"
  have s: "snap_step he i (pr_trackerSnap pr) (pr_trackerSnap ?pr3)"
    using snap_taken [of he i pr1 b p1] snap_calibrate_slot [OF c] by (cases b) simp_all
  have e: "pr' = (if q then run_window he ?pr3 else ?pr3)"
    using assms by (cases b) (auto simp: quash_stage_def Let_def c split: if_splits)
  show ?thesis
  proof (cases q)
    case True
    then show ?thesis
      using snap_step_trans [OF s snap_step_intros [OF snap_window [of he ?pr3]]] by (simp add: e)
  next
    case False
    then show ?thesis using s by (simp add: e)
  qed
qed

lemma snap_enabled: "enabled_stage e he b i (pr, pose) = (pr', pose') \<Longrightarrow> snap_step he i (pr_trackerSnap pr) (pr_trackerSnap pr')"
proof -
  assume a: "enabled_stage e he b i (pr, pose) = (pr', pose')"
  obtain pr1 p1 where c: "calibrate_slot e he i (pr, pose) = (pr1, p1)" by fastforce
  show ?thesis
    using a snap_taken [of he i pr1 b p1] snap_calibrate_slot [OF c] by (auto simp: enabled_stage_def Let_def c)
qed

lemma snap_lookup: "pr_trackerSnap (look_up_system he i pr) \<in> {pr_trackerSnap pr, no_snapshot}"
  using snap_window [of he pr] by (auto simp: look_up_system_def Let_def split: option.splits)

lemma snap_fallback: "fallback_apply e he b i (pr, pose) = (pr', pose') \<Longrightarrow> snap_step he i (pr_trackerSnap pr) (pr_trackerSnap pr')"
proof -
  assume a: "fallback_apply e he b i (pr, pose) = (pr', pose')"
  have s: "snap_step he i (pr_trackerSnap q) (pr_trackerSnap (snapshotDriverSynthTracker he b i p1 pr1))"
    if "calibrate_slot e he i (upd_tf i g q, pose) = (pr1, p1)" for g q pr1 p1
    using snap_taken [of he i pr1 b p1] snap_calibrate_slot [OF that] by simp
  show ?thesis
    using a s by (auto simp: fallback_apply_def Let_def split: option.splits if_splits prod.splits)
qed

lemma snap_device:
  assumes "device_stage e he b i (pr, pose) = (ret, pr', pose')"
  shows "snap_step he i (pr_trackerSnap pr) (pr_trackerSnap pr')"
proof -
  let ?pr = "upd_tf i (\<lambda>tf. tf\<lparr>tf_prevQuash := tf_quash tf\<rparr>) pr"
  have l: "snap_step he i (pr_trackerSnap pr) (pr_trackerSnap (look_up_system he i ?pr))"
    using snap_step_intros [OF snap_lookup [of he i ?pr], of he i] by simp
  show ?thesis
    using assms snap_quash [of e he b _ i ?pr pose pr' pose'] snap_enabled [of e he b i ?pr pose pr' pose']
      snap_fallback [of e he b i "look_up_system he i ?pr" pose pr' pose'] l
    by (auto simp: device_stage_def Let_def split: if_splits intro: snap_step_trans)
qed

lemma snap_synth: "synth_stage he i pr = (m, y, pr') \<Longrightarrow> pr_trackerSnap pr' \<in> {pr_trackerSnap pr, no_snapshot}"
  using snap_configs [of "he_configs_copy he" pr]
  by (auto simp: synth_stage_def Let_def split: if_splits option.splits)

lemma snap_front: "hook_front dev e he i pose pr = (b, pr', pose') \<Longrightarrow> pr_trackerSnap pr' \<in> {pr_trackerSnap pr, no_snapshot}"
proof -
  assume a: "hook_front dev e he i pose pr = (b, pr', pose')"
  obtain pr1 p1 where s: "smoothing_stage dev he i (pr, apply_debug e i pr pose) = (pr1, p1)" by fastforce
  have "pr_trackerSnap pr1 = pr_trackerSnap pr"
    using s by (auto simp: smoothing_stage_def Let_def split: if_splits prod.splits)
  then show ?thesis
    using a snap_configs [of "he_configs_slot he" "shmem_write (ShmemSetPose i p1) pr1"]
    by (auto simp: hook_front_def Let_def s)
qed

lemma snap_later: "pr_trackerSnap (fst (phantom_stage he i (source_stage he m y (pr, pose)))) = pr_trackerSnap pr"
  by (auto simp: phantom_stage_def source_stage_def Let_def split: option.splits prod.splits)

lemma snap_hook: "snap_step he i (pr_trackerSnap pr) (pr_trackerSnap (fst (HandleDevicePoseUpdated dev e he i pose pr)))"
proof -
  obtain b pr1 p1 where f: "hook_front dev e he i pose pr = (b, pr1, p1)" using prod_cases3 by blast
  obtain m y pr2 where y: "synth_stage he i pr1 = (m, y, pr2)" using prod_cases3 by blast
  let ?pr3 = "run_configs (he_configs_later he) pr2"
  obtain r pr4 p4 where d: "device_stage e he b i (?pr3, p1) = (r, pr4, p4)" using prod_cases3 by blast
  have "snap_step he i (pr_trackerSnap pr) (pr_trackerSnap pr1)" by (rule snap_step_intros [OF snap_front [OF f]])
  moreover have "snap_step he i (pr_trackerSnap pr1) (pr_trackerSnap pr2)" by (rule snap_step_intros [OF snap_synth [OF y]])
  moreover have "snap_step he i (pr_trackerSnap pr2) (pr_trackerSnap ?pr3)" by (rule snap_step_intros [OF snap_configs])
  moreover have "snap_step he i (pr_trackerSnap ?pr3) (pr_trackerSnap pr4)" by (rule snap_device [OF d])
  moreover have "pr_trackerSnap (fst (HandleDevicePoseUpdated dev e he i pose pr)) = pr_trackerSnap pr4"
    by (simp add: HandleDevicePoseUpdated_def f y d snap_later Let_def)
  ultimately show ?thesis by (metis snap_step_trans)
qed

text \<open>A valid snapshot was taken by an earlier hook of the device it names.\<close>

definition taken_in :: "bool \<Rightarrow> eigen_quat \<Rightarrow> provider \<Rightarrow> driver_event list \<Rightarrow> tracker_snapshot \<Rightarrow> bool" where
  "taken_in dev e pr0 es s \<longleftrightarrow> (\<exists>es1 he i q es2. es = es1 @ DPose he i q # es2
     \<and> s = pr_trackerSnap (driver_run dev e (es1 @ [DPose he i q]) pr0)
     \<and> sn_capturedForDeviceId s = int i \<and> sn_capturedAt s = he_now_snap he)"

lemma taken_in_snoc: "taken_in dev e pr0 es s \<Longrightarrow> taken_in dev e pr0 (es @ [x]) s"
  by (fastforce simp: taken_in_def)

lemma taken_in_last:
  assumes "s = pr_trackerSnap (driver_run dev e (es @ [DPose he i q]) pr0)"
    and "sn_capturedForDeviceId s = int i" "sn_capturedAt s = he_now_snap he"
  shows "taken_in dev e pr0 (es @ [DPose he i q]) s"
  unfolding taken_in_def using assms by (intro exI [of _ es] exI [of _ he] exI [of _ i] exI [of _ q] exI [of _ "[]"]) simp

lemma driver_run_snoc: "driver_run dev e (es @ [x]) pr = driver_step dev e x (driver_run dev e es pr)"
  by (simp add: driver_run_def)

lemma snapshot_origin:
  assumes "pr_trackerSnap pr0 = no_snapshot" "sn_valid (pr_trackerSnap (driver_run dev e es pr0))"
  shows "taken_in dev e pr0 es (pr_trackerSnap (driver_run dev e es pr0))"
  using assms(2)
proof (induction es rule: rev_induct)
  case Nil
  then show ?case using assms(1) by (simp add: driver_run_def no_snapshot_def)
next
  case (snoc x es)
  let ?pr = "driver_run dev e es pr0"
  let ?s = "pr_trackerSnap (driver_run dev e (es @ [x]) pr0)"
  have none: "\<not> sn_valid no_snapshot" by (simp add: no_snapshot_def)
  have kept: "taken_in dev e pr0 (es @ [x]) ?s" if "?s = pr_trackerSnap ?pr"
    using snoc that by (simp add: taken_in_snoc)
  show ?case
  proof (cases x)
    case (DMsg now m)
    then show ?thesis using snap_msg [of now m ?pr] snoc.prems kept none
      by (auto simp: driver_run_snoc driver_step_def)
  next
    case (DPose he i q)
    then have "snap_step he i (pr_trackerSnap ?pr) ?s"
      using snap_hook [of he i ?pr dev e q] by (simp add: driver_run_snoc driver_step_def)
    then show ?thesis
      using snoc.prems kept taken_in_last [of ?s dev e es he i q pr0] by (auto simp: snap_step_def DPose)
  qed
qed

lemma Compose_Some:
  assumes "Compose st s now cfg = Some p"
  shows "sn_valid s" "sn_capturedForDeviceId s = sy_deviceId st" "sy_offsetCalibrated st" "sy_mode st = 3"
    and "ms_between (sn_capturedAt s) now \<le> 250"
    and "p = (sn_pose s)\<lparr>dp_world := (fst (dp_world (sn_pose s)), fst (snd (dp_world (sn_pose s))),
           sy_headFromTrackerRot st, sy_headFromTrackerTrans st)\<rparr>"
  using assms by (auto simp: Compose_def IsTrackerFresh_def ClampDriverSynthTimingConfig_def
      ClampDriverSynthStaleLimitMs_def split: if_splits prod.splits)

text \<open>C2: The headset never follows a stale tracker or the wrong one. Whatever messages and poses the
  driver handled before, in whatever order, if the hook of the headset composes a pose, then the mode
  is on and its offset is calibrated, an earlier hook of the tracker configured now took the pose that
  is used, no more than 250 ms ago by the clock, and what is composed is that pose with the calibrated
  offset of the head.
\<close>

theorem headset_follows_configured_tracker:
  assumes "pr = driver_run dev e es (Provider_init qpcFreq phantomEnabled ph)"
    and "hook_front dev e he 0 pose pr = (slot, pr1, p1)"
    and "synth_stage he 0 pr1 = (Some timing, Some p, pr2)"
  shows "\<exists>es1 he' i q es2 s. es = es1 @ DPose he' i q # es2
     \<and> s = pr_trackerSnap (driver_run dev e (es1 @ [DPose he' i q]) (Provider_init qpcFreq phantomEnabled ph))
     \<and> sn_valid s \<and> int i = hs_deviceId (pr_headMountState pr1)
     \<and> hs_mode (pr_headMountState pr1) = 3 \<and> hs_offsetCalibrated (pr_headMountState pr1)
     \<and> ms_between (he_now_snap he') (he_now_synth he) \<le> 250
     \<and> p = (sn_pose s)\<lparr>dp_world := (fst (dp_world (sn_pose s)), fst (snd (dp_world (sn_pose s))),
           hs_headFromTrackerRot (pr_headMountState pr1), hs_headFromTrackerTrans (pr_headMountState pr1))\<rparr>"
proof -
  let ?pr0 = "Provider_init qpcFreq phantomEnabled ph"
  let ?prc = "run_configs (he_configs_copy he) pr1"
  have c: "Compose (synth_state_of (pr_headMountState pr1)) (pr_trackerSnap ?prc) (he_now_synth he) timing = Some p"
    using assms(3) by (auto simp: synth_stage_def Let_def split: if_splits option.splits)
  note k = Compose_Some [OF c]
  have "pr_trackerSnap ?prc \<in> {pr_trackerSnap pr, no_snapshot}"
    using snap_front [OF assms(2)] snap_configs [of "he_configs_copy he" pr1] by auto
  then have s: "pr_trackerSnap ?prc = pr_trackerSnap pr" using k(1) by (auto simp: no_snapshot_def)
  have "taken_in dev e ?pr0 es (pr_trackerSnap pr)"
    using snapshot_origin [of ?pr0 dev e es] k(1) assms(1) s by (simp add: Provider_init_def)
  then show ?thesis
    using k unfolding taken_in_def s by (fastforce simp: synth_state_of_def)
qed

lemma phantomEnabled_msg [simp]: "pr_phantomEnabled (handle_msg now m pr) = pr_phantomEnabled pr"
  by (cases m) (auto simp: handle_msg_def SetDeviceTransform_def SetDevicePrediction_def SetTrackingSystemFallback_def
      HandleApplyRandomOffset_def HandleSetAlignmentSpeedParams_def Let_def)

lemma phantomEnabled_window [simp]: "pr_phantomEnabled (run_window he pr) = pr_phantomEnabled pr"
proof -
  have "pr_phantomEnabled (fold (\<lambda>(now, m). handle_msg now m) ms pr) = pr_phantomEnabled pr" for ms
    by (induction ms arbitrary: pr) (auto split: prod.splits)
  then show ?thesis by (simp add: run_window_def)
qed

lemma phantomEnabled_slot [simp]:
  "calibrate_slot e he i (pr, pose) = (pr', pose') \<Longrightarrow> pr_phantomEnabled pr' = pr_phantomEnabled pr"
  by (auto simp: calibrate_slot_def Let_def split: prod.splits)

text \<open>C30: Hiding displaces. When a device is hidden and no phantom tracker stands in for it, the hook hands
  on its pose at ten thousand metres, smoothed but not calibrated, and no calibration, fallback,
  message or configuration that arrives meanwhile changes that.
\<close>

theorem hidden_tracker_displaced:
  assumes "i \<noteq> 0" and "i < length (pr_transforms pr)" and "tf_quash (pr_transforms pr ! i)"
    and "\<not> pr_phantomEnabled pr"
    and "hook_front dev e he i pose pr = (slot, pr1, p)"
  shows "\<exists>pr' out. HandleDevicePoseUpdated dev e he i pose pr = (pr', Some out) \<and> dp_world out = dp_world pose
     \<and> vecPosition out = vadd (vecPosition p) \<lparr>vx = 10000, vy = 0, vz = 10000\<rparr>"
proof -
  note k = hook_front_keeps [OF assms(5,2)]
  let ?pr2 = "run_configs (he_configs_later he) (run_configs (he_configs_copy he) pr1)"
  let ?pr3 = "upd_tf i (\<lambda>tf. tf\<lparr>tf_prevQuash := tf_quash tf\<rparr>) ?pr2"
  let ?q = "tf_quash (pr_transforms ?pr2 ! i) \<and> \<not> tf_prevQuash (pr_transforms ?pr2 ! i)"
  obtain pr4 p4 where qs: "quash_stage e he slot ?q i (?pr3, p) = (pr4, p4)" by fastforce
  have q: "tf_quash (pr_transforms ?pr2 ! i)" using k(1) assms(3) by (simp add: same_calibration_def)
  have p4: "p4 = ApplyQuashToPose p" "\<not> pr_phantomEnabled pr4"
    using qs assms(4) k(3) by (auto simp: quash_stage_def Let_def split: if_splits prod.splits)
  have "HandleDevicePoseUpdated dev e he i pose pr = (pr4, Some p4)"
    using q qs p4(2) assms(1) by (simp add: HandleDevicePoseUpdated_def assms(5) synth_stage_other device_stage_def
        source_stage_def phantom_stage_def Let_def)
  then show ?thesis using k(2)
    by (simp add: p4 ApplyQuashToPose_def kQuashOffsetX_def kQuashOffsetY_def kQuashOffsetZ_def)
qed

section \<open>The unlocked window of the lookup\<close>

lemma BlendTransform_fields [simp]:
  "tf_targetTransform (BlendTransform e sp f now w tf) = tf_targetTransform tf"
  "tf_enabled (BlendTransform e sp f now w tf) = tf_enabled tf"
  "tf_scale (BlendTransform e sp f now w tf) = tf_scale tf"
  by (simp_all add: BlendTransform_def)

lemma calibrate_slot_device:
  assumes "calibrate_slot e he i (pr, pose) = (pr', pose')" "i < length (pr_transforms pr)"
  shows "tf_targetTransform (pr_transforms pr' ! i) = tf_targetTransform (pr_transforms pr ! i)"
    and "tf_enabled (pr_transforms pr' ! i) = tf_enabled (pr_transforms pr ! i)"
    and "tf_scale (pr_transforms pr' ! i) = tf_scale (pr_transforms pr ! i)"
  using assms by (auto simp: calibrate_slot_def calibrate_def Let_def split: prod.splits)

lemma follow_fallback_fields [simp]:
  "tf_targetTransform (follow_fallback now fb tf) = fb_transform fb"
  "tf_enabled (follow_fallback now fb tf) = tf_enabled tf" "tf_scale (follow_fallback now fb tf) = fb_scale fb"
  by (simp_all add: follow_fallback_def Let_def)

lemma fallback_apply_device:
  assumes "FindFallbackSlot (pr_deviceSystem pr ! i) (pr_systemFallbacks pr) = Some j" "i < length (pr_transforms pr)"
    and "fb = sl_tf (pr_systemFallbacks pr ! j)" "fb_enabled fb"
    and "fallback_apply e he b i (pr, pose) = (pr', pose')"
  shows "tf_targetTransform (pr_transforms pr' ! i) = fb_transform fb" "tf_scale (pr_transforms pr' ! i) = fb_scale fb"
    and "tf_enabled (pr_transforms pr' ! i) = tf_enabled (pr_transforms pr ! i)"
proof -
  let ?q = "upd_tf i (follow_fallback (he_qpc_activate he) fb) pr"
  obtain pr1 p1 where c: "calibrate_slot e he i (?q, pose) = (pr1, p1)" by fastforce
  note d = calibrate_slot_device [OF c]
  show "tf_targetTransform (pr_transforms pr' ! i) = fb_transform fb" "tf_scale (pr_transforms pr' ! i) = fb_scale fb"
    "tf_enabled (pr_transforms pr' ! i) = tf_enabled (pr_transforms pr ! i)"
    using assms d by (auto simp: fallback_apply_def Let_def c [unfolded assms(3)])
qed

text \<open>A transform that the overlay stores while the hook asks for the tracking system is overwritten by
  the one of the tracking system: the device is left enabled with the target and the scale of the fallback.\<close>

lemma lookup_window_overwrites:
  assumes "i < length (pr_transforms pr)" "length (pr_deviceSystem pr) = length (pr_transforms pr)"
    "length (pr_transforms pr) = k_unMaxTrackedDeviceCount" "length (pr_lookupState pr) = length (pr_transforms pr)"
    and "\<not> tf_quash (pr_transforms pr ! i)" "\<not> tf_enabled (pr_transforms pr ! i)"
    and "pr_deviceSystem pr ! i = []" "pr_lookupState pr ! i = NotTried"
    and "he_window he = [(t, MsgDeviceTransform m)]" "sdt_openVRID m = i" "sdt_enabled m"
    and "cstr_of (sdt_target_system m) \<noteq> []"
    and "FindFallbackSlot (cstr_of (sdt_target_system m)) (pr_systemFallbacks pr) = Some j"
    and "fb = sl_tf (pr_systemFallbacks pr ! j)" "fb_enabled fb"
    and "device_stage e he b i (pr, pose) = (ret, pr', pose')"
  shows "tf_enabled (pr_transforms pr' ! i)" "tf_targetTransform (pr_transforms pr' ! i) = fb_transform fb"
    "tf_scale (pr_transforms pr' ! i) = fb_scale fb"
proof -
  let ?p = "upd_tf i (\<lambda>tf. tf\<lparr>tf_prevQuash := tf_quash tf\<rparr>) pr"
  let ?q = "look_up_system he i ?p"
  have q: "?q = SetDeviceTransform t m ?p"
    using assms(1-12) by (simp add: look_up_system_def should_look_up_def run_window_def handle_msg_def
        SetDeviceTransform_def Let_def)
  have en: "tf_enabled (device_of_message m t tf)" for tf
    using assms(11) by (simp add: device_of_message_def Let_def)
  have f: "pr_deviceSystem ?q ! i = cstr_of (sdt_target_system m)" "pr_systemFallbacks ?q = pr_systemFallbacks pr"
    "length (pr_transforms ?q) = length (pr_transforms pr)" "tf_enabled (pr_transforms ?q ! i)"
    using assms(1-4,10) en by (simp_all add: q SetDeviceTransform_def Let_def)
  have "fallback_apply e he b i (?q, pose) = (pr', pose')"
    using assms(5,6,12,16) f(1) by (simp add: device_stage_def Let_def)
  note d = fallback_apply_device [OF _ _ assms(14,15) [unfolded f(2) [symmetric]] this]
  show "tf_enabled (pr_transforms pr' ! i)" "tf_targetTransform (pr_transforms pr' ! i) = fb_transform fb"
    "tf_scale (pr_transforms pr' ! i) = fb_scale fb"
    using d assms(1,13) f by simp_all
qed

section \<open>Concrete runs of the hook\<close>

definition quiet_env :: "int \<Rightarrow> hook_env" where
  "quiet_env now = \<lparr>he_posFinite = True, he_rotFinite = True, he_velFinite = True, he_angFinite = True,
     he_qpc_filter = 0, he_qpc_blend = 10, he_qpc_lookup = 0, he_qpc_activate = 0, he_qpc_phantom = 0,
     he_now_synth = now, he_now_snap = now, he_system = None, he_window = [], he_configs_slot = [],
     he_configs_copy = [], he_configs_later = [], he_properties = \<lparr>pa_serial = None, pa_is_hmd = False\<rparr>,
     he_virtual = \<lparr>ve_now = 0, ve_host = False, ve_added = (\<lambda>_. False), ve_object = (\<lambda>_. None)\<rparr>, he_sidecar = None\<rparr>"

definition mount_tracker :: set_head_mount_config where
  "mount_tracker = \<lparr>shm_mode = 3, shm_deviceId = 1, shm_trackerSerial = [65], shm_trackerTrackingSystem = [66],
     shm_headFromTrackerTrans = vzero, shm_headFromTrackerRot = qone, shm_hideTracker = True,
     shm_offsetCalibrated = True, shm_driverSynthStaleLimitMs = 80, shm_driverSynthGraceHoldMs = 750,
     shm_driverSynthBlendToFallbackMs = 500, shm_driverSynthStableBeforeSynthMs = 350, shm_driverSynthBlendToSynthMs = 500\<rparr>"

definition calibrate_tracker :: "bool \<Rightarrow> set_device_transform" where
  "calibrate_tracker hide = \<lparr>sdt_openVRID = 1, sdt_enabled = True, sdt_updateTranslation = True, sdt_updateRotation = True,
     sdt_updateScale = True, sdt_translation = \<lparr>vx = 1, vy = 0, vz = 0\<rparr>, sdt_rotation = qone, sdt_scale = 1,
     sdt_lerp = False, sdt_quash = hide, sdt_updateQuash = True, sdt_target_system = [66], sdt_predictionSmoothness = 0,
     sdt_recalibrateOnMovement = False\<rparr>"

lemmas hook_eval = driver_run_def driver_step_def handle_msg_def SetHeadMountConfig_def SetDeviceTransform_def
  device_of_message_def calibrate_tracker_def mount_tracker_def Provider_init_def DeviceTransform_init_def
  k_unMaxTrackedDeviceCount_def head_mount_of_message_def source_changed_def HeadMountDriverState_init_def
  ClampDriverSynthTimingConfig_def ClampDriverSynthStaleLimitMs_def ClampDriverSynthTransitionMs_def upd_tf_def
  quiet_env_def hook_front_def apply_debug_def smoothing_stage_def resolve_smoothness_def shmem_write_def
  is_synth_tracker_def run_configs_def Let_def

definition demo_provider :: "bool \<Rightarrow> provider" where
  "demo_provider hide = driver_run True reference_quat
     [DMsg 0 (MsgHeadMount mount_tracker), DMsg 0 (MsgDeviceTransform (calibrate_tracker hide))]
     (Provider_init 1000 False PhantomModule_init)"

lemma demo_fields:
  "length (pr_transforms (demo_provider h)) = 64" "tf_quash (pr_transforms (demo_provider h) ! 1) = h"
  "tf_enabled (pr_transforms (demo_provider h) ! 1)" "\<not> pr_phantomEnabled (demo_provider h)"
  "unit_device (pr_transforms (demo_provider h) ! 1)"
  "resolve_smoothness 1 (demo_provider h) = 0"
  by (simp_all add: demo_provider_def hook_eval unit_device_def qnorm2_def qone_def iso_identity_def)

definition standing_pose :: driver_pose where
  "standing_pose = tracker_pose\<lparr>qRotation := qone, dp_world := (qone, vzero, qone, vzero)\<rparr>"

theorem hidden_tracker_displaced_witness:
  "\<exists>pr' out. HandleDevicePoseUpdated True reference_quat (quiet_env 0) 1 standing_pose (demo_provider True) = (pr', Some out)
     \<and> dp_world out = dp_world standing_pose"
  using hidden_tracker_displaced [of 1 "demo_provider True" True reference_quat "quiet_env 0" standing_pose] demo_fields [of True]
  by (metis One_nat_def prod_cases3 one_less_numeral_iff semiring_norm(76) zero_neq_one)

theorem calibrated_device_between_witness:
  "\<exists>pr' out. HandleDevicePoseUpdated True reference_quat (quiet_env 0) 1 standing_pose (demo_provider False) = (pr', Some out)
     \<and> unit_device (pr_transforms pr' ! 1)"
proof -
  have "qnorm2 (iso_rotation (toIsoWorldTransform standing_pose)) = 1"
    by (simp add: standing_pose_def qone_def toIsoWorldTransform_def qnorm2_def)
  then show ?thesis
    using calibrated_device_between [OF reference_rotations, of 1 "demo_provider False"
        "pr_transforms (demo_provider False) ! 1" standing_pose _ True "quiet_env 0"] demo_fields [of False]
    by auto
qed

lemma calibrate_valid: "poseIsValid (snd (calibrate e he sp f (tf, pose))) = poseIsValid pose"
  by (simp add: calibrate_def ApplyTransform_def Let_def split: prod.splits)

lemma calibrate_slot_valid: "calibrate_slot e he i (pr, pose) = (pr', pose') \<Longrightarrow> poseIsValid pose' = poseIsValid pose"
  using calibrate_valid [of e he "pr_alignmentSpeedParams pr" "pr_qpcFreq pr" "pr_transforms pr ! i" pose]
  by (auto simp: calibrate_slot_def Let_def split: prod.splits)

lemma calibrate_slot_keeps:
  assumes "calibrate_slot e he i (pr, pose) = (pr', pose')"
  shows "pr_headMountState pr' = pr_headMountState pr" "pr_deviceSystem pr' = pr_deviceSystem pr"
    "j \<noteq> i \<Longrightarrow> pr_transforms pr' ! j = pr_transforms pr ! j"
  using assms by (auto simp: calibrate_slot_def upd_tf_def Let_def split: prod.splits)

lemma enabled_hook_snaps:
  assumes "is_synth_tracker i pr" "i \<noteq> 0" "i < length (pr_transforms pr)" "tf_enabled (pr_transforms pr ! i)"
    "\<not> tf_quash (pr_transforms pr ! i)" "resolve_smoothness i pr = 0" "\<not> pr_phantomEnabled pr"
    and "pr' = fst (HandleDevicePoseUpdated dev e (quiet_env t) i pose pr)"
  shows "sn_valid (pr_trackerSnap pr')" "sn_capturedAt (pr_trackerSnap pr') = t"
    "sn_capturedForDeviceId (pr_trackerSnap pr') = int i" "poseIsValid (sn_pose (pr_trackerSnap pr')) = poseIsValid pose"
    "pr_headMountState pr' = pr_headMountState pr" "pr_deviceSystem pr' = pr_deviceSystem pr"
    "j \<noteq> i \<Longrightarrow> pr_transforms pr' ! j = pr_transforms pr ! j"
proof -
  let ?he = "quiet_env t"
  define p where "p = apply_debug e i pr pose"
  define pr1 where "pr1 = shmem_write (ShmemSetPose i p) (upd_tf i (\<lambda>tf. tf\<lparr>tf_smartFilter :=
    (tf_smartFilter tf)\<lparr>fs_initialized := False\<rparr>, tf_smartFilterLastSample := 0\<rparr>) pr)"
  let ?pr2 = "upd_tf i (\<lambda>tf. tf\<lparr>tf_prevQuash := tf_quash tf\<rparr>) pr1"
  obtain pr3 q where c: "calibrate_slot e ?he i (?pr2, p) = (pr3, q)" by fastforce
  have q: "he_configs_slot ?he = []" "he_configs_copy ?he = []" "he_configs_later ?he = []" "he_now_snap ?he = t"
    by (simp_all add: quiet_env_def)
  have p1: "pr_headMountState pr1 = pr_headMountState pr" "pr_deviceSystem pr1 = pr_deviceSystem pr"
    "pr_phantomEnabled pr1 = pr_phantomEnabled pr" "tf_enabled (pr_transforms pr1 ! i)" "\<not> tf_quash (pr_transforms pr1 ! i)"
    using assms(3-5) by (simp_all add: pr1_def)
  have front: "hook_front dev e ?he i pose pr = (True, pr1, p)"
    using assms(1,6) by (simp add: hook_front_def smoothing_stage_def run_configs_def q is_synth_tracker_def pr1_def p_def Let_def)
  have stage: "device_stage e ?he True i (pr1, p) = (False, shmem_write (ShmemIncrement TELEMETRY_PER_ID_APPLY)
      (snapshotDriverSynthTracker ?he True i q pr3), q)"
    using p1(4,5) by (simp add: device_stage_def enabled_stage_def c Let_def)
  have d: "\<not> pr_phantomEnabled pr3" "pr_headMountState pr3 = pr_headMountState pr"
    "pr_deviceSystem pr3 = pr_deviceSystem pr"
    using calibrate_slot_keeps(1,2) [OF c] phantomEnabled_slot [OF c] assms(7) p1 by simp_all
  have v: "poseIsValid q = poseIsValid pose" using calibrate_slot_valid [OF c] by (simp add: p_def apply_debug_def)
  have o: "pr_transforms pr3 ! j = pr_transforms pr ! j" if "j \<noteq> i" for j
    using calibrate_slot_keeps(3) [OF c that] that by (simp add: pr1_def upd_tf_def shmem_write_def)
  have "pr' = shmem_write (ShmemIncrement TELEMETRY_PER_ID_APPLY) (snapshotDriverSynthTracker ?he True i q pr3)"
    using assms(2,8) d(1) by (simp add: HandleDevicePoseUpdated_def front synth_stage_other run_configs_def q stage
        source_stage_def phantom_stage_def Let_def)
  then show "sn_valid (pr_trackerSnap pr')" "sn_capturedAt (pr_trackerSnap pr') = t"
    "sn_capturedForDeviceId (pr_trackerSnap pr') = int i" "poseIsValid (sn_pose (pr_trackerSnap pr')) = poseIsValid pose"
    "pr_headMountState pr' = pr_headMountState pr" "pr_deviceSystem pr' = pr_deviceSystem pr"
    "j \<noteq> i \<Longrightarrow> pr_transforms pr' ! j = pr_transforms pr ! j"
    using d v o q(4) by (simp_all add: snapshotDriverSynthTracker_def shmem_write_def)
qed

definition followed :: provider where
  "followed = fst (HandleDevicePoseUpdated True reference_quat (quiet_env 0) 1 standing_pose (demo_provider False))"

lemma followed_snap:
  "sn_valid (pr_trackerSnap followed) \<and> sn_capturedAt (pr_trackerSnap followed) = 0
   \<and> sn_capturedForDeviceId (pr_trackerSnap followed) = 1 \<and> poseIsValid (sn_pose (pr_trackerSnap followed))
   \<and> pr_headMountState followed = head_mount_of_message mount_tracker \<and> resolve_smoothness 0 followed = 0"
proof -
  let ?pr = "demo_provider False"
  have m: "pr_headMountState ?pr = head_mount_of_message mount_tracker" "is_synth_tracker 1 ?pr"
    and z: "tf_predictionSmoothness (pr_transforms ?pr ! 0) = 0" "pr_deviceSystem ?pr ! 0 = []"
    by (simp_all add: demo_provider_def hook_eval)
  note k = enabled_hook_snaps [OF m(2) _ _ demo_fields(3) _ demo_fields(6,4), of followed True reference_quat 0 standing_pose]
  show ?thesis
    using k demo_fields(1,2) [of False] m z
    by (simp add: followed_def standing_pose_def tracker_pose_def resolve_smoothness_def Let_def)
qed

theorem headset_follows_configured_tracker_witness:
  "\<exists>es1 he' i q es2. [DMsg 0 (MsgHeadMount mount_tracker), DMsg 0 (MsgDeviceTransform (calibrate_tracker False)),
       DPose (quiet_env 0) 1 standing_pose] = es1 @ DPose he' i q # es2
     \<and> int i = 1 \<and> ms_between (he_now_snap he') 80000000 \<le> 250"
proof -
  let ?es = "[DMsg 0 (MsgHeadMount mount_tracker), DMsg 0 (MsgDeviceTransform (calibrate_tracker False)),
       DPose (quiet_env 0) 1 standing_pose]"
  have r: "driver_run True reference_quat ?es (Provider_init 1000 False PhantomModule_init) = followed"
    by (simp add: followed_def demo_provider_def driver_run_def driver_step_def)
  obtain s pr1 p1 where f: "hook_front True reference_quat (quiet_env 80000000) 0 standing_pose followed = (s, pr1, p1)"
    using prod_cases3 by blast
  have h: "pr_headMountState pr1 = head_mount_of_message mount_tracker" "pr_trackerSnap pr1 = pr_trackerSnap followed"
    using f followed_snap by (auto simp: hook_front_def smoothing_stage_def quiet_env_def run_configs_def Let_def)
  have "\<exists>t p pr2. synth_stage (quiet_env 80000000) 0 pr1 = (Some t, Some p, pr2)"
    using followed_snap by (simp add: synth_stage_def Compose_def h run_configs_def quiet_env_def synth_state_of_def
        head_mount_of_message_def mount_tracker_def IsTrackerFresh_def ms_between_def ClampDriverSynthTimingConfig_def
        ClampDriverSynthStaleLimitMs_def trunc_div_def Let_def)
  then obtain t p pr2 where y: "synth_stage (quiet_env 80000000) 0 pr1 = (Some t, Some p, pr2)" by blast
  from headset_follows_configured_tracker [OF r [symmetric] f y]
  obtain es1 he' i q es2 where "?es = es1 @ DPose he' i q # es2" "int i = 1"
    "ms_between (he_now_snap he') 80000000 \<le> 250"
    by (auto simp: h head_mount_of_message_def mount_tracker_def quiet_env_def)
  then show ?thesis by blast
qed

end
