(* ===== verification/HealthStats.thy ===== *)
theory HealthStats
  imports Prelude Complex_Main
begin

text \<open>
  The streaming statistics of the input-health module, \<open>core/src/common/inputhealth\<close>: the accumulator
  of Welford (\<open>WelfordAccumulator.h\<close>), the change-point test of Page and Hinkley (\<open>PageHinkley.h\<close>), the
  decayed minimum (\<open>EWMARollingMin.h\<close>) and the polar histogram (\<open>PolarHistogram.h\<close>). Samples are finite
  and floating-point numbers are reals; counters of 64 bits that are only incremented are naturals.
\<close>

section \<open>Mean and variance\<close>

record welford =
  wf_count :: nat
  wf_mean :: real
  wf_m2 :: real

definition WelfordReset :: welford where
  "WelfordReset = \<lparr>wf_count = 0, wf_mean = 0, wf_m2 = 0\<rparr>"

definition WelfordUpdate :: "real \<Rightarrow> welford \<Rightarrow> welford" where
  "WelfordUpdate x s =
     (let count = Suc (wf_count s);
          delta = x - wf_mean s;
          mean = wf_mean s + delta / real count;
          delta2 = x - mean
      in \<lparr>wf_count = count, wf_mean = mean, wf_m2 = wf_m2 s + delta * delta2\<rparr>)"

definition PopulationVariance :: "welford \<Rightarrow> real" where
  "PopulationVariance s = (if wf_count s = 0 then 0 else wf_m2 s / real (wf_count s))"

definition SampleVariance :: "welford \<Rightarrow> real" where
  "SampleVariance s = (if wf_count s < 2 then 0 else wf_m2 s / real (wf_count s - 1))"

definition PopulationStdDev :: "welford \<Rightarrow> real" where
  "PopulationStdDev s = sqrt (PopulationVariance s)"

definition SampleStdDev :: "welford \<Rightarrow> real" where
  "SampleStdDev s = sqrt (SampleVariance s)"

section \<open>Change of the mean\<close>

record page_hinkley =
  ph_mean :: real
  ph_pos :: real
  ph_neg :: real
  ph_initialized :: bool
  ph_triggered :: bool
  ph_triggered_positive :: bool

record ph_params =
  ph_alpha :: real
  ph_delta :: real
  ph_lambda :: real
  one_sided_positive :: bool

definition PageHinkleyReset :: page_hinkley where
  "PageHinkleyReset = \<lparr>ph_mean = 0, ph_pos = 0, ph_neg = 0, ph_initialized = False, ph_triggered = False,
     ph_triggered_positive = False\<rparr>"

definition PageHinkleyUpdate :: "ph_params \<Rightarrow> real \<Rightarrow> page_hinkley \<Rightarrow> bool \<times> page_hinkley" where
  "PageHinkleyUpdate p x s =
     (let mean = (if \<not> ph_initialized s then x else (1 - ph_alpha p) * ph_mean s + ph_alpha p * x);
          s = s\<lparr>ph_mean := mean, ph_initialized := True\<rparr>;
          dev = x - mean;
          s = s\<lparr>ph_pos := max 0 (ph_pos s + (dev - ph_delta p))\<rparr>;
          s = (if \<not> one_sided_positive p then s\<lparr>ph_neg := max 0 (ph_neg s - (dev + ph_delta p))\<rparr> else s)
      in if \<not> ph_triggered s
         then if ph_pos s > ph_lambda p
              then (True, s\<lparr>ph_triggered := True, ph_triggered_positive := True\<rparr>)
              else if \<not> one_sided_positive p \<and> ph_neg s > ph_lambda p
              then (True, s\<lparr>ph_triggered := True, ph_triggered_positive := False\<rparr>)
              else (False, s)
         else (False, s))"

definition EwmaAlphaForHalfLife :: "real \<Rightarrow> real \<Rightarrow> real" where
  "EwmaAlphaForHalfLife dt tau = (if tau \<le> 0 \<or> dt \<le> 0 then 1 else 1 - exp (- dt / tau))"

section \<open>Decayed minimum\<close>

record rolling_min =
  rm_value :: real
  rm_initialized :: bool

definition EWMARollingMinReset :: rolling_min where
  "EWMARollingMinReset = \<lparr>rm_value = 0, rm_initialized = False\<rparr>"

definition EWMARollingMinUpdate :: "real \<Rightarrow> real \<Rightarrow> rolling_min \<Rightarrow> rolling_min" where
  "EWMARollingMinUpdate x decay s =
     (let decay = (if decay < 0 then 0 else decay);
          decay = (if decay > 1 then 1 else decay)
      in if \<not> rm_initialized s then \<lparr>rm_value = x, rm_initialized = True\<rparr>
         else if x < rm_value s then s\<lparr>rm_value := x\<rparr>
         else s\<lparr>rm_value := (1 - decay) * rm_value s + decay * x\<rparr>)"

definition EWMARollingMinValue :: "rolling_min \<Rightarrow> real" where
  "EWMARollingMinValue s = (if rm_initialized s then rm_value s else 0)"

section \<open>Polar histogram\<close>

definition kBinCount :: nat where "kBinCount = 36"
definition kPerBinCap :: nat where "kPerBinCap = 256"
definition kPerBinMinForConfidence :: nat where "kPerBinMinForConfidence = 16"
definition kTwoPi :: real where "kTwoPi = 6283185307179586 / 10 ^ 15"
definition kBinWidthRad :: real where "kBinWidthRad = kTwoPi / real kBinCount"

record polar_bin =
  max_r :: real
  bin_count :: nat
  bin_last_update_us :: u64

definition PolarBin_init :: polar_bin where
  "PolarBin_init = \<lparr>max_r = 0, bin_count = 0, bin_last_update_us = 0\<rparr>"

record polar_histogram =
  polar_bins :: "polar_bin list"
  global_max_r :: real

definition PolarHistogramReset :: polar_histogram where
  "PolarHistogramReset = \<lparr>polar_bins = replicate kBinCount PolarBin_init, global_max_r = 0\<rparr>"

text \<open>The functions \<open>fmod\<close>, \<open>hypot\<close> and \<open>atan2\<close> of the C library, and the conversion to \<open>int\<close>, which
  rounds towards zero.\<close>

definition to_int :: "real \<Rightarrow> int" where
  "to_int x = (if x \<ge> 0 then \<lfloor>x\<rfloor> else \<lceil>x\<rceil>)"

definition fmod :: "real \<Rightarrow> real \<Rightarrow> real" where
  "fmod x y = x - of_int (to_int (x / y)) * y"

definition hypot :: "real \<Rightarrow> real \<Rightarrow> real" where
  "hypot x y = sqrt (x * x + y * y)"

definition atan2 :: "real \<Rightarrow> real \<Rightarrow> real" where
  "atan2 y x = (if x > 0 then arctan (y / x)
     else if x < 0 then (if y \<ge> 0 then arctan (y / x) + pi else arctan (y / x) - pi)
     else if y > 0 then pi / 2 else if y < 0 then - pi / 2 else 0)"

definition PolarBinIndexForAngle :: "real \<Rightarrow> nat" where
  "PolarBinIndexForAngle theta =
     (let t = fmod theta kTwoPi;
          t = (if t < 0 then t + kTwoPi else t);
          idx = to_int (t / kBinWidthRad);
          idx = (if idx < 0 then 0 else idx);
          idx = (if idx \<ge> int kBinCount then int kBinCount - 1 else idx)
      in nat idx)"

definition polar_bin_update :: "real \<Rightarrow> u64 \<Rightarrow> real \<Rightarrow> polar_bin \<Rightarrow> polar_bin" where
  "polar_bin_update rf ts saturated_decay b =
     (let b = (if bin_count b < kPerBinCap
               then b\<lparr>bin_count := Suc (bin_count b), max_r := (if rf > max_r b then rf else max_r b)\<rparr>
               else let decay = (if saturated_decay < 0 then 0 else saturated_decay);
                        decay = (if decay > 1 then 1 else decay);
                        blended = (1 - decay) * max_r b + decay * rf
                    in b\<lparr>max_r := (if rf > max_r b then rf else blended)\<rparr>)
      in b\<lparr>bin_last_update_us := ts\<rparr>)"

definition PolarHistogramUpdate :: "real \<Rightarrow> real \<Rightarrow> u64 \<Rightarrow> real \<Rightarrow> polar_histogram \<Rightarrow> polar_histogram" where
  "PolarHistogramUpdate x y ts saturated_decay s =
     (let r = hypot x y;
          bin = PolarBinIndexForAngle (atan2 y x);
          b = polar_bin_update r ts saturated_decay (polar_bins s ! bin)
      in \<lparr>polar_bins = (polar_bins s)[bin := b],
          global_max_r = (if max_r b > global_max_r s then max_r b else global_max_r s)\<rparr>)"

definition PolarBinConfidence :: "polar_bin \<Rightarrow> real" where
  "PolarBinConfidence b =
     (if bin_count b = 0 then 0
      else let c = real (bin_count b) / real kPerBinMinForConfidence in if c > 1 then 1 else c)"

section \<open>The accumulator computes mean and variance\<close>

definition mean_of :: "real list \<Rightarrow> real" where
  "mean_of xs = sum_list xs / real (length xs)"

definition squares_about :: "real \<Rightarrow> real list \<Rightarrow> real" where
  "squares_about m xs = sum_list (map (\<lambda>x. (x - m) ^ 2) xs)"

definition welford_run :: "real list \<Rightarrow> welford \<Rightarrow> welford" where
  "welford_run xs s = fold WelfordUpdate xs s"

text \<open>Moving the centre of a sum of squares.\<close>

lemma squares_shift:
  "squares_about m xs = squares_about c xs - 2 * (m - c) * (sum_list xs - real (length xs) * c)
     + real (length xs) * (m - c) ^ 2"
  by (induction xs) (simp_all add: squares_about_def power2_eq_square algebra_simps)

lemma squares_about_snoc: "squares_about m (xs @ [x]) = squares_about m xs + (x - m) ^ 2"
  by (simp add: squares_about_def)

lemma mean_step:
  assumes "0 < (l :: real)"
  shows "(s + x) / (l + 1) = s / l + (x - s / l) / (l + 1)"
proof -
  have "s / l + (x - s / l) / (l + 1) = (s / l * (l + 1) + (x - s / l)) / (l + 1)"
    using assms by (simp add: add_divide_distrib)
  also have "s / l * (l + 1) + (x - s / l) = s + x" using assms by (simp add: distrib_left)
  finally show ?thesis by simp
qed

lemma mean_of_snoc: "mean_of (xs @ [x]) = mean_of xs + (x - mean_of xs) / real (Suc (length xs))"
proof (cases xs)
  case (Cons a ys)
  then have "0 < real (length xs)" by simp
  from mean_step [OF this, of "sum_list xs" x] show ?thesis by (simp add: mean_of_def add.commute)
qed (simp add: mean_of_def)

lemma welford_invariant:
  "welford_run xs WelfordReset = \<lparr>wf_count = length xs, wf_mean = mean_of xs, wf_m2 = squares_about (mean_of xs) xs\<rparr>"
proof (induction xs rule: rev_induct)
  case Nil
  then show ?case by (simp add: welford_run_def WelfordReset_def mean_of_def squares_about_def)
next
  case (snoc x xs)
  let ?m = "mean_of xs" and ?n = "mean_of (xs @ [x])" and ?l = "real (length xs)"
  have s: "sum_list xs = ?l * ?m" by (cases xs) (simp_all add: mean_of_def)
  have d: "real (Suc (length xs)) * (?n - ?m) = x - ?m" by (simp add: mean_of_snoc)
  have "squares_about ?n (xs @ [x]) = squares_about ?m xs + ?l * (?n - ?m) ^ 2 + (x - ?n) ^ 2"
    by (simp add: squares_about_snoc squares_shift [of ?n xs ?m] s)
  also have "?l * (?n - ?m) ^ 2 = (x - ?m) * (?n - ?m) - (?n - ?m) ^ 2"
  proof -
    have "(?l + 1) * (?n - ?m) * (?n - ?m) = (x - ?m) * (?n - ?m)" using d by (simp add: add.commute)
    then show ?thesis by (simp add: power2_eq_square distrib_right)
  qed
  also have "(x - ?m) * (?n - ?m) - (?n - ?m) ^ 2 = (x - ?n) * (?n - ?m)"
    by (simp add: power2_eq_square algebra_simps)
  finally have "squares_about ?n (xs @ [x]) = squares_about ?m xs + (x - ?m) * (x - ?n)"
    by (simp add: power2_eq_square algebra_simps)
  then show ?case
    using snoc by (simp add: welford_run_def WelfordUpdate_def Let_def mean_of_snoc)
qed

text \<open>C17: The streaming accumulator equals the two-pass computation: after any samples its count, mean and
  sum of squares are those of the samples, and the two variances are the population and the
  Bessel-corrected variance, 0 where they are not defined.
\<close>

theorem welford_exact:
  "wf_count (welford_run xs WelfordReset) = length xs
   \<and> wf_mean (welford_run xs WelfordReset) = mean_of xs
   \<and> PopulationVariance (welford_run xs WelfordReset) =
       (if xs = [] then 0 else squares_about (mean_of xs) xs / real (length xs))
   \<and> SampleVariance (welford_run xs WelfordReset) =
       (if length xs < 2 then 0 else squares_about (mean_of xs) xs / real (length xs - 1))"
  by (simp add: welford_invariant PopulationVariance_def SampleVariance_def)

lemma squares_nonneg: "0 \<le> squares_about m xs"
  by (induction xs) (simp_all add: squares_about_def)

section \<open>Alarms\<close>

definition ph_run :: "ph_params \<Rightarrow> real list \<Rightarrow> page_hinkley \<Rightarrow> page_hinkley" where
  "ph_run p xs s = fold (\<lambda>x s. snd (PageHinkleyUpdate p x s)) xs s"

lemma ph_run_simps [simp]:
  "ph_run p [] s = s" "ph_run p (x # xs) s = ph_run p xs (snd (PageHinkleyUpdate p x s))"
  by (simp_all add: ph_run_def)

lemma convex_between:
  assumes "0 \<le> (t :: real)" "t \<le> 1" "lo \<le> a" "a \<le> hi" "lo \<le> b" "b \<le> hi"
  shows "lo \<le> (1 - t) * a + t * b" "(1 - t) * a + t * b \<le> hi"
proof -
  have "(1 - t) * lo + t * lo \<le> (1 - t) * a + t * b" "(1 - t) * a + t * b \<le> (1 - t) * hi + t * hi"
    using assms by (auto intro!: add_mono mult_left_mono)
  then show "lo \<le> (1 - t) * a + t * b" "(1 - t) * a + t * b \<le> hi" by (simp_all add: algebra_simps)
qed

text \<open>A signal within a band no wider than the slack.\<close>

definition calm :: "real \<Rightarrow> real \<Rightarrow> page_hinkley \<Rightarrow> bool" where
  "calm lo hi s \<longleftrightarrow> \<not> ph_triggered s \<and> ph_pos s = 0 \<and> ph_neg s = 0 \<and> (ph_initialized s \<longrightarrow> lo \<le> ph_mean s \<and> ph_mean s \<le> hi)"

lemma calm_step:
  assumes "calm lo hi s" "lo \<le> x" "x \<le> hi" "hi - lo \<le> ph_delta p" "0 \<le> ph_lambda p" "0 \<le> ph_alpha p" "ph_alpha p \<le> 1"
  shows "calm lo hi (snd (PageHinkleyUpdate p x s))"
proof -
  let ?m = "if \<not> ph_initialized s then x else (1 - ph_alpha p) * ph_mean s + ph_alpha p * x"
  have "lo \<le> ?m" "?m \<le> hi"
    using assms convex_between [of "ph_alpha p" lo "ph_mean s" hi x] by (auto simp: calm_def)
  then have "x - ?m - ph_delta p \<le> 0" "- (x - ?m + ph_delta p) \<le> 0" using assms(2-4) by linarith+
  then show ?thesis
    using assms(1,5) \<open>lo \<le> ?m\<close> \<open>?m \<le> hi\<close> by (auto simp: PageHinkleyUpdate_def Let_def calm_def)
qed

lemma calm_run:
  assumes "calm lo hi s" "\<forall>x\<in>set xs. lo \<le> x \<and> x \<le> hi" "hi - lo \<le> ph_delta p" "0 \<le> ph_lambda p"
    "0 \<le> ph_alpha p" "ph_alpha p \<le> 1"
  shows "calm lo hi (ph_run p xs s)"
  using assms(1,2)
proof (induction xs arbitrary: s)
  case (Cons x xs)
  from calm_step [OF Cons.prems(1) _ _ assms(3-6), of x] Cons show ?case by simp
qed simp

text \<open>A step of the signal by \<open>d\<close>: after \<open>k\<close> samples the mean lags by \<open>d * (1 - alpha) ^ k\<close>.\<close>

definition stepping :: "ph_params \<Rightarrow> real \<Rightarrow> real \<Rightarrow> nat \<Rightarrow> page_hinkley \<Rightarrow> bool" where
  "stepping p v d k s \<longleftrightarrow> ph_initialized s \<and> v - ph_mean s = d * (1 - ph_alpha p) ^ k \<and> (ph_pos s > ph_lambda p \<longrightarrow> ph_triggered s)"

lemma stepping_next:
  assumes "stepping p v d k s"
  shows "stepping p v d (Suc k) (snd (PageHinkleyUpdate p v s))"
    and "ph_pos s + (d * (1 - ph_alpha p) ^ Suc k - ph_delta p) \<le> ph_pos (snd (PageHinkleyUpdate p v s))"
proof -
  have "v - ((1 - ph_alpha p) * ph_mean s + ph_alpha p * v) = (1 - ph_alpha p) * (v - ph_mean s)"
    by (simp add: algebra_simps)
  then have m: "v - ((1 - ph_alpha p) * ph_mean s + ph_alpha p * v) = d * (1 - ph_alpha p) ^ Suc k"
    using assms by (simp add: stepping_def)
  show "stepping p v d (Suc k) (snd (PageHinkleyUpdate p v s))"
    using assms m by (auto simp: stepping_def PageHinkleyUpdate_def Let_def)
  show "ph_pos s + (d * (1 - ph_alpha p) ^ Suc k - ph_delta p) \<le> ph_pos (snd (PageHinkleyUpdate p v s))"
    using assms m [symmetric] by (auto simp: stepping_def PageHinkleyUpdate_def Let_def)
qed

lemma stepping_run:
  assumes "stepping p v d k s" "0 \<le> ph_alpha p" "ph_alpha p \<le> 1" "0 \<le> d" "k + n \<le> N"
  shows "stepping p v d (k + n) (ph_run p (replicate n v) s)
    \<and> ph_pos s + real n * (d * (1 - ph_alpha p) ^ N - ph_delta p) \<le> ph_pos (ph_run p (replicate n v) s)"
  using assms(1,5)
proof (induction n arbitrary: k s)
  case (Suc n)
  let ?t = "snd (PageHinkleyUpdate p v s)"
  note t = stepping_next [OF Suc.prems(1)]
  have "(1 - ph_alpha p) ^ N \<le> (1 - ph_alpha p) ^ Suc k"
    using assms(2,3) Suc.prems(2) by (intro power_decreasing) simp_all
  then have "d * (1 - ph_alpha p) ^ N \<le> d * (1 - ph_alpha p) ^ Suc k"
    using assms(4) by (intro mult_left_mono) simp_all
  then have "ph_pos s + (d * (1 - ph_alpha p) ^ N - ph_delta p) \<le> ph_pos ?t" using t(2) by linarith
  moreover have "k + Suc n = Suc k + n" by simp
  ultimately show ?case
    using Suc.IH [OF t(1)] Suc.prems(2) by (simp add: algebra_simps)
qed simp

lemma ph_run_append: "ph_run p (xs @ ys) s = ph_run p ys (ph_run p xs s)"
  by (simp add: ph_run_def)

lemma latched_run: "ph_triggered s \<Longrightarrow> ph_triggered (ph_run p xs s)"
  by (induction xs arbitrary: s) (auto simp: PageHinkleyUpdate_def Let_def)

text \<open>The drift alarm neither cries wolf nor misses a step. A signal that stays within a band no wider
  than the slack never raises it; and when the signal rests at \<open>c\<close> and then steps up by \<open>d\<close>, the alarm is
  raised within \<open>n\<close> samples as soon as what \<open>n\<close> lagging deviations exceed the slack by adds up to more
  than the threshold, and it stays raised.
\<close>

theorem drift_alarm:
  assumes "0 \<le> ph_alpha p" and "ph_alpha p \<le> 1" and "0 \<le> ph_lambda p" and "0 \<le> ph_delta p"
  shows "(\<forall>lo hi xs. hi - lo \<le> ph_delta p \<and> (\<forall>x\<in>set xs. lo \<le> x \<and> x \<le> hi)
           \<longrightarrow> \<not> ph_triggered (ph_run p xs PageHinkleyReset))
    \<and> (\<forall>c d n ys. 0 \<le> d \<and> real n * (d * (1 - ph_alpha p) ^ n - ph_delta p) > ph_lambda p
           \<longrightarrow> ph_triggered (ph_run p (c # replicate n (c + d) @ ys) PageHinkleyReset))"
proof (intro conjI allI impI; elim conjE)
  fix lo hi :: real and xs
  assume b: "hi - lo \<le> ph_delta p" "\<forall>x\<in>set xs. lo \<le> x \<and> x \<le> hi"
  have "calm lo hi PageHinkleyReset" by (simp add: calm_def PageHinkleyReset_def)
  from calm_run [OF this b(2,1) assms(3,1,2)] show "\<not> ph_triggered (ph_run p xs PageHinkleyReset)"
    by (simp add: calm_def)
next
  fix c d :: real and n and ys
  assume d: "0 \<le> d" "real n * (d * (1 - ph_alpha p) ^ n - ph_delta p) > ph_lambda p"
  let ?s = "snd (PageHinkleyUpdate p c PageHinkleyReset)"
  have s: "stepping p (c + d) d 0 ?s" "0 \<le> ph_pos ?s"
    using assms(3,4) by (auto simp: stepping_def PageHinkleyUpdate_def PageHinkleyReset_def Let_def)
  have "stepping p (c + d) d n (ph_run p (replicate n (c + d)) ?s)"
    "ph_lambda p < ph_pos (ph_run p (replicate n (c + d)) ?s)"
    using stepping_run [OF s(1) assms(1,2) d(1), of n n] s(2) d(2) by simp_all
  then have "ph_triggered (ph_run p (replicate n (c + d)) ?s)" by (simp add: stepping_def)
  from latched_run [OF this, of p ys] show "ph_triggered (ph_run p (c # replicate n (c + d) @ ys) PageHinkleyReset)"
    by (simp add: ph_run_append)
qed

theorem drift_alarm_witness:
  "ph_triggered (ph_run \<lparr>ph_alpha = 0, ph_delta = 2 / 1000, ph_lambda = 5 / 100, one_sided_positive = False\<rparr>
     (0 # replicate 7 (0 + 1 / 100) @ []) PageHinkleyReset)"
  using conjunct2 [OF drift_alarm [of "\<lparr>ph_alpha = 0, ph_delta = 2 / 1000, ph_lambda = 5 / 100, one_sided_positive = False\<rparr>"],
      rule_format, of "1 / 100" 7 0 "[]"]
  by simp

section \<open>Bounds of the minimum and of the histogram\<close>

lemma rolling_min_between:
  assumes "rm_initialized s" "lo \<le> rm_value s" "rm_value s \<le> hi" "lo \<le> x" "x \<le> hi"
  shows "lo \<le> rm_value (EWMARollingMinUpdate x d s)" "rm_value (EWMARollingMinUpdate x d s) \<le> hi"
  using assms convex_between [of "if (if d < 0 then 0 else d) > 1 then 1 else (if d < 0 then 0 else d)" lo "rm_value s" hi x]
  by (auto simp: EWMARollingMinUpdate_def Let_def)

text \<open>A rest sample below the remembered minimum is adopted at once, one above never lowers it.\<close>

lemma rolling_min_bounds:
  assumes "rm_initialized s"
  shows "rm_value (EWMARollingMinUpdate x d s) \<le> max x (rm_value s)" "min x (rm_value s) \<le> rm_value (EWMARollingMinUpdate x d s)"
  using assms rolling_min_between [of s "min x (rm_value s)" "max x (rm_value s)" x d] by auto

lemma PolarBinIndex_range: "PolarBinIndexForAngle theta < kBinCount"
  by (auto simp: PolarBinIndexForAngle_def kBinCount_def Let_def)

definition polar_ok :: "real \<Rightarrow> polar_histogram \<Rightarrow> bool" where
  "polar_ok R s \<longleftrightarrow> length (polar_bins s) = kBinCount \<and> 0 \<le> global_max_r s \<and> global_max_r s \<le> R
     \<and> (\<forall>b\<in>set (polar_bins s). 0 \<le> max_r b \<and> max_r b \<le> global_max_r s \<and> bin_count b \<le> kPerBinCap)"

lemma polar_ok_reset: "0 \<le> R \<Longrightarrow> polar_ok R PolarHistogramReset"
  by (simp add: polar_ok_def PolarHistogramReset_def PolarBin_init_def)

lemma polar_bin_update_range:
  assumes "0 \<le> max_r b" "max_r b \<le> R" "0 \<le> r" "r \<le> R" "bin_count b \<le> kPerBinCap"
  shows "0 \<le> max_r (polar_bin_update r t d b)" "max_r (polar_bin_update r t d b) \<le> R"
    "bin_count (polar_bin_update r t d b) \<le> kPerBinCap"
  using assms convex_between [of "if (if d < 0 then 0 else d) > 1 then 1 else (if d < 0 then 0 else d)" 0 "max_r b" R r]
  by (auto simp: polar_bin_update_def Let_def)

lemma hypot_nonneg: "0 \<le> hypot x y"
  by (simp add: hypot_def)

lemma polar_ok_update:
  assumes "polar_ok R s" "hypot x y \<le> R"
  shows "polar_ok R (PolarHistogramUpdate x y t d s)"
proof -
  let ?i = "PolarBinIndexForAngle (atan2 y x)"
  let ?b = "polar_bin_update (hypot x y) t d (polar_bins s ! ?i)"
  have i: "?i < length (polar_bins s)" using assms(1) PolarBinIndex_range by (simp add: polar_ok_def)
  then have m: "polar_bins s ! ?i \<in> set (polar_bins s)" by simp
  then have "0 \<le> max_r ?b" "max_r ?b \<le> R" "bin_count ?b \<le> kPerBinCap"
    using assms polar_bin_update_range [of "polar_bins s ! ?i" R "hypot x y" t d] hypot_nonneg
    by (fastforce simp: polar_ok_def)+
  then show ?thesis
    using assms(1) by (auto simp: polar_ok_def PolarHistogramUpdate_def Let_def dest!: set_update_subset_insert [THEN subsetD])
qed

end
