(* ===== verification/HealthRules.thy ===== *)
theory HealthRules
  imports HealthStats
begin

text \<open>
  The rules that the driver and the overlay share: the classes of input paths
  (\<open>core/src/common/inputhealth/PathClassifier.h\<close>), the axis roles
  (\<open>modules/inputhealth/src/driver/inputhealth/PerComponentStats.h\<close>), when a scalar is at rest, bounces
  and may be learned (\<open>core/src/common/inputhealth/LearningRules.h\<close>), and the presence counts
  (\<open>core/src/common/inputhealth/PresenceCounting.h\<close>). Times are 64-bit words of microseconds.
\<close>

section \<open>Classes of paths\<close>

text \<open>\<open>path.find (s) != npos\<close>, and the comparison of the end of a path.\<close>

fun prefix_of :: "string \<Rightarrow> string \<Rightarrow> bool" where
  "prefix_of [] _ = True"
| "prefix_of (c # cs) [] = False"
| "prefix_of (c # cs) (d # ds) = (c = d \<and> prefix_of cs ds)"

fun has_part :: "string \<Rightarrow> string \<Rightarrow> bool" where
  "has_part s [] = (s = [])"
| "has_part s (c # cs) = (prefix_of s (c # cs) \<or> has_part s cs)"

definition ends_with :: "string \<Rightarrow> string \<Rightarrow> bool" where
  "ends_with s path \<longleftrightarrow> length path \<ge> length s \<and> drop (length path - length s) path = s"

datatype PathClass = Trigger | StickAxis | ControllerButton | DiagnosticsOnly | Unsupported

definition IsCompensationPath :: "PathClass \<Rightarrow> bool" where
  "IsCompensationPath cls \<longleftrightarrow> cls = Trigger \<or> cls = StickAxis \<or> cls = ControllerButton"

definition IsDiagnosticsOnlyPath :: "PathClass \<Rightarrow> bool" where
  "IsDiagnosticsOnlyPath cls \<longleftrightarrow> cls = DiagnosticsOnly"

definition IsTriggerLikePath :: "string \<Rightarrow> bool" where
  "IsTriggerLikePath path =
     (if has_part ''/click'' path \<or> has_part ''/touch'' path then False
      else if has_part ''trigger'' path \<or> has_part ''Trigger'' path then True
      else if ends_with ''/force'' path then True
      else if ends_with ''/pressure'' path then True
      else if has_part ''/grip/value'' path then True
      else has_part ''/squeeze/value'' path)"

definition stick_stem :: "string \<Rightarrow> bool" where
  "stick_stem path \<longleftrightarrow> has_part ''stick'' path \<or> has_part ''joystick'' path \<or> has_part ''trackpad'' path
     \<or> has_part ''thumbstick'' path \<or> has_part ''touchpad'' path"

definition ClassifyInputPath :: "string \<Rightarrow> PathClass" where
  "ClassifyInputPath path =
     (let n = length path
      in if path = [] then Unsupported
         else if has_part ''/eye'' path \<or> has_part ''/face'' path then DiagnosticsOnly
         else if has_part ''/pupil'' path \<or> has_part ''proximity'' path \<or> has_part ''/imu'' path then Unsupported
         else if IsTriggerLikePath path then Trigger
         else if n \<ge> 2 \<and> path ! (n - 2) = CHR ''/'' \<and> path ! (n - 1) \<in> {CHR ''x'', CHR ''X'', CHR ''y'', CHR ''Y''}
              \<and> stick_stem path then StickAxis
         else if has_part ''/input/'' path then ControllerButton
         else Unsupported)"

datatype AxisRole = Unpaired | StickX | StickY

definition ClassifyAxisRole :: "string \<Rightarrow> AxisRole \<times> string" where
  "ClassifyAxisRole path =
     (let n = length path
      in if n < 2 then (Unpaired, path)
         else let a = path ! (n - 2); b = path ! (n - 1)
              in if a = CHR ''/'' \<and> (b = CHR ''x'' \<or> b = CHR ''X'') then (StickX, take (n - 2) path)
                 else if a = CHR ''/'' \<and> (b = CHR ''y'' \<or> b = CHR ''Y'') then (StickY, take (n - 2) path)
                 else (Unpaired, path))"

section \<open>Learning rules\<close>

text \<open>The kinds of \<open>InputHealthCompensationKind\<close>; the wire type is a byte.\<close>

definition CompScalarSingle :: byte where "CompScalarSingle = 0"
definition CompStickX :: byte where "CompStickX = 1"
definition CompStickY :: byte where "CompStickY = 2"
definition CompBoolean :: byte where "CompBoolean = 3"

definition kStrictRestThreshold :: real where "kStrictRestThreshold = 5 / 100"
definition kStableStickRestRadiusCap :: real where "kStableStickRestRadiusCap = 15 / 100"
definition kStableTriggerRestCap :: real where "kStableTriggerRestCap = 10 / 100"
definition kStableRestSpanMax :: real where "kStableRestSpanMax = 10 / 1000"
definition kStableRestWindowUs :: u64 where "kStableRestWindowUs = 1000000"
definition kButtonBounceMinIntervalUs :: nat where "kButtonBounceMinIntervalUs = 200"
definition kButtonBounceMaxIntervalUs :: nat where "kButtonBounceMaxIntervalUs = 20000"
definition kButtonBounceReadyTransitions :: nat where "kButtonBounceReadyTransitions = 3"

definition IsAbsoluteScalar :: "byte \<Rightarrow> bool" where "IsAbsoluteScalar t \<longleftrightarrow> t = 0"
definition IsTwoSidedScalar :: "byte \<Rightarrow> bool" where "IsTwoSidedScalar u \<longleftrightarrow> u = 1"
definition IsOneSidedScalar :: "byte \<Rightarrow> bool" where "IsOneSidedScalar u \<longleftrightarrow> u = 0"

definition ScalarMetadataAllowsCompensation :: "byte \<Rightarrow> string \<Rightarrow> byte \<Rightarrow> byte \<Rightarrow> bool" where
  "ScalarMetadataAllowsCompensation kind path scalar_type scalar_units =
     (if \<not> IsAbsoluteScalar scalar_type then False
      else if kind = CompStickX \<or> kind = CompStickY then IsTwoSidedScalar scalar_units
      else if IsTriggerLikePath path then IsOneSidedScalar scalar_units
      else True)"

definition ScalarMetadataAllowsLearning :: "PathClass \<Rightarrow> string \<Rightarrow> byte \<Rightarrow> byte \<Rightarrow> byte \<Rightarrow> bool" where
  "ScalarMetadataAllowsLearning path_class path kind scalar_type scalar_units =
     (if \<not> IsCompensationPath path_class then False
      else if IsTriggerLikePath path then ScalarMetadataAllowsCompensation kind path scalar_type scalar_units
      else ScalarMetadataAllowsCompensation kind path scalar_type scalar_units
           \<or> (kind = CompScalarSingle \<and> IsAbsoluteScalar scalar_type))"

definition IsStrictStickRest :: "real \<Rightarrow> real \<Rightarrow> bool \<Rightarrow> bool" where
  "IsStrictStickRest x y buttons_quiet \<longleftrightarrow> buttons_quiet \<and> \<bar>x\<bar> < kStrictRestThreshold \<and> \<bar>y\<bar> < kStrictRestThreshold"

definition IsStableStickRestCandidate :: "real \<Rightarrow> real \<Rightarrow> bool \<Rightarrow> bool" where
  "IsStableStickRestCandidate x y buttons_quiet \<longleftrightarrow> buttons_quiet \<and> hypot x y \<le> kStableStickRestRadiusCap"

definition IsStrictTriggerRest :: "real \<Rightarrow> bool" where
  "IsStrictTriggerRest v \<longleftrightarrow> v < kStrictRestThreshold"

definition IsStableTriggerRestCandidate :: "real \<Rightarrow> bool \<Rightarrow> bool" where
  "IsStableTriggerRestCandidate v buttons_quiet \<longleftrightarrow> buttons_quiet \<and> v \<ge> 0 \<and> v \<le> kStableTriggerRestCap"

record rest_window =
  rw_active :: bool
  rw_since_us :: u64
  rw_min_primary :: real
  rw_max_primary :: real
  rw_min_partner :: real
  rw_max_partner :: real

definition ResetStableRestWindow :: rest_window where
  "ResetStableRestWindow = \<lparr>rw_active = False, rw_since_us = 0, rw_min_primary = 0, rw_max_primary = 0,
     rw_min_partner = 0, rw_max_partner = 0\<rparr>"

definition open_window :: "real \<Rightarrow> real \<Rightarrow> u64 \<Rightarrow> rest_window" where
  "open_window primary partner now = \<lparr>rw_active = True, rw_since_us = now, rw_min_primary = primary,
     rw_max_primary = primary, rw_min_partner = partner, rw_max_partner = partner\<rparr>"

definition UpdateStableRestWindow :: "bool \<Rightarrow> real \<Rightarrow> real \<Rightarrow> u64 \<Rightarrow> rest_window \<Rightarrow> bool \<times> rest_window" where
  "UpdateStableRestWindow candidate primary partner now w =
     (if \<not> candidate then (False, ResetStableRestWindow)
      else if \<not> rw_active w then (False, open_window primary partner now)
      else let w = w\<lparr>rw_min_primary := min (rw_min_primary w) primary, rw_max_primary := max (rw_max_primary w) primary,
                    rw_min_partner := min (rw_min_partner w) partner, rw_max_partner := max (rw_max_partner w) partner\<rparr>;
               primary_span = rw_max_primary w - rw_min_primary w;
               partner_span = rw_max_partner w - rw_min_partner w
           in if primary_span > kStableRestSpanMax \<or> partner_span > kStableRestSpanMax
              then (False, open_window primary partner now)
              else (now \<ge> rw_since_us w \<and> now - rw_since_us w \<ge> kStableRestWindowUs, w))"

definition IsLikelyButtonBounceInterval :: "u64 \<Rightarrow> bool" where
  "IsLikelyButtonBounceInterval interval \<longleftrightarrow>
     interval \<ge> of_nat kButtonBounceMinIntervalUs \<and> interval \<le> of_nat kButtonBounceMaxIntervalUs"

definition DebounceFromBounceInterval :: "u32 \<Rightarrow> u32" where
  "DebounceFromBounceInterval interval =
     (let padded = interval + 1000 in max 1000 (min (of_nat kButtonBounceMaxIntervalUs) padded))"

definition IsSystemButtonPath :: "string \<Rightarrow> bool" where
  "IsSystemButtonPath path = has_part ''/input/system/'' path"

section \<open>Snapshots and presence\<close>

text \<open>The fields of \<open>InputHealthSnapshotBody\<close>.\<close>

definition INPUTHEALTH_PATH_LEN :: nat where "INPUTHEALTH_PATH_LEN = 64"

record health_body =
  hb_handle :: u64
  hb_container_handle :: u64
  hb_device_serial_hash :: u64
  hb_partner_handle :: u64
  hb_path :: string
  hb_is_scalar :: bool
  hb_is_boolean :: bool
  hb_axis_role :: byte
  hb_scalar_type :: byte
  hb_scalar_units :: byte
  hb_ph_initialized :: bool
  hb_ph_triggered :: bool
  hb_ph_triggered_positive :: bool
  hb_rest_min_initialized :: bool
  hb_last_boolean :: bool
  hb_welford :: welford
  hb_ph_mean :: real
  hb_ph_pos :: real
  hb_ph_neg :: real
  hb_rest_min :: real
  hb_last_value :: real
  hb_last_update_us :: u64
  hb_press_count :: nat
  hb_bounce_transition_count :: nat
  hb_bounce_max_interval_us :: u32
  hb_scalar_range_initialized :: bool
  hb_observed_min :: real
  hb_observed_max :: real
  hb_polar :: polar_histogram

definition PathFromSnapshotBody :: "health_body \<Rightarrow> string" where
  "PathFromSnapshotBody b = takeWhile (\<lambda>c. c \<noteq> CHR 0x00) (take INPUTHEALTH_PATH_LEN (hb_path b))"

record presence_counts =
  pc_devices :: nat
  pc_compensation_paths :: nat
  pc_diagnostic_paths :: nat
  pc_warnings :: nat
  pc_zero_hash_slots :: nat
  pc_unsupported_slots :: nat

definition count_body :: "health_body \<Rightarrow> presence_counts \<times> u64 set \<Rightarrow> presence_counts \<times> u64 set" where
  "count_body body cs =
     (let (c, serials) = cs; cls = ClassifyInputPath (PathFromSnapshotBody body)
      in if hb_handle body = 0 then (c, serials)
         else if cls = Unsupported then (c\<lparr>pc_unsupported_slots := pc_unsupported_slots c + 1\<rparr>, serials)
         else if cls = DiagnosticsOnly then (c\<lparr>pc_diagnostic_paths := pc_diagnostic_paths c + 1\<rparr>, serials)
         else let c = c\<lparr>pc_compensation_paths := pc_compensation_paths c + 1\<rparr>;
                  c = (if hb_ph_triggered body then c\<lparr>pc_warnings := pc_warnings c + 1\<rparr> else c)
              in if hb_device_serial_hash body = 0
                 then (c\<lparr>pc_zero_hash_slots := pc_zero_hash_slots c + 1\<rparr>, serials)
                 else (c, insert (hb_device_serial_hash body) serials))"

definition no_counts :: presence_counts where
  "no_counts = \<lparr>pc_devices = 0, pc_compensation_paths = 0, pc_diagnostic_paths = 0, pc_warnings = 0,
     pc_zero_hash_slots = 0, pc_unsupported_slots = 0\<rparr>"

definition CountInputHealthPresence :: "health_body list \<Rightarrow> presence_counts" where
  "CountInputHealthPresence entries =
     (let (c, serials) = fold count_body entries (no_counts, {})
      in c\<lparr>pc_devices := card serials\<rparr>)"

section \<open>Facts about the rules\<close>

text \<open>The test for a substring means what it says.\<close>

lemma prefix_of_iff: "prefix_of s t \<longleftrightarrow> (\<exists>u. t = s @ u)"
  by (induction s t rule: prefix_of.induct) auto

lemma has_part_iff: "has_part s t \<longleftrightarrow> (\<exists>u v. t = u @ s @ v)"
proof (induction t)
  case (Cons c cs)
  have "(\<exists>u v. c # cs = u @ s @ v) \<longleftrightarrow> (\<exists>v. c # cs = s @ v) \<or> (\<exists>u v. cs = u @ s @ v)"
    by (metis append_Cons append_Nil list.exhaust list.inject)
  then show ?case by (simp add: Cons prefix_of_iff)
qed auto

text \<open>A debounce time learned from a bounce covers it and stays within its limits, without
  wrap-around.\<close>

lemma DebounceFromBounceInterval_range:
  assumes "unat i \<le> kButtonBounceMaxIntervalUs"
  shows "1000 \<le> unat (DebounceFromBounceInterval i)" "unat (DebounceFromBounceInterval i) \<le> kButtonBounceMaxIntervalUs"
    "unat i \<le> unat (DebounceFromBounceInterval i)"
proof -
  have p: "unat (i + 1000) = unat i + 1000"
    using assms by (simp add: kButtonBounceMaxIntervalUs_def unat_add_lem [THEN iffD1])
  have "unat (DebounceFromBounceInterval i) = max 1000 (min 20000 (unat i + 1000))"
    by (simp add: DebounceFromBounceInterval_def kButtonBounceMaxIntervalUs_def max_def min_def word_le_nat_alt p Let_def)
  then show "1000 \<le> unat (DebounceFromBounceInterval i)" "unat (DebounceFromBounceInterval i) \<le> kButtonBounceMaxIntervalUs"
    "unat i \<le> unat (DebounceFromBounceInterval i)"
    using assms by (simp_all add: kButtonBounceMaxIntervalUs_def)
qed

text \<open>The counts partition the occupied slots, and devices are counted once.\<close>

definition presence_sum :: "presence_counts \<Rightarrow> nat" where
  "presence_sum c = pc_compensation_paths c + pc_diagnostic_paths c + pc_unsupported_slots c"

lemma count_body_sum:
  "presence_sum (fst (count_body b cs)) = presence_sum (fst cs) + (if hb_handle b = 0 then 0 else 1)"
  by (auto simp: count_body_def presence_sum_def Let_def split: prod.splits)

lemma fold_count_sum:
  "presence_sum (fst (fold count_body bs cs)) = presence_sum (fst cs) + length (filter (\<lambda>b. hb_handle b \<noteq> 0) bs)"
  by (induction bs arbitrary: cs) (auto simp: count_body_sum)

definition comp_serials :: "health_body list \<Rightarrow> u64 set" where
  "comp_serials bs = {hb_device_serial_hash b | b. b \<in> set bs \<and> hb_handle b \<noteq> 0 \<and> hb_device_serial_hash b \<noteq> 0
     \<and> IsCompensationPath (ClassifyInputPath (PathFromSnapshotBody b))}"

lemma IsCompensationPath_iff: "IsCompensationPath c \<longleftrightarrow> c \<noteq> Unsupported \<and> c \<noteq> DiagnosticsOnly"
  by (cases c) (simp_all add: IsCompensationPath_def)

lemma fold_count_serials: "snd (fold count_body bs cs) = snd cs \<union> comp_serials bs"
proof (induction bs arbitrary: cs)
  case (Cons b bs)
  have "snd (count_body b cs) \<union> comp_serials bs = snd cs \<union> comp_serials (b # bs)"
    by (auto simp: count_body_def comp_serials_def IsCompensationPath_iff Let_def split: prod.splits)
  then show ?case using Cons by simp
qed (simp add: comp_serials_def)

lemma presence_partition:
  "presence_sum (CountInputHealthPresence bs) = length (filter (\<lambda>b. hb_handle b \<noteq> 0) bs)"
  "pc_devices (CountInputHealthPresence bs) = card (comp_serials bs)"
proof -
  obtain c t where f: "fold count_body bs (no_counts, {}) = (c, t)" by fastforce
  have "presence_sum no_counts = 0" by (simp add: presence_sum_def no_counts_def)
  then have "presence_sum c = length (filter (\<lambda>b. hb_handle b \<noteq> 0) bs)" "t = comp_serials bs"
    using fold_count_sum [of bs "(no_counts, {})"] fold_count_serials [of bs "(no_counts, {})"]
    by (simp_all add: f)
  then show "presence_sum (CountInputHealthPresence bs) = length (filter (\<lambda>b. hb_handle b \<noteq> 0) bs)"
    "pc_devices (CountInputHealthPresence bs) = card (comp_serials bs)"
    by (simp_all add: CountInputHealthPresence_def f presence_sum_def)
qed

section \<open>Stable rest\<close>

text \<open>A sample: whether it is a candidate, the value, the partner's value and the time. The window
  describes the samples since it was opened.\<close>

type_synonym rest_sample = "bool \<times> real \<times> real \<times> u64"

definition rest_update :: "rest_sample \<Rightarrow> rest_window \<Rightarrow> bool \<times> rest_window" where
  "rest_update x w = (case x of (c, a, b, t) \<Rightarrow> UpdateStableRestWindow c a b t w)"

definition rest_run :: "rest_sample list \<Rightarrow> rest_window" where
  "rest_run xs = fold (\<lambda>x w. snd (rest_update x w)) xs ResetStableRestWindow"

definition sampled_in :: "rest_window \<Rightarrow> rest_sample \<Rightarrow> bool" where
  "sampled_in w x = (case x of (c, a, b, t) \<Rightarrow> c \<and> rw_min_primary w \<le> a \<and> a \<le> rw_max_primary w
     \<and> rw_min_partner w \<le> b \<and> b \<le> rw_max_partner w)"

definition window_of :: "rest_sample list \<Rightarrow> rest_window \<Rightarrow> bool" where
  "window_of xs w \<longleftrightarrow> (rw_active w \<longrightarrow> (\<exists>pre c a b t suf. xs = pre @ (c, a, b, t) # suf \<and> rw_since_us w = t
     \<and> list_all (sampled_in w) ((c, a, b, t) # suf)
     \<and> rw_max_primary w - rw_min_primary w \<le> kStableRestSpanMax \<and> rw_max_partner w - rw_min_partner w \<le> kStableRestSpanMax))"

lemma window_opens: "window_of (xs @ [(True, a, b, t)]) (open_window a b t)"
  unfolding window_of_def
  by (intro impI exI [of _ xs] exI [of _ True] exI [of _ a] exI [of _ b] exI [of _ t] exI [of _ "[]"])
    (simp add: open_window_def sampled_in_def kStableRestSpanMax_def)

lemma sampled_in_mono:
  assumes "sampled_in w x" "rw_min_primary w' \<le> rw_min_primary w" "rw_max_primary w \<le> rw_max_primary w'"
    "rw_min_partner w' \<le> rw_min_partner w" "rw_max_partner w \<le> rw_max_partner w'"
  shows "sampled_in w' x"
  using assms by (auto simp: sampled_in_def split: prod.splits)

lemma window_reset: "window_of xs ResetStableRestWindow"
  by (simp add: window_of_def ResetStableRestWindow_def)

lemma window_step:
  assumes "window_of xs w"
  shows "window_of (xs @ [x]) (snd (rest_update x w))"
proof -
  obtain c a b t where x: "x = (c, a, b, t)" using prod_cases4 by blast
  let ?w = "w\<lparr>rw_min_primary := min (rw_min_primary w) a, rw_max_primary := max (rw_max_primary w) a,
              rw_min_partner := min (rw_min_partner w) b, rw_max_partner := max (rw_max_partner w) b\<rparr>"
  have m: "sampled_in ?w y" if "sampled_in w y" for y by (rule sampled_in_mono [OF that]) auto
  have k: "window_of (xs @ [x]) ?w" if h: "c" "rw_active w" "rw_max_primary ?w - rw_min_primary ?w \<le> kStableRestSpanMax"
    "rw_max_partner ?w - rw_min_partner ?w \<le> kStableRestSpanMax"
  proof -
    obtain pre c' a' b' t' suf where s: "xs = pre @ (c', a', b', t') # suf" "rw_since_us w = t'"
      "list_all (sampled_in w) ((c', a', b', t') # suf)"
      using assms h(2) by (auto simp: window_of_def)
    have "list_all (sampled_in ?w) ((c', a', b', t') # suf @ [x])"
      using s(3) m h(1) by (auto simp: x sampled_in_def list_all_iff)
    then show ?thesis
      unfolding window_of_def using s h
      by (intro impI exI [of _ pre] exI [of _ c'] exI [of _ a'] exI [of _ b'] exI [of _ t'] exI [of _ "suf @ [x]"]) auto
  qed
  show ?thesis
    using k window_opens [of xs a b t] window_reset
    by (auto simp: x rest_update_def UpdateStableRestWindow_def Let_def)
qed

lemma window_of_run: "window_of xs (rest_run xs)"
proof (induction xs rule: rev_induct)
  case Nil
  then show ?case by (simp add: rest_run_def window_reset)
next
  case (snoc x xs)
  then show ?case using window_step [OF snoc] by (simp add: rest_run_def)
qed

text \<open>Stable rest is real rest. When the window reports rest, there is a run of samples up to this one,
  all of them candidates, that began at least a second ago and in which neither the value nor the
  partner's value moved by more than the span.
\<close>

theorem stable_rest_sound:
  assumes "fst (rest_update (c, a, b, t) (rest_run xs))"
  shows "\<exists>pre u suf. xs @ [(c, a, b, t)] = pre @ u # suf \<and> list_all fst (u # suf)
     \<and> snd (snd (snd u)) \<le> t \<and> kStableRestWindowUs \<le> t - snd (snd (snd u))
     \<and> (\<forall>x\<in>set (u # suf). \<forall>y\<in>set (u # suf).
          \<bar>fst (snd x) - fst (snd y)\<bar> \<le> kStableRestSpanMax \<and> \<bar>fst (snd (snd x)) - fst (snd (snd y))\<bar> \<le> kStableRestSpanMax)"
proof -
  define w where "w = snd (rest_update (c, a, b, t) (rest_run xs))"
  have r: "rw_active w" "t \<ge> rw_since_us w" "t - rw_since_us w \<ge> kStableRestWindowUs"
    using assms by (auto simp: w_def rest_update_def UpdateStableRestWindow_def Let_def split: if_splits)
  have "window_of (xs @ [(c, a, b, t)]) w" unfolding w_def by (rule window_step [OF window_of_run])
  then obtain pre c' a' b' t' suf where s: "xs @ [(c, a, b, t)] = pre @ (c', a', b', t') # suf" "rw_since_us w = t'"
    "list_all (sampled_in w) ((c', a', b', t') # suf)"
    "rw_max_primary w - rw_min_primary w \<le> kStableRestSpanMax" "rw_max_partner w - rw_min_partner w \<le> kStableRestSpanMax"
    using r(1) unfolding window_of_def by blast
  let ?s = "(c', a', b', t') # suf"
  have i: "fst x \<and> rw_min_primary w \<le> fst (snd x) \<and> fst (snd x) \<le> rw_max_primary w
      \<and> rw_min_partner w \<le> fst (snd (snd x)) \<and> fst (snd (snd x)) \<le> rw_max_partner w" if "x \<in> set ?s" for x
  proof -
    have "sampled_in w x" using s(3) that by (simp only: list_all_iff)
    then show ?thesis by (cases x) (simp add: sampled_in_def)
  qed
  have d: "\<bar>fst (snd x) - fst (snd y)\<bar> \<le> kStableRestSpanMax \<and> \<bar>fst (snd (snd x)) - fst (snd (snd y))\<bar> \<le> kStableRestSpanMax"
    if "x \<in> set ?s" "y \<in> set ?s" for x y
    using i [OF that(1)] i [OF that(2)] s(4,5) by linarith
  have "list_all fst ?s" using i by (simp only: list_all_iff) blast
  then show ?thesis
    using s(1) r(2,3) [unfolded s(2)] d
    by (intro exI [of _ pre] exI [of _ "(c', a', b', t')"] exI [of _ suf]) (simp only: snd_conv, blast)
qed

theorem stable_rest_sound_witness:
  "\<exists>pre u suf. [(True, 1 / 10 :: real, 0 :: real, 5 :: u64)] @ [(True, 1 / 10 :: real, 0 :: real, 1000005)] = pre @ u # suf
     \<and> kStableRestWindowUs \<le> 1000005 - snd (snd (snd u))"
proof -
  have "fst (rest_update (True, 1 / 10 :: real, 0 :: real, 1000005) (rest_run [(True, 1 / 10 :: real, 0 :: real, 5 :: u64)]))"
    by (simp add: rest_update_def rest_run_def UpdateStableRestWindow_def ResetStableRestWindow_def open_window_def
        kStableRestSpanMax_def kStableRestWindowUs_def Let_def)
  from stable_rest_sound [OF this] obtain pre u suf where
    "[(True, 1 / 10 :: real, 0 :: real, 5 :: u64)] @ [(True, 1 / 10 :: real, 0 :: real, 1000005)] = pre @ u # suf"
    "kStableRestWindowUs \<le> 1000005 - snd (snd (snd u))" by (elim exE conjE)
  then show ?thesis by (intro exI conjI)
qed

end
