(* ===== verification/WordBytes.thy ===== *)
theory WordBytes
  imports Prelude
begin

text \<open>
  Configurations of up to eight bytes that the driver keeps in one atomic 64-bit word
  (\<open>core/src/driver/ServerTrackedDeviceProviderConfigPacking.cpp\<close>).
\<close>

text \<open>A value as a word of bytes in memory order, and the bytes of a word.\<close>

fun word_of_bytes :: "byte list \<Rightarrow> u64" where
  "word_of_bytes [] = 0"
| "word_of_bytes (b # bs) = ucast b OR push_bit 8 (word_of_bytes bs)"

definition byte_at :: "u64 \<Rightarrow> nat \<Rightarrow> byte" where
  "byte_at w i = ucast (drop_bit (8 * i) w)"

definition byte_of_bool :: "bool \<Rightarrow> byte" where
  "byte_of_bool b = (if b then 1 else 0)"

lemma byte_at_Cons:
  "byte_at (word_of_bytes (b # bs)) 0 = b"
  "8 * i + 16 \<le> 64 \<Longrightarrow> byte_at (word_of_bytes (b # bs)) (Suc i) = byte_at (word_of_bytes bs) i"
proof -
  show "byte_at (word_of_bytes (b # bs)) 0 = b"
    by (rule bit_word_eqI) (auto simp: byte_at_def bit_simps)
  assume "8 * i + 16 \<le> 64"
  then show "byte_at (word_of_bytes (b # bs)) (Suc i) = byte_at (word_of_bytes bs) i"
    by (intro bit_word_eqI) (auto simp: byte_at_def bit_simps dest: bit_imp_le_length)
qed

lemma byte_at_word_of_bytes: "length bs \<le> 8 \<Longrightarrow> i < length bs \<Longrightarrow> byte_at (word_of_bytes bs) i = bs ! i"
proof (induction bs arbitrary: i)
  case (Cons b bs)
  then show ?case by (cases i) (simp_all add: byte_at_Cons del: word_of_bytes.simps)
qed simp

lemma byte_of_bool [simp]: "(byte_of_bool b \<noteq> 0) = b" "(byte_of_bool b = 0) = (\<not> b)"
  by (simp_all add: byte_of_bool_def)

lemma u16_bytes: "(ucast (ucast w :: byte) :: u16) OR push_bit 8 (ucast (ucast (drop_bit 8 w) :: byte)) = w"
  by (rule bit_word_eqI) (auto simp: bit_simps)

end
