(* ===== verification/HealthDriver.thy ===== *)
theory HealthDriver
  imports HealthRules WordBytes
begin

text \<open>
  The driver side of the input-health module: the table of components
  (\<open>modules/inputhealth/src/driver/InputHealthComponentRegistry.cpp\<close>, \<open>inputhealth/PerComponentStats.h\<close>),
  what the hooks of the input components observe and change (\<open>InputHealthObservation.cpp\<close>,
  \<open>InputHealthCompensation.cpp\<close>, \<open>InputHealthHookInjector.cpp\<close>), the staging and the reset of statistics
  (\<open>InputHealthSnapshotStaging.cpp\<close>), and the compensation table and configuration word of the provider
  (\<open>core/src/driver/ServerTrackedDeviceProvider.cpp\<close>, \<open>ServerTrackedDeviceProviderConfigPacking.cpp\<close>).
  A hook runs under the component mutex. The clock and the answers of OpenVR are arguments, and so is
  the order in which the hash map of components is walked; exceptions for lack of memory are not modelled.
\<close>

section \<open>Configuration\<close>

record ih_config =
  cfg_master_enabled :: bool
  cfg_diagnostics_only :: bool
  cfg_enable_rest_recenter :: bool
  cfg_enable_trigger_remap :: bool
  cfg_reserved :: u16

definition PackInputHealthConfig :: "ih_config \<Rightarrow> u64" where
  "PackInputHealthConfig c = word_of_bytes
     [byte_of_bool (cfg_master_enabled c), byte_of_bool (cfg_diagnostics_only c),
      byte_of_bool (cfg_enable_rest_recenter c), byte_of_bool (cfg_enable_trigger_remap c),
      ucast (cfg_reserved c), ucast (drop_bit 8 (cfg_reserved c))]"

definition UnpackInputHealthConfig :: "u64 \<Rightarrow> ih_config" where
  "UnpackInputHealthConfig w = \<lparr>cfg_master_enabled = (byte_at w 0 \<noteq> 0), cfg_diagnostics_only = (byte_at w 1 \<noteq> 0),
     cfg_enable_rest_recenter = (byte_at w 2 \<noteq> 0), cfg_enable_trigger_remap = (byte_at w 3 \<noteq> 0),
     cfg_reserved = ucast (byte_at w 4) OR push_bit 8 (ucast (byte_at w 5))\<rparr>"

section \<open>Components\<close>

record component_stats =
  cs_path :: string
  cs_is_scalar :: bool
  cs_is_boolean :: bool
  cs_scalar_type :: byte
  cs_scalar_units :: byte
  cs_container_handle :: u64
  cs_device_serial_hash :: u64
  cs_last_serial_resolve_attempt_us :: u64
  cs_serial_resolution_logged :: bool
  cs_first_update_logged :: bool
  cs_welford :: welford
  cs_scalar_range_initialized :: bool
  cs_observed_min :: real
  cs_observed_max :: real
  cs_ph_drift :: page_hinkley
  cs_rest_min :: rolling_min
  cs_last_value :: real
  cs_last_update_us :: u64
  cs_axis_role :: AxisRole
  cs_partner_handle :: u64
  cs_polar :: polar_histogram
  cs_press_count :: nat
  cs_last_boolean :: bool
  cs_pending_state :: bool
  cs_last_committed_us :: u64
  cs_last_raw_transition_us :: u64
  cs_bounce_transition_count :: nat
  cs_bounce_max_interval_us :: u32

definition ComponentStats_init :: component_stats where
  "ComponentStats_init = \<lparr>cs_path = [], cs_is_scalar = False, cs_is_boolean = False, cs_scalar_type = 0,
     cs_scalar_units = 0, cs_container_handle = 0, cs_device_serial_hash = 0, cs_last_serial_resolve_attempt_us = 0,
     cs_serial_resolution_logged = False, cs_first_update_logged = False, cs_welford = WelfordReset,
     cs_scalar_range_initialized = False, cs_observed_min = 0, cs_observed_max = 0, cs_ph_drift = PageHinkleyReset,
     cs_rest_min = EWMARollingMinReset, cs_last_value = 0, cs_last_update_us = 0, cs_axis_role = Unpaired,
     cs_partner_handle = 0, cs_polar = PolarHistogramReset, cs_press_count = 0, cs_last_boolean = False,
     cs_pending_state = False, cs_last_committed_us = 0, cs_last_raw_transition_us = 0,
     cs_bounce_transition_count = 0, cs_bounce_max_interval_us = 0\<rparr>"

definition ComponentStatsResetPassive :: "component_stats \<Rightarrow> component_stats" where
  "ComponentStatsResetPassive s = s\<lparr>cs_welford := WelfordReset, cs_ph_drift := PageHinkleyReset,
     cs_rest_min := EWMARollingMinReset, cs_polar := PolarHistogramReset, cs_scalar_range_initialized := False,
     cs_observed_min := 0, cs_observed_max := 0, cs_last_value := 0, cs_last_update_us := 0, cs_press_count := 0,
     cs_last_boolean := False, cs_pending_state := False, cs_last_committed_us := 0,
     cs_last_raw_transition_us := 0, cs_bounce_transition_count := 0, cs_bounce_max_interval_us := 0,
     cs_first_update_logged := False\<rparr>"

type_synonym components = "u64 \<rightharpoonup> component_stats"

definition upd_comp :: "u64 \<Rightarrow> (component_stats \<Rightarrow> component_stats) \<Rightarrow> components \<Rightarrow> components" where
  "upd_comp h f m = m(h := map_option f (m h))"

text \<open>The serial number that OpenVR reports for a property container.\<close>

type_synonym serial_answers = "u64 \<Rightarrow> cstring option"

definition Serial_Fnv1a64 :: "cstring \<Rightarrow> u64" where
  "Serial_Fnv1a64 s = fold (\<lambda>c h. (h XOR ucast c) * 0x100000001b3) s 0xcbf29ce484222325"

definition ResolveSerialHash :: "serial_answers \<Rightarrow> u64 \<Rightarrow> u64" where
  "ResolveSerialHash ans container =
     (if container = 0 then 0
      else case ans container of None \<Rightarrow> 0 | Some serial \<Rightarrow> if serial = [] then 0 else Serial_Fnv1a64 serial)"

definition RegisterBooleanComponent :: "serial_answers \<Rightarrow> u64 \<Rightarrow> u64 \<Rightarrow> string \<Rightarrow> components \<Rightarrow> components" where
  "RegisterBooleanComponent ans handle container path m =
     (let s = (case m handle of Some s \<Rightarrow> s | None \<Rightarrow> ComponentStats_init)
      in m(handle \<mapsto> s\<lparr>cs_path := path, cs_is_boolean := True, cs_is_scalar := False, cs_first_update_logged := False,
             cs_container_handle := container, cs_device_serial_hash := ResolveSerialHash ans container\<rparr>))"

definition is_partner :: "string \<Rightarrow> AxisRole \<Rightarrow> u64 \<Rightarrow> component_stats \<Rightarrow> bool" where
  "is_partner stem this_role container peer \<longleftrightarrow>
     cs_is_scalar peer \<and> cs_axis_role peer = (if this_role = StickX then StickY else StickX)
     \<and> cs_container_handle peer = container \<and> snd (ClassifyAxisRole (cs_path peer)) = stem"

definition FindStickPartner :: "u64 list \<Rightarrow> string \<Rightarrow> AxisRole \<Rightarrow> u64 \<Rightarrow> components \<Rightarrow> u64" where
  "FindStickPartner order stem this_role container m =
     (case filter (\<lambda>h. case m h of Some peer \<Rightarrow> is_partner stem this_role container peer | None \<Rightarrow> False) order of
        h # _ \<Rightarrow> h | [] \<Rightarrow> 0)"

definition RegisterScalarComponent :: "serial_answers \<Rightarrow> u64 list \<Rightarrow> u64 \<Rightarrow> u64 \<Rightarrow> string \<Rightarrow> byte \<Rightarrow> byte
    \<Rightarrow> components \<Rightarrow> components" where
  "RegisterScalarComponent ans order handle container path scalar_type scalar_units m =
     (let (role, stem) = ClassifyAxisRole path;
          s = (case m handle of Some s \<Rightarrow> s | None \<Rightarrow> ComponentStats_init);
          s = s\<lparr>cs_path := path, cs_is_boolean := False, cs_is_scalar := True, cs_scalar_type := scalar_type,
                cs_scalar_units := scalar_units, cs_first_update_logged := False, cs_axis_role := role,
                cs_partner_handle := 0, cs_container_handle := container,
                cs_device_serial_hash := ResolveSerialHash ans container\<rparr>;
          m = m(handle \<mapsto> s)
      in if role = StickX \<or> role = StickY
         then let partner = FindStickPartner order stem role container m
              in if partner \<noteq> 0
                 then upd_comp partner (\<lambda>p. p\<lparr>cs_partner_handle := handle\<rparr>)
                        (upd_comp handle (\<lambda>s. s\<lparr>cs_partner_handle := partner\<rparr>) m)
                 else m
         else m)"

section \<open>Observation\<close>

definition DefaultDriftParams :: ph_params where
  "DefaultDriftParams = \<lparr>ph_alpha = 1 / 10000, ph_delta = 2 / 1000, ph_lambda = 5 / 100, one_sided_positive = False\<rparr>"

definition kRestMinDecay :: real where "kRestMinDecay = 32 / 10 ^ 9"
definition kRestThreshold :: real where "kRestThreshold = 1 / 10"

definition ObserveBooleanSample :: "bool \<Rightarrow> u64 \<Rightarrow> component_stats \<Rightarrow> component_stats" where
  "ObserveBooleanSample newValue now s =
     (if newValue \<noteq> cs_pending_state s
      then let interval = now - cs_last_raw_transition_us s;
               s = (if cs_last_raw_transition_us s \<noteq> 0 \<and> IsLikelyButtonBounceInterval interval
                    then let clamped = ucast (min interval (of_nat kButtonBounceMaxIntervalUs)) :: u32
                         in s\<lparr>cs_bounce_transition_count := Suc (cs_bounce_transition_count s),
                              cs_bounce_max_interval_us := (if clamped > cs_bounce_max_interval_us s then clamped
                                                            else cs_bounce_max_interval_us s)\<rparr>
                    else s);
               s = s\<lparr>cs_last_raw_transition_us := now\<rparr>;
               s = (if newValue then s\<lparr>cs_press_count := Suc (cs_press_count s)\<rparr> else s)
           in s\<lparr>cs_pending_state := newValue\<rparr>
      else s)"

definition observe_value :: "real \<Rightarrow> component_stats \<Rightarrow> component_stats" where
  "observe_value v s =
     (let s = s\<lparr>cs_welford := WelfordUpdate v (cs_welford s)\<rparr>;
          s = (if \<not> cs_scalar_range_initialized s
               then s\<lparr>cs_scalar_range_initialized := True, cs_observed_min := v, cs_observed_max := v\<rparr>
               else s\<lparr>cs_observed_min := (if v < cs_observed_min s then v else cs_observed_min s),
                      cs_observed_max := (if v > cs_observed_max s then v else cs_observed_max s)\<rparr>);
          s = s\<lparr>cs_ph_drift := snd (PageHinkleyUpdate DefaultDriftParams v (cs_ph_drift s))\<rparr>
      in if v < kRestThreshold \<and> v > - kRestThreshold
         then s\<lparr>cs_rest_min := EWMARollingMinUpdate v kRestMinDecay (cs_rest_min s)\<rparr> else s)"

definition observe_polar :: "real \<Rightarrow> u64 \<Rightarrow> u64 \<Rightarrow> u64 \<Rightarrow> components \<Rightarrow> components" where
  "observe_polar v now h partner m =
     (case m h of None \<Rightarrow> m
      | Some s \<Rightarrow>
          if cs_axis_role s = StickX
          then upd_comp h (\<lambda>s. s\<lparr>cs_polar := PolarHistogramUpdate v
                 (case m partner of Some p \<Rightarrow> cs_last_value p | None \<Rightarrow> 0) now kRestMinDecay (cs_polar s)\<rparr>) m
          else if cs_axis_role s = StickY
          then case m partner of
                 Some p \<Rightarrow>
                   if cs_axis_role p = StickX
                   then upd_comp partner (\<lambda>p. p\<lparr>cs_polar := PolarHistogramUpdate (cs_last_value p) v now kRestMinDecay (cs_polar p)\<rparr>) m
                   else m
               | None \<Rightarrow> m
          else m)"

definition ObserveScalarSample :: "real \<Rightarrow> u64 \<Rightarrow> u64 \<Rightarrow> u64 \<Rightarrow> components \<Rightarrow> components" where
  "ObserveScalarSample v now h partner m =
     upd_comp h (\<lambda>s. s\<lparr>cs_last_value := v, cs_last_update_us := now\<rparr>)
       (observe_polar v now h partner (upd_comp h (observe_value v) m))"

section \<open>Compensation\<close>

record comp_entry =
  ce_device_serial_hash :: u64
  ce_path :: string
  ce_kind :: byte
  ce_enabled :: byte
  ce_rest_offset :: real
  ce_trigger_min :: real
  ce_trigger_max :: real
  ce_deadzone_radius :: real
  ce_debounce_us :: u16

record health_driver =
  hd_armed :: bool
  hd_cfg :: u64
  hd_comp :: "u64 \<rightharpoonup> (string \<rightharpoonup> comp_entry)"
  hd_components :: components

definition InputHealthPathString :: "string \<Rightarrow> string" where
  "InputHealthPathString p = takeWhile (\<lambda>c. c \<noteq> CHR 0x00) (take INPUTHEALTH_PATH_LEN p)"

definition SetInputHealthConfig :: "ih_config \<Rightarrow> health_driver \<Rightarrow> health_driver" where
  "SetInputHealthConfig c d = d\<lparr>hd_cfg := PackInputHealthConfig c\<rparr>"

definition GetInputHealthConfig :: "health_driver \<Rightarrow> ih_config" where
  "GetInputHealthConfig d = UnpackInputHealthConfig (hd_cfg d)"

definition SetInputHealthCompensation :: "comp_entry \<Rightarrow> health_driver \<Rightarrow> health_driver" where
  "SetInputHealthCompensation e d =
     (let path = InputHealthPathString (ce_path e); serial = ce_device_serial_hash e
      in if serial = 0 \<or> path = [] then d
         else if \<not> IsCompensationPath (ClassifyInputPath path) then d
         else if ce_enabled e = 0
         then case hd_comp d serial of
                None \<Rightarrow> d
              | Some t \<Rightarrow>
                  let t = t(path := None)
                  in if dom t = {} then d\<lparr>hd_comp := (hd_comp d)(serial := None)\<rparr>
                     else d\<lparr>hd_comp := (hd_comp d)(serial \<mapsto> t)\<rparr>
         else let t = (case hd_comp d serial of Some t \<Rightarrow> t | None \<Rightarrow> Map.empty)
              in d\<lparr>hd_comp := (hd_comp d)(serial \<mapsto> t(path \<mapsto> e))\<rparr>)"

definition LookupInputHealthCompensation :: "u64 \<Rightarrow> string \<Rightarrow> health_driver \<Rightarrow> comp_entry option" where
  "LookupInputHealthCompensation serial path d =
     (if serial = 0 \<or> path = [] then None
      else case hd_comp d serial of None \<Rightarrow> None
           | Some t \<Rightarrow> (case t path of None \<Rightarrow> None | Some e \<Rightarrow> if ce_enabled e \<noteq> 0 then Some e else None))"

definition ClearInputHealthCompensation :: "u64 \<Rightarrow> health_driver \<Rightarrow> health_driver" where
  "ClearInputHealthCompensation serial d =
     (if serial = 0 then d\<lparr>hd_comp := Map.empty\<rparr> else d\<lparr>hd_comp := (hd_comp d)(serial := None)\<rparr>)"

definition ClampFloat :: "real \<Rightarrow> real \<Rightarrow> real \<Rightarrow> real" where
  "ClampFloat v lo hi = max lo (min v hi)"

definition trigger_remap :: "comp_entry \<Rightarrow> real \<Rightarrow> real" where
  "trigger_remap e raw =
     (if ce_trigger_min e > 0 \<or> ce_trigger_max e > 0
      then let maxValue = (if ce_trigger_max e > 0 then ce_trigger_max e else 1);
               range = max (1 / 1000) (maxValue - ce_trigger_min e)
           in ClampFloat ((raw - ce_trigger_min e) / range) 0 1
      else ClampFloat raw 0 1)"

definition stick_value :: "health_driver \<Rightarrow> comp_entry \<Rightarrow> component_stats \<Rightarrow> real \<Rightarrow> (real \<times> string) option \<Rightarrow> real" where
  "stick_value d e s raw partner =
     (let value = raw - ce_rest_offset e
      in if (ce_kind e = CompStickX \<or> ce_kind e = CompStickY) \<and> ce_deadzone_radius e > 0
         then let radius = (case partner of
                       None \<Rightarrow> \<bar>value\<bar>
                     | Some (pv, ppath) \<Rightarrow>
                         let pv = (if cs_device_serial_hash s \<noteq> 0 \<and> ppath \<noteq> []
                                   then case LookupInputHealthCompensation (cs_device_serial_hash s) ppath d of
                                          Some pe \<Rightarrow> pv - ce_rest_offset pe | None \<Rightarrow> pv
                                   else pv)
                         in sqrt (value * value + pv * pv))
              in if radius < ce_deadzone_radius e then 0 else value
         else value)"

definition ApplyScalarCompensation :: "health_driver \<Rightarrow> comp_entry \<Rightarrow> component_stats \<Rightarrow> real \<Rightarrow> (real \<times> string) option \<Rightarrow> real" where
  "ApplyScalarCompensation d e s raw partner =
     (if \<not> ScalarMetadataAllowsCompensation (ce_kind e) (cs_path s) (cs_scalar_type s) (cs_scalar_units s) then raw
      else if IsTriggerLikePath (cs_path s) then trigger_remap e raw
      else let value = stick_value d e s raw partner
           in if ce_kind e = CompStickX \<or> ce_kind e = CompStickY then ClampFloat value (- 1) 1 else value)"

definition ShouldSwallowBooleanUpdate :: "component_stats \<Rightarrow> comp_entry \<Rightarrow> bool \<Rightarrow> u64 \<Rightarrow> bool" where
  "ShouldSwallowBooleanUpdate s e newValue now \<longleftrightarrow>
     ce_kind e = CompBoolean \<and> ce_debounce_us e \<noteq> 0 \<and> newValue \<noteq> cs_last_boolean s
     \<and> cs_last_committed_us s \<noteq> 0 \<and> now - cs_last_committed_us s < ucast (ce_debounce_us e)"

section \<open>The hooks\<close>

definition resolve_late :: "serial_answers \<Rightarrow> u64 \<Rightarrow> component_stats \<Rightarrow> component_stats" where
  "resolve_late ans now s =
     (if cs_device_serial_hash s = 0 \<and> now - cs_last_serial_resolve_attempt_us s > 1000000
      then let hash = ResolveSerialHash ans (cs_container_handle s)
           in s\<lparr>cs_last_serial_resolve_attempt_us := now, cs_device_serial_hash := hash,
                cs_serial_resolution_logged := (cs_serial_resolution_logged s \<or> hash \<noteq> 0)\<rparr>
      else s)"

definition commit_boolean :: "bool \<Rightarrow> bool \<Rightarrow> u64 \<Rightarrow> component_stats \<Rightarrow> component_stats" where
  "commit_boolean swallow v now s =
     (let s = (if \<not> swallow \<and> v \<noteq> cs_last_boolean s then s\<lparr>cs_last_boolean := v, cs_last_committed_us := now\<rparr> else s)
      in s\<lparr>cs_last_update_us := now, cs_first_update_logged := True\<rparr>)"

text \<open>The value that is handed on to the original function, \<open>None\<close> when the update is swallowed.\<close>

definition DetourUpdateBooleanComponent :: "serial_answers \<Rightarrow> u64 \<Rightarrow> u64 \<Rightarrow> bool \<Rightarrow> health_driver \<Rightarrow> bool option \<times> health_driver" where
  "DetourUpdateBooleanComponent ans now h v d =
     (let cfg = GetInputHealthConfig d
      in if \<not> hd_armed d \<or> \<not> cfg_master_enabled cfg then (Some v, d)
         else case hd_components d h of
                None \<Rightarrow> (Some v, d)
              | Some s \<Rightarrow>
                  let s = ObserveBooleanSample v now s;
                      s = (if \<not> cfg_diagnostics_only cfg then resolve_late ans now s else s);
                      swallow = (\<not> cfg_diagnostics_only cfg \<and> cs_device_serial_hash s \<noteq> 0
                                 \<and> (case LookupInputHealthCompensation (cs_device_serial_hash s) (cs_path s) d of
                                      None \<Rightarrow> False | Some e \<Rightarrow> ShouldSwallowBooleanUpdate s e v now));
                      s = commit_boolean swallow v now s
                  in (if swallow then None else Some v, d\<lparr>hd_components := (hd_components d)(h \<mapsto> s)\<rparr>))"

definition compensate :: "ih_config \<Rightarrow> health_driver \<Rightarrow> u64 \<Rightarrow> component_stats \<Rightarrow> real \<Rightarrow> real" where
  "compensate cfg d partner s v =
     (if \<not> cfg_diagnostics_only cfg \<and> cs_device_serial_hash s \<noteq> 0
      then case LookupInputHealthCompensation (cs_device_serial_hash s) (cs_path s) d of
             None \<Rightarrow> v
           | Some e \<Rightarrow>
               if ce_kind e = CompBoolean then v
               else let isStick = (cs_axis_role s = StickX \<or> cs_axis_role s = StickY)
                    in if isStick \<and> \<not> cfg_enable_rest_recenter cfg then v
                       else if \<not> isStick \<and> \<not> cfg_enable_trigger_remap cfg then v
                       else ApplyScalarCompensation d e s v
                              (map_option (\<lambda>p. (cs_last_value p, cs_path p)) (hd_components d partner))
      else v)"

definition DetourUpdateScalarComponent :: "serial_answers \<Rightarrow> u64 \<Rightarrow> u64 \<Rightarrow> real \<Rightarrow> health_driver \<Rightarrow> real \<times> health_driver" where
  "DetourUpdateScalarComponent ans now h v d =
     (let cfg = GetInputHealthConfig d
      in if \<not> hd_armed d \<or> \<not> cfg_master_enabled cfg then (v, d)
         else case hd_components d h of
                None \<Rightarrow> (v, d)
              | Some s0 \<Rightarrow>
                  let partner = cs_partner_handle s0;
                      m = ObserveScalarSample v now h partner (hd_components d);
                      m = upd_comp h (\<lambda>s. s\<lparr>cs_first_update_logged := True\<rparr>) m;
                      m = (if \<not> cfg_diagnostics_only cfg then upd_comp h (resolve_late ans now) m else m);
                      d = d\<lparr>hd_components := m\<rparr>
                  in (compensate cfg d partner (the (m h)) v, d))"

text \<open>A component is registered when the original function succeeded and gave it a handle.\<close>

definition DetourCreateBooleanComponent :: "serial_answers \<Rightarrow> bool \<Rightarrow> u64 \<Rightarrow> string option \<Rightarrow> u64 \<Rightarrow> health_driver \<Rightarrow> health_driver" where
  "DetourCreateBooleanComponent ans ok container name handle d =
     (case name of
        Some path \<Rightarrow> if ok \<and> handle \<noteq> 0
                    then d\<lparr>hd_components := RegisterBooleanComponent ans handle container path (hd_components d)\<rparr> else d
      | None \<Rightarrow> d)"

definition DetourCreateScalarComponent :: "serial_answers \<Rightarrow> u64 list \<Rightarrow> bool \<Rightarrow> u64 \<Rightarrow> string option \<Rightarrow> u64 \<Rightarrow> byte \<Rightarrow> byte
    \<Rightarrow> health_driver \<Rightarrow> health_driver" where
  "DetourCreateScalarComponent ans order ok container name handle ty units d =
     (case name of
        Some path \<Rightarrow> if ok \<and> handle \<noteq> 0
                    then d\<lparr>hd_components := RegisterScalarComponent ans order handle container path ty units (hd_components d)\<rparr> else d
      | None \<Rightarrow> d)"

definition Health_Init :: "health_driver \<Rightarrow> health_driver" where
  "Health_Init d = d\<lparr>hd_armed := True, hd_components := Map.empty\<rparr>"

definition Health_Shutdown :: "health_driver \<Rightarrow> health_driver" where
  "Health_Shutdown d = d\<lparr>hd_components := Map.empty, hd_armed := False\<rparr>"

section \<open>Staging and reset\<close>

definition role_byte :: "AxisRole \<Rightarrow> byte" where
  "role_byte r = (case r of Unpaired \<Rightarrow> 0 | StickX \<Rightarrow> 1 | StickY \<Rightarrow> 2)"

definition FillSnapshotBody :: "u64 \<Rightarrow> component_stats \<Rightarrow> health_body" where
  "FillSnapshotBody handle s = \<lparr>hb_handle = handle, hb_container_handle = cs_container_handle s,
     hb_device_serial_hash = cs_device_serial_hash s, hb_partner_handle = cs_partner_handle s,
     hb_path = (let p = take (INPUTHEALTH_PATH_LEN - 1) (cs_path s) in p @ replicate (INPUTHEALTH_PATH_LEN - length p) (CHR 0x00)),
     hb_is_scalar = cs_is_scalar s, hb_is_boolean = cs_is_boolean s, hb_axis_role = role_byte (cs_axis_role s),
     hb_scalar_type = cs_scalar_type s, hb_scalar_units = cs_scalar_units s,
     hb_ph_initialized = ph_initialized (cs_ph_drift s), hb_ph_triggered = ph_triggered (cs_ph_drift s),
     hb_ph_triggered_positive = ph_triggered_positive (cs_ph_drift s),
     hb_rest_min_initialized = rm_initialized (cs_rest_min s), hb_last_boolean = cs_last_boolean s,
     hb_welford = cs_welford s, hb_ph_mean = ph_mean (cs_ph_drift s), hb_ph_pos = ph_pos (cs_ph_drift s),
     hb_ph_neg = ph_neg (cs_ph_drift s), hb_rest_min = rm_value (cs_rest_min s), hb_last_value = cs_last_value s,
     hb_last_update_us = cs_last_update_us s, hb_press_count = cs_press_count s,
     hb_bounce_transition_count = cs_bounce_transition_count s, hb_bounce_max_interval_us = cs_bounce_max_interval_us s,
     hb_scalar_range_initialized = cs_scalar_range_initialized s, hb_observed_min = cs_observed_min s,
     hb_observed_max = cs_observed_max s, hb_polar = cs_polar s\<rparr>"

definition StageSnapshots :: "u64 list \<Rightarrow> components \<Rightarrow> (u64 \<times> health_body) list" where
  "StageSnapshots order m = map (\<lambda>h. (h, FillSnapshotBody h (the (m h)))) order"

record reset_request =
  rr_device_serial_hash :: u64
  rr_reset_passive :: bool
  rr_reset_curves :: bool

text \<open>The first pass copies handle, container and hash of every component; \<open>window\<close> is what other threads
  do to the table while the serial numbers are resolved without the mutex.\<close>

definition reset_component :: "reset_request \<Rightarrow> u64 \<times> u64 \<Rightarrow> components \<Rightarrow> components" where
  "reset_component req sn m =
     (case sn of (handle, hash) \<Rightarrow>
        case m handle of None \<Rightarrow> m
        | Some s \<Rightarrow>
            let s = (if hash \<noteq> 0 \<and> cs_device_serial_hash s = 0 then s\<lparr>cs_device_serial_hash := hash\<rparr> else s);
                hit = (rr_device_serial_hash req = 0 \<or> cs_device_serial_hash s = rr_device_serial_hash req);
                s = (if hit \<and> rr_reset_passive req then ComponentStatsResetPassive s else s)
            in m(handle \<mapsto> s))"

definition ApplyResetRequest :: "serial_answers \<Rightarrow> u64 list \<Rightarrow> (components \<Rightarrow> components) \<Rightarrow> reset_request \<Rightarrow> health_driver \<Rightarrow> health_driver" where
  "ApplyResetRequest ans order window req d =
     (let snap = map (\<lambda>h. (h, cs_container_handle (the (hd_components d h)), cs_device_serial_hash (the (hd_components d h)))) order;
          resolved = map (\<lambda>(h, container, hash). (h, if hash \<noteq> 0 then hash else ResolveSerialHash ans container)) snap;
          d = d\<lparr>hd_components := fold (reset_component req) resolved (window (hd_components d))\<rparr>
      in if rr_reset_curves req \<and> hd_armed d then ClearInputHealthCompensation (rr_device_serial_hash req) d else d)"

section \<open>The configuration word\<close>

lemma UnpackInputHealthConfig_Pack: "UnpackInputHealthConfig (PackInputHealthConfig c) = c"
  by (simp add: UnpackInputHealthConfig_def PackInputHealthConfig_def byte_at_word_of_bytes u16_bytes del: word_of_bytes.simps)

lemma GetInputHealthConfig_Set [simp]: "GetInputHealthConfig (SetInputHealthConfig c d) = c"
  by (simp add: GetInputHealthConfig_def SetInputHealthConfig_def UnpackInputHealthConfig_Pack)

section \<open>The compensation table\<close>

definition entry_ok :: "comp_entry \<Rightarrow> bool" where
  "entry_ok e \<longleftrightarrow> ce_device_serial_hash e \<noteq> 0 \<and> InputHealthPathString (ce_path e) \<noteq> []
     \<and> IsCompensationPath (ClassifyInputPath (InputHealthPathString (ce_path e)))"

lemma lookup_set:
  "LookupInputHealthCompensation h p (SetInputHealthCompensation e d) =
     (if entry_ok e \<and> h = ce_device_serial_hash e \<and> p = InputHealthPathString (ce_path e)
      then if ce_enabled e \<noteq> 0 then Some e else None
      else LookupInputHealthCompensation h p d)"
proof (cases "entry_ok e")
  case True
  have "t(q := None) = (\<lambda>x. None) \<Longrightarrow> t p \<noteq> None \<Longrightarrow> p = q" for t :: "string \<rightharpoonup> comp_entry" and q
    by (metis fun_upd_apply)
  then show ?thesis
    using True
    by (auto simp: SetInputHealthCompensation_def LookupInputHealthCompensation_def entry_ok_def Let_def
        split: option.splits)
next
  case False
  then show ?thesis by (auto simp: SetInputHealthCompensation_def entry_ok_def Let_def)
qed

lemma lookup_clear:
  "LookupInputHealthCompensation h p (ClearInputHealthCompensation s d) =
     (if s = 0 \<or> h = s then None else LookupInputHealthCompensation h p d)"
  by (simp add: ClearInputHealthCompensation_def LookupInputHealthCompensation_def)

lemma lookup_components [simp]:
  "LookupInputHealthCompensation h p (d\<lparr>hd_components := m\<rparr>) = LookupInputHealthCompensation h p d"
  by (simp add: LookupInputHealthCompensation_def)

text \<open>The compensation table is a map from device and path. A stored entry is what a lookup of its
  device and path gives while it is enabled; a disabled entry removes it; entries without a device, a
  path or of a path that may not be compensated change nothing; no other key is affected; and clearing
  a device forgets exactly its entries, clearing device 0 forgets all.
\<close>

theorem compensation_table:
  "LookupInputHealthCompensation h p (SetInputHealthCompensation e d) =
     (if ce_device_serial_hash e \<noteq> 0 \<and> IsCompensationPath (ClassifyInputPath (InputHealthPathString (ce_path e)))
         \<and> h = ce_device_serial_hash e \<and> p = InputHealthPathString (ce_path e)
      then if ce_enabled e \<noteq> 0 then Some e else None
      else LookupInputHealthCompensation h p d)
   \<and> LookupInputHealthCompensation h p (ClearInputHealthCompensation s d) =
     (if s = 0 \<or> h = s then None else LookupInputHealthCompensation h p d)"
proof -
  have "IsCompensationPath (ClassifyInputPath q) \<Longrightarrow> q \<noteq> []" for q
    by (auto simp: ClassifyInputPath_def IsCompensationPath_def)
  then show ?thesis by (auto simp: lookup_set lookup_clear entry_ok_def)
qed

section \<open>Observations are raw\<close>

definition scalar_run :: "serial_answers \<Rightarrow> (u64 \<times> u64 \<times> real) list \<Rightarrow> health_driver \<Rightarrow> health_driver" where
  "scalar_run ans us d = fold (\<lambda>(now, h, v) d. snd (DetourUpdateScalarComponent ans now h v d)) us d"

lemma scalar_observation:
  "snd (DetourUpdateScalarComponent ans now h v (d\<lparr>hd_comp := t\<rparr>)) = (snd (DetourUpdateScalarComponent ans now h v d))\<lparr>hd_comp := t\<rparr>"
  by (auto simp: DetourUpdateScalarComponent_def GetInputHealthConfig_def Let_def split: option.splits)

lemma scalar_run_observation: "scalar_run ans us (d\<lparr>hd_comp := t\<rparr>) = (scalar_run ans us d)\<lparr>hd_comp := t\<rparr>"
  unfolding scalar_run_def
proof (induction us arbitrary: d)
  case (Cons u us)
  obtain now h v where u: "u = (now, h, v)" using prod_cases3 by blast
  show ?case using Cons [of "snd (DetourUpdateScalarComponent ans now h v d)"] by (simp add: u scalar_observation)
qed simp

lemma scalar_transparent:
  assumes "\<not> hd_armed d \<or> \<not> cfg_master_enabled (GetInputHealthConfig d) \<or> cfg_diagnostics_only (GetInputHealthConfig d)
    \<or> hd_components d h = None"
  shows "fst (DetourUpdateScalarComponent ans now h v d) = v"
  using assms by (auto simp: DetourUpdateScalarComponent_def compensate_def Let_def split: option.splits)

text \<open>C31: Learning never feeds on its own corrections. What the hooks of scalar components record does not
  depend on the compensation table: over any updates and any contents of the table the statistics are
  the same, although what is handed on differs; and with the module off, in diagnostics-only mode, or
  for a component it does not know, what is handed on is the raw value.
\<close>

theorem observations_raw:
  "hd_components (scalar_run ans us (d\<lparr>hd_comp := t\<rparr>)) = hd_components (scalar_run ans us d)
   \<and> (fst (DetourUpdateScalarComponent ans now h v d) \<noteq> v \<longrightarrow>
        hd_armed d \<and> cfg_master_enabled (GetInputHealthConfig d) \<and> \<not> cfg_diagnostics_only (GetInputHealthConfig d)
        \<and> h \<in> dom (hd_components d))"
  using scalar_transparent [of d h ans now v] by (auto simp: scalar_run_observation)

definition one_scalar :: "bool \<Rightarrow> health_driver" where
  "one_scalar diag = SetInputHealthConfig \<lparr>cfg_master_enabled = True, cfg_diagnostics_only = diag, cfg_enable_rest_recenter = True,
       cfg_enable_trigger_remap = True, cfg_reserved = 0\<rparr>
     \<lparr>hd_armed = True, hd_cfg = 0,
      hd_comp = [7 \<mapsto> [''/input/trigger/value'' \<mapsto> \<lparr>ce_device_serial_hash = 7, ce_path = ''/input/trigger/value'', ce_kind = 0,
        ce_enabled = 1, ce_rest_offset = 0, ce_trigger_min = 1 / 10, ce_trigger_max = 9 / 10, ce_deadzone_radius = 0, ce_debounce_us = 0\<rparr>]],
      hd_components = [3 \<mapsto> ComponentStats_init\<lparr>cs_path := ''/input/trigger/value'', cs_is_scalar := True, cs_device_serial_hash := 7\<rparr>]\<rparr>"

lemma trigger_value_path: "IsTriggerLikePath ''/input/trigger/value''"
  by (simp add: IsTriggerLikePath_def)

lemma observe_value_keeps [simp]:
  "cs_path (observe_value v s) = cs_path s" "cs_device_serial_hash (observe_value v s) = cs_device_serial_hash s"
  "cs_axis_role (observe_value v s) = cs_axis_role s" "cs_scalar_type (observe_value v s) = cs_scalar_type s"
  "cs_scalar_units (observe_value v s) = cs_scalar_units s" "cs_last_value (observe_value v s) = cs_last_value s"
  by (simp_all add: observe_value_def Let_def)

text \<open>What the hook keeps of the identity of a component.\<close>

definition same_component :: "component_stats \<Rightarrow> component_stats \<Rightarrow> bool" where
  "same_component s t \<longleftrightarrow> cs_path s = cs_path t \<and> cs_device_serial_hash s = cs_device_serial_hash t
     \<and> cs_axis_role s = cs_axis_role t \<and> cs_scalar_type s = cs_scalar_type t \<and> cs_scalar_units s = cs_scalar_units t"

lemma observed_component:
  assumes "m h = Some s"
  shows "\<exists>s'. ObserveScalarSample v now h p m h = Some s' \<and> same_component s' s"
  using assms
  by (auto simp: ObserveScalarSample_def observe_polar_def upd_comp_def same_component_def split: option.splits)

text \<open>The hook of a known scalar that is not a stick axis.\<close>

lemma scalar_hook_known:
  assumes "hd_armed d" "cfg_master_enabled (GetInputHealthConfig d)" "\<not> cfg_diagnostics_only (GetInputHealthConfig d)"
    "cfg_enable_trigger_remap (GetInputHealthConfig d)"
    and "hd_components d h = Some s" "cs_device_serial_hash s \<noteq> 0" "cs_axis_role s = Unpaired"
    and "LookupInputHealthCompensation (cs_device_serial_hash s) (cs_path s) d = Some e" "ce_kind e = CompScalarSingle"
    and "IsTriggerLikePath (cs_path s)" "IsAbsoluteScalar (cs_scalar_type s)" "IsOneSidedScalar (cs_scalar_units s)"
  shows "fst (DetourUpdateScalarComponent ans now h v d) = trigger_remap e v"
proof -
  let ?m = "ObserveScalarSample v now h (cs_partner_handle s) (hd_components d)"
  obtain s' where o: "?m h = Some s'" "same_component s' s" using observed_component [of "hd_components d", OF assms(5)] by blast
  let ?s = "resolve_late ans now (s'\<lparr>cs_first_update_logged := True\<rparr>)"
  let ?d = "d\<lparr>hd_components := upd_comp h (resolve_late ans now) (upd_comp h (\<lambda>s. s\<lparr>cs_first_update_logged := True\<rparr>) ?m)\<rparr>"
  have r: "same_component ?s s" using o(2) assms(6) by (simp add: resolve_late_def same_component_def)
  have "fst (DetourUpdateScalarComponent ans now h v d) = compensate (GetInputHealthConfig d) ?d (cs_partner_handle s) ?s v"
    using assms(1-5) o(1) by (simp add: DetourUpdateScalarComponent_def upd_comp_def Let_def)
  also have "\<dots> = ApplyScalarCompensation ?d e ?s v (map_option (\<lambda>p. (cs_last_value p, cs_path p)) (hd_components ?d (cs_partner_handle s)))"
    using r assms by (simp add: compensate_def same_component_def CompBoolean_def CompScalarSingle_def)
  also have "\<dots> = trigger_remap e v"
    using r assms by (simp add: ApplyScalarCompensation_def ScalarMetadataAllowsCompensation_def same_component_def
        CompStickX_def CompStickY_def CompScalarSingle_def)
  finally show ?thesis .
qed

lemma one_scalar_remapped: "fst (DetourUpdateScalarComponent ans t 3 v (one_scalar False)) =
    max 0 (min ((v - 1 / 10) / max (1 / 1000) (9 / 10 - 1 / 10)) 1)"
proof -
  let ?s = "ComponentStats_init\<lparr>cs_path := ''/input/trigger/value'', cs_is_scalar := True, cs_device_serial_hash := 7\<rparr>"
  let ?e = "\<lparr>ce_device_serial_hash = 7, ce_path = ''/input/trigger/value'', ce_kind = 0, ce_enabled = 1, ce_rest_offset = 0,
    ce_trigger_min = 1 / 10, ce_trigger_max = 9 / 10, ce_deadzone_radius = 0, ce_debounce_us = 0\<rparr>"
  have "fst (DetourUpdateScalarComponent ans t 3 v (one_scalar False)) = trigger_remap ?e v"
    by (rule scalar_hook_known [where s = ?s])
      (simp_all add: one_scalar_def ComponentStats_init_def trigger_value_path LookupInputHealthCompensation_def
        SetInputHealthConfig_def GetInputHealthConfig_def UnpackInputHealthConfig_Pack CompScalarSingle_def
        IsAbsoluteScalar_def IsOneSidedScalar_def)
  then show ?thesis by (simp add: trigger_remap_def ClampFloat_def)
qed

theorem observations_raw_witness:
  "\<not> cfg_diagnostics_only (GetInputHealthConfig (one_scalar False))"
  using observations_raw [where ans = "\<lambda>_. None" and us = "[]" and d = "one_scalar False" and t = Map.empty
      and now = 5 and h = 3 and v = "9 / 10"] one_scalar_remapped [of "\<lambda>_. None" 5 "9 / 10"] by simp

section \<open>What is handed on\<close>

lemma ClampFloat_range: "lo \<le> hi \<Longrightarrow> lo \<le> ClampFloat v lo hi" "lo \<le> hi \<Longrightarrow> ClampFloat v lo hi \<le> hi"
  by (simp_all add: ClampFloat_def)

lemma ClampFloat_mono: "v \<le> w \<Longrightarrow> ClampFloat v lo hi \<le> ClampFloat w lo hi"
  by (auto simp: ClampFloat_def)

lemma trigger_remap_range: "0 \<le> trigger_remap e v" "trigger_remap e v \<le> 1"
  by (simp_all add: trigger_remap_def ClampFloat_range Let_def)

lemma trigger_remap_mono: "v \<le> w \<Longrightarrow> trigger_remap e v \<le> trigger_remap e w"
  by (auto simp: trigger_remap_def Let_def intro!: ClampFloat_mono divide_right_mono)

lemma trigger_remap_learned:
  assumes "0 \<le> ce_trigger_min e" "ce_trigger_min e + 1 / 1000 \<le> ce_trigger_max e"
  shows "trigger_remap e v = ClampFloat ((v - ce_trigger_min e) / (ce_trigger_max e - ce_trigger_min e)) 0 1"
  using assms by (simp add: trigger_remap_def Let_def max_def)

lemma trigger_remap_spans:
  assumes "0 \<le> ce_trigger_min e" "ce_trigger_min e + 1 / 1000 \<le> ce_trigger_max e"
  shows "v \<le> ce_trigger_min e \<Longrightarrow> trigger_remap e v = 0" "v \<ge> ce_trigger_max e \<Longrightarrow> trigger_remap e v = 1"
    "ce_trigger_min e \<le> v \<Longrightarrow> v \<le> ce_trigger_max e \<Longrightarrow>
       trigger_remap e v * (ce_trigger_max e - ce_trigger_min e) = v - ce_trigger_min e"
proof -
  have r: "0 < ce_trigger_max e - ce_trigger_min e" using assms(2) by linarith
  note l = trigger_remap_learned [OF assms] and d = divide_le_eq_1_pos [OF r]
  show "v \<le> ce_trigger_min e \<Longrightarrow> trigger_remap e v = 0"
    using r by (simp add: l ClampFloat_def max_def min_def zero_le_divide_iff)
  show "v \<ge> ce_trigger_max e \<Longrightarrow> trigger_remap e v = 1"
    using r by (simp add: l ClampFloat_def max_def min_def d)
  show "ce_trigger_min e \<le> v \<Longrightarrow> v \<le> ce_trigger_max e \<Longrightarrow>
       trigger_remap e v * (ce_trigger_max e - ce_trigger_min e) = v - ce_trigger_min e"
    using r by (simp add: l ClampFloat_def max_def min_def d zero_le_divide_iff)
qed

text \<open>C32: A compensated value stays in the range of its input: a trigger between 0 and 1, a stick axis
  between -1 and 1. The remapping of a trigger preserves the order of values, gives 0 up to the learned
  floor and 1 from the learned peak on, and in between it is the linear map of the learned range.
\<close>

theorem compensation_bounds:
  assumes "ScalarMetadataAllowsCompensation (ce_kind e) (cs_path s) (cs_scalar_type s) (cs_scalar_units s)"
  shows "(IsTriggerLikePath (cs_path s) \<longrightarrow>
       0 \<le> ApplyScalarCompensation d e s v p \<and> ApplyScalarCompensation d e s v p \<le> 1
       \<and> (\<forall>w \<ge> v. ApplyScalarCompensation d e s v p \<le> ApplyScalarCompensation d e s w p)
       \<and> (0 \<le> ce_trigger_min e \<and> ce_trigger_min e + 1 / 1000 \<le> ce_trigger_max e \<longrightarrow>
            (v \<le> ce_trigger_min e \<longrightarrow> ApplyScalarCompensation d e s v p = 0)
          \<and> (v \<ge> ce_trigger_max e \<longrightarrow> ApplyScalarCompensation d e s v p = 1)
          \<and> (ce_trigger_min e \<le> v \<and> v \<le> ce_trigger_max e \<longrightarrow>
               ApplyScalarCompensation d e s v p * (ce_trigger_max e - ce_trigger_min e) = v - ce_trigger_min e)))
   \<and> (\<not> IsTriggerLikePath (cs_path s) \<and> (ce_kind e = CompStickX \<or> ce_kind e = CompStickY) \<longrightarrow>
       - 1 \<le> ApplyScalarCompensation d e s v p \<and> ApplyScalarCompensation d e s v p \<le> 1)"
proof (cases "IsTriggerLikePath (cs_path s)")
  case True
  then have "ApplyScalarCompensation d e s w p = trigger_remap e w" for w
    using assms by (simp add: ApplyScalarCompensation_def)
  then show ?thesis
    using True trigger_remap_range [of e v] trigger_remap_mono [of v _ e] trigger_remap_spans [of e v] by simp
next
  case False
  then show ?thesis
    using assms by (auto simp: ApplyScalarCompensation_def ClampFloat_range Let_def)
qed

theorem compensation_bounds_witness:
  "let e = \<lparr>ce_device_serial_hash = 7, ce_path = [], ce_kind = 0, ce_enabled = 1, ce_rest_offset = 0, ce_trigger_min = 1 / 10,
       ce_trigger_max = 9 / 10, ce_deadzone_radius = 0, ce_debounce_us = 0\<rparr>;
       s = ComponentStats_init\<lparr>cs_path := ''/input/trigger/value''\<rparr>
   in ApplyScalarCompensation (one_scalar True) e s (95 / 100) None = 1"
  using compensation_bounds [of "\<lparr>ce_device_serial_hash = 7, ce_path = [], ce_kind = 0, ce_enabled = 1, ce_rest_offset = 0,
      ce_trigger_min = 1 / 10, ce_trigger_max = 9 / 10, ce_deadzone_radius = 0, ce_debounce_us = 0\<rparr>"
      "ComponentStats_init\<lparr>cs_path := ''/input/trigger/value''\<rparr>" "one_scalar True" "95 / 100" None] trigger_value_path
  by (simp add: ScalarMetadataAllowsCompensation_def IsAbsoluteScalar_def IsOneSidedScalar_def ComponentStats_init_def
      CompStickX_def CompStickY_def)

section \<open>Debouncing\<close>

text \<open>Updates of one boolean component: the time and the value. The transitions handed on are those that
  change what the runtime sees.\<close>

type_synonym boolean_update = "u64 \<times> bool"

definition boolean_step :: "serial_answers \<Rightarrow> u64 \<Rightarrow> boolean_update \<Rightarrow> health_driver \<times> boolean_update list
    \<Rightarrow> health_driver \<times> boolean_update list" where
  "boolean_step ans h u x =
     (case DetourUpdateBooleanComponent ans (fst u) h (snd u) (fst x) of
        (Some v, d) \<Rightarrow> (d, snd x @ [(fst u, v)])
      | (None, d) \<Rightarrow> (d, snd x))"

definition boolean_run :: "serial_answers \<Rightarrow> u64 \<Rightarrow> boolean_update list \<Rightarrow> health_driver \<Rightarrow> health_driver \<times> boolean_update list" where
  "boolean_run ans h us d = fold (boolean_step ans h) us (d, [])"

text \<open>The times at which a stream of updates changes value, from a released button.\<close>

fun changes :: "bool \<Rightarrow> boolean_update list \<Rightarrow> u64 list" where
  "changes v [] = []"
| "changes v (u # us) = (if snd u \<noteq> v then fst u # changes (snd u) us else changes v us)"

definition last_of :: "bool \<Rightarrow> boolean_update list \<Rightarrow> bool" where
  "last_of v us = (if us = [] then v else snd (last us))"

lemma changes_snoc: "changes v (us @ [u]) = changes v us @ (if snd u \<noteq> last_of v us then [fst u] else [])"
  by (induction us arbitrary: v) (auto simp: last_of_def)

text \<open>A learned debounce for the component.\<close>

definition debounced :: "u64 \<Rightarrow> u16 \<Rightarrow> health_driver \<Rightarrow> bool" where
  "debounced h db d \<longleftrightarrow> hd_armed d \<and> cfg_master_enabled (GetInputHealthConfig d) \<and> \<not> cfg_diagnostics_only (GetInputHealthConfig d)
     \<and> (\<exists>s e. hd_components d h = Some s \<and> cs_device_serial_hash s \<noteq> 0
        \<and> LookupInputHealthCompensation (cs_device_serial_hash s) (cs_path s) d = Some e
        \<and> ce_kind e = CompBoolean \<and> ce_debounce_us e = db)"

lemma observe_boolean_keeps [simp]:
  "cs_path (ObserveBooleanSample v now s) = cs_path s"
  "cs_device_serial_hash (ObserveBooleanSample v now s) = cs_device_serial_hash s"
  "cs_last_boolean (ObserveBooleanSample v now s) = cs_last_boolean s"
  "cs_last_committed_us (ObserveBooleanSample v now s) = cs_last_committed_us s"
  by (simp_all add: ObserveBooleanSample_def Let_def)

lemma commit_keeps [simp]:
  "cs_path (commit_boolean w v now s) = cs_path s" "cs_device_serial_hash (commit_boolean w v now s) = cs_device_serial_hash s"
  by (simp_all add: commit_boolean_def Let_def)

text \<open>One update of a debounced component: it is swallowed when it would change the value too soon.\<close>

lemma debounced_update:
  assumes "debounced h db d" "hd_components d h = Some s"
    and "soon \<longleftrightarrow> db \<noteq> 0 \<and> v \<noteq> cs_last_boolean s \<and> cs_last_committed_us s \<noteq> 0 \<and> now - cs_last_committed_us s < ucast db"
  shows "\<exists>s'. DetourUpdateBooleanComponent ans now h v d =
      (if soon then None else Some v, d\<lparr>hd_components := (hd_components d)(h \<mapsto> s')\<rparr>)
    \<and> debounced h db (d\<lparr>hd_components := (hd_components d)(h \<mapsto> s')\<rparr>)
    \<and> cs_last_boolean s' = (if soon then cs_last_boolean s else v)
    \<and> cs_last_committed_us s' = (if \<not> soon \<and> v \<noteq> cs_last_boolean s then now else cs_last_committed_us s)"
proof -
  obtain e where e: "hd_armed d" "cfg_master_enabled (GetInputHealthConfig d)" "\<not> cfg_diagnostics_only (GetInputHealthConfig d)"
    "cs_device_serial_hash s \<noteq> 0" "LookupInputHealthCompensation (cs_device_serial_hash s) (cs_path s) d = Some e"
    "ce_kind e = CompBoolean" "ce_debounce_us e = db"
    using assms(1,2) by (auto simp: debounced_def)
  let ?o = "ObserveBooleanSample v now s"
  let ?s = "commit_boolean soon v now ?o"
  have r: "resolve_late ans now ?o = ?o" using e(4) by (simp add: resolve_late_def)
  have w: "ShouldSwallowBooleanUpdate ?o e v now = soon"
    using assms(3) e(6,7) by (simp add: ShouldSwallowBooleanUpdate_def)
  have "DetourUpdateBooleanComponent ans now h v d = (if soon then None else Some v, d\<lparr>hd_components := (hd_components d)(h \<mapsto> ?s)\<rparr>)"
    using e assms(2) w by (simp add: DetourUpdateBooleanComponent_def r Let_def)
  moreover have "debounced h db (d\<lparr>hd_components := (hd_components d)(h \<mapsto> ?s)\<rparr>)"
    using e by (simp add: debounced_def GetInputHealthConfig_def)
  moreover have "cs_last_boolean ?s = (if soon then cs_last_boolean s else v)"
    "cs_last_committed_us ?s = (if \<not> soon \<and> v \<noteq> cs_last_boolean s then now else cs_last_committed_us s)"
    by (simp_all add: commit_boolean_def Let_def)
  ultimately show ?thesis by blast
qed

definition far_apart :: "u16 \<Rightarrow> u64 list \<Rightarrow> bool" where
  "far_apart db ts \<longleftrightarrow> successively (\<lambda>a b. ucast db \<le> b - a) ts"

lemma far_apart_snoc: "far_apart db (ts @ [t]) \<longleftrightarrow> far_apart db ts \<and> (ts \<noteq> [] \<longrightarrow> ucast db \<le> t - last ts)"
  by (auto simp: far_apart_def successively_append_iff)

text \<open>The state of a run: what was handed on, and what the component remembers of it.\<close>

definition run_ok :: "u64 \<Rightarrow> u16 \<Rightarrow> health_driver \<times> boolean_update list \<Rightarrow> bool" where
  "run_ok h db x \<longleftrightarrow> debounced h db (fst x) \<and> (\<exists>s. hd_components (fst x) h = Some s
     \<and> cs_last_boolean s = last_of False (snd x)
     \<and> cs_last_committed_us s = (if changes False (snd x) = [] then 0 else last (changes False (snd x)))
     \<and> far_apart db (changes False (snd x)) \<and> 0 \<notin> set (changes False (snd x)))"

lemma run_ok_step:
  assumes "run_ok h db x" "fst u \<noteq> 0"
  shows "run_ok h db (boolean_step ans h u x)"
proof -
  obtain d out where x: "x = (d, out)" by fastforce
  obtain t v where u: "u = (t, v)" by fastforce
  obtain s where s: "debounced h db d" "hd_components d h = Some s" "cs_last_boolean s = last_of False out"
    "cs_last_committed_us s = (if changes False out = [] then 0 else last (changes False out))"
    "far_apart db (changes False out)" "0 \<notin> set (changes False out)"
    using assms(1) by (auto simp: run_ok_def x)
  define soon where "soon \<longleftrightarrow> db \<noteq> 0 \<and> v \<noteq> cs_last_boolean s \<and> cs_last_committed_us s \<noteq> 0 \<and> t - cs_last_committed_us s < ucast db"
  obtain s' where s': "DetourUpdateBooleanComponent ans t h v d = (if soon then None else Some v, d\<lparr>hd_components := (hd_components d)(h \<mapsto> s')\<rparr>)"
    "debounced h db (d\<lparr>hd_components := (hd_components d)(h \<mapsto> s')\<rparr>)"
    "cs_last_boolean s' = (if soon then cs_last_boolean s else v)"
    "cs_last_committed_us s' = (if \<not> soon \<and> v \<noteq> cs_last_boolean s then t else cs_last_committed_us s)"
    using debounced_update [OF s(1,2) soon_def] by blast
  have c: "cs_last_committed_us s \<noteq> 0 \<longleftrightarrow> changes False out \<noteq> []"
    using s(4,6) by (auto dest: last_in_set)
  have "ucast db \<le> t - last (changes False out)" if "\<not> soon" "v \<noteq> cs_last_boolean s" "changes False out \<noteq> []"
    using that c s(4) by (cases "db = 0") (auto simp: soon_def not_less)
  then show ?thesis
    using s s' assms(2)
    by (auto simp: run_ok_def x u boolean_step_def changes_snoc far_apart_snoc last_of_def)
qed

text \<open>C9: A debounced button never chatters. Over any updates of a boolean component for which a debounce time
  was learned, from a released button on, what the runtime was handed last is what the component remembers
  as its state, and any two successive changes of the value that were handed on lie at least the debounce
  time apart; an update that changes nothing, or that comes later than the debounce time, is handed on.
\<close>

theorem debounce_spacing:
  assumes "debounced h db d" and "hd_components d h = Some s"
    and "\<not> cs_last_boolean s" and "cs_last_committed_us s = 0"
    and "\<forall>u\<in>set us. fst u \<noteq> 0" and "boolean_run ans h us d = (d', out)"
  shows "(\<exists>s'. hd_components d' h = Some s' \<and> cs_last_boolean s' = last_of False out)
     \<and> successively (\<lambda>a b. ucast db \<le> b - a) (changes False out)
     \<and> (\<forall>t v. fst (DetourUpdateBooleanComponent ans t h v d') = None \<longrightarrow>
          v \<noteq> last_of False out \<and> changes False out \<noteq> [] \<and> t - last (changes False out) < ucast db)"
proof -
  have "run_ok h db (fold (boolean_step ans h) us x)" if "run_ok h db x" "\<forall>u\<in>set us. fst u \<noteq> 0" for x us
    using that by (induction us arbitrary: x) (auto simp: run_ok_step)
  moreover have "run_ok h db (d, [])" using assms(1-4) by (simp add: run_ok_def last_of_def far_apart_def)
  ultimately have "run_ok h db (d', out)" using assms(5,6) unfolding boolean_run_def by metis
  then obtain s' where s': "debounced h db d'" "hd_components d' h = Some s'" "cs_last_boolean s' = last_of False out"
    "cs_last_committed_us s' = (if changes False out = [] then 0 else last (changes False out))"
    "far_apart db (changes False out)"
    by (auto simp: run_ok_def)
  have "v \<noteq> last_of False out \<and> changes False out \<noteq> [] \<and> t - last (changes False out) < ucast db"
    if "fst (DetourUpdateBooleanComponent ans t h v d') = None" for t v
    using debounced_update [OF s'(1,2) refl, of ans t v] that s'(3,4) by (auto split: if_splits)
  then show ?thesis using s'(2,3,5) by (auto simp: far_apart_def)
qed

text \<open>A debounced button and its updates.\<close>

definition one_button :: health_driver where
  "one_button = SetInputHealthConfig \<lparr>cfg_master_enabled = True, cfg_diagnostics_only = False, cfg_enable_rest_recenter = True,
       cfg_enable_trigger_remap = True, cfg_reserved = 0\<rparr>
     \<lparr>hd_armed = True, hd_cfg = 0,
      hd_comp = [7 \<mapsto> [''/input/a/click'' \<mapsto> \<lparr>ce_device_serial_hash = 7, ce_path = ''/input/a/click'', ce_kind = CompBoolean,
        ce_enabled = 1, ce_rest_offset = 0, ce_trigger_min = 0, ce_trigger_max = 0, ce_deadzone_radius = 0, ce_debounce_us = 5000\<rparr>]],
      hd_components = [3 \<mapsto> ComponentStats_init\<lparr>cs_path := ''/input/a/click'', cs_is_boolean := True, cs_device_serial_hash := 7\<rparr>]\<rparr>"

lemma one_button_debounced:
  "debounced 3 5000 one_button" "\<exists>s. hd_components one_button 3 = Some s \<and> \<not> cs_last_boolean s \<and> cs_last_committed_us s = 0"
  by (simp_all add: debounced_def one_button_def GetInputHealthConfig_def SetInputHealthConfig_def UnpackInputHealthConfig_Pack
      ComponentStats_init_def LookupInputHealthCompensation_def)

theorem debounce_spacing_witness:
  "successively (\<lambda>a b. ucast (5000 :: u16) \<le> b - a)
     (changes False (snd (boolean_run (\<lambda>_. None) 3 [(1, True), (2000, False), (9000, False)] one_button)))"
proof -
  obtain d' out where r: "boolean_run (\<lambda>_. None) 3 [(1, True), (2000, False), (9000, False)] one_button = (d', out)" by fastforce
  from one_button_debounced(2) obtain s where "hd_components one_button 3 = Some s" "\<not> cs_last_boolean s" "cs_last_committed_us s = 0"
    by blast
  from debounce_spacing [OF one_button_debounced(1) this _ r] show ?thesis by (simp add: r)
qed

text \<open>
  The suppressed edge is not replayed: when a press is followed by a release within the debounce time and
  the device reports changes only, the button stays pressed for the runtime until the next update.
\<close>

lemma quick_release_lost:
  assumes "debounced h db d" "hd_components d h = Some s" "\<not> cs_last_boolean s" "cs_last_committed_us s = 0"
    and "t \<noteq> 0" "t' - t < ucast db"
  shows "snd (boolean_run ans h [(t, True), (t', False)] d) = [(t, True)]"
proof -
  obtain s1 where s1: "DetourUpdateBooleanComponent ans t h True d = (Some True, d\<lparr>hd_components := (hd_components d)(h \<mapsto> s1)\<rparr>)"
    "debounced h db (d\<lparr>hd_components := (hd_components d)(h \<mapsto> s1)\<rparr>)" "cs_last_boolean s1" "cs_last_committed_us s1 = t"
    using debounced_update [OF assms(1,2) refl, of ans t True] assms(3,4) by auto
  let ?d = "d\<lparr>hd_components := (hd_components d)(h \<mapsto> s1)\<rparr>"
  have "db \<noteq> 0" using assms(6) by auto
  then obtain s2 where "DetourUpdateBooleanComponent ans t' h False ?d = (None, ?d\<lparr>hd_components := (hd_components ?d)(h \<mapsto> s2)\<rparr>)"
    using debounced_update [OF s1(2) _ refl, of s1 ans t' False] s1(3,4) assms(5,6) by auto
  then show ?thesis using s1(1) by (simp add: boolean_run_def boolean_step_def)
qed

section \<open>Pairing and reset\<close>

text \<open>Registering the two axes of a stick on one device pairs them.\<close>

lemma axes_paired:
  assumes "ClassifyAxisRole px = (StickX, stem)" "ClassifyAxisRole py = (StickY, stem)" "hx \<noteq> hy" "hx \<noteq> 0" "hy \<noteq> 0"
    and "m' = RegisterScalarComponent ans [hy, hx] hy c py ty uy (RegisterScalarComponent ans [hx] hx c px tx ux Map.empty)"
  shows "map_option cs_partner_handle (m' hx) = Some hy" "map_option cs_partner_handle (m' hy) = Some hx"
  using assms by (simp_all add: RegisterScalarComponent_def FindStickPartner_def is_partner_def upd_comp_def Let_def)

text \<open>A reset clears the history of the components of the device named, of all for device 0, and leaves
  every other component as it is but for a serial number found on the way.\<close>

lemma reset_component_other: "fst sn \<noteq> h \<Longrightarrow> reset_component req sn m h = m h"
  by (auto simp: reset_component_def Let_def split: prod.splits option.splits)

lemma reset_component_cong: "m h = m' h \<Longrightarrow> reset_component req (h, x) m h = reset_component req (h, x) m' h"
  by (cases "m' h") (simp_all add: reset_component_def Let_def)

lemma reset_components:
  assumes "distinct (map fst sns)" "(h, hash) \<in> set sns" "m h = Some s"
  shows "fold (reset_component req) sns m h = reset_component req (h, hash) m h"
  using assms
proof (induction sns arbitrary: m)
  case (Cons sn sns)
  show ?case
  proof (cases "sn = (h, hash)")
    case True
    then have "h \<notin> fst ` set sns" using Cons.prems(1) by simp
    then have "fold (reset_component req) sns m' h = m' h" for m'
      by (induction sns arbitrary: m') (auto simp: reset_component_other)
    then show ?thesis using True by simp
  next
    case False
    then have "fst sn \<noteq> h" using Cons.prems(1,2) by (force simp: image_iff)
    then have k: "reset_component req sn m h = m h" by (rule reset_component_other)
    have "reset_component req (h, hash) (reset_component req sn m) h = reset_component req (h, hash) m h"
      by (rule reset_component_cong) (rule k)
    then show ?thesis using Cons False k by simp
  qed
qed simp

end
