(* ===== verification/Learning.thy ===== *)
theory Learning
  imports HealthDriver
begin

text \<open>
  The learning engine of the overlay, \<open>modules/inputhealth/src/overlay/LearningEngine.cpp\<close>, and the part of
  the profile store it uses (\<open>Profiles.h\<close>, \<open>GetOrCreate\<close> of \<open>Profiles.cpp\<close>). The clocks, whether a profile could
  be written and whether an entry reached the driver are arguments; the entries that reached it are kept in
  order, so that the driver's table is the result of storing them.
\<close>

section \<open>Keys and kinds\<close>

definition hex_char :: "nat \<Rightarrow> char" where
  "hex_char n = ''0123456789abcdef'' ! n"

definition nibble :: "u64 \<Rightarrow> nat \<Rightarrow> nat" where
  "nibble w i = unat (take_bit 4 (drop_bit (4 * i) w))"

definition hex16 :: "u64 \<Rightarrow> string" where
  "hex16 w = map (\<lambda>i. hex_char (nibble w i)) (rev [0..<16])"

definition KeyFor :: "u64 \<Rightarrow> string \<Rightarrow> string" where
  "KeyFor serial_hash path = hex16 serial_hash @ '':'' @ path"

definition IsStickKind :: "byte \<Rightarrow> bool" where
  "IsStickKind kind \<longleftrightarrow> kind = CompStickX \<or> kind = CompStickY"

definition IsTriggerKind :: "byte \<Rightarrow> string \<Rightarrow> bool" where
  "IsTriggerKind kind path \<longleftrightarrow> kind = CompScalarSingle \<and> IsTriggerLikePath path"

definition KindForBody :: "health_body \<Rightarrow> byte" where
  "KindForBody b = (if hb_is_boolean b then CompBoolean
     else if hb_axis_role b = CompStickX then CompStickX
     else if hb_axis_role b = CompStickY then CompStickY
     else CompScalarSingle)"

definition KindString :: "byte \<Rightarrow> string" where
  "KindString kind = (if kind = CompStickX then ''stick_x'' else if kind = CompStickY then ''stick_y''
     else if kind = CompBoolean then ''boolean'' else ''scalar_single'')"

definition KindFromString :: "string \<Rightarrow> byte" where
  "KindFromString kind = (if kind = ''stick_x'' then CompStickX else if kind = ''stick_y'' then CompStickY
     else if kind = ''boolean'' then CompBoolean else CompScalarSingle)"

definition ReadyThreshold :: "byte \<Rightarrow> nat" where
  "ReadyThreshold kind = (if kind = CompBoolean then 500 else 1024)"

section \<open>State\<close>

record learned_record =
  lr_path :: string
  lr_kind :: string
  lr_sample_count :: nat
  lr_ready :: bool
  lr_rest_offset :: real
  lr_stddev :: real
  lr_trigger_min :: real
  lr_trigger_max :: real
  lr_deadzone_radius :: real
  lr_debounce_us :: u32
  lr_last_updated_unix :: u64
  lr_drift_shift_resets :: u32

record device_profile =
  dv_serial :: string
  dv_serial_hash :: u64
  dv_display_name :: string
  dv_enable_diagnostics_only :: bool
  dv_enable_rest_recenter :: bool
  dv_enable_trigger_remap :: bool
  dv_corrections_enabled :: bool
  dv_rest_recenter_migrated :: bool
  dv_learned_paths :: "learned_record list"

definition DeviceProfile_init :: device_profile where
  "DeviceProfile_init = \<lparr>dv_serial = [], dv_serial_hash = 0, dv_display_name = [], dv_enable_diagnostics_only = True,
     dv_enable_rest_recenter = True, dv_enable_trigger_remap = False, dv_corrections_enabled = True,
     dv_rest_recenter_migrated = False, dv_learned_paths = []\<rparr>"

definition LearnedPathRecord_init :: learned_record where
  "LearnedPathRecord_init = \<lparr>lr_path = [], lr_kind = [], lr_sample_count = 0, lr_ready = False, lr_rest_offset = 0,
     lr_stddev = 0, lr_trigger_min = 0, lr_trigger_max = 0, lr_deadzone_radius = 0, lr_debounce_us = 0,
     lr_last_updated_unix = 0, lr_drift_shift_resets = 0\<rparr>"

record path_state =
  ps_serial_hash :: u64
  ps_path :: string
  ps_kind :: byte
  ps_rest :: welford
  ps_rest_credit :: real
  ps_trigger_peak :: real
  ps_short_mean :: real
  ps_short_mean_initialized :: bool
  ps_last_press_count :: nat
  ps_last_press_time_us :: u64
  ps_inter_press_us :: "u64 list"
  ps_stable_rest :: rest_window
  ps_sample_count :: nat
  ps_ready :: bool
  ps_drift_shift_pending :: bool
  ps_drift_exceeded_since_us :: u64
  ps_drift_cooldown_until_us :: u64
  ps_last_persist_us :: u64
  ps_rest_offset :: real
  ps_stddev :: real
  ps_trigger_min :: real
  ps_trigger_max :: real
  ps_deadzone_radius :: real
  ps_debounce_us :: u32
  ps_last_updated_unix :: u64
  ps_drift_shift_resets :: u32

definition PathState_init :: path_state where
  "PathState_init = \<lparr>ps_serial_hash = 0, ps_path = [], ps_kind = CompScalarSingle, ps_rest = WelfordReset, ps_rest_credit = 0,
     ps_trigger_peak = 0, ps_short_mean = 0, ps_short_mean_initialized = False, ps_last_press_count = 0,
     ps_last_press_time_us = 0, ps_inter_press_us = [], ps_stable_rest = ResetStableRestWindow, ps_sample_count = 0,
     ps_ready = False, ps_drift_shift_pending = False, ps_drift_exceeded_since_us = 0, ps_drift_cooldown_until_us = 0,
     ps_last_persist_us = 0, ps_rest_offset = 0, ps_stddev = 0, ps_trigger_min = 0, ps_trigger_max = 0,
     ps_deadzone_radius = 0, ps_debounce_us = 0, ps_last_updated_unix = 0, ps_drift_shift_resets = 0\<rparr>"

record engine =
  le_rest_burst_active :: bool
  le_states :: "string \<rightharpoonup> path_state"
  le_quiet_until :: "u64 \<rightharpoonup> u64"
  le_warned :: "string set"
  le_profiles :: "u64 \<rightharpoonup> device_profile"
  le_sent :: "comp_entry list"

text \<open>What the outside answers: the clock and the disk at a call of \<open>SyncProfile\<close>, and whether the entry of
  a push reached the driver.\<close>

record sync_env =
  se_now :: u64
  se_saved :: bool
  se_delivered :: bool

section \<open>Profiles and pushes\<close>

definition GetOrCreate :: "u64 \<Rightarrow> engine \<Rightarrow> device_profile \<times> engine" where
  "GetOrCreate serial_hash eng =
     (case le_profiles eng serial_hash of
        Some p \<Rightarrow> (p, eng)
      | None \<Rightarrow> let p = DeviceProfile_init\<lparr>dv_serial_hash := serial_hash\<rparr>
               in (p, eng\<lparr>le_profiles := (le_profiles eng)(serial_hash \<mapsto> p)\<rparr>))"

definition FindRecord :: "string \<Rightarrow> learned_record list \<Rightarrow> learned_record option" where
  "FindRecord path rs = find (\<lambda>r. lr_path r = path) rs"

definition state_of_record :: "learned_record \<Rightarrow> path_state \<Rightarrow> path_state" where
  "state_of_record r st =
     (let st = st\<lparr>ps_kind := KindFromString (lr_kind r), ps_sample_count := lr_sample_count r, ps_ready := lr_ready r,
                  ps_rest_offset := lr_rest_offset r, ps_stddev := lr_stddev r, ps_trigger_min := lr_trigger_min r,
                  ps_trigger_max := lr_trigger_max r, ps_deadzone_radius := lr_deadzone_radius r,
                  ps_debounce_us := lr_debounce_us r, ps_last_updated_unix := lr_last_updated_unix r,
                  ps_drift_shift_resets := lr_drift_shift_resets r\<rparr>
      in if lr_sample_count r > 1
         then st\<lparr>ps_rest := \<lparr>wf_count = lr_sample_count r, wf_mean = lr_rest_offset r,
                  wf_m2 = lr_stddev r * lr_stddev r * real (lr_sample_count r - 1)\<rparr>\<rparr>
         else st)"

definition StateFor :: "u64 \<Rightarrow> string \<Rightarrow> engine \<Rightarrow> path_state \<times> engine" where
  "StateFor serial_hash path eng =
     (let st = (case le_states eng (KeyFor serial_hash path) of Some st \<Rightarrow> st | None \<Rightarrow> PathState_init)
      in if ps_serial_hash st = 0
         then let st = st\<lparr>ps_serial_hash := serial_hash, ps_path := path\<rparr>;
                  (p, eng) = GetOrCreate serial_hash eng
              in ((case FindRecord path (dv_learned_paths p) of Some r \<Rightarrow> state_of_record r st | None \<Rightarrow> st), eng)
         else (st, eng))"

definition put_state :: "u64 \<Rightarrow> string \<Rightarrow> path_state \<Rightarrow> engine \<Rightarrow> engine" where
  "put_state serial_hash path st eng = eng\<lparr>le_states := (le_states eng)(KeyFor serial_hash path \<mapsto> st)\<rparr>"

definition record_of_state :: "path_state \<Rightarrow> learned_record \<Rightarrow> learned_record" where
  "record_of_state st r = r\<lparr>lr_kind := KindString (ps_kind st), lr_sample_count := ps_sample_count st, lr_ready := ps_ready st,
     lr_rest_offset := ps_rest_offset st, lr_stddev := ps_stddev st, lr_trigger_min := ps_trigger_min st,
     lr_trigger_max := ps_trigger_max st, lr_deadzone_radius := ps_deadzone_radius st, lr_debounce_us := ps_debounce_us st,
     lr_last_updated_unix := ps_last_updated_unix st, lr_drift_shift_resets := ps_drift_shift_resets st\<rparr>"

text \<open>The first record of the path is overwritten, or a new one appended.\<close>

fun put_record :: "path_state \<Rightarrow> learned_record list \<Rightarrow> learned_record list" where
  "put_record st [] = [record_of_state st (LearnedPathRecord_init\<lparr>lr_path := ps_path st\<rparr>)]"
| "put_record st (r # rs) = (if lr_path r = ps_path st then record_of_state st r # rs else r # put_record st rs)"

definition SyncProfile :: "sync_env \<Rightarrow> u64 \<Rightarrow> bool \<Rightarrow> path_state \<Rightarrow> engine \<Rightarrow> path_state \<times> engine" where
  "SyncProfile ev serial_hash immediate st eng =
     (if \<not> immediate \<and> ps_last_persist_us st \<noteq> 0 \<and> se_now ev - ps_last_persist_us st < 5000000 then (st, eng)
      else let (p, eng) = GetOrCreate serial_hash eng;
               p = p\<lparr>dv_learned_paths := put_record st (dv_learned_paths p)\<rparr>;
               eng = eng\<lparr>le_profiles := (le_profiles eng)(serial_hash \<mapsto> p)\<rparr>
           in (if se_saved ev then st\<lparr>ps_last_persist_us := se_now ev\<rparr> else st, eng))"

definition CopyPath :: "string \<Rightarrow> string" where
  "CopyPath path = (let p = take (INPUTHEALTH_PATH_LEN - 1) path in p @ replicate (INPUTHEALTH_PATH_LEN - length p) (CHR 0x00))"

definition entry_of :: "u64 \<Rightarrow> path_state \<Rightarrow> bool \<Rightarrow> comp_entry" where
  "entry_of serial_hash st enabled = \<lparr>ce_device_serial_hash = serial_hash, ce_path = CopyPath (ps_path st),
     ce_kind = ps_kind st, ce_enabled = (if enabled then 1 else 0), ce_rest_offset = ps_rest_offset st,
     ce_trigger_min = ps_trigger_min st, ce_trigger_max = ps_trigger_max st, ce_deadzone_radius = ps_deadzone_radius st,
     ce_debounce_us = ucast (min 65535 (ps_debounce_us st))\<rparr>"

definition PushCompensation :: "bool \<Rightarrow> u64 \<Rightarrow> path_state \<Rightarrow> bool \<Rightarrow> engine \<Rightarrow> engine" where
  "PushCompensation delivered serial_hash st enabled eng =
     (if \<not> delivered then eng
      else let actual = (enabled \<and> (case le_profiles eng serial_hash of Some p \<Rightarrow> dv_corrections_enabled p | None \<Rightarrow> True))
           in eng\<lparr>le_sent := le_sent eng @ [entry_of serial_hash st actual]\<rparr>)"

definition sync_and_push :: "sync_env \<Rightarrow> u64 \<Rightarrow> bool \<Rightarrow> bool \<Rightarrow> path_state \<Rightarrow> engine \<Rightarrow> path_state \<times> engine" where
  "sync_and_push ev serial_hash immediate enabled st eng =
     (let (st, eng) = SyncProfile ev serial_hash immediate st eng
      in (st, PushCompensation (se_delivered ev) serial_hash st enabled eng))"

section \<open>Buttons\<close>

record tick_env =
  te_unix :: u64
  te_first :: sync_env
  te_second :: sync_env

definition learn_bounce :: "tick_env \<Rightarrow> string \<Rightarrow> health_body \<Rightarrow> path_state \<times> engine \<Rightarrow> path_state \<times> engine" where
  "learn_bounce ev path b se =
     (let (st, eng) = se;
          learned = DebounceFromBounceInterval (hb_bounce_max_interval_us b)
      in if \<not> IsSystemButtonPath path \<and> hb_bounce_transition_count b \<ge> kButtonBounceReadyTransitions
            \<and> hb_bounce_max_interval_us b > 0 \<and> (\<not> ps_ready st \<or> learned > ps_debounce_us st)
         then let st = st\<lparr>ps_debounce_us := learned, ps_ready := True, ps_last_updated_unix := te_unix ev,
                        ps_sample_count := max (ps_sample_count st) (max (hb_press_count b) (hb_bounce_transition_count b))\<rparr>
              in sync_and_push (te_first ev) (hb_device_serial_hash b) True True st eng
         else (st, eng))"

text \<open>The first percentile of the intervals between presses, within 1 to 20 milliseconds.\<close>

definition press_debounce :: "u64 list \<Rightarrow> u64" where
  "press_debounce xs =
     (let samples = sort xs;
          idx = (if length samples > 1 then nat \<lfloor>real (length samples - 1) * (1 / 100)\<rfloor> else 0)
      in max 1000 (min 20000 (samples ! idx)))"

definition note_press :: "u64 \<Rightarrow> health_body \<Rightarrow> path_state \<Rightarrow> path_state" where
  "note_press now b st =
     (let st = (if ps_last_press_time_us st \<noteq> 0
                then let xs = (if length (ps_inter_press_us st) \<ge> 1024 then tl (ps_inter_press_us st) else ps_inter_press_us st)
                     in st\<lparr>ps_inter_press_us := xs @ [now - ps_last_press_time_us st]\<rparr>
                else st)
      in st\<lparr>ps_last_press_time_us := now, ps_last_press_count := hb_press_count b,
            ps_sample_count := max (ps_sample_count st) (hb_press_count b)\<rparr>)"

definition learn_press :: "u64 \<Rightarrow> tick_env \<Rightarrow> health_body \<Rightarrow> path_state \<times> engine \<Rightarrow> path_state \<times> engine" where
  "learn_press now ev b se =
     (let (st, eng) = se
      in if hb_press_count b > ps_last_press_count st
         then let st = note_press now b st;
                  eng = eng\<lparr>le_quiet_until := (le_quiet_until eng)(hb_device_serial_hash b \<mapsto> now + 500000)\<rparr>
              in if \<not> ps_ready st \<and> ps_sample_count st \<ge> ReadyThreshold (ps_kind st) \<and> ps_inter_press_us st \<noteq> []
                 then let st = st\<lparr>ps_debounce_us := ucast (press_debounce (ps_inter_press_us st)), ps_ready := True,
                               ps_last_updated_unix := te_unix ev\<rparr>
                      in sync_and_push (te_second ev) (hb_device_serial_hash b) True True st eng
                 else SyncProfile (te_second ev) (hb_device_serial_hash b) False st eng
         else (st, eng))"

definition tick_boolean :: "u64 \<Rightarrow> tick_env \<Rightarrow> health_body \<Rightarrow> engine \<Rightarrow> engine" where
  "tick_boolean now ev b eng =
     (let path = PathFromSnapshotBody b; cls = ClassifyInputPath path
      in if \<not> hb_is_boolean b \<or> hb_device_serial_hash b = 0 \<or> path = [] then eng
         else if cls = Unsupported then eng\<lparr>le_warned := insert path (le_warned eng)\<rparr>
         else if \<not> IsCompensationPath cls then eng
         else let (st, eng) = StateFor (hb_device_serial_hash b) path eng;
                  (st, eng) = learn_press now ev b (learn_bounce ev path b (st\<lparr>ps_kind := CompBoolean\<rparr>, eng))
              in put_state (hb_device_serial_hash b) path st eng)"

section \<open>Scalars\<close>

definition note_peak :: "health_body \<Rightarrow> path_state \<Rightarrow> path_state" where
  "note_peak b st =
     (let st = st\<lparr>ps_trigger_peak := max (ps_trigger_peak st) (hb_last_value b)\<rparr>
      in if hb_scalar_range_initialized b then st\<lparr>ps_trigger_peak := max (ps_trigger_peak st) (hb_observed_max b)\<rparr> else st)"

definition at_rest :: "u64 \<Rightarrow> bool \<Rightarrow> (u64 \<Rightarrow> real option) \<Rightarrow> bool \<Rightarrow> bool \<Rightarrow> health_body \<Rightarrow> path_state \<Rightarrow> bool \<times> path_state" where
  "at_rest now quiet values isStick isTrigger b st =
     (let v = hb_last_value b
      in if isStick
         then case values (hb_partner_handle b) of
                Some pv \<Rightarrow>
                  let (stable, w) = UpdateStableRestWindow (IsStableStickRestCandidate v pv quiet) v pv now (ps_stable_rest st)
                  in (IsStrictStickRest v pv quiet \<or> stable, st\<lparr>ps_stable_rest := w\<rparr>)
              | None \<Rightarrow> (False, st\<lparr>ps_stable_rest := ResetStableRestWindow\<rparr>)
         else if isTrigger
         then let (stable, w) = UpdateStableRestWindow (IsStableTriggerRestCandidate v quiet) v 0 now (ps_stable_rest st)
              in (IsStrictTriggerRest v \<or> stable, st\<lparr>ps_stable_rest := w\<rparr>)
         else (\<bar>v\<bar> < 5 / 100 \<and> quiet, st))"

function spend_credit :: "real \<Rightarrow> real \<Rightarrow> welford \<Rightarrow> real \<times> welford" where
  "spend_credit v credit w = (if credit \<ge> 1 then spend_credit v (credit - 1) (WelfordUpdate v w) else (credit, w))"
  by pat_completeness auto
termination
  by (relation "measure (\<lambda>(v, credit, w). nat \<lfloor>credit\<rfloor>)") (auto simp: floor_diff_one)

declare spend_credit.simps [simp del]

definition learn_rest :: "bool \<Rightarrow> real \<Rightarrow> path_state \<Rightarrow> path_state" where
  "learn_rest burst v st =
     (let (credit, w) = spend_credit v (ps_rest_credit st + (if burst then 1 else 1 / 2)) (ps_rest st);
          st = st\<lparr>ps_rest_credit := credit, ps_rest := w, ps_sample_count := wf_count w\<rparr>
      in if \<not> ps_short_mean_initialized st then st\<lparr>ps_short_mean := v, ps_short_mean_initialized := True\<rparr>
         else st\<lparr>ps_short_mean := ps_short_mean st + 5 / 100 * (v - ps_short_mean st)\<rparr>)"

definition forget :: "u64 \<Rightarrow> u64 \<Rightarrow> path_state \<Rightarrow> path_state" where
  "forget now unix st = st\<lparr>ps_ready := False, ps_drift_shift_pending := True, ps_drift_exceeded_since_us := 0,
     ps_drift_cooldown_until_us := now + 60000000, ps_drift_shift_resets := ps_drift_shift_resets st + 1,
     ps_sample_count := 0, ps_rest_credit := 0, ps_rest := WelfordReset, ps_short_mean_initialized := False,
     ps_rest_offset := 0, ps_stddev := 0, ps_trigger_min := 0, ps_trigger_max := 0, ps_deadzone_radius := 0,
     ps_debounce_us := 0, ps_last_updated_unix := unix\<rparr>"

definition check_drift :: "u64 \<Rightarrow> tick_env \<Rightarrow> u64 \<Rightarrow> path_state \<times> engine \<Rightarrow> path_state \<times> engine" where
  "check_drift now ev serial_hash se =
     (let (st, eng) = se; gate = 3 * max (1 / 1000) (ps_stddev st)
      in if now \<ge> ps_drift_cooldown_until_us st \<and> \<bar>ps_short_mean st - ps_rest_offset st\<bar> > gate
         then let st = (if ps_drift_exceeded_since_us st = 0 then st\<lparr>ps_drift_exceeded_since_us := now\<rparr> else st)
              in if now - ps_drift_exceeded_since_us st \<ge> 10000000
                 then sync_and_push (te_first ev) serial_hash True False (forget now (te_unix ev) st) eng
                 else (st, eng)
         else (st\<lparr>ps_drift_exceeded_since_us := 0, ps_drift_shift_pending := False\<rparr>, eng))"

definition ClampDouble :: "real \<Rightarrow> real \<Rightarrow> real \<Rightarrow> real" where
  "ClampDouble v lo hi = max lo (min v hi)"

definition adopt :: "u64 \<Rightarrow> bool \<Rightarrow> bool \<Rightarrow> path_state \<Rightarrow> path_state" where
  "adopt unix isTrigger isStick st =
     (let stddev = SampleStdDev (ps_rest st);
          st = st\<lparr>ps_ready := True, ps_drift_shift_pending := False, ps_rest_offset := wf_mean (ps_rest st), ps_stddev := stddev\<rparr>;
          st = (if isTrigger then st\<lparr>ps_trigger_min := ClampDouble (wf_mean (ps_rest st)) 0 (10 / 100),
                    ps_trigger_max := (if ps_trigger_peak st > 10 / 100 then ps_trigger_peak st else 1)\<rparr> else st);
          st = (if isStick then st\<lparr>ps_deadzone_radius := ClampDouble (stddev * 3) (1 / 100) (8 / 100)\<rparr> else st)
      in st\<lparr>ps_last_updated_unix := unix\<rparr>)"

definition check_ready :: "tick_env \<Rightarrow> u64 \<Rightarrow> bool \<Rightarrow> bool \<Rightarrow> path_state \<times> engine \<Rightarrow> path_state \<times> engine" where
  "check_ready ev serial_hash isTrigger isStick se =
     (let (st, eng) = se; limit = (if isTrigger then 5 / 100 else 2 / 100)
      in if wf_count (ps_rest st) \<ge> ReadyThreshold (ps_kind st) \<and> SampleStdDev (ps_rest st) < limit
         then sync_and_push (te_first ev) serial_hash (\<not> ps_ready st) True (adopt (te_unix ev) isTrigger isStick st) eng
         else SyncProfile (te_first ev) serial_hash False st eng)"

definition learn_scalar :: "u64 \<Rightarrow> tick_env \<Rightarrow> (u64 \<Rightarrow> real option) \<Rightarrow> string \<Rightarrow> health_body \<Rightarrow> path_state \<times> engine \<Rightarrow> path_state \<times> engine" where
  "learn_scalar now ev values path b se =
     (let (st, eng) = se;
          isTrigger = IsTriggerKind (ps_kind st) path; isStick = IsStickKind (ps_kind st)
      in if \<not> ScalarMetadataAllowsLearning (ClassifyInputPath path) path (ps_kind st) (hb_scalar_type b) (hb_scalar_units b)
         then (st, eng)
         else let st = (if isTrigger then note_peak b st else st);
                  quiet = (case le_quiet_until eng (hb_device_serial_hash b) of None \<Rightarrow> True | Some t \<Rightarrow> now \<ge> t);
                  (rest, st) = at_rest now quiet values isStick isTrigger b st
              in if \<not> rest then (st, eng)
                 else let st = learn_rest (le_rest_burst_active eng) (hb_last_value b) st
                      in if ps_ready st then check_drift now ev (hb_device_serial_hash b) (st, eng)
                         else check_ready ev (hb_device_serial_hash b) isTrigger isStick (st, eng))"

definition tick_scalar :: "u64 \<Rightarrow> (u64 \<Rightarrow> real option) \<Rightarrow> tick_env \<Rightarrow> health_body \<Rightarrow> engine \<Rightarrow> engine" where
  "tick_scalar now values ev b eng =
     (let path = PathFromSnapshotBody b; cls = ClassifyInputPath path
      in if \<not> hb_is_scalar b \<or> hb_device_serial_hash b = 0 \<or> path = [] then eng
         else if cls = Unsupported then eng\<lparr>le_warned := insert path (le_warned eng)\<rparr>
         else if \<not> IsCompensationPath cls then eng
         else let (st, eng) = StateFor (hb_device_serial_hash b) path eng;
                  (st, eng) = learn_scalar now ev values path b (st\<lparr>ps_kind := KindForBody b\<rparr>, eng)
              in put_state (hb_device_serial_hash b) path st eng)"

section \<open>Operations\<close>

text \<open>The entries in the order in which the two passes walk the hash map, each with what the outside
  answers to it.\<close>

definition Engine_Tick :: "u64 \<Rightarrow> (health_body \<times> tick_env \<times> tick_env) list \<Rightarrow> engine \<Rightarrow> engine" where
  "Engine_Tick now entries eng =
     (let values = map_of (map (\<lambda>(b, _). (hb_handle b, hb_last_value b)) entries);
          eng = fold (\<lambda>(b, ev, _). tick_boolean now ev b) entries eng
      in fold (\<lambda>(b, _, ev). tick_scalar now values ev b) entries eng)"

definition SetRestBurstActive :: "bool \<Rightarrow> engine \<Rightarrow> engine" where
  "SetRestBurstActive active eng = eng\<lparr>le_rest_burst_active := active\<rparr>"

definition pushed_state :: "learned_record \<Rightarrow> u64 \<Rightarrow> path_state" where
  "pushed_state r serial_hash = PathState_init\<lparr>ps_serial_hash := serial_hash, ps_path := lr_path r,
     ps_kind := KindFromString (lr_kind r), ps_ready := lr_ready r, ps_rest_offset := lr_rest_offset r,
     ps_stddev := lr_stddev r, ps_trigger_min := lr_trigger_min r, ps_trigger_max := lr_trigger_max r,
     ps_deadzone_radius := lr_deadzone_radius r, ps_debounce_us := lr_debounce_us r\<rparr>"

definition SetDeviceCorrectionsEnabled :: "bool \<Rightarrow> u64 \<Rightarrow> bool \<Rightarrow> engine \<Rightarrow> engine" where
  "SetDeviceCorrectionsEnabled delivered serial_hash enabled eng =
     (if serial_hash = 0 then eng
      else let (p, eng) = GetOrCreate serial_hash eng
           in if dv_corrections_enabled p = enabled then eng
              else let p = p\<lparr>dv_corrections_enabled := enabled\<rparr>;
                       eng = eng\<lparr>le_profiles := (le_profiles eng)(serial_hash \<mapsto> p)\<rparr>
                   in fold (\<lambda>r eng. if enabled \<and> \<not> lr_ready r then eng
                              else PushCompensation delivered (dv_serial_hash p) (pushed_state r (dv_serial_hash p)) (enabled \<and> lr_ready r) eng)
                        (dv_learned_paths p) eng)"

definition push_ready :: "bool \<Rightarrow> device_profile \<Rightarrow> engine \<Rightarrow> engine" where
  "push_ready delivered p eng =
     (if \<not> dv_corrections_enabled p then eng
      else fold (\<lambda>r eng. if \<not> lr_ready r then eng
             else PushCompensation delivered (dv_serial_hash p) (pushed_state r (dv_serial_hash p)) True eng) (dv_learned_paths p) eng)"

definition PushReadyCompensations :: "bool \<Rightarrow> u64 list \<Rightarrow> engine \<Rightarrow> engine" where
  "PushReadyCompensations delivered order eng =
     fold (\<lambda>h eng'. case le_profiles eng h of Some p \<Rightarrow> push_ready delivered p eng' | None \<Rightarrow> eng') order eng"

definition UnlearnPath :: "bool \<Rightarrow> u64 \<Rightarrow> string \<Rightarrow> engine \<Rightarrow> engine" where
  "UnlearnPath delivered serial_hash path eng =
     (if serial_hash = 0 \<or> path = [] then eng
      else let (p, eng) = GetOrCreate serial_hash eng;
               gone = filter (\<lambda>r. lr_path r = path) (dv_learned_paths p);
               st = PathState_init\<lparr>ps_serial_hash := serial_hash, ps_path := path\<rparr>;
               st = (if gone = [] then st else st\<lparr>ps_kind := KindFromString (lr_kind (last gone))\<rparr>);
               p = p\<lparr>dv_learned_paths := filter (\<lambda>r. lr_path r \<noteq> path) (dv_learned_paths p)\<rparr>;
               eng = eng\<lparr>le_profiles := (le_profiles eng)(serial_hash \<mapsto> p),
                         le_states := (le_states eng)(KeyFor serial_hash path := None)\<rparr>
           in PushCompensation delivered serial_hash st False eng)"

definition UnlearnDevice :: "bool \<Rightarrow> u64 \<Rightarrow> engine \<Rightarrow> engine" where
  "UnlearnDevice delivered serial_hash eng =
     (if serial_hash = 0 then eng
      else let (p, eng) = GetOrCreate serial_hash eng;
               eng = fold (\<lambda>r eng. PushCompensation delivered serial_hash
                        (PathState_init\<lparr>ps_serial_hash := serial_hash, ps_path := lr_path r, ps_kind := KindFromString (lr_kind r)\<rparr>) False eng)
                      (dv_learned_paths p) eng;
               p = p\<lparr>dv_learned_paths := []\<rparr>
           in eng\<lparr>le_profiles := (le_profiles eng)(serial_hash \<mapsto> p),
                  le_states := (\<lambda>k. case le_states eng k of Some st \<Rightarrow> if ps_serial_hash st = serial_hash then None else Some st | None \<Rightarrow> None)\<rparr>)"

definition Engine_Flush :: "(string \<times> sync_env) list \<Rightarrow> engine \<Rightarrow> engine" where
  "Engine_Flush order eng =
     fold (\<lambda>(k, ev) eng. case le_states eng k of
              Some st \<Rightarrow> if ps_serial_hash st \<noteq> 0
                        then let (st, eng) = SyncProfile ev (ps_serial_hash st) True st eng
                             in eng\<lparr>le_states := (le_states eng)(k \<mapsto> st)\<rparr>
                        else eng
            | None \<Rightarrow> eng) order eng"

text \<open>What the driver knows: the entries that reached it, stored in order.\<close>

definition driver_of :: "engine \<Rightarrow> health_driver \<Rightarrow> health_driver" where
  "driver_of eng d = fold SetInputHealthCompensation (le_sent eng) d"

section \<open>Keys\<close>

lemma hex_char_inj: "m < 16 \<Longrightarrow> n < 16 \<Longrightarrow> hex_char m = hex_char n \<Longrightarrow> m = n"
  unfolding hex_char_def
  by (rule nth_eq_iff_index_eq [THEN iffD1, of "''0123456789abcdef''"]) simp_all

lemma nibble_less: "nibble w i < 16"
proof -
  have "nibble w i = take_bit 4 (unat (drop_bit (4 * i) w))" by (simp add: nibble_def unsigned_take_bit_eq)
  then show ?thesis using take_bit_nat_less_exp [of 4 "unat (drop_bit (4 * i) w)"] by simp
qed

lemma hex16_inj:
  assumes "hex16 v = hex16 w"
  shows "v = w"
proof (rule bit_word_eqI)
  fix n :: nat
  assume "n < LENGTH(64)"
  then have i: "n div 4 \<in> set (rev [0..<16])" by simp
  have "hex_char (nibble v (n div 4)) = hex_char (nibble w (n div 4))"
    using assms i unfolding hex16_def map_eq_conv by blast
  then have "nibble v (n div 4) = nibble w (n div 4)" using hex_char_inj nibble_less by blast
  then have "take_bit 4 (drop_bit (4 * (n div 4)) v) = take_bit 4 (drop_bit (4 * (n div 4)) w)"
    unfolding nibble_def by (rule word_unat_eq_iff [THEN iffD2])
  then have "bit (take_bit 4 (drop_bit (4 * (n div 4)) v)) (n mod 4) = bit (take_bit 4 (drop_bit (4 * (n div 4)) w)) (n mod 4)"
    by simp
  then show "bit v n = bit w n" by (simp add: bit_take_bit_iff bit_drop_bit_eq)
qed

lemma KeyFor_inj [simp]: "KeyFor h p = KeyFor g q \<longleftrightarrow> h = g \<and> p = q"
proof
  assume a: "KeyFor h p = KeyFor g q"
  have "length (hex16 h) = length (hex16 g)" by (simp add: hex16_def)
  then have "hex16 h = hex16 g \<and> p = q" using a by (simp add: KeyFor_def)
  then show "h = g \<and> p = q" using hex16_inj by blast
qed simp

end
