(* ===== verification/LearningSync.thy ===== *)
theory LearningSync
  imports Learning
begin

text \<open>
  The overlay and the driver agree: an invariant of all operations of the learning engine, composed with
  the compensation table of the driver that receives its entries. The driver compensates a path only while
  the profile of its device holds the path as learned and has its corrections on.
\<close>

section \<open>The driver mirrors the profiles\<close>

text \<open>The paths the engine handles fit the wire field.\<close>

definition path_ok :: "string \<Rightarrow> bool" where
  "path_ok q \<longleftrightarrow> length q < INPUTHEALTH_PATH_LEN \<and> CHR 0x00 \<notin> set q"

lemma takeWhile_pad: "c \<notin> set q \<Longrightarrow> takeWhile (\<lambda>x. x \<noteq> c) (q @ replicate n c) = q"
  by (induction q) (auto simp: takeWhile_replicate)

lemma path_roundtrip: "path_ok q \<Longrightarrow> InputHealthPathString (CopyPath q) = q"
proof -
  assume a: "path_ok q"
  then have "length q \<le> INPUTHEALTH_PATH_LEN - 1" by (simp add: path_ok_def INPUTHEALTH_PATH_LEN_def)
  then have "CopyPath q = q @ replicate (INPUTHEALTH_PATH_LEN - length q) (CHR 0x00)" by (simp add: CopyPath_def Let_def)
  then show ?thesis using a by (simp add: InputHealthPathString_def path_ok_def takeWhile_pad)
qed

lemma body_path_ok: "length (PathFromSnapshotBody b) < INPUTHEALTH_PATH_LEN \<Longrightarrow> path_ok (PathFromSnapshotBody b)"
  by (auto simp: path_ok_def PathFromSnapshotBody_def dest: set_takeWhileD)

text \<open>Whether a profile holds a path as ready, and has its corrections on.\<close>

definition ready_in :: "engine \<Rightarrow> u64 \<Rightarrow> string \<Rightarrow> bool" where
  "ready_in eng h q \<longleftrightarrow> (\<exists>p r. le_profiles eng h = Some p \<and> r \<in> set (dv_learned_paths p) \<and> lr_path r = q \<and> lr_ready r)"

definition corrected :: "engine \<Rightarrow> u64 \<Rightarrow> bool" where
  "corrected eng h \<longleftrightarrow> (\<exists>p. le_profiles eng h = Some p \<and> dv_corrections_enabled p)"

definition profile_ok :: "u64 \<Rightarrow> device_profile \<Rightarrow> bool" where
  "profile_ok h p \<longleftrightarrow> dv_serial_hash p = h \<and> distinct (map lr_path (dv_learned_paths p))
     \<and> (\<forall>r\<in>set (dv_learned_paths p). path_ok (lr_path r))"

definition profiles_ok :: "engine \<Rightarrow> bool" where
  "profiles_ok eng \<longleftrightarrow> (\<forall>h p. le_profiles eng h = Some p \<longrightarrow> profile_ok h p)"

definition state_ok :: "engine \<Rightarrow> u64 \<Rightarrow> string \<Rightarrow> path_state \<Rightarrow> bool" where
  "state_ok eng h q st \<longleftrightarrow> h \<noteq> 0 \<and> path_ok q \<and> ps_serial_hash st = h \<and> ps_path st = q \<and> (ready_in eng h q \<longleftrightarrow> ps_ready st)"

text \<open>The invariant; the paths in \<open>X\<close> are being worked on.\<close>

definition states_ok :: "(u64 \<times> string) set \<Rightarrow> engine \<Rightarrow> bool" where
  "states_ok X eng \<longleftrightarrow> (\<forall>k st. le_states eng k = Some st \<longrightarrow>
     (\<exists>h q. k = KeyFor h q \<and> ((h, q) \<notin> X \<longrightarrow> state_ok eng h q st)))"

definition table_ok :: "health_driver \<Rightarrow> (u64 \<times> string) set \<Rightarrow> engine \<Rightarrow> bool" where
  "table_ok d X eng \<longleftrightarrow> (\<forall>h q e. LookupInputHealthCompensation h q (driver_of eng d) = Some e \<longrightarrow>
     (h, q) \<notin> X \<longrightarrow> ready_in eng h q \<and> corrected eng h)"

definition engine_ok :: "health_driver \<Rightarrow> (u64 \<times> string) set \<Rightarrow> engine \<Rightarrow> bool" where
  "engine_ok d X eng \<longleftrightarrow> profiles_ok eng \<and> states_ok X eng \<and> table_ok d {} eng"

text \<open>Two engines whose profiles say the same.\<close>

definition same_readiness :: "(u64 \<times> string) set \<Rightarrow> engine \<Rightarrow> engine \<Rightarrow> bool" where
  "same_readiness X eng eng' \<longleftrightarrow> (\<forall>h q. (h, q) \<notin> X \<longrightarrow> ready_in eng' h q = ready_in eng h q)
     \<and> (\<forall>h. corrected eng h \<longrightarrow> corrected eng' h) \<and> le_states eng' = le_states eng \<and> le_sent eng' = le_sent eng"

lemma same_readiness_states: "states_ok X eng \<Longrightarrow> same_readiness X eng eng' \<Longrightarrow> states_ok X eng'"
  by (force simp: states_ok_def same_readiness_def state_ok_def)

lemma same_readiness_table: "table_ok d X eng \<Longrightarrow> same_readiness X eng eng' \<Longrightarrow> table_ok d X eng'"
  by (auto simp: table_ok_def same_readiness_def driver_of_def)

lemma GetOrCreate_ok:
  assumes "profiles_ok eng" "GetOrCreate h eng = (p, eng')"
  shows "profile_ok h p" "le_profiles eng' = (le_profiles eng)(h \<mapsto> p)" "profiles_ok eng'" "same_readiness {} eng eng'"
    "ready_in eng' g q \<longleftrightarrow> ready_in eng g q" "corrected eng' h \<longleftrightarrow> dv_corrections_enabled p"
proof -
  have n: "profile_ok h (DeviceProfile_init\<lparr>dv_serial_hash := h\<rparr>)" by (simp add: profile_ok_def DeviceProfile_init_def)
  show p: "profile_ok h p" using assms n by (auto simp: GetOrCreate_def profiles_ok_def Let_def split: option.splits)
  show l: "le_profiles eng' = (le_profiles eng)(h \<mapsto> p)"
    using assms(2) by (auto simp: GetOrCreate_def Let_def split: option.splits)
  show "profiles_ok eng'" using assms(1) p by (auto simp: profiles_ok_def l)
  show r: "ready_in eng' g q \<longleftrightarrow> ready_in eng g q" for g q
    using assms(2) by (auto simp: GetOrCreate_def ready_in_def DeviceProfile_init_def Let_def split: option.splits if_splits)
  show "same_readiness {} eng eng'"
    using assms(2) r by (auto simp: GetOrCreate_def same_readiness_def corrected_def Let_def split: option.splits)
  show "corrected eng' h \<longleftrightarrow> dv_corrections_enabled p" by (simp add: corrected_def l)
qed

text \<open>Writing a record.\<close>

lemma put_record_paths:
  "lr_path ` set (put_record st rs) = insert (ps_path st) (lr_path ` set rs)"
  "distinct (map lr_path rs) \<Longrightarrow> distinct (map lr_path (put_record st rs))"
proof -
  show p: "lr_path ` set (put_record st rs) = insert (ps_path st) (lr_path ` set rs)" for rs
    by (induction rs) (auto simp: record_of_state_def)
  show "distinct (map lr_path rs) \<Longrightarrow> distinct (map lr_path (put_record st rs))"
  proof (induction rs)
    case (Cons r rs)
    then show ?case using p [of rs] by (auto simp: record_of_state_def image_iff)
  qed (simp add: record_of_state_def)
qed

lemma put_record_ready:
  assumes "distinct (map lr_path rs)"
  shows "(\<exists>r\<in>set (put_record st rs). lr_path r = q \<and> lr_ready r) \<longleftrightarrow>
    (if q = ps_path st then ps_ready st else \<exists>r\<in>set rs. lr_path r = q \<and> lr_ready r)"
  using assms by (induction rs) (auto simp: record_of_state_def LearnedPathRecord_init_def image_iff)

lemma SyncProfile_ok:
  assumes "profiles_ok eng" "ps_path st = q" "path_ok q"
    and "SyncProfile ev h immediate st eng = (st', eng')"
    and "\<not> immediate \<longrightarrow> (ready_in eng h q \<longleftrightarrow> ps_ready st)"
  shows "profiles_ok eng'" "same_readiness {(h, q)} eng eng'" "ready_in eng' h q \<longleftrightarrow> ps_ready st"
    "ps_serial_hash st' = ps_serial_hash st" "ps_path st' = q" "ps_ready st' = ps_ready st"
    "immediate \<Longrightarrow> le_profiles eng' h \<noteq> None"
proof -
  show "ps_serial_hash st' = ps_serial_hash st" "ps_path st' = q" "ps_ready st' = ps_ready st"
    using assms(2,4) by (auto simp: SyncProfile_def Let_def split: if_splits prod.splits)
  obtain p e1 where g: "GetOrCreate h eng = (p, e1)" by fastforce
  note k = GetOrCreate_ok [OF assms(1) g]
  let ?p = "p\<lparr>dv_learned_paths := put_record st (dv_learned_paths p)\<rparr>"
  let ?e = "e1\<lparr>le_profiles := (le_profiles e1)(h \<mapsto> ?p)\<rparr>"
  have po: "profile_ok h ?p"
  proof -
    have "lr_path r = q \<or> lr_path r \<in> lr_path ` set (dv_learned_paths p)" if "r \<in> set (put_record st (dv_learned_paths p))" for r
      using imageI [OF that, of lr_path] put_record_paths(1) [where st = st and rs = "dv_learned_paths p"] assms(2) by auto
    then show ?thesis
      using k(1) assms(3) put_record_paths(2) [where st = st and rs = "dv_learned_paths p"]
      by (fastforce simp: profile_ok_def)
  qed
  have r: "ready_in ?e g q' \<longleftrightarrow> (if (g, q') = (h, q) then ps_ready st else ready_in eng g q')" for g q'
  proof (cases "g = h")
    case True
    have "ready_in e1 h q' \<longleftrightarrow> (\<exists>r\<in>set (dv_learned_paths p). lr_path r = q' \<and> lr_ready r)" by (auto simp: ready_in_def k(2))
    moreover have "ready_in ?e h q' \<longleftrightarrow> (\<exists>r\<in>set (put_record st (dv_learned_paths p)). lr_path r = q' \<and> lr_ready r)"
      by (auto simp: ready_in_def)
    ultimately show ?thesis
      using put_record_ready [of "dv_learned_paths p" st q'] k(1) k(5) [of h q'] assms(2) True by (simp add: profile_ok_def)
  next
    case False
    then show ?thesis using k(5) [of g q'] by (simp add: ready_in_def)
  qed
  have e: "profiles_ok ?e" "same_readiness {(h, q)} eng ?e" "ready_in ?e h q \<longleftrightarrow> ps_ready st"
    using k(3) po r k(4) by (auto simp: profiles_ok_def same_readiness_def corrected_def k(2))
  have "eng' = ?e \<or> \<not> immediate \<and> eng' = eng"
    using assms(4) by (auto simp: SyncProfile_def g Let_def split: if_splits)
  then show "profiles_ok eng'" "same_readiness {(h, q)} eng eng'" "ready_in eng' h q \<longleftrightarrow> ps_ready st"
    "immediate \<Longrightarrow> le_profiles eng' h \<noteq> None"
    using e assms(1,5) by (auto simp: same_readiness_def)
qed

text \<open>Pushing an entry: what a lookup finds afterwards.\<close>

definition sent_entry :: "engine \<Rightarrow> u64 \<Rightarrow> path_state \<Rightarrow> bool \<Rightarrow> comp_entry" where
  "sent_entry eng h st enabled = entry_of h st (enabled \<and> (case le_profiles eng h of Some p \<Rightarrow> dv_corrections_enabled p | None \<Rightarrow> True))"

lemma PushCompensation_lookup:
  assumes "path_ok (ps_path st)"
  shows "LookupInputHealthCompensation g q (driver_of (PushCompensation True h st enabled eng) d) =
    (if entry_ok (sent_entry eng h st enabled) \<and> (g, q) = (h, ps_path st)
     then if ce_enabled (sent_entry eng h st enabled) \<noteq> 0 then Some (sent_entry eng h st enabled) else None
     else LookupInputHealthCompensation g q (driver_of eng d))"
  using path_roundtrip [OF assms]
  by (simp add: PushCompensation_def driver_of_def lookup_set sent_entry_def entry_of_def Let_def)

lemma PushCompensation_fields [simp]:
  "le_profiles (PushCompensation dl h st en eng) = le_profiles eng" "le_states (PushCompensation dl h st en eng) = le_states eng"
  by (simp_all add: PushCompensation_def Let_def)

lemma readiness_fields [simp]:
  "ready_in (PushCompensation dl h st en eng) g q = ready_in eng g q" "corrected (PushCompensation dl h st en eng) g = corrected eng g"
  "profiles_ok (PushCompensation dl h st en eng) = profiles_ok eng" "states_ok X (PushCompensation dl h st en eng) = states_ok X eng"
  by (simp_all add: ready_in_def corrected_def profiles_ok_def states_ok_def state_ok_def)

text \<open>A path whose entry cannot be stored was never stored.\<close>

lemma lookup_storable:
  assumes "LookupInputHealthCompensation h q (driver_of eng d) = Some e" "LookupInputHealthCompensation h q d = None"
  shows "h \<noteq> 0 \<and> IsCompensationPath (ClassifyInputPath q)"
proof -
  have "h \<noteq> 0 \<and> IsCompensationPath (ClassifyInputPath q)"
    if "LookupInputHealthCompensation h q (fold SetInputHealthCompensation es d) = Some e" for es
    using that assms(2)
    by (induction es rule: rev_induct) (auto simp: lookup_set entry_ok_def split: if_splits)
  then show ?thesis using assms(1) by (simp add: driver_of_def)
qed

lemma push_table:
  assumes "table_ok d (insert (h, q) X) eng" "\<And>g p. LookupInputHealthCompensation g p d = None" "path_ok q" "ps_path st = q"
    and "enabled \<Longrightarrow> ready_in eng h q"
  shows "table_ok d X (PushCompensation True h st enabled eng)"
  unfolding table_ok_def
proof (intro allI impI)
  fix g p e
  let ?s = "sent_entry eng h st enabled"
  assume l: "LookupInputHealthCompensation g p (driver_of (PushCompensation True h st enabled eng) d) = Some e" and x: "(g, p) \<notin> X"
  show "ready_in (PushCompensation True h st enabled eng) g p \<and> corrected (PushCompensation True h st enabled eng) g"
  proof (cases "(g, p) = (h, q)")
    case False
    then have "LookupInputHealthCompensation g p (driver_of eng d) = Some e"
      using l PushCompensation_lookup [of st g p h enabled eng d] assms(3,4) by (auto split: if_splits)
    then show ?thesis using assms(1) False x by (auto simp: table_ok_def)
  next
    case True
    have "entry_ok ?s \<longleftrightarrow> h \<noteq> 0 \<and> q \<noteq> [] \<and> IsCompensationPath (ClassifyInputPath q)"
      using path_roundtrip [OF assms(3)] assms(4) by (simp add: entry_ok_def sent_entry_def entry_of_def)
    moreover have "h \<noteq> 0 \<and> IsCompensationPath (ClassifyInputPath q)"
      using lookup_storable [OF l assms(2)] True by simp
    moreover have "q \<noteq> []" using l True by (auto simp: LookupInputHealthCompensation_def)
    ultimately have "ce_enabled ?s \<noteq> 0"
      using l PushCompensation_lookup [of st g p h enabled eng d] assms(3,4) True by (auto split: if_splits)
    then have "enabled" "case le_profiles eng h of Some p \<Rightarrow> dv_corrections_enabled p | None \<Rightarrow> True"
      by (auto simp: sent_entry_def entry_of_def split: if_splits)
    then show ?thesis using assms(5) True by (auto simp: ready_in_def corrected_def)
  qed
qed

text \<open>A path that is being worked on: the state in hand and the engine.\<close>

definition working :: "health_driver \<Rightarrow> u64 \<Rightarrow> string \<Rightarrow> path_state \<times> engine \<Rightarrow> bool" where
  "working d h q se \<longleftrightarrow> state_ok (snd se) h q (fst se) \<and> engine_ok d {(h, q)} (snd se)"

definition empty_table :: "health_driver \<Rightarrow> bool" where
  "empty_table d \<longleftrightarrow> hd_comp d = Map.empty"

lemma empty_table_lookup [simp]: "empty_table d \<Longrightarrow> LookupInputHealthCompensation g p d = None"
  by (simp add: empty_table_def LookupInputHealthCompensation_def)

lemma working_state:
  assumes "working d h q (st, eng)" "ps_serial_hash st' = ps_serial_hash st" "ps_path st' = ps_path st" "ps_ready st' = ps_ready st"
  shows "working d h q (st', eng)"
  using assms by (simp add: working_def state_ok_def)

lemma working_quiet: "working d h q (st, eng\<lparr>le_quiet_until := x\<rparr>) = working d h q (st, eng)"
  by (simp add: working_def engine_ok_def state_ok_def ready_in_def profiles_ok_def states_ok_def table_ok_def corrected_def driver_of_def)

lemma working_sync_push:
  assumes "empty_table d" "working d h q (st, eng)" "ps_serial_hash st1 = h" "ps_path st1 = q" "ps_ready st1 = enabled" "se_delivered ev"
    and "sync_and_push ev h True enabled st1 eng = (st', eng')"
  shows "working d h q (st', eng')"
proof -
  obtain e1 where s: "SyncProfile ev h True st1 eng = (st', e1)" and e: "eng' = PushCompensation True h st' enabled e1"
    using assms(6,7) by (auto simp: sync_and_push_def split: prod.splits)
  have w: "profiles_ok eng" "states_ok {(h, q)} eng" "table_ok d {} eng" "path_ok q" "h \<noteq> 0"
    using assms(2) by (auto simp: working_def engine_ok_def state_ok_def)
  note k = SyncProfile_ok [OF w(1) assms(4) w(4) s]
  have "table_ok d {(h, q)} eng" using w(3) by (auto simp: table_ok_def)
  then have t: "table_ok d {(h, q)} e1" using same_readiness_table k(2) by blast
  have "table_ok d {} (PushCompensation True h st' enabled e1)"
    using push_table [OF t _ w(4)] k assms(1,5) by simp
  moreover have "states_ok {(h, q)} e1" using same_readiness_states [OF w(2)] k(2) by simp
  ultimately show ?thesis
    using k assms(3,5) w(4,5) by (simp add: working_def engine_ok_def state_ok_def e)
qed

lemma working_sync:
  assumes "working d h q (st, eng)" "SyncProfile ev h immediate st eng = (st', eng')"
  shows "working d h q (st', eng')"
proof -
  have w: "profiles_ok eng" "states_ok {(h, q)} eng" "table_ok d {} eng" "path_ok q" "h \<noteq> 0" "ps_serial_hash st = h"
    "ps_path st = q" "ready_in eng h q \<longleftrightarrow> ps_ready st"
    using assms(1) by (auto simp: working_def engine_ok_def state_ok_def)
  note k = SyncProfile_ok [OF w(1,7,4) assms(2)]
  have r: "ready_in eng' h q \<longleftrightarrow> ready_in eng h q" using k(3) w(8) by simp
  then have "same_readiness {} eng eng'" using k(2) w(8) by (auto simp: same_readiness_def)
  then have "table_ok d {} eng'" using same_readiness_table w(3) by blast
  moreover have "states_ok {(h, q)} eng'" using same_readiness_states [OF w(2)] k(2) w(8) by simp
  ultimately show ?thesis using k w by (simp add: working_def engine_ok_def state_ok_def)
qed

lemma state_of_record_fields [simp]:
  "ps_serial_hash (state_of_record r st) = ps_serial_hash st" "ps_path (state_of_record r st) = ps_path st"
  "ps_ready (state_of_record r st) = lr_ready r"
  by (simp_all add: state_of_record_def Let_def)

lemma find_ready:
  assumes "distinct (map lr_path rs)"
  shows "(\<exists>r\<in>set rs. lr_path r = q \<and> lr_ready r) \<longleftrightarrow> (case FindRecord q rs of Some r \<Rightarrow> lr_ready r | None \<Rightarrow> False)"
  using assms unfolding FindRecord_def by (induction rs) (auto simp: image_iff split: option.splits)

lemma engine_ok_GetOrCreate:
  assumes "engine_ok d X eng" "GetOrCreate h eng = (p, eng')"
  shows "engine_ok d X eng'"
proof -
  note k = GetOrCreate_ok [OF _ assms(2)]
  have "same_readiness X eng eng'" "same_readiness {} eng eng'"
    using k(4) assms(1) by (auto simp: engine_ok_def same_readiness_def)
  then show ?thesis
    using assms(1) k(3) same_readiness_states same_readiness_table by (auto simp: engine_ok_def)
qed

lemma init_serial: "ps_serial_hash PathState_init = 0" "\<not> ps_ready PathState_init"
  by (simp_all add: PathState_init_def)

lemma StateFor_working:
  assumes "engine_ok d {} eng" "h \<noteq> 0" "path_ok q" "StateFor h q eng = (st, eng')"
  shows "working d h q (st, eng')"
proof (cases "le_states eng (KeyFor h q)")
  case (Some x)
  then have "state_ok eng h q x" using assms(1) by (fastforce simp: engine_ok_def states_ok_def)
  moreover from this have "(st, eng') = (x, eng)" using assms(2,4) Some by (simp add: StateFor_def state_ok_def)
  moreover have "engine_ok d {(h, q)} eng" using assms(1) by (fastforce simp: engine_ok_def states_ok_def)
  ultimately show ?thesis by (simp add: working_def)
next
  case None
  obtain p e1 where g: "GetOrCreate h eng = (p, e1)" by fastforce
  let ?s = "PathState_init\<lparr>ps_serial_hash := h, ps_path := q\<rparr>"
  have s: "eng' = e1" "st = (case FindRecord q (dv_learned_paths p) of Some r \<Rightarrow> state_of_record r ?s | None \<Rightarrow> ?s)"
    using assms(4) None g by (auto simp: StateFor_def init_serial Let_def)
  have o: "profiles_ok eng" using assms(1) by (simp add: engine_ok_def)
  note k = GetOrCreate_ok [OF o g]
  have "ready_in e1 h q \<longleftrightarrow> (\<exists>r\<in>set (dv_learned_paths p). lr_path r = q \<and> lr_ready r)" by (auto simp: ready_in_def k(2))
  also have "\<dots> \<longleftrightarrow> ps_ready st"
    using find_ready [of "dv_learned_paths p" q] k(1) by (auto simp: s(2) profile_ok_def init_serial split: option.splits)
  finally have "state_ok e1 h q st"
    using assms(2,3) by (auto simp: state_ok_def s(2) split: option.splits)
  moreover have "engine_ok d {} e1" by (rule engine_ok_GetOrCreate [OF assms(1) g])
  then have "engine_ok d {(h, q)} e1" by (fastforce simp: engine_ok_def states_ok_def)
  ultimately show ?thesis by (simp add: working_def s(1))
qed

lemma put_state_ok:
  assumes "working d h q (st, eng)"
  shows "engine_ok d {} (put_state h q st eng)"
proof -
  let ?e = "put_state h q st eng"
  have r: "ready_in ?e = ready_in eng" "corrected ?e = corrected eng" "driver_of ?e d = driver_of eng d"
    by (simp_all add: fun_eq_iff ready_in_def corrected_def put_state_def driver_of_def)
  have "states_ok {} ?e"
    unfolding states_ok_def
  proof (intro allI impI)
    fix k s
    assume l: "le_states ?e k = Some s"
    show "\<exists>g p. k = KeyFor g p \<and> ((g, p) \<notin> {} \<longrightarrow> state_ok ?e g p s)"
    proof (cases "k = KeyFor h q")
      case True
      then have "s = st" using l by (simp add: put_state_def)
      then have "state_ok ?e h q s" using assms by (simp add: working_def state_ok_def r)
      then show ?thesis using True by blast
    next
      case False
      then have "le_states eng k = Some s" using l by (simp add: put_state_def)
      then obtain g p where "k = KeyFor g p" "(g, p) \<notin> {(h, q)} \<longrightarrow> state_ok eng g p s"
        using assms unfolding working_def engine_ok_def states_ok_def snd_conv by blast
      then show ?thesis using False by (auto simp: state_ok_def r)
    qed
  qed
  moreover have "profiles_ok ?e" "table_ok d {} ?e"
    using assms by (auto simp: working_def engine_ok_def profiles_ok_def table_ok_def r) (auto simp: put_state_def)
  ultimately show ?thesis by (simp add: engine_ok_def)
qed

section \<open>The two passes\<close>

definition delivers :: "tick_env \<Rightarrow> bool" where
  "delivers ev \<longleftrightarrow> se_delivered (te_first ev) \<and> se_delivered (te_second ev)"

lemma working_ids: "working d h q (st, eng) \<Longrightarrow> ps_serial_hash st = h \<and> ps_path st = q"
  by (simp add: working_def state_ok_def)

lemma learn_bounce_working:
  assumes "empty_table d" "delivers ev" "working d h q (st, eng)" "hb_device_serial_hash b = h"
  shows "working d h q (learn_bounce ev q b (st, eng))"
proof -
  let ?l = "DebounceFromBounceInterval (hb_bounce_max_interval_us b)"
  let ?st = "st\<lparr>ps_debounce_us := ?l, ps_ready := True, ps_last_updated_unix := te_unix ev,
    ps_sample_count := max (ps_sample_count st) (max (hb_press_count b) (hb_bounce_transition_count b))\<rparr>"
  obtain s e where p: "sync_and_push (te_first ev) h True True ?st eng = (s, e)" by fastforce
  have "working d h q (s, e)"
    using working_sync_push [OF assms(1,3) _ _ _ _ p] assms(2) working_ids [OF assms(3)] by (simp add: delivers_def)
  then show ?thesis using assms(3,4) p by (simp add: learn_bounce_def Let_def)
qed

lemma note_press_fields [simp]:
  "ps_serial_hash (note_press now b st) = ps_serial_hash st" "ps_path (note_press now b st) = ps_path st"
  "ps_ready (note_press now b st) = ps_ready st"
  by (simp_all add: note_press_def Let_def)

lemma learn_press_working:
  assumes "empty_table d" "delivers ev" "working d h q (st, eng)" "hb_device_serial_hash b = h"
  shows "working d h q (learn_press now ev b (st, eng))"
proof -
  let ?n = "note_press now b st" and ?e = "eng\<lparr>le_quiet_until := (le_quiet_until eng)(h \<mapsto> now + 500000)\<rparr>"
  have n: "working d h q (?n, ?e)" using working_state [OF assms(3), of ?n] by (simp add: working_quiet)
  let ?st = "?n\<lparr>ps_debounce_us := ucast (press_debounce (ps_inter_press_us ?n)), ps_ready := True, ps_last_updated_unix := te_unix ev\<rparr>"
  obtain s e where p: "sync_and_push (te_second ev) h True True ?st ?e = (s, e)" by fastforce
  obtain s' e' where y: "SyncProfile (te_second ev) h False ?n ?e = (s', e')" by fastforce
  have "working d h q (s, e)"
    using working_sync_push [OF assms(1) n _ _ _ _ p] assms(2) working_ids [OF n] by (simp add: delivers_def)
  moreover have "working d h q (s', e')" by (rule working_sync [OF n y])
  ultimately show ?thesis using assms(3,4) p y by (simp add: learn_press_def Let_def)
qed

lemma engine_ok_warned: "engine_ok d X eng \<Longrightarrow> engine_ok d X (eng\<lparr>le_warned := x\<rparr>)"
  by (simp add: engine_ok_def state_ok_def ready_in_def profiles_ok_def states_ok_def table_ok_def corrected_def driver_of_def)

lemma tick_boolean_ok:
  assumes "empty_table d" "delivers ev" "engine_ok d {} eng" "path_ok (PathFromSnapshotBody b)"
  shows "engine_ok d {} (tick_boolean now ev b eng)"
proof -
  let ?h = "hb_device_serial_hash b" and ?q = "PathFromSnapshotBody b"
  show ?thesis
  proof (cases "?h = 0")
    case False
    obtain st e1 where s: "StateFor ?h ?q eng = (st, e1)" by fastforce
    obtain st2 e2 where b: "learn_bounce ev ?q b (st\<lparr>ps_kind := CompBoolean\<rparr>, e1) = (st2, e2)" by fastforce
    obtain st3 e3 where p: "learn_press now ev b (st2, e2) = (st3, e3)" by fastforce
    have "working d ?h ?q (st\<lparr>ps_kind := CompBoolean\<rparr>, e1)"
      using working_state [OF StateFor_working [OF assms(3) False assms(4) s]] by simp
    from learn_bounce_working [OF assms(1,2) this refl] have "working d ?h ?q (st2, e2)" by (simp add: b)
    from learn_press_working [OF assms(1,2) this refl, of now] have "working d ?h ?q (st3, e3)" by (simp add: p)
    from put_state_ok [OF this] show ?thesis
      using assms(3) engine_ok_warned by (simp add: tick_boolean_def s b p Let_def)
  qed (use assms(3) in \<open>simp add: tick_boolean_def Let_def\<close>)
qed

lemma note_peak_fields [simp]:
  "ps_serial_hash (note_peak b st) = ps_serial_hash st" "ps_path (note_peak b st) = ps_path st" "ps_ready (note_peak b st) = ps_ready st"
  by (simp_all add: note_peak_def Let_def)

lemma at_rest_fields:
  assumes "at_rest now quiet vals isS isT b st = (rest, st')"
  shows "ps_serial_hash st' = ps_serial_hash st" "ps_path st' = ps_path st" "ps_ready st' = ps_ready st"
  using assms by (auto simp: at_rest_def Let_def split: if_splits option.splits prod.splits)

lemma learn_rest_fields [simp]:
  "ps_serial_hash (learn_rest burst v st) = ps_serial_hash st" "ps_path (learn_rest burst v st) = ps_path st"
  "ps_ready (learn_rest burst v st) = ps_ready st"
  by (simp_all add: learn_rest_def Let_def split: prod.splits)

lemma forget_fields [simp]:
  "ps_serial_hash (forget now unix st) = ps_serial_hash st" "ps_path (forget now unix st) = ps_path st" "\<not> ps_ready (forget now unix st)"
  by (simp_all add: forget_def)

lemma adopt_fields [simp]:
  "ps_serial_hash (adopt unix t s st) = ps_serial_hash st" "ps_path (adopt unix t s st) = ps_path st" "ps_ready (adopt unix t s st)"
  by (simp_all add: adopt_def Let_def)

lemma check_drift_working:
  assumes "empty_table d" "delivers ev" "working d h q (st, eng)"
  shows "working d h q (check_drift now ev h (st, eng))"
proof -
  let ?a = "if ps_drift_exceeded_since_us st = 0 then st\<lparr>ps_drift_exceeded_since_us := now\<rparr> else st"
  have a: "working d h q (?a, eng)" using working_state [OF assms(3), of ?a] by simp
  obtain s e where p: "sync_and_push (te_first ev) h True False (forget now (te_unix ev) ?a) eng = (s, e)" by fastforce
  have "working d h q (s, e)"
    using working_sync_push [OF assms(1) a _ _ _ _ p] assms(2) working_ids [OF a] by (simp add: delivers_def)
  moreover have "working d h q (st\<lparr>ps_drift_exceeded_since_us := 0, ps_drift_shift_pending := False\<rparr>, eng)"
    using working_state [OF assms(3)] by simp
  ultimately show ?thesis using a p by (auto simp: check_drift_def Let_def simp del: fun_upd_apply split del: if_split split: if_split_asm) (auto split: if_splits)
qed

lemma check_ready_working:
  assumes "empty_table d" "delivers ev" "working d h q (st, eng)" "\<not> ps_ready st"
  shows "working d h q (check_ready ev h t k (st, eng))"
proof -
  obtain s e where p: "sync_and_push (te_first ev) h True True (adopt (te_unix ev) t k st) eng = (s, e)" by fastforce
  obtain s' e' where y: "SyncProfile (te_first ev) h False st eng = (s', e')" by fastforce
  have "working d h q (s, e)"
    using working_sync_push [OF assms(1,3) _ _ _ _ p] assms(2) working_ids [OF assms(3)] by (simp add: delivers_def)
  moreover have "working d h q (s', e')" by (rule working_sync [OF assms(3) y])
  ultimately show ?thesis using assms(4) p y by (simp add: check_ready_def Let_def)
qed

lemma learn_scalar_working:
  assumes "empty_table d" "delivers ev" "working d h q (st, eng)" "hb_device_serial_hash b = h"
  shows "working d h q (learn_scalar now ev vals q b (st, eng))"
proof -
  let ?t = "IsTriggerKind (ps_kind st) q" and ?k = "IsStickKind (ps_kind st)"
  let ?st = "if ?t then note_peak b st else st"
  let ?quiet = "case le_quiet_until eng h of None \<Rightarrow> True | Some t \<Rightarrow> now \<ge> t"
  obtain rest st1 where r: "at_rest now ?quiet vals ?k ?t b ?st = (rest, st1)" by fastforce
  have s1: "working d h q (st1, eng)"
    using working_state [OF assms(3), of st1] at_rest_fields [OF r] by (auto split: if_splits)
  let ?l = "learn_rest (le_rest_burst_active eng) (hb_last_value b) st1"
  have l: "working d h q (?l, eng)" using working_state [OF s1, of ?l] by simp
  show ?thesis
    using assms(3) s1 check_drift_working [OF assms(1,2) l, of now] check_ready_working [OF assms(1,2) l, of ?t ?k]
    by (simp add: learn_scalar_def assms(4) r Let_def)
qed

lemma tick_scalar_ok:
  assumes "empty_table d" "delivers ev" "engine_ok d {} eng" "path_ok (PathFromSnapshotBody b)"
  shows "engine_ok d {} (tick_scalar now vals ev b eng)"
proof -
  let ?h = "hb_device_serial_hash b" and ?q = "PathFromSnapshotBody b"
  show ?thesis
  proof (cases "?h = 0")
    case False
    obtain st e1 where s: "StateFor ?h ?q eng = (st, e1)" by fastforce
    obtain st2 e2 where b: "learn_scalar now ev vals ?q b (st\<lparr>ps_kind := KindForBody b\<rparr>, e1) = (st2, e2)" by fastforce
    have "working d ?h ?q (st\<lparr>ps_kind := KindForBody b\<rparr>, e1)"
      using working_state [OF StateFor_working [OF assms(3) False assms(4) s]] by simp
    from learn_scalar_working [OF assms(1,2) this refl, of now vals] have "working d ?h ?q (st2, e2)" by (simp add: b)
    from put_state_ok [OF this] show ?thesis
      using assms(3) engine_ok_warned by (simp add: tick_scalar_def s b Let_def)
  qed (use assms(3) in \<open>simp add: tick_scalar_def Let_def\<close>)
qed

definition entries_ok :: "(health_body \<times> tick_env \<times> tick_env) list \<Rightarrow> bool" where
  "entries_ok es \<longleftrightarrow> list_all (\<lambda>(b, e1, e2). length (PathFromSnapshotBody b) < INPUTHEALTH_PATH_LEN \<and> delivers e1 \<and> delivers e2) es"

lemma Tick_ok:
  assumes "empty_table d" "engine_ok d {} eng" "entries_ok es"
  shows "engine_ok d {} (Engine_Tick now es eng)"
proof -
  have b: "engine_ok d {} (fold (\<lambda>(b, ev, _). tick_boolean now ev b) es eng)" if "engine_ok d {} eng" "entries_ok es" for es eng
    using that
  proof (induction es arbitrary: eng)
    case (Cons x es)
    then show ?case
      using tick_boolean_ok [OF assms(1), of "fst (snd x)" eng "fst x" now] body_path_ok [of "fst x"]
      by (auto simp: entries_ok_def split: prod.splits)
  qed simp
  have s: "engine_ok d {} (fold (\<lambda>(b, _, ev). tick_scalar now vals ev b) es eng)" if "engine_ok d {} eng" "entries_ok es" for es eng vals
    using that
  proof (induction es arbitrary: eng)
    case (Cons x es)
    then show ?case
      using tick_scalar_ok [OF assms(1), of "snd (snd x)" eng "fst x" now vals] body_path_ok [of "fst x"]
      by (auto simp: entries_ok_def split: prod.splits)
  qed simp
  show ?thesis using s [OF b [OF assms(2,3)] assms(3)] by (simp add: Engine_Tick_def)
qed

section \<open>The other operations\<close>

lemma table_ok_mono: "table_ok d X eng \<Longrightarrow> X \<subseteq> Y \<Longrightarrow> table_ok d Y eng"
  by (auto simp: table_ok_def)

lemma push_records:
  assumes "empty_table d" "table_ok d (X \<union> (\<lambda>r. (h, lr_path r)) ` set rs) eng" "\<forall>r\<in>set rs. path_ok (lr_path r)"
    and "\<And>r. r \<in> set rs \<Longrightarrow> enabled r \<Longrightarrow> ready_in eng h (lr_path r)" "\<And>r. ps_path (f r) = lr_path r"
  shows "table_ok d X (fold (\<lambda>r. PushCompensation True h (f r) (enabled r)) rs eng)"
  using assms(2-4)
proof (induction rs arbitrary: eng)
  case (Cons r rs)
  let ?e = "PushCompensation True h (f r) (enabled r) eng"
  have "table_ok d (insert (h, lr_path r) (X \<union> (\<lambda>r. (h, lr_path r)) ` set rs)) eng"
    using Cons.prems(1) by (simp add: insert_commute Un_insert_right)
  then have "table_ok d (X \<union> (\<lambda>r. (h, lr_path r)) ` set rs) ?e"
    using push_table [of d h "lr_path r" _ eng "f r" "enabled r"] Cons.prems(2,3) assms(1,5) by simp
  then show ?case using Cons.IH [of ?e] Cons.prems(2,3) by simp
qed simp

lemma fold_push_fields [simp]:
  "le_profiles (fold (\<lambda>r. PushCompensation True h (f r) (g r)) rs eng) = le_profiles eng"
  "le_states (fold (\<lambda>r. PushCompensation True h (f r) (g r)) rs eng) = le_states eng"
  by (induction rs arbitrary: eng) simp_all

lemma fold_push_ok [simp]:
  "profiles_ok (fold (\<lambda>r. PushCompensation True h (f r) (g r)) rs eng) = profiles_ok eng"
  "states_ok X (fold (\<lambda>r. PushCompensation True h (f r) (g r)) rs eng) = states_ok X eng"
  by (induction rs arbitrary: eng) simp_all

lemma fold_filter: "fold (\<lambda>r eng. if \<not> P r then eng else F r eng) rs eng = fold F (filter P rs) eng"
  by (induction rs arbitrary: eng) simp_all

lemma fold_unless: "fold (\<lambda>r eng. if a \<and> \<not> P r then eng else F r eng) rs eng = fold F (filter (\<lambda>r. a \<longrightarrow> P r) rs) eng"
  by (induction rs arbitrary: eng) auto

lemma pushed_state_path [simp]: "ps_path (pushed_state r h) = lr_path r"
  by (simp add: pushed_state_def)

lemma ready_records:
  "le_profiles eng h = Some p \<Longrightarrow> r \<in> set (dv_learned_paths p) \<Longrightarrow> lr_ready r \<Longrightarrow> ready_in eng h (lr_path r)"
  by (auto simp: ready_in_def)

lemma push_ready_ok:
  assumes "empty_table d" "engine_ok d {} eng" "le_profiles eng h = Some p"
  shows "engine_ok d {} (push_ready True p eng)" "le_profiles (push_ready True p eng) = le_profiles eng"
proof -
  have p: "dv_serial_hash p = h" "\<forall>r\<in>set (dv_learned_paths p). path_ok (lr_path r)"
    using assms(2,3) by (auto simp: engine_ok_def profiles_ok_def profile_ok_def)
  let ?rs = "filter lr_ready (dv_learned_paths p)"
  have e: "push_ready True p eng = (if \<not> dv_corrections_enabled p then eng
      else fold (\<lambda>r. PushCompensation True h (pushed_state r h) True) ?rs eng)"
    by (simp add: push_ready_def fold_filter p(1))
  have "table_ok d {} (fold (\<lambda>r. PushCompensation True h (pushed_state r h) True) ?rs eng)"
    using push_records [of d "{}" h ?rs eng "\<lambda>_. True" "\<lambda>r. pushed_state r h"] assms p(2) table_ok_mono [of d "{}" eng]
      ready_records [OF assms(3)] by (simp add: engine_ok_def)
  then show "engine_ok d {} (push_ready True p eng)" "le_profiles (push_ready True p eng) = le_profiles eng"
    using assms(2) by (auto simp: e engine_ok_def)
qed

lemma PushReady_ok:
  assumes "empty_table d" "engine_ok d {} eng"
  shows "engine_ok d {} (PushReadyCompensations True order eng)"
proof -
  have "engine_ok d {} (fold (\<lambda>h e. case le_profiles eng h of Some p \<Rightarrow> push_ready True p e | None \<Rightarrow> e) hs e)"
    if "engine_ok d {} e" "le_profiles e = le_profiles eng" for hs e
    using that
  proof (induction hs arbitrary: e)
    case (Cons h hs)
    then show ?case using push_ready_ok [OF assms(1) Cons.prems(1), of h] by (auto split: option.splits)
  qed simp
  then show ?thesis using assms(2) by (simp add: PushReadyCompensations_def)
qed

text \<open>Replacing the profile of a device.\<close>

definition put_profile :: "u64 \<Rightarrow> device_profile \<Rightarrow> engine \<Rightarrow> engine" where
  "put_profile h p eng = eng\<lparr>le_profiles := (le_profiles eng)(h \<mapsto> p)\<rparr>"

lemma put_profile_ready:
  "ready_in (put_profile h p eng) g q \<longleftrightarrow> (if g = h then \<exists>r\<in>set (dv_learned_paths p). lr_path r = q \<and> lr_ready r else ready_in eng g q)"
  "corrected (put_profile h p eng) g \<longleftrightarrow> (if g = h then dv_corrections_enabled p else corrected eng g)"
  "driver_of (put_profile h p eng) d = driver_of eng d"
  by (auto simp: put_profile_def ready_in_def corrected_def driver_of_def)

lemma corrections_ok:
  assumes "empty_table d" "engine_ok d {} eng"
  shows "engine_ok d {} (SetDeviceCorrectionsEnabled True h enabled eng)"
proof (cases "h = 0")
  case False
  obtain p e1 where g: "GetOrCreate h eng = (p, e1)" by fastforce
  have o: "engine_ok d {} e1" by (rule engine_ok_GetOrCreate [OF assms(2) g])
  have l: "le_profiles e1 h = Some p" using GetOrCreate_ok(2) [OF _ g] assms(2) by (simp add: engine_ok_def)
  have p: "dv_serial_hash p = h" "\<forall>r\<in>set (dv_learned_paths p). path_ok (lr_path r)"
    using GetOrCreate_ok(1) [OF _ g] assms(2) by (auto simp: engine_ok_def profile_ok_def)
  let ?p = "p\<lparr>dv_corrections_enabled := enabled\<rparr>"
  let ?e = "put_profile h ?p e1"
  let ?rs = "filter (\<lambda>r. enabled \<longrightarrow> lr_ready r) (dv_learned_paths p)"
  let ?X = "(\<lambda>r. (h, lr_path r)) ` set ?rs"
  have r: "ready_in ?e = ready_in e1" using l by (auto simp: fun_eq_iff put_profile_def ready_in_def)
  have "table_ok d ?X ?e"
    unfolding table_ok_def put_profile_ready(3)
  proof (intro allI impI)
    fix g q x
    assume a: "LookupInputHealthCompensation g q (driver_of e1 d) = Some x" "(g, q) \<notin> ?X"
    then have "ready_in e1 g q" "corrected e1 g" using o by (auto simp: engine_ok_def table_ok_def)
    moreover from this(1) have "g = h \<Longrightarrow> (g, q) \<in> ?X" using l by (auto simp: ready_in_def)
    ultimately show "ready_in ?e g q \<and> corrected ?e g" using a(2) by (auto simp: r put_profile_ready)
  qed
  moreover have "ready_in ?e h (lr_path x)" if "x \<in> set ?rs" "enabled \<and> lr_ready x" for x
    unfolding r using ready_records [OF l] that by simp
  ultimately have t: "table_ok d {} (fold (\<lambda>r. PushCompensation True h (pushed_state r h) (enabled \<and> lr_ready r)) ?rs ?e)"
    by (intro push_records [OF assms(1)]) (use p(2) in simp_all)
  have ss: "le_states ?e = le_states e1" by (simp add: put_profile_def)
  have "profiles_ok ?e" using o l by (auto simp: engine_ok_def profiles_ok_def put_profile_def profile_ok_def)
  moreover have "states_ok {} ?e" using o unfolding engine_ok_def states_ok_def state_ok_def r ss by blast
  moreover have "SetDeviceCorrectionsEnabled True h enabled eng = (if dv_corrections_enabled p = enabled then e1
      else fold (\<lambda>r. PushCompensation True h (pushed_state r h) (enabled \<and> lr_ready r)) ?rs ?e)"
    using False by (simp add: SetDeviceCorrectionsEnabled_def g p(1) put_profile_def fold_unless Let_def)
  ultimately show ?thesis using t o by (simp add: engine_ok_def)
qed (use assms(2) in \<open>simp add: SetDeviceCorrectionsEnabled_def\<close>)

text \<open>Disabling never adds an entry; forgetting a path removes its record, its state and its entry.\<close>

lemma push_disabled:
  assumes "table_ok d X eng"
  shows "table_ok d X (PushCompensation True h st False eng)"
proof -
  have "LookupInputHealthCompensation g q (driver_of (PushCompensation True h st False eng) d)
      \<in> {None, LookupInputHealthCompensation g q (driver_of eng d)}" for g q
    by (simp add: PushCompensation_def driver_of_def lookup_set entry_of_def)
  then have "LookupInputHealthCompensation g q (driver_of (PushCompensation True h st False eng) d) = Some e \<Longrightarrow>
      LookupInputHealthCompensation g q (driver_of eng d) = Some e" for g q e
    by (metis empty_iff insert_iff option.distinct(1))
  then show ?thesis using assms unfolding table_ok_def readiness_fields by blast
qed

lemma states_ok_erase:
  assumes "states_ok {} eng" "\<And>g p. \<not> X g p \<Longrightarrow> ready_in eng' g p = ready_in eng g p"
    and "\<And>k st. le_states eng' k = Some st \<Longrightarrow> le_states eng k = Some st"
    and "\<And>g p st. le_states eng' (KeyFor g p) = Some st \<Longrightarrow> \<not> X g p"
  shows "states_ok {} eng'"
  unfolding states_ok_def
proof (intro allI impI)
  fix k st
  assume a: "le_states eng' k = Some st"
  then obtain g p where k: "k = KeyFor g p" "state_ok eng g p st" using assms(1,3) unfolding states_ok_def by blast
  then have "ready_in eng' g p = ready_in eng g p" using assms(2,4) a by blast
  then show "\<exists>g p. k = KeyFor g p \<and> ((g, p) \<notin> {} \<longrightarrow> state_ok eng' g p st)" using k by (auto simp: state_ok_def)
qed

lemma UnlearnPath_ok:
  assumes "empty_table d" "engine_ok d {} eng"
  shows "engine_ok d {} (UnlearnPath True h q eng)"
proof (cases "h = 0 \<or> q = []")
  case False
  obtain p e1 where g: "GetOrCreate h eng = (p, e1)" by fastforce
  have o: "engine_ok d {} e1" by (rule engine_ok_GetOrCreate [OF assms(2) g])
  have l: "le_profiles e1 h = Some p" "profile_ok h p" using GetOrCreate_ok(1,2) [OF _ g] assms(2) by (auto simp: engine_ok_def)
  let ?p = "p\<lparr>dv_learned_paths := filter (\<lambda>r. lr_path r \<noteq> q) (dv_learned_paths p)\<rparr>"
  let ?e = "e1\<lparr>le_profiles := (le_profiles e1)(h \<mapsto> ?p), le_states := (le_states e1)(KeyFor h q := None)\<rparr>"
  obtain st where u: "UnlearnPath True h q eng = PushCompensation True h st False ?e" "ps_path st = q"
    using False by (auto simp: UnlearnPath_def g Let_def)
  have r: "ready_in ?e g p' \<longleftrightarrow> (g, p') \<noteq> (h, q) \<and> ready_in e1 g p'" for g p' using l by (auto simp: ready_in_def)
  have c: "corrected ?e g \<longleftrightarrow> corrected e1 g" "driver_of ?e d = driver_of e1 d" for g
    using l by (auto simp: corrected_def driver_of_def)
  have po: "profiles_ok ?e" using o l by (auto simp: engine_ok_def profiles_ok_def profile_ok_def distinct_map_filter)
  have so: "states_ok {} ?e"
    by (rule states_ok_erase [of e1 "\<lambda>g p. (g, p) = (h, q)"]) (use o r in \<open>auto simp: engine_ok_def split: if_splits\<close>)
  have tx: "table_ok d {(h, q)} ?e" using o by (auto simp: engine_ok_def table_ok_def r c)
  have "table_ok d {} (PushCompensation True h st False ?e)"
  proof (cases "path_ok q")
    case True
    then show ?thesis using push_table [OF tx _ True u(2)] assms(1) by simp
  next
    case False
    then have "\<not> ready_in e1 h q" using l by (auto simp: ready_in_def profile_ok_def)
    then have "table_ok d {} ?e" using o by (auto simp: engine_ok_def table_ok_def r c)
    then show ?thesis by (rule push_disabled)
  qed
  then show ?thesis using po so by (simp add: u(1) engine_ok_def)
qed (use assms(2) in \<open>simp add: UnlearnPath_def\<close>)

lemma push_disabled_commute1:
  "PushCompensation True h st False (eng\<lparr>le_profiles := P, le_states := S\<rparr>) = (PushCompensation True h st False eng)\<lparr>le_profiles := P, le_states := S\<rparr>"
  by (simp add: PushCompensation_def)

lemma push_disabled_commute:
  "fold (\<lambda>r. PushCompensation True h (f r) False) rs (eng\<lparr>le_profiles := P, le_states := S\<rparr>) =
     (fold (\<lambda>r. PushCompensation True h (f r) False) rs eng)\<lparr>le_profiles := P, le_states := S\<rparr>"
  by (induction rs arbitrary: eng) (simp_all only: fold_simps push_disabled_commute1)

lemma UnlearnDevice_ok:
  assumes "empty_table d" "engine_ok d {} eng"
  shows "engine_ok d {} (UnlearnDevice True h eng)"
proof (cases "h = 0")
  case False
  obtain p e1 where g: "GetOrCreate h eng = (p, e1)" by fastforce
  have o: "engine_ok d {} e1" by (rule engine_ok_GetOrCreate [OF assms(2) g])
  have l: "le_profiles e1 h = Some p" "profile_ok h p" using GetOrCreate_ok(1,2) [OF _ g] assms(2) by (auto simp: engine_ok_def)
  let ?rs = "dv_learned_paths p"
  let ?f = "\<lambda>r. PathState_init\<lparr>ps_serial_hash := h, ps_path := lr_path r, ps_kind := KindFromString (lr_kind r)\<rparr>"
  let ?S = "\<lambda>k. case le_states e1 k of Some st \<Rightarrow> if ps_serial_hash st = h then None else Some st | None \<Rightarrow> None"
  let ?e = "e1\<lparr>le_profiles := (le_profiles e1)(h \<mapsto> p\<lparr>dv_learned_paths := []\<rparr>), le_states := ?S\<rparr>"
  have u: "UnlearnDevice True h eng = fold (\<lambda>r. PushCompensation True h (?f r) False) ?rs ?e"
    using False by (simp add: UnlearnDevice_def g push_disabled_commute Let_def)
  have r: "ready_in ?e g p' \<longleftrightarrow> g \<noteq> h \<and> ready_in e1 g p'" for g p' by (auto simp: ready_in_def)
  have c: "corrected ?e g \<longleftrightarrow> corrected e1 g" "driver_of ?e d = driver_of e1 d" for g
    using l by (auto simp: corrected_def driver_of_def)
  have po: "profiles_ok ?e" using o l by (auto simp: engine_ok_def profiles_ok_def profile_ok_def)
  have ids: "ps_serial_hash st = g" if "le_states e1 (KeyFor g p') = Some st" for g p' st
    using o that by (fastforce simp: engine_ok_def states_ok_def state_ok_def)
  have k: "le_states e1 k = Some st \<and> ps_serial_hash st \<noteq> h" if "le_states ?e k = Some st" for k st
    using that by (simp split: option.splits if_splits)
  have so: "states_ok {} ?e"
  proof (rule states_ok_erase [of e1 "\<lambda>g p. g = h"])
    show "states_ok {} e1" using o by (simp add: engine_ok_def)
    show "ready_in ?e g p' = ready_in e1 g p'" if "g \<noteq> h" for g p' using that r by blast
    show "le_states e1 k = Some st" if "le_states ?e k = Some st" for k st using k [OF that] by blast
    show "g \<noteq> h" if "le_states ?e (KeyFor g p') = Some st" for g p' st using k [OF that] ids by blast
  qed
  have "table_ok d ((\<lambda>r. (h, lr_path r)) ` set ?rs) ?e"
    unfolding table_ok_def c
  proof (intro allI impI)
    fix g q x
    assume a: "LookupInputHealthCompensation g q (driver_of e1 d) = Some x" "(g, q) \<notin> (\<lambda>r. (h, lr_path r)) ` set ?rs"
    then have "ready_in e1 g q" "corrected e1 g" using o by (auto simp: engine_ok_def table_ok_def)
    moreover from this(1) have "g = h \<Longrightarrow> (g, q) \<in> (\<lambda>r. (h, lr_path r)) ` set ?rs" using l by (auto simp: ready_in_def)
    ultimately show "ready_in ?e g q \<and> corrected e1 g" using a(2) by (auto simp: r)
  qed
  then have "table_ok d {} (fold (\<lambda>r. PushCompensation True h (?f r) False) ?rs ?e)"
    using push_records [of d "{}" h ?rs ?e "\<lambda>_. False" ?f] assms(1) l(2) by (simp add: profile_ok_def)
  then show ?thesis using po so by (simp add: u engine_ok_def)
qed (use assms(2) in \<open>simp add: UnlearnDevice_def\<close>)

lemma Flush_ok:
  assumes "engine_ok d {} eng"
  shows "engine_ok d {} (Engine_Flush order eng)"
  using assms unfolding Engine_Flush_def
proof (induction order arbitrary: eng)
  case (Cons x order)
  obtain k ev where x: "x = (k, ev)" by fastforce
  show ?case
  proof (cases "le_states eng k")
    case (Some st)
    then obtain h q where k: "k = KeyFor h q" "state_ok eng h q st" using Cons.prems unfolding engine_ok_def states_ok_def by blast
    obtain st' e' where s: "SyncProfile ev h True st eng = (st', e')" by fastforce
    have "engine_ok d {(h, q)} eng" using Cons.prems by (fastforce simp: engine_ok_def states_ok_def)
    then have "working d h q (st, eng)" using k(2) by (simp add: working_def)
    from put_state_ok [OF working_sync [OF this s]] have "engine_ok d {} (put_state h q st' e')" .
    then show ?thesis using Cons.IH k Some s by (simp add: x put_state_def state_ok_def)
  qed (use Cons in \<open>simp add: x\<close>)
qed simp

section \<open>All operations\<close>

text \<open>The operations of the engine, with every entry delivered to the driver.\<close>

inductive engine_step :: "engine \<Rightarrow> engine \<Rightarrow> bool" where
  tick: "entries_ok es \<Longrightarrow> engine_step eng (Engine_Tick now es eng)"
| burst: "engine_step eng (SetRestBurstActive b eng)"
| corrections: "engine_step eng (SetDeviceCorrectionsEnabled True h b eng)"
| push_all: "engine_step eng (PushReadyCompensations True order eng)"
| unlearn_path: "engine_step eng (UnlearnPath True h q eng)"
| unlearn_device: "engine_step eng (UnlearnDevice True h eng)"
| flush: "engine_step eng (Engine_Flush fs eng)"

lemma engine_step_ok:
  assumes "engine_step eng eng'" "empty_table d" "engine_ok d {} eng"
  shows "engine_ok d {} eng'"
  using assms
proof (cases rule: engine_step.cases)
  case (burst b)
  then show ?thesis
    using assms(3) by (simp add: SetRestBurstActive_def engine_ok_def state_ok_def ready_in_def profiles_ok_def states_ok_def
        table_ok_def corrected_def driver_of_def)
qed (auto simp: Tick_ok corrections_ok PushReady_ok UnlearnPath_ok UnlearnDevice_ok Flush_ok)

text \<open>An engine that has just loaded its profiles.\<close>

definition fresh_engine :: "(u64 \<rightharpoonup> device_profile) \<Rightarrow> engine" where
  "fresh_engine ps = \<lparr>le_rest_burst_active = False, le_states = Map.empty, le_quiet_until = Map.empty, le_warned = {},
     le_profiles = ps, le_sent = []\<rparr>"

text \<open>C3: The driver compensates only what the user's profile holds. Start the engine on any profiles whose
  records have distinct paths that fit the wire, with an empty table in the driver, and run any operations
  in any order: ticks over any snapshots, switching corrections, re-sending, unlearning a path or a device,
  flushing. Whatever entry the driver then finds for a device and a path, the profile of the device has
  its corrections on and a record of exactly that path that is ready.
\<close>

theorem driver_mirrors_profile:
  assumes "empty_table d" and "\<forall>h p. ps h = Some p \<longrightarrow> profile_ok h p"
    and "engine_step\<^sup>*\<^sup>* (fresh_engine ps) eng"
    and "LookupInputHealthCompensation h q (driver_of eng d) = Some e"
  shows "\<exists>p r. le_profiles eng h = Some p \<and> dv_corrections_enabled p
     \<and> r \<in> set (dv_learned_paths p) \<and> lr_path r = q \<and> lr_ready r"
proof -
  have "engine_ok d {} (fresh_engine ps)"
    using assms(1,2) by (simp add: engine_ok_def fresh_engine_def profiles_ok_def states_ok_def table_ok_def driver_of_def)
  with assms(3) have "engine_ok d {} eng"
    by (induction rule: rtranclp_induct) (auto intro: engine_step_ok [OF _ assms(1)])
  then show ?thesis using assms(4) by (fastforce simp: engine_ok_def table_ok_def ready_in_def corrected_def)
qed

text \<open>A saved trigger, sent to the driver again.\<close>

definition saved_trigger :: "u64 \<rightharpoonup> device_profile" where
  "saved_trigger = [7 \<mapsto> DeviceProfile_init\<lparr>dv_serial_hash := 7, dv_learned_paths :=
     [LearnedPathRecord_init\<lparr>lr_path := ''/input/trigger/value'', lr_kind := ''scalar_single'', lr_ready := True,
        lr_trigger_min := 1 / 10, lr_trigger_max := 9 / 10\<rparr>]\<rparr>]"

theorem driver_mirrors_profile_witness:
  "\<exists>p r. le_profiles (PushReadyCompensations True [7] (fresh_engine saved_trigger)) 7 = Some p \<and> dv_corrections_enabled p
     \<and> r \<in> set (dv_learned_paths p) \<and> lr_path r = ''/input/trigger/value'' \<and> lr_ready r"
proof -
  let ?e = "PushReadyCompensations True [7] (fresh_engine saved_trigger)"
  let ?d = "(one_scalar True)\<lparr>hd_comp := Map.empty\<rparr>"
  have po: "path_ok ''/input/trigger/value''" by (simp add: path_ok_def INPUTHEALTH_PATH_LEN_def)
  have cl: "ClassifyInputPath ''/input/trigger/value'' = Trigger"
    by (simp add: ClassifyInputPath_def trigger_value_path Let_def)
  have "\<exists>x. LookupInputHealthCompensation 7 ''/input/trigger/value'' (driver_of ?e ?d) = Some x"
    using path_roundtrip [OF po]
    by (simp add: PushReadyCompensations_def fresh_engine_def saved_trigger_def push_ready_def PushCompensation_def driver_of_def
        DeviceProfile_init_def LearnedPathRecord_init_def lookup_set entry_ok_def entry_of_def pushed_state_def cl IsCompensationPath_def)
  then obtain x where l: "LookupInputHealthCompensation 7 ''/input/trigger/value'' (driver_of ?e ?d) = Some x" by blast
  have "\<forall>h p. saved_trigger h = Some p \<longrightarrow> profile_ok h p"
    by (auto simp: saved_trigger_def profile_ok_def po split: if_splits)
  moreover have "engine_step\<^sup>*\<^sup>* (fresh_engine saved_trigger) ?e" by (rule r_into_rtranclp) (rule engine_step.push_all)
  moreover have "empty_table ?d" by (simp add: empty_table_def)
  ultimately show ?thesis using driver_mirrors_profile [OF _ _ _ l] by blast
qed

end
