(* ===== verification/LearningTypes.thy ===== *)
theory LearningTypes
  imports LearningSync
begin

text \<open>
  The values that the learning engine keeps and sends are well formed, and what it stores survives a
  restart of the overlay.
\<close>

section \<open>Learned values are well formed\<close>

definition learned_ok :: "byte \<Rightarrow> real \<Rightarrow> real \<Rightarrow> real \<Rightarrow> nat \<Rightarrow> bool" where
  "learned_ok kind tmin tmax dead debounce \<longleftrightarrow> kind \<in> {CompScalarSingle, CompStickX, CompStickY, CompBoolean}
     \<and> (tmin = 0 \<and> tmax = 0 \<or> 0 \<le> tmin \<and> tmin \<le> 1 / 10 \<and> 1 / 10 < tmax)
     \<and> (dead = 0 \<or> 1 / 100 \<le> dead \<and> dead \<le> 8 / 100) \<and> (debounce = 0 \<or> 1000 \<le> debounce \<and> debounce \<le> 20000)"

definition state_typed :: "path_state \<Rightarrow> bool" where
  "state_typed st \<longleftrightarrow> learned_ok (ps_kind st) (ps_trigger_min st) (ps_trigger_max st) (ps_deadzone_radius st) (unat (ps_debounce_us st))"

definition record_typed :: "learned_record \<Rightarrow> bool" where
  "record_typed r \<longleftrightarrow> learned_ok (KindFromString (lr_kind r)) (lr_trigger_min r) (lr_trigger_max r) (lr_deadzone_radius r) (unat (lr_debounce_us r))"

definition entry_typed :: "comp_entry \<Rightarrow> bool" where
  "entry_typed e \<longleftrightarrow> learned_ok (ce_kind e) (ce_trigger_min e) (ce_trigger_max e) (ce_deadzone_radius e) (unat (ce_debounce_us e))"

definition profiles_typed :: "(u64 \<rightharpoonup> device_profile) \<Rightarrow> bool" where
  "profiles_typed ps \<longleftrightarrow> (\<forall>h p. ps h = Some p \<longrightarrow> (\<forall>r\<in>set (dv_learned_paths p). record_typed r))"

definition engine_typed :: "engine \<Rightarrow> bool" where
  "engine_typed eng \<longleftrightarrow> (\<forall>k st. le_states eng k = Some st \<longrightarrow> state_typed st) \<and> profiles_typed (le_profiles eng)
     \<and> (\<forall>e\<in>set (le_sent eng). entry_typed e)"

definition typed :: "path_state \<times> engine \<Rightarrow> bool" where
  "typed se \<longleftrightarrow> state_typed (fst se) \<and> engine_typed (snd se)"

named_theorems typed_intros \<open>operations of the engine keep learned values well formed\<close>

lemma engine_typed_fields [simp]:
  "engine_typed (eng\<lparr>le_quiet_until := x\<rparr>) = engine_typed eng" "engine_typed (eng\<lparr>le_warned := w\<rparr>) = engine_typed eng"
  "engine_typed (eng\<lparr>le_rest_burst_active := b\<rparr>) = engine_typed eng"
  by (simp_all add: engine_typed_def)

lemma state_typed_init [simp]: "state_typed (PathState_init\<lparr>ps_serial_hash := h, ps_path := q\<rparr>)"
  by (simp add: state_typed_def learned_ok_def PathState_init_def)

lemma GetOrCreate_typed:
  assumes "GetOrCreate h eng = (p, eng')" "engine_typed eng"
  shows "engine_typed eng'" "\<forall>r\<in>set (dv_learned_paths p). record_typed r"
  using assms by (auto simp: GetOrCreate_def engine_typed_def profiles_typed_def DeviceProfile_init_def Let_def
      split: option.splits if_splits)

lemma put_profile_typed:
  "engine_typed eng \<Longrightarrow> (\<forall>r\<in>set (dv_learned_paths p). record_typed r) \<Longrightarrow> engine_typed (eng\<lparr>le_profiles := (le_profiles eng)(h \<mapsto> p)\<rparr>)"
  by (auto simp: engine_typed_def profiles_typed_def)

lemma KindFromString_KindString: "k \<in> {CompScalarSingle, CompStickX, CompStickY, CompBoolean} \<Longrightarrow> KindFromString (KindString k) = k"
  by (auto simp: KindFromString_def KindString_def CompScalarSingle_def CompStickX_def CompStickY_def CompBoolean_def)

lemma KindFromString_kind [simp]: "KindFromString s \<in> {CompScalarSingle, CompStickX, CompStickY, CompBoolean}"
  by (simp add: KindFromString_def)

lemma record_of_state_typed: "state_typed st \<Longrightarrow> record_typed (record_of_state st r)"
  using KindFromString_KindString [of "ps_kind st"] by (simp add: state_typed_def record_typed_def record_of_state_def learned_ok_def)

lemma put_record_typed: "state_typed st \<Longrightarrow> \<forall>r\<in>set rs. record_typed r \<Longrightarrow> \<forall>r\<in>set (put_record st rs). record_typed r"
  by (induction rs) (auto simp: record_of_state_typed)

lemma SyncProfile_typed [typed_intros]:
  assumes "typed (st, eng)"
  shows "typed (SyncProfile ev h im st eng)"
proof -
  obtain p e1 where g: "GetOrCreate h eng = (p, e1)" by fastforce
  note k = GetOrCreate_typed [OF g]
  have "engine_typed (e1\<lparr>le_profiles := (le_profiles e1)(h \<mapsto> p\<lparr>dv_learned_paths := put_record st (dv_learned_paths p)\<rparr>)\<rparr>)"
    using k assms put_record_typed [of st "dv_learned_paths p"] by (intro put_profile_typed) (auto simp: typed_def)
  then show ?thesis using assms by (simp add: typed_def SyncProfile_def g state_typed_def Let_def)
qed

lemma entry_of_typed: "state_typed st \<Longrightarrow> entry_typed (entry_of h st b)"
proof -
  assume a: "state_typed st"
  then have "unat (ps_debounce_us st) \<le> 20000" by (auto simp: state_typed_def learned_ok_def)
  then have "ps_debounce_us st \<le> 65535" and "unat (ps_debounce_us st) < 2 ^ 16"
    by (simp_all add: word_le_nat_alt)
  then have "unat (ucast (min 65535 (ps_debounce_us st)) :: u16) = unat (ps_debounce_us st)"
    by (simp add: min_def unsigned_ucast_eq take_bit_nat_eq_self)
  then show ?thesis using a by (simp add: state_typed_def entry_typed_def entry_of_def)
qed

lemma Push_typed: "state_typed st \<Longrightarrow> engine_typed eng \<Longrightarrow> engine_typed (PushCompensation dl h st b eng)"
  using entry_of_typed by (auto simp: PushCompensation_def engine_typed_def Let_def)

lemma sync_and_push_typed [typed_intros]: "typed (st, eng) \<Longrightarrow> typed (sync_and_push ev h im b st eng)"
  using SyncProfile_typed [of st eng ev h im] by (auto simp: sync_and_push_def typed_def Push_typed split: prod.splits)

lemma StateFor_typed:
  assumes "engine_typed eng"
  shows "typed (StateFor h q eng)"
proof -
  obtain p e1 where g: "GetOrCreate h eng = (p, e1)" by fastforce
  note k = GetOrCreate_typed [OF g assms]
  have s: "state_typed (state_of_record r (x\<lparr>ps_serial_hash := h, ps_path := q\<rparr>))" if "record_typed r" for r x
    using that by (simp add: state_of_record_def state_typed_def record_typed_def Let_def)
  have f: "record_typed r" if "FindRecord q (dv_learned_paths p) = Some r" for r
    using k(2) that by (auto simp: FindRecord_def find_Some_iff)
  have "state_typed (case le_states eng (KeyFor h q) of Some st \<Rightarrow> st | None \<Rightarrow> PathState_init)"
    using assms by (auto simp: engine_typed_def state_typed_def learned_ok_def PathState_init_def split: option.splits)
  then show ?thesis
    using assms k(1) s f by (auto simp: StateFor_def g typed_def state_typed_def [of "_\<lparr>ps_serial_hash := _, ps_path := _\<rparr>"] Let_def split: option.splits)
      (auto simp: state_typed_def)
qed

lemma put_state_typed: "typed se \<Longrightarrow> engine_typed (put_state h q (fst se) (snd se))"
  by (auto simp: typed_def put_state_def engine_typed_def)

lemma debounce_typed:
  assumes "typed (st, eng)" "1000 \<le> unat (ps_debounce_us st')" "unat (ps_debounce_us st') \<le> 20000" "ps_kind st' = ps_kind st"
    "ps_trigger_min st' = ps_trigger_min st" "ps_trigger_max st' = ps_trigger_max st" "ps_deadzone_radius st' = ps_deadzone_radius st"
  shows "typed (st', eng)"
  using assms by (simp add: typed_def state_typed_def learned_ok_def)

lemma DebounceFromBounceInterval_clamped: "1000 \<le> unat (DebounceFromBounceInterval i)" "unat (DebounceFromBounceInterval i) \<le> 20000"
  by (simp_all add: DebounceFromBounceInterval_def kButtonBounceMaxIntervalUs_def max_def min_def word_le_nat_alt Let_def)

lemma press_debounce_clamped: "1000 \<le> unat (ucast (press_debounce xs) :: u32)" "unat (ucast (press_debounce xs) :: u32) \<le> 20000"
proof -
  have "1000 \<le> unat (press_debounce xs)" "unat (press_debounce xs) \<le> 20000"
    by (simp_all add: press_debounce_def max_def min_def word_le_nat_alt Let_def)
  moreover from this have "unat (ucast (press_debounce xs) :: u32) = unat (press_debounce xs)"
    by (simp add: unsigned_ucast_eq take_bit_nat_eq_self)
  ultimately show "1000 \<le> unat (ucast (press_debounce xs) :: u32)" "unat (ucast (press_debounce xs) :: u32) \<le> 20000" by simp_all
qed

lemma learn_bounce_typed: "typed se \<Longrightarrow> typed (learn_bounce ev q b se)"
proof -
  assume a: "typed se"
  obtain st eng where s: "se = (st, eng)" by fastforce
  let ?st = "st\<lparr>ps_debounce_us := DebounceFromBounceInterval (hb_bounce_max_interval_us b), ps_ready := True,
    ps_last_updated_unix := te_unix ev, ps_sample_count := max (ps_sample_count st) (max (hb_press_count b) (hb_bounce_transition_count b))\<rparr>"
  have "typed (?st, eng)"
    using debounce_typed [OF a [unfolded s], of ?st] DebounceFromBounceInterval_clamped by simp
  then show ?thesis using a by (simp add: learn_bounce_def s typed_intros Let_def)
qed

lemma note_press_typed: "state_typed (note_press now b st) = state_typed st"
  by (simp add: note_press_def state_typed_def Let_def)

lemma learn_press_typed: "typed se \<Longrightarrow> typed (learn_press now ev b se)"
proof -
  assume a: "typed se"
  obtain st eng where s: "se = (st, eng)" by fastforce
  let ?n = "note_press now b st"
  let ?e = "eng\<lparr>le_quiet_until := (le_quiet_until eng)(hb_device_serial_hash b \<mapsto> now + 500000)\<rparr>"
  let ?st = "?n\<lparr>ps_debounce_us := ucast (press_debounce (ps_inter_press_us ?n)), ps_ready := True, ps_last_updated_unix := te_unix ev\<rparr>"
  have n: "typed (?n, ?e)" using a by (simp add: s typed_def note_press_typed)
  then have "typed (?st, ?e)"
    using debounce_typed [of ?n ?e ?st] press_debounce_clamped by simp
  then show ?thesis using a n by (simp add: learn_press_def s typed_intros Let_def)
qed

lemma kind_typed: "typed (st, eng) \<Longrightarrow> k \<in> {CompScalarSingle, CompStickX, CompStickY, CompBoolean} \<Longrightarrow> typed (st\<lparr>ps_kind := k\<rparr>, eng)"
  by (simp add: typed_def state_typed_def learned_ok_def)

lemma tick_boolean_typed:
  assumes "engine_typed eng"
  shows "engine_typed (tick_boolean now ev b eng)"
proof -
  let ?h = "hb_device_serial_hash b" and ?q = "PathFromSnapshotBody b"
  obtain st e1 where s: "StateFor ?h ?q eng = (st, e1)" by fastforce
  have "typed (st\<lparr>ps_kind := CompBoolean\<rparr>, e1)" using StateFor_typed [OF assms, of ?h ?q] by (auto simp: s intro: kind_typed)
  then have "typed (learn_press now ev b (learn_bounce ev ?q b (st\<lparr>ps_kind := CompBoolean\<rparr>, e1)))"
    by (intro learn_press_typed learn_bounce_typed)
  then show ?thesis using put_state_typed assms by (force simp: tick_boolean_def s Let_def split: prod.splits)
qed

lemma rest_typed:
  "state_typed (note_peak b st) = state_typed st" "state_typed (learn_rest burst v st) = state_typed st"
  "state_typed (snd (at_rest now quiet vals isS isT b st)) = state_typed st"
  by (auto simp: note_peak_def learn_rest_def at_rest_def state_typed_def Let_def split: prod.splits option.splits)

lemma check_drift_typed:
  assumes "typed (st, eng)"
  shows "typed (check_drift now ev h (st, eng))"
proof -
  have "state_typed (forget now u x)" if "state_typed x" for u x using that by (simp add: forget_def state_typed_def learned_ok_def)
  moreover have "state_typed (st\<lparr>ps_drift_exceeded_since_us := t\<rparr>)"
    "state_typed (st\<lparr>ps_drift_exceeded_since_us := t, ps_drift_shift_pending := False\<rparr>)" for t
    using assms by (simp_all add: typed_def state_typed_def)
  ultimately show ?thesis
    using assms by (auto simp: check_drift_def Let_def typed_def [of "(_, _)"] intro!: sync_and_push_typed)
qed

lemma adopt_typed: "state_typed st \<Longrightarrow> state_typed (adopt u t k st)"
  by (auto simp: adopt_def state_typed_def learned_ok_def ClampDouble_def Let_def)

lemma learn_scalar_typed:
  assumes "typed se"
  shows "typed (learn_scalar now ev vals q b se)"
proof -
  obtain st eng where s: "se = (st, eng)" by fastforce
  let ?t = "IsTriggerKind (ps_kind st) q" and ?k = "IsStickKind (ps_kind st)"
  let ?quiet = "case le_quiet_until eng (hb_device_serial_hash b) of None \<Rightarrow> True | Some t \<Rightarrow> now \<ge> t"
  obtain rest st1 where r: "at_rest now ?quiet vals ?k ?t b (if ?t then note_peak b st else st) = (rest, st1)" by fastforce
  let ?l = "learn_rest (le_rest_burst_active eng) (hb_last_value b) st1"
  have "state_typed st1"
    using rest_typed(3) [of now ?quiet vals ?k ?t b "if ?t then note_peak b st else st"] assms
    by (auto simp: r rest_typed typed_def s split: if_splits)
  then have l: "typed (st1, eng)" "typed (?l, eng)" using assms by (simp_all add: typed_def s rest_typed)
  have "typed (check_ready ev (hb_device_serial_hash b) ?t ?k (?l, eng))"
    using l adopt_typed by (auto simp: check_ready_def Let_def typed_def [of "(_, _)"] intro!: sync_and_push_typed SyncProfile_typed)
  then show ?thesis
    using assms l check_drift_typed [OF l(2)] by (simp add: learn_scalar_def s r Let_def)
qed

lemma KindForBody_kind: "KindForBody b \<in> {CompScalarSingle, CompStickX, CompStickY, CompBoolean}"
  by (simp add: KindForBody_def)

lemma tick_scalar_typed:
  assumes "engine_typed eng"
  shows "engine_typed (tick_scalar now vals ev b eng)"
proof -
  let ?h = "hb_device_serial_hash b" and ?q = "PathFromSnapshotBody b"
  obtain st e1 where s: "StateFor ?h ?q eng = (st, e1)" by fastforce
  have "typed (st\<lparr>ps_kind := KindForBody b\<rparr>, e1)"
    using StateFor_typed [OF assms, of ?h ?q] KindForBody_kind by (simp add: s kind_typed del: insert_iff)
  from learn_scalar_typed [OF this, of now ev vals ?q b] show ?thesis
    using put_state_typed assms by (force simp: tick_scalar_def s Let_def split: prod.splits)
qed

lemma fold_typed: "(\<And>x e. engine_typed e \<Longrightarrow> engine_typed (f x e)) \<Longrightarrow> engine_typed eng \<Longrightarrow> engine_typed (fold f xs eng)"
  by (induction xs arbitrary: eng) auto

lemma pushed_state_typed: "record_typed r \<Longrightarrow> state_typed (pushed_state r h)"
  by (simp add: record_typed_def state_typed_def pushed_state_def)

lemma fold_push_typed:
  assumes "\<And>r. r \<in> set rs \<Longrightarrow> state_typed (f r)" "engine_typed eng"
  shows "engine_typed (fold (\<lambda>r e. if P r then e else PushCompensation dl h (f r) (g r) e) rs eng)"
  using assms by (induction rs arbitrary: eng) (auto simp: Push_typed)

lemma corrections_typed: "engine_typed eng \<Longrightarrow> engine_typed (SetDeviceCorrectionsEnabled dl h b eng)"
proof -
  assume a: "engine_typed eng"
  obtain p e1 where g: "GetOrCreate h eng = (p, e1)" by fastforce
  note k = GetOrCreate_typed [OF g a]
  let ?e = "e1\<lparr>le_profiles := (le_profiles e1)(h \<mapsto> p\<lparr>dv_corrections_enabled := b\<rparr>)\<rparr>"
  have "engine_typed ?e" using k by (intro put_profile_typed) auto
  then have "engine_typed (fold (\<lambda>r e. if b \<and> \<not> lr_ready r then e else PushCompensation dl (dv_serial_hash p)
      (pushed_state r (dv_serial_hash p)) (b \<and> lr_ready r) e) (dv_learned_paths p) ?e)"
    using k(2) by (intro fold_push_typed) (auto intro: pushed_state_typed)
  then show ?thesis using a k(1) by (simp add: SetDeviceCorrectionsEnabled_def g Let_def cong: if_cong)
qed

lemma push_ready_typed:
  assumes "engine_typed e" "\<forall>r\<in>set (dv_learned_paths p). record_typed r"
  shows "engine_typed (push_ready dl p e)"
proof -
  have "engine_typed (fold (\<lambda>r e. if \<not> lr_ready r then e else PushCompensation dl (dv_serial_hash p)
      (pushed_state r (dv_serial_hash p)) True e) (dv_learned_paths p) e)"
    using assms by (intro fold_push_typed) (auto intro: pushed_state_typed)
  then show ?thesis using assms(1) by (simp add: push_ready_def)
qed

lemma PushReady_typed:
  assumes "engine_typed eng"
  shows "engine_typed (PushReadyCompensations dl order eng)"
proof -
  have "\<forall>r\<in>set (dv_learned_paths p). record_typed r" if "le_profiles eng h = Some p" for h p
    using assms that by (auto simp: engine_typed_def profiles_typed_def)
  then show ?thesis
    unfolding PushReadyCompensations_def
    by (intro fold_typed) (auto split: option.splits intro: push_ready_typed assms)
qed

lemma UnlearnPath_typed: "engine_typed eng \<Longrightarrow> engine_typed (UnlearnPath dl h q eng)"
proof -
  assume a: "engine_typed eng"
  obtain p e1 where g: "GetOrCreate h eng = (p, e1)" by fastforce
  note k = GetOrCreate_typed [OF g a]
  let ?e = "e1\<lparr>le_profiles := (le_profiles e1)(h \<mapsto> p\<lparr>dv_learned_paths := filter (\<lambda>r. lr_path r \<noteq> q) (dv_learned_paths p)\<rparr>),
    le_states := (le_states e1)(KeyFor h q := None)\<rparr>"
  have e: "engine_typed ?e" using k by (auto simp: engine_typed_def profiles_typed_def)
  have "state_typed (PathState_init\<lparr>ps_serial_hash := h, ps_path := q, ps_kind := KindFromString x\<rparr>)" for x
    using KindFromString_kind [of x] by (simp add: state_typed_def learned_ok_def PathState_init_def)
  then show ?thesis using a e by (auto simp: UnlearnPath_def g Let_def intro!: Push_typed)
qed

lemma UnlearnDevice_typed: "engine_typed eng \<Longrightarrow> engine_typed (UnlearnDevice dl h eng)"
proof -
  assume a: "engine_typed eng"
  obtain p e1 where g: "GetOrCreate h eng = (p, e1)" by fastforce
  note k = GetOrCreate_typed [OF g a]
  let ?f = "\<lambda>r. PathState_init\<lparr>ps_serial_hash := h, ps_path := lr_path r, ps_kind := KindFromString (lr_kind r)\<rparr>"
  have "state_typed (?f r)" for r using KindFromString_kind [of "lr_kind r"] by (simp add: state_typed_def learned_ok_def PathState_init_def)
  then have "engine_typed (fold (\<lambda>r. PushCompensation dl h (?f r) False) (dv_learned_paths p) e1)"
    by (intro fold_typed Push_typed k(1))
  then show ?thesis using a by (auto simp: UnlearnDevice_def g engine_typed_def profiles_typed_def Let_def split: option.splits if_splits)
qed

lemma Flush_typed: "engine_typed eng \<Longrightarrow> engine_typed (Engine_Flush order eng)"
  unfolding Engine_Flush_def
proof (rule fold_typed)
  fix x :: "string \<times> sync_env" and e
  assume e: "engine_typed e"
  obtain k ev where x: "x = (k, ev)" by fastforce
  show "engine_typed ((\<lambda>(k, ev) eng. case le_states eng k of Some st \<Rightarrow> if ps_serial_hash st \<noteq> 0
      then let (st, eng) = SyncProfile ev (ps_serial_hash st) True st eng in eng\<lparr>le_states := (le_states eng)(k \<mapsto> st)\<rparr>
      else eng | None \<Rightarrow> eng) x e)"
  proof (cases "le_states e k")
    case (Some st)
    then have "typed (st, e)" using e by (auto simp: typed_def engine_typed_def)
    from SyncProfile_typed [OF this, of ev "ps_serial_hash st" True] show ?thesis
      using e by (auto simp: x Some typed_def engine_typed_def Let_def split: prod.splits)
  qed (use e in \<open>simp add: x\<close>)
qed

lemma Tick_typed: "engine_typed eng \<Longrightarrow> engine_typed (Engine_Tick now es eng)"
  unfolding Engine_Tick_def Let_def
  by (intro fold_typed) (auto intro: tick_boolean_typed tick_scalar_typed split: prod.splits)



section \<open>Restarting the overlay\<close>

text \<open>C33: What was learned survives a restart. After a state is stored at once, an engine that loads the
  stored profiles and asks for the path gets back the kind, readiness and all learned values; and where at
  least two samples were counted, the restored accumulator has the learned mean and exactly the learned
  deviation, so that learning resumes where it stopped.
\<close>

theorem restart_restores:
  assumes "SyncProfile ev (ps_serial_hash st) True st eng = (st', eng')" and "ps_serial_hash st \<noteq> 0"
    and "state_typed st" and "0 \<le> ps_stddev st"
    and "StateFor (ps_serial_hash st) (ps_path st) (fresh_engine (le_profiles eng')) = (st2, eng2)"
  shows "ps_kind st2 = ps_kind st \<and> ps_ready st2 = ps_ready st \<and> ps_sample_count st2 = ps_sample_count st
     \<and> ps_rest_offset st2 = ps_rest_offset st \<and> ps_stddev st2 = ps_stddev st
     \<and> ps_trigger_min st2 = ps_trigger_min st \<and> ps_trigger_max st2 = ps_trigger_max st
     \<and> ps_deadzone_radius st2 = ps_deadzone_radius st \<and> ps_debounce_us st2 = ps_debounce_us st
     \<and> (ps_sample_count st > 1 \<longrightarrow> wf_mean (ps_rest st2) = ps_rest_offset st \<and> SampleStdDev (ps_rest st2) = ps_stddev st)"
proof -
  let ?h = "ps_serial_hash st" and ?q = "ps_path st"
  obtain p where p: "le_profiles eng' ?h = Some (p\<lparr>dv_learned_paths := put_record st (dv_learned_paths p)\<rparr>)"
    using assms(1) by (auto simp: SyncProfile_def Let_def split: prod.splits)
  have f: "\<exists>r. FindRecord ?q (put_record st rs) = Some (record_of_state st r)" for rs
    unfolding FindRecord_def by (induction rs) (auto simp: record_of_state_def)
  obtain r where r: "FindRecord ?q (put_record st (dv_learned_paths p)) = Some (record_of_state st r)" using f by blast
  have k: "KindFromString (KindString (ps_kind st)) = ps_kind st"
    using assms(3) KindFromString_KindString by (simp add: state_typed_def learned_ok_def)
  have "st2 = state_of_record (record_of_state st r) (PathState_init\<lparr>ps_serial_hash := ?h, ps_path := ?q\<rparr>)"
    using assms(5) by (simp add: StateFor_def fresh_engine_def GetOrCreate_def p r init_serial Let_def)
  moreover have "sqrt (s * s * real (n - 1) / real (n - 1)) = s" if "0 \<le> s" "1 < n" for s n
    using that by (simp add: real_sqrt_mult_self)
  ultimately show ?thesis
    using assms(4) by (simp add: state_of_record_def record_of_state_def k SampleStdDev_def SampleVariance_def Let_def)
qed

theorem restart_restores_witness:
  "ps_trigger_max (fst (StateFor 7 ''/input/trigger/value'' (fresh_engine (le_profiles (snd
     (SyncProfile \<lparr>se_now = 0, se_saved = True, se_delivered = True\<rparr> 7 True
        (PathState_init\<lparr>ps_serial_hash := 7, ps_path := ''/input/trigger/value'', ps_trigger_max := 9 / 10\<rparr>)
        (fresh_engine Map.empty))))))) = 9 / 10"
proof -
  let ?st = "PathState_init\<lparr>ps_serial_hash := 7, ps_path := ''/input/trigger/value'', ps_trigger_max := 9 / 10\<rparr>"
  obtain st' eng' where s: "SyncProfile \<lparr>se_now = 0, se_saved = True, se_delivered = True\<rparr> (ps_serial_hash ?st) True ?st
      (fresh_engine Map.empty) = (st', eng')" by fastforce
  obtain st2 eng2 where l: "StateFor (ps_serial_hash ?st) (ps_path ?st) (fresh_engine (le_profiles eng')) = (st2, eng2)" by fastforce
  have "ps_trigger_max st2 = 9 / 10"
    using restart_restores [OF s _ _ _ l] by (simp add: state_typed_def learned_ok_def PathState_init_def)
  then show ?thesis using s l by simp
qed

end
