(* ===== verification/SeqLock.thy ===== *)
theory SeqLock
  imports Prelude
begin

text \<open>
  The per-slot sequence lock of the shared-memory tables in \<open>core/src/common/Protocol.h\<close>
  (\<open>InputHealthSnapshotShmem::WriteSlot\<close> and \<open>TryReadSlot\<close>, \<open>FaceTrackingFrameShmem::Publish\<close> and
  \<open>TryReadLatestWire\<close> use the same instructions). The body is the memory that \<open>memcpy\<close> copies, as
  bytes. First the whole operations, then one writer and one reader interleaved byte by byte
  (sequentially consistent, as x86 orders these release stores and acquire loads).
\<close>

section \<open>Whole operations\<close>

record seq_slot =
  generation :: u64
  slot_body :: "byte list"

definition seqlock_write :: "byte list \<Rightarrow> seq_slot \<Rightarrow> seq_slot" where
  "seqlock_write b s =
     (let prev = generation s;
          s1 = s\<lparr>generation := prev + 1\<rparr>;
          s2 = s1\<lparr>slot_body := b\<rparr>
      in s2\<lparr>generation := prev + 2\<rparr>)"

text \<open>The retry loop on a slot nobody writes meanwhile: both loads return the same generation.\<close>

primrec seqlock_read :: "nat \<Rightarrow> seq_slot \<Rightarrow> byte list option" where
  "seqlock_read 0 s = None"
| "seqlock_read (Suc n) s =
     (let g1 = generation s
      in if g1 AND 1 \<noteq> 0 then seqlock_read n s
         else let out = slot_body s; g2 = generation s
              in if g1 = g2 then Some out else seqlock_read n s)"

definition settled :: "seq_slot \<Rightarrow> bool" where
  "settled s \<longleftrightarrow> generation s AND 1 = 0"

lemma seqlock_write_simps [simp]:
  "generation (seqlock_write b s) = generation s + 2"
  "slot_body (seqlock_write b s) = b"
  by (simp_all add: seqlock_write_def Let_def)

lemma and_1_add_2 [simp]: "(g + 2) AND 1 = g AND (1 :: u64)"
  by (simp add: and_one_eq mod2_eq_if)

lemma settled_write [simp]: "settled (seqlock_write b s) \<longleftrightarrow> settled s"
  by (simp add: settled_def)

lemma seqlock_read_settled: "settled s \<Longrightarrow> 0 < n \<Longrightarrow> seqlock_read n s = Some (slot_body s)"
  by (cases n) (simp_all add: settled_def)

lemma seqlock_read_unsettled: "\<not> settled s \<Longrightarrow> seqlock_read n s = None"
  by (induction n) (simp_all add: settled_def)

lemma settled_update [simp]:
  "list_all settled xs \<Longrightarrow> list_all settled (xs[i := seqlock_write b (xs ! i)])"
  by (cases "i < length xs") (auto simp: list_all_length nth_list_update)

section \<open>One writer and one reader, interleaved\<close>

datatype writer_pc =
    WIdle
  | WCopy (w_prev: u64) (w_src: "byte list") (w_pos: nat)

datatype reader_pc =
    RTry nat
  | RCopy nat u64 "byte list"
  | RDone "byte list"
  | RFail

text \<open>
  \<open>history\<close> lists the bodies completely written so far, the newest first, starting with the initial
  one; \<open>writes\<close> counts the completed writes.
\<close>

record seq_sys =
  slot :: seq_slot
  writer :: writer_pc
  reader :: reader_pc
  history :: "byte list list"
  writes :: nat

definition seq_init :: "u64 \<Rightarrow> byte list \<Rightarrow> seq_sys" where
  "seq_init g b = \<lparr>slot = \<lparr>generation = g, slot_body = b\<rparr>, writer = WIdle, reader = RFail,
     history = [b], writes = 0\<rparr>"

inductive writer_step :: "seq_sys \<Rightarrow> seq_sys \<Rightarrow> bool" where
  w_begin: "writer s = WIdle \<Longrightarrow> length b = length (slot_body (slot s)) \<Longrightarrow>
     writer_step s (s\<lparr>slot := (slot s)\<lparr>generation := generation (slot s) + 1\<rparr>,
                     writer := WCopy (generation (slot s)) b 0\<rparr>)"
| w_copy: "writer s = WCopy prev b i \<Longrightarrow> i < length b \<Longrightarrow>
     writer_step s (s\<lparr>slot := (slot s)\<lparr>slot_body := (slot_body (slot s))[i := b ! i]\<rparr>,
                     writer := WCopy prev b (Suc i)\<rparr>)"
| w_end: "writer s = WCopy prev b (length b) \<Longrightarrow>
     writer_step s (s\<lparr>slot := (slot s)\<lparr>generation := prev + 2\<rparr>, writer := WIdle,
                     history := b # history s, writes := Suc (writes s)\<rparr>)"

inductive reader_step :: "seq_sys \<Rightarrow> seq_sys \<Rightarrow> bool" where
  r_call: "reader s = RFail \<or> reader s = RDone out \<Longrightarrow> reader_step s (s\<lparr>reader := RTry n\<rparr>)"
| r_fail: "reader s = RTry 0 \<Longrightarrow> reader_step s (s\<lparr>reader := RFail\<rparr>)"
| r_busy: "reader s = RTry (Suc n) \<Longrightarrow> generation (slot s) AND 1 \<noteq> 0 \<Longrightarrow>
     reader_step s (s\<lparr>reader := RTry n\<rparr>)"
| r_load: "reader s = RTry (Suc n) \<Longrightarrow> generation (slot s) AND 1 = 0 \<Longrightarrow>
     reader_step s (s\<lparr>reader := RCopy n (generation (slot s)) []\<rparr>)"
| r_copy: "reader s = RCopy n g out \<Longrightarrow> length out < length (slot_body (slot s)) \<Longrightarrow>
     reader_step s (s\<lparr>reader := RCopy n g (out @ [slot_body (slot s) ! length out])\<rparr>)"
| r_ok: "reader s = RCopy n g out \<Longrightarrow> length out = length (slot_body (slot s)) \<Longrightarrow>
     generation (slot s) = g \<Longrightarrow> reader_step s (s\<lparr>reader := RDone out\<rparr>)"
| r_torn: "reader s = RCopy n g out \<Longrightarrow> length out = length (slot_body (slot s)) \<Longrightarrow>
     generation (slot s) \<noteq> g \<Longrightarrow> reader_step s (s\<lparr>reader := RTry n\<rparr>)"

inductive seq_reachable :: "u64 \<Rightarrow> byte list \<Rightarrow> seq_sys \<Rightarrow> bool" for g0 b0 where
  seq_start: "seq_reachable g0 b0 (seq_init g0 b0)"
| seq_writer: "seq_reachable g0 b0 s \<Longrightarrow> writer_step s s' \<Longrightarrow> seq_reachable g0 b0 s'"
| seq_reader: "seq_reachable g0 b0 s \<Longrightarrow> reader_step s s' \<Longrightarrow> seq_reachable g0 b0 s'"

section \<open>The invariant\<close>

definition busy :: "seq_sys \<Rightarrow> nat" where
  "busy s = (case writer s of WIdle \<Rightarrow> 0 | _ \<Rightarrow> 1)"

definition writer_ok :: "u64 \<Rightarrow> seq_sys \<Rightarrow> bool" where
  "writer_ok g0 s \<longleftrightarrow>
     generation (slot s) = g0 + of_nat (2 * writes s + busy s) \<and>
     history s \<noteq> [] \<and>
     (case writer s of
        WIdle \<Rightarrow> slot_body (slot s) = hd (history s)
      | WCopy prev b i \<Rightarrow>
          prev = g0 + of_nat (2 * writes s) \<and> length b = length (slot_body (slot s)) \<and>
          i \<le> length b \<and> take i (slot_body (slot s)) = take i b)"

text \<open>A copy in progress that began after \<open>k\<close> writes is a prefix of the body as long as no write has
  begun since.\<close>

definition copy_ok :: "u64 \<Rightarrow> seq_sys \<Rightarrow> u64 \<Rightarrow> byte list \<Rightarrow> bool" where
  "copy_ok g0 s g out \<longleftrightarrow>
     length out \<le> length (slot_body (slot s)) \<and>
     (\<exists>k \<le> writes s. g = g0 + of_nat (2 * k) \<and>
        (k = writes s \<and> busy s = 0 \<longrightarrow> out = take (length out) (slot_body (slot s))))"

definition reader_ok :: "u64 \<Rightarrow> seq_sys \<Rightarrow> bool" where
  "reader_ok g0 s \<longleftrightarrow>
     (case reader s of
        RCopy n g out \<Rightarrow> copy_ok g0 s g out
      | RDone out \<Rightarrow> out \<in> set (history s)
      | _ \<Rightarrow> True)"

lemma generation_cancel:
  assumes "k \<le> n" and "n < 2 ^ 63" and "b \<le> 1"
    and "(g0 :: u64) + of_nat (2 * k) = g0 + of_nat (2 * n + b)"
  shows "k = n \<and> b = 0"
proof -
  have "(of_nat (2 * k) :: u64) = of_nat (2 * n + b)" using assms(4) by (rule add_left_imp_eq)
  then have "(2 * k) mod 2 ^ 64 = (2 * n + b) mod 2 ^ 64"
    by (simp only: word_of_nat_eq_iff take_bit_eq_mod) simp
  then have "2 * k = 2 * n + b" using assms(1-3) by simp
  then show ?thesis using assms(1,3) by presburger
qed

lemma take_length_eq: "length b = length c \<Longrightarrow> take (length b) c = take (length b) b \<Longrightarrow> c = b"
  by simp

lemma writer_ok_copyD:
  "writer_ok g0 s \<Longrightarrow> writer s = WCopy prev b i \<Longrightarrow>
     length b = length (slot_body (slot s)) \<and> take i (slot_body (slot s)) = take i b \<and>
     prev = g0 + of_nat (2 * writes s)"
  by (simp add: writer_ok_def)

lemma writer_ok_init: "writer_ok g0 (seq_init g0 b0)"
  by (simp add: writer_ok_def seq_init_def busy_def)

lemma writer_ok_writer_step: "writer_step s s' \<Longrightarrow> writer_ok g0 s \<Longrightarrow> writer_ok g0 s'"
proof (induction rule: writer_step.induct)
  case (w_begin s b)
  then show ?case by (simp add: writer_ok_def busy_def)
next
  case (w_copy s prev b i)
  then show ?case by (simp add: writer_ok_def busy_def take_Suc_conv_app_nth)
next
  case (w_end s prev b)
  note d = writer_ok_copyD [OF w_end(2,1)]
  then have "slot_body (slot s) = b" using take_length_eq by metis
  moreover have "prev = g0 + of_nat (2 * writes s)" using d by blast
  ultimately show ?case by (simp add: writer_ok_def busy_def)
qed

lemma writer_ok_reader_step: "reader_step s s' \<Longrightarrow> writer_ok g0 s \<Longrightarrow> writer_ok g0 s'"
  by (induction rule: reader_step.induct) (auto simp: writer_ok_def busy_def split: writer_pc.splits)

lemma busy_simps [simp]:
  "writer s = WIdle \<Longrightarrow> busy s = 0"
  "writer s = WCopy prev b i \<Longrightarrow> busy s = 1"
  by (simp_all add: busy_def)

lemma copy_ok_writer_step:
  "writer_step s s' \<Longrightarrow> copy_ok g0 s g out \<Longrightarrow> copy_ok g0 s' g out"
proof (induction rule: writer_step.induct)
  case (w_begin s b)
  then show ?case unfolding copy_ok_def by simp blast
next
  case (w_copy s prev b i)
  then show ?case unfolding copy_ok_def by simp
next
  case (w_end s prev b)
  then obtain k where "k \<le> writes s" "g = g0 + of_nat (2 * k)"
      "length out \<le> length (slot_body (slot s))"
    unfolding copy_ok_def by blast
  then show ?case unfolding copy_ok_def by (intro conjI exI [of _ k]) auto
qed

lemma reader_ok_writer_step:
  assumes "writer_step s s'" and "reader_ok g0 s"
  shows "reader_ok g0 s'"
proof -
  have "reader s' = reader s \<and> set (history s) \<subseteq> set (history s')"
    using assms(1) by (induction rule: writer_step.induct) auto
  then show ?thesis
    using assms copy_ok_writer_step [OF assms(1)]
    by (auto simp: reader_ok_def split: reader_pc.splits)
qed

text \<open>The step that accepts a copy: the generation is unchanged, so no write began or ended.\<close>

lemma accepted_copy:
  assumes "writer_ok g0 s" and "copy_ok g0 s g out" and "length out = length (slot_body (slot s))"
    and "generation (slot s) = g" and "writes s < 2 ^ 63"
  shows "writer s = WIdle \<and> out = hd (history s) \<and> history s \<noteq> []"
proof -
  obtain k where k: "k \<le> writes s" "g = g0 + of_nat (2 * k)"
      "k = writes s \<and> busy s = 0 \<longrightarrow> out = take (length out) (slot_body (slot s))"
    using assms(2) unfolding copy_ok_def by blast
  have "g0 + of_nat (2 * k) = g0 + of_nat (2 * writes s + busy s)"
    using assms(1,4) k(2) unfolding writer_ok_def by simp
  moreover have "busy s \<le> 1" by (simp add: busy_def split: writer_pc.splits)
  ultimately have "k = writes s \<and> busy s = 0"
    using generation_cancel k(1) assms(5) by blast
  moreover from this have "writer s = WIdle" by (simp add: busy_def split: writer_pc.splits)
  ultimately show ?thesis using k(3) assms(1,3) by (simp add: writer_ok_def)
qed

lemma reader_ok_reader_step:
  "reader_step s s' \<Longrightarrow> writes s < 2 ^ 63 \<Longrightarrow> writer_ok g0 s \<Longrightarrow> even g0 \<Longrightarrow> reader_ok g0 s
     \<Longrightarrow> reader_ok g0 s'"
proof (induction rule: reader_step.induct)
  case (r_load s n)
  have "busy s = 0 \<or> busy s = 1" by (simp add: busy_def split: writer_pc.splits)
  moreover have "busy s \<noteq> 1"
  proof
    assume "busy s = 1"
    with r_load have "generation (slot s) = g0 + of_nat (2 * writes s) + 1"
      by (simp add: writer_ok_def)
    moreover have "even (generation (slot s))" using r_load by (simp add: and_one_eq even_iff_mod_2_eq_zero)
    ultimately show False using \<open>even g0\<close> by simp
  qed
  ultimately show ?case using r_load
    by (auto simp: reader_ok_def copy_ok_def writer_ok_def)
next
  case (r_copy s n g out)
  then have c: "copy_ok g0 s g out" by (simp add: reader_ok_def)
  let ?s' = "s\<lparr>reader := RCopy n g (out @ [slot_body (slot s) ! length out])\<rparr>"
  have "busy ?s' = busy s" by (simp add: busy_def)
  then show ?case using r_copy(2) c
    unfolding reader_ok_def copy_ok_def by (fastforce simp: take_Suc_conv_app_nth)
next
  case (r_ok s n g out)
  then have "out = hd (history s) \<and> history s \<noteq> []"
    using accepted_copy [of g0 s g out] by (simp add: reader_ok_def)
  then show ?case by (simp add: reader_ok_def)
qed (auto simp: reader_ok_def)

lemma writes_mono:
  "writer_step s s' \<Longrightarrow> writes s \<le> writes s'"
  by (induction rule: writer_step.induct) auto

lemma writes_reader: "reader_step s s' \<Longrightarrow> writes s' = writes s"
  by (induction rule: reader_step.induct) auto

lemma seq_reachable_inv:
  assumes "seq_reachable g0 b0 s" and "even g0"
  shows "writes s < 2 ^ 63 \<longrightarrow> writer_ok g0 s \<and> reader_ok g0 s"
  using assms
proof (induction rule: seq_reachable.induct)
  case seq_start
  then show ?case by (simp add: writer_ok_init) (simp add: reader_ok_def seq_init_def)
next
  case (seq_writer s s')
  then show ?case
    using writes_mono [of s s'] writer_ok_writer_step [of s s' g0]
      reader_ok_writer_step [of s s' g0] by linarith
next
  case (seq_reader s s')
  then show ?case
    using writes_reader [of s s'] writer_ok_reader_step [of s s' g0]
      reader_ok_reader_step [of s s' g0] by linarith
qed

text \<open>C1: a read that reports success returns a body that was written completely: no interleaving of
  one writer and one reader hands out a mixture, as long as the slot starts with an even generation
  and the 64-bit counter does not wrap.\<close>

theorem seqlock_no_torn_read:
  assumes "seq_reachable g0 b0 s" and "even g0" and "writes s < 2 ^ 63" and "reader s = RDone out"
  shows "out \<in> set (history s)"
  using seq_reachable_inv [OF assms(1,2)] assms(3,4) by (simp add: reader_ok_def)

definition demo_read :: seq_sys where
  "demo_read = (seq_init 4 [7])\<lparr>reader := RDone [7]\<rparr>"

lemma demo_copied: "seq_reachable 4 [7] ((seq_init 4 [7])\<lparr>reader := RCopy 0 4 [7]\<rparr>)"
proof -
  have "seq_reachable 4 [7] ((seq_init 4 [7])\<lparr>reader := RTry 1\<rparr>)"
    using seq_reader [OF seq_start r_call] by (simp add: seq_init_def)
  then have "seq_reachable 4 [7] ((seq_init 4 [7])\<lparr>reader := RCopy 0 4 []\<rparr>)"
    using seq_reader [OF _ r_load [where n = 0]] by (fastforce simp: seq_init_def)
  then show ?thesis
    using seq_reader [OF _ r_copy [where n = 0 and g = 4 and out = "[]"]]
    by (fastforce simp: seq_init_def)
qed

theorem seqlock_no_torn_read_witness:
  "reader demo_read = RDone [7] \<and> [7] \<in> set (history demo_read)"
proof -
  have "seq_reachable 4 [7] demo_read"
    using seq_reader [OF demo_copied r_ok [where n = 0 and g = 4 and out = "[7]"]]
    by (simp add: seq_init_def demo_read_def)
  moreover have "reader demo_read = RDone [7]" "writes demo_read = 0"
    by (simp_all add: demo_read_def seq_init_def)
  ultimately show ?thesis using seqlock_no_torn_read [of 4 "[7]" demo_read "[7]"] by simp
qed

text \<open>The body returned is the current one: at the moment the second generation load confirms the
  copy, no write is in progress and the copy is the last body written.\<close>

theorem seqlock_read_current:
  assumes "seq_reachable g0 b0 s" and "even g0" and "writes s < 2 ^ 63"
    and "reader_step s s'" and "reader s' = RDone out" and "\<forall>out'. reader s \<noteq> RDone out'"
  shows "writer s = WIdle \<and> out = slot_body (slot s) \<and> out = hd (history s)"
proof -
  have ok: "writer_ok g0 s" "reader_ok g0 s" using seq_reachable_inv [OF assms(1,2)] assms(3) by auto
  from assms(4,5,6) obtain n g where "reader s = RCopy n g out"
      "length out = length (slot_body (slot s))" "generation (slot s) = g"
    by (cases rule: reader_step.cases) auto
  then have "writer s = WIdle \<and> out = hd (history s)"
    using accepted_copy [of g0 s g out] ok assms(3) by (simp add: reader_ok_def)
  then show ?thesis using ok(1) by (simp add: writer_ok_def)
qed

theorem seqlock_read_current_witness:
  "[7] = slot_body (slot ((seq_init 4 [7])\<lparr>reader := RCopy 0 4 [7]\<rparr>))"
proof -
  let ?s = "(seq_init 4 [7])\<lparr>reader := RCopy 0 4 [7]\<rparr>"
  have "reader_step ?s (?s\<lparr>reader := RDone [7]\<rparr>)"
    by (rule r_ok [where n = 0 and g = 4]) (simp_all add: seq_init_def)
  moreover have "writes ?s < 2 ^ 63" by (simp add: seq_init_def)
  moreover have "\<forall>out'. reader ?s \<noteq> RDone out'" "reader (?s\<lparr>reader := RDone [7]\<rparr>) = RDone [7]"
    by simp_all
  ultimately show ?thesis using seqlock_read_current [OF demo_copied] by fastforce
qed

section \<open>An undisturbed write is the whole operation\<close>

lemma writer_copies:
  assumes "seq_reachable g0 b0 s" and "writer s = WCopy prev b i" and "i \<le> length b"
    and "length b = length (slot_body (slot s))" and "take i (slot_body (slot s)) = take i b"
  shows "seq_reachable g0 b0 (s\<lparr>slot := (slot s)\<lparr>slot_body := b\<rparr>, writer := WCopy prev b (length b)\<rparr>)"
  using assms
proof (induction "length b - i" arbitrary: s i)
  case 0
  then have i: "i = length b" by linarith
  then have "slot_body (slot s) = b" using take_length_eq "0.prems"(4,5) by blast
  then have "s\<lparr>slot := (slot s)\<lparr>slot_body := b\<rparr>, writer := WCopy prev b (length b)\<rparr> = s"
    using "0.prems"(2) i by (cases s) auto
  with "0.prems"(1) show ?case by simp
next
  case (Suc d)
  let ?s = "s\<lparr>slot := (slot s)\<lparr>slot_body := (slot_body (slot s))[i := b ! i]\<rparr>,
              writer := WCopy prev b (Suc i)\<rparr>"
  have i: "i < length b" using Suc(2) by simp
  then have "seq_reachable g0 b0 ?s" using Suc.prems by (blast intro: seq_writer w_copy)
  moreover have "take (Suc i) (slot_body (slot ?s)) = take (Suc i) b"
    using Suc.prems i by (simp add: take_Suc_conv_app_nth)
  ultimately show ?case using Suc(1) [of "Suc i" ?s] Suc(2) Suc.prems i by simp
qed

text \<open>From an idle writer the interleaved steps can always finish a write, and when nothing else
  runs they end in exactly the slot that the whole operation computes.\<close>

theorem seqlock_write_completes:
  assumes "seq_reachable g0 b0 s" and "writer s = WIdle" and "length b = length (slot_body (slot s))"
  shows "seq_reachable g0 b0 (s\<lparr>slot := seqlock_write b (slot s), history := b # history s,
           writes := Suc (writes s)\<rparr>)"
proof -
  let ?g = "generation (slot s)"
  let ?s1 = "s\<lparr>slot := (slot s)\<lparr>generation := ?g + 1\<rparr>, writer := WCopy ?g b 0\<rparr>"
  let ?s2 = "?s1\<lparr>slot := (slot ?s1)\<lparr>slot_body := b\<rparr>, writer := WCopy ?g b (length b)\<rparr>"
  have "seq_reachable g0 b0 ?s1" using assms by (blast intro: seq_writer w_begin)
  then have "seq_reachable g0 b0 ?s2"
    by (rule writer_copies [where i = 0]) (use assms(3) in simp_all)
  then have "seq_reachable g0 b0 (?s2\<lparr>slot := (slot ?s2)\<lparr>generation := ?g + 2\<rparr>, writer := WIdle,
      history := b # history ?s2, writes := Suc (writes ?s2)\<rparr>)"
    by (rule seq_writer) (rule w_end, simp)
  then show ?thesis using assms(2) by (cases s) (simp add: seqlock_write_def Let_def)
qed

theorem seqlock_write_completes_witness:
  "seq_reachable 4 [7] ((seq_init 4 [7])\<lparr>slot := seqlock_write [9] \<lparr>generation = 4, slot_body = [7]\<rparr>,
     history := [[9], [7]], writes := 1\<rparr>)"
  using seqlock_write_completes [OF seq_start, of 4 "[7]" "[9]"] by (simp add: seq_init_def)

section \<open>A slot left with an odd generation\<close>

lemma settled_fold_write: "settled (fold seqlock_write bs s) \<longleftrightarrow> settled s"
  by (induction bs arbitrary: s) simp_all

text \<open>A slot found with an odd generation (a writer that died between its two stores; the segment
  outlives it while a reader keeps it open, and \<open>Create\<close> leaves the slots as they are) never
  recovers: after any number of complete writes every read of the resting slot still fails.\<close>

theorem seqlock_odd_generation_stuck:
  assumes "generation s AND 1 \<noteq> 0"
  shows "seqlock_read n (fold seqlock_write bs s) = None"
  using assms settled_fold_write [of bs s] by (simp add: seqlock_read_unsettled settled_def)

theorem seqlock_odd_generation_stuck_witness:
  "seqlock_read 8 (fold seqlock_write [[1], [2]] \<lparr>generation = 5, slot_body = [0]\<rparr>) = None"
  by (rule seqlock_odd_generation_stuck) simp

end
