(* ===== verification/Shmem.thy ===== *)
theory Shmem
  imports SeqLock Protocol
begin

text \<open>
  The shared-memory segments of \<open>core/src/common/Protocol.h\<close>: creation and opening with the header
  check, the InputHealth slot table, the face-tracking frame ring and the OSC router statistics. What
  the operating system answers (whether the mapping and the view succeed, what the mapped memory
  holds) is an argument. The contract of a slot table is the locale \<open>slot_table\<close>.
\<close>

section \<open>Mappings\<close>

datatype handle = INVALID_HANDLE_VALUE | NullHandle | MappedFile

datatype shmem_error = OpenFailed | MapFailed | MagicMismatch u32 | VersionMismatch u32

record 'd shm =
  hMapFile :: handle
  pData :: "'d option"

definition shm_empty :: "'d shm" where
  "shm_empty = \<lparr>hMapFile = INVALID_HANDLE_VALUE, pData = None\<rparr>"

text \<open>\<open>Close\<close>, the same in every segment class.\<close>

definition shm_Close :: "'d shm \<Rightarrow> 'd shm" where
  "shm_Close s =
     s\<lparr>pData := None,
       hMapFile := (if hMapFile s \<noteq> NullHandle \<and> hMapFile s \<noteq> INVALID_HANDLE_VALUE
                    then INVALID_HANDLE_VALUE else hMapFile s)\<rparr>"

text \<open>\<open>Create\<close>: \<open>file_ok\<close> is the answer of \<open>CreateFileMappingA\<close>, \<open>view\<close> that of \<open>MapViewOfFile\<close> with
  what the mapping holds; \<open>stamp\<close> writes the header of the class.\<close>

definition shm_Create :: "('d \<Rightarrow> 'd) \<Rightarrow> bool \<Rightarrow> 'd option \<Rightarrow> 'd shm \<Rightarrow> bool \<times> 'd shm" where
  "shm_Create stamp file_ok view s =
     (let s = shm_Close s in
      if \<not> file_ok then (False, s\<lparr>hMapFile := NullHandle\<rparr>)
      else let s = s\<lparr>hMapFile := MappedFile, pData := view\<rparr>
           in case pData s of
                None \<Rightarrow> (False, s)
              | Some d \<Rightarrow> (True, s\<lparr>pData := Some (stamp d)\<rparr>))"

text \<open>\<open>Open\<close>: the exception thrown, if any, and the object afterwards.\<close>

definition shm_Open ::
  "('d \<Rightarrow> u32) \<Rightarrow> ('d \<Rightarrow> u32) \<Rightarrow> u32 \<Rightarrow> u32 \<Rightarrow> bool \<Rightarrow> 'd option \<Rightarrow> 'd shm
     \<Rightarrow> shmem_error option \<times> 'd shm" where
  "shm_Open get_magic get_version magic version file_ok view s =
     (let s = shm_Close s in
      if \<not> file_ok then (Some OpenFailed, s\<lparr>hMapFile := NullHandle\<rparr>)
      else let s = s\<lparr>hMapFile := MappedFile, pData := view\<rparr>
           in case pData s of
                None \<Rightarrow> (Some MapFailed, s\<lparr>hMapFile := INVALID_HANDLE_VALUE\<rparr>)
              | Some d \<Rightarrow>
                  if get_magic d \<noteq> magic then (Some (MagicMismatch (get_magic d)), shm_Close s)
                  else if get_version d \<noteq> version
                  then (Some (VersionMismatch (get_version d)), shm_Close s)
                  else (None, s))"

lemmas shm_defs = shm_Close_def shm_Create_def shm_Open_def Let_def

lemma shm_Open_error_unmapped:
  "fst (shm_Open gm gv m v ok view s) \<noteq> None \<Longrightarrow> pData (snd (shm_Open gm gv m v ok view s)) = None"
  by (auto simp: shm_defs split: option.splits if_splits)

lemma shm_Open_ok:
  "fst (shm_Open gm gv m v ok view s) = None \<longleftrightarrow>
     ok \<and> (\<exists>d. view = Some d \<and> gm d = m \<and> gv d = v \<and>
               pData (snd (shm_Open gm gv m v ok view s)) = Some d)"
  by (auto simp: shm_defs split: option.splits if_splits)

section \<open>The contract of a slot table\<close>

text \<open>
  Slots below \<open>N\<close> are written and read independently; a read returns the body last written, as
  \<open>stored\<close> in the slot.
\<close>

locale slot_table =
  fixes wf :: "'t \<Rightarrow> bool"
    and wr :: "nat \<Rightarrow> 'b \<Rightarrow> 't \<Rightarrow> 't"
    and rd :: "nat \<Rightarrow> 't \<Rightarrow> 'c option"
    and stored :: "'b \<Rightarrow> 'c"
    and N :: nat
  assumes wf_wr: "wf t \<Longrightarrow> wf (wr i b t)"
    and rd_wr_same: "wf t \<Longrightarrow> i < N \<Longrightarrow> rd i (wr i b t) = Some (stored b)"
    and rd_wr_other: "wf t \<Longrightarrow> i < N \<Longrightarrow> j < N \<Longrightarrow> i \<noteq> j \<Longrightarrow> rd j (wr i b t) = rd j t"
begin

lemma wf_writes: "wf t \<Longrightarrow> wf (fold (\<lambda>(i, b). wr i b) ws t)"
  by (induction ws arbitrary: t) (auto simp: wf_wr)

text \<open>After a batch of writes a slot holds the last body written to it, or what it held before.\<close>

lemma rd_writes:
  assumes "wf t" and "j < N" and "\<forall>(i, b) \<in> set ws. i < N"
  shows "rd j (fold (\<lambda>(i, b). wr i b) ws t) =
    (case map_of (rev ws) j of Some b \<Rightarrow> Some (stored b) | None \<Rightarrow> rd j t)"
  using assms
proof (induction ws arbitrary: t)
  case (Cons w ws)
  obtain i b where w: "w = (i, b)" by (rule prod.exhaust)
  have "rd j (fold (\<lambda>(i, b). wr i b) ws (wr i b t)) =
      (case map_of (rev ws) j of Some b \<Rightarrow> Some (stored b) | None \<Rightarrow> rd j (wr i b t))"
    using Cons w by (simp add: wf_wr)
  moreover have "rd j (wr i b t) = (if i = j then Some (stored b) else rd j t)"
    using Cons.prems w by (simp add: rd_wr_same rd_wr_other)
  ultimately show ?case by (auto simp: w map_add_def split: option.splits)
qed simp

text \<open>A pass that writes slot \<open>i\<close> with the \<open>i\<close>-th body.\<close>

lemma rd_pass:
  assumes "wf t" and "length bs \<le> N" and "j < length bs"
  shows "rd j (fold (\<lambda>(i, b). wr i b) (enumerate 0 bs) t) = Some (stored (bs ! j))"
proof -
  have "distinct (map fst (rev (enumerate 0 bs)))" by (simp add: rev_map [symmetric])
  moreover have "(j, bs ! j) \<in> set (rev (enumerate 0 bs))"
    using assms(3) by (simp add: in_set_enumerate_eq)
  ultimately have "map_of (rev (enumerate 0 bs)) j = Some (bs ! j)" by (rule map_of_is_SomeI)
  moreover have "\<forall>(i, b) \<in> set (enumerate 0 bs). i < N"
    using assms(2) by (auto simp: in_set_enumerate_eq)
  ultimately show ?thesis using rd_writes [OF assms(1)] assms(2,3) by simp
qed

end

section \<open>InputHealthSnapshotShmem\<close>

definition INPUTHEALTH_SLOT_COUNT :: nat where "INPUTHEALTH_SLOT_COUNT = 256"

record ih_data =
  ih_magic :: u32
  ih_version :: u32
  ih_slot_count :: u32
  ih_publish_tick :: u64
  ih_slots :: "seq_slot list"

type_synonym ih_shmem = "ih_data shm"

definition ih_stamp :: "ih_data \<Rightarrow> ih_data" where
  "ih_stamp d = d\<lparr>ih_magic := 0x494E4848, ih_version := 3,
                  ih_slot_count := of_nat INPUTHEALTH_SLOT_COUNT\<rparr>"

definition IH_Create :: "bool \<Rightarrow> ih_data option \<Rightarrow> ih_shmem \<Rightarrow> bool \<times> ih_shmem" where
  "IH_Create = shm_Create ih_stamp"

definition IH_Open :: "bool \<Rightarrow> ih_data option \<Rightarrow> ih_shmem \<Rightarrow> shmem_error option \<times> ih_shmem" where
  "IH_Open = shm_Open ih_magic ih_version 0x494E4848 3"

definition IH_SlotCount :: "ih_shmem \<Rightarrow> u32" where
  "IH_SlotCount s = (case pData s of Some d \<Rightarrow> ih_slot_count d | None \<Rightarrow> 0)"

definition IH_BumpPublishTick :: "ih_shmem \<Rightarrow> ih_shmem" where
  "IH_BumpPublishTick s =
     (case pData s of
        None \<Rightarrow> s
      | Some d \<Rightarrow> s\<lparr>pData := Some (d\<lparr>ih_publish_tick := ih_publish_tick d + 1\<rparr>)\<rparr>)"

definition IH_LoadPublishTick :: "ih_shmem \<Rightarrow> u64" where
  "IH_LoadPublishTick s = (case pData s of Some d \<Rightarrow> ih_publish_tick d | None \<Rightarrow> 0)"

text \<open>The index of the slot handed out, \<open>None\<close> for a null pointer.\<close>

definition IH_SlotForWrite :: "u32 \<Rightarrow> ih_shmem \<Rightarrow> nat option" where
  "IH_SlotForWrite index s =
     (case pData s of
        None \<Rightarrow> None
      | Some d \<Rightarrow> if index \<ge> ih_slot_count d then None else Some (unat index))"

definition IH_WriteSlot :: "u32 \<Rightarrow> byte list \<Rightarrow> ih_shmem \<Rightarrow> ih_shmem" where
  "IH_WriteSlot index b s =
     (case (pData s, IH_SlotForWrite index s) of
        (Some d, Some i) \<Rightarrow>
          s\<lparr>pData := Some (d\<lparr>ih_slots := (ih_slots d)[i := seqlock_write b (ih_slots d ! i)]\<rparr>)\<rparr>
      | _ \<Rightarrow> s)"

definition IH_TryReadSlot :: "nat \<Rightarrow> u32 \<Rightarrow> ih_shmem \<Rightarrow> byte list option" where
  "IH_TryReadSlot max_retries index s =
     (case pData s of
        None \<Rightarrow> None
      | Some d \<Rightarrow>
          if index \<ge> ih_slot_count d then None
          else seqlock_read max_retries (ih_slots d ! unat index))"

definition ih_wf :: "ih_shmem \<Rightarrow> bool" where
  "ih_wf s \<longleftrightarrow> (\<exists>d. pData s = Some d \<and> ih_slot_count d = of_nat INPUTHEALTH_SLOT_COUNT \<and>
      length (ih_slots d) = INPUTHEALTH_SLOT_COUNT \<and> list_all settled (ih_slots d))"

lemmas ih_defs = IH_SlotForWrite_def IH_WriteSlot_def IH_TryReadSlot_def INPUTHEALTH_SLOT_COUNT_def

lemma u32_less_256:
  "i < 256 \<Longrightarrow> (256 :: u32) \<le> of_nat i \<longleftrightarrow> False"
  "i < 256 \<Longrightarrow> unat (of_nat i :: u32) = i"
  by (simp_all add: word_le_nat_alt unat_of_nat)

interpretation ih: slot_table ih_wf "\<lambda>i b s. IH_WriteSlot (of_nat i) b s"
    "\<lambda>i s. IH_TryReadSlot (Suc n) (of_nat i) s" "\<lambda>b. b" INPUTHEALTH_SLOT_COUNT for n
proof
  fix t i b
  assume t: "ih_wf t"
  then show "ih_wf (IH_WriteSlot (of_nat i) b t)"
    by (auto simp: ih_wf_def ih_defs split: option.splits)
  assume i: "i < INPUTHEALTH_SLOT_COUNT"
  with t show "IH_TryReadSlot (Suc n) (of_nat i) (IH_WriteSlot (of_nat i) b t) = Some b"
    by (auto simp: ih_wf_def ih_defs u32_less_256 seqlock_read_settled list_all_length not_le simp del: seqlock_read.simps)
  fix j
  assume "j < INPUTHEALTH_SLOT_COUNT" "i \<noteq> j"
  with t i show "IH_TryReadSlot (Suc n) (of_nat j) (IH_WriteSlot (of_nat i) b t) =
      IH_TryReadSlot (Suc n) (of_nat j) t"
    by (auto simp: ih_wf_def ih_defs u32_less_256 simp del: seqlock_read.simps)
qed

section \<open>OscRouterStatsShmem\<close>

definition OSC_ROUTER_ROUTE_SLOTS :: nat where "OSC_ROUTER_ROUTE_SLOTS = 32"
definition OSC_ROUTE_ADDR_LEN :: nat where "OSC_ROUTE_ADDR_LEN = 64"

record route_slot =
  rs_generation :: u64
  rs_address_pattern :: cstring
  rs_subscriber_id :: cstring
  rs_match_count :: u64
  rs_drop_count :: u64
  rs_last_match_tick :: u64
  rs_active :: byte

record osc_data =
  od_magic :: u32
  od_version :: u32
  od_packets_sent :: u64
  od_bytes_sent :: u64
  od_packets_dropped :: u64
  od_routes :: "route_slot list"

type_synonym osc_shmem = "osc_data shm"

definition OSC_Create :: "bool \<Rightarrow> osc_data option \<Rightarrow> osc_shmem \<Rightarrow> bool \<times> osc_shmem" where
  "OSC_Create = shm_Create (\<lambda>d. d\<lparr>od_magic := 0xC5C7057C, od_version := 1\<rparr>)"

definition OSC_Open :: "bool \<Rightarrow> osc_data option \<Rightarrow> osc_shmem \<Rightarrow> shmem_error option \<times> osc_shmem" where
  "OSC_Open = shm_Open od_magic od_version 0xC5C7057C 1"

definition OSC_AddSent :: "u64 \<Rightarrow> osc_shmem \<Rightarrow> osc_shmem" where
  "OSC_AddSent n s =
     (case pData s of
        None \<Rightarrow> s
      | Some d \<Rightarrow> s\<lparr>pData := Some (d\<lparr>od_packets_sent := od_packets_sent d + 1,
                                      od_bytes_sent := od_bytes_sent d + n\<rparr>)\<rparr>)"

definition OSC_AddDropped :: "osc_shmem \<Rightarrow> osc_shmem" where
  "OSC_AddDropped s =
     (case pData s of
        None \<Rightarrow> s
      | Some d \<Rightarrow> s\<lparr>pData := Some (d\<lparr>od_packets_dropped := od_packets_dropped d + 1\<rparr>)\<rparr>)"

text \<open>\<open>CopyStrField\<close>; a null source is \<open>None\<close>.\<close>

definition CopyStrField :: "nat \<Rightarrow> cstring option \<Rightarrow> cstring" where
  "CopyStrField dst_size src = (case src of None \<Rightarrow> [] | Some s \<Rightarrow> copy_str_field dst_size s)"

record route_stat =
  st_pattern :: cstring
  st_label :: cstring
  st_match :: u64
  st_drop :: u64
  st_tick :: u64
  st_active :: bool

definition write_route_slot :: "route_stat \<Rightarrow> route_slot \<Rightarrow> route_slot" where
  "write_route_slot r s =
     (let prev = rs_generation s;
          s1 = s\<lparr>rs_generation := prev + 1\<rparr>;
          s2 = s1\<lparr>rs_address_pattern := CopyStrField OSC_ROUTE_ADDR_LEN (Some (st_pattern r)),
                  rs_subscriber_id := CopyStrField 32 (Some (st_label r)),
                  rs_match_count := st_match r, rs_drop_count := st_drop r,
                  rs_last_match_tick := st_tick r, rs_active := (if st_active r then 1 else 0)\<rparr>
      in s2\<lparr>rs_generation := prev + 2\<rparr>)"

definition OSC_WriteRoute :: "u32 \<Rightarrow> route_stat \<Rightarrow> osc_shmem \<Rightarrow> osc_shmem" where
  "OSC_WriteRoute index r s =
     (case pData s of
        None \<Rightarrow> s
      | Some d \<Rightarrow>
          if index \<ge> of_nat OSC_ROUTER_ROUTE_SLOTS then s
          else s\<lparr>pData := Some (d\<lparr>od_routes :=
                 (od_routes d)[unat index := write_route_slot r (od_routes d ! unat index)]\<rparr>)\<rparr>)"

definition OSC_ReadGlobalStats :: "osc_shmem \<Rightarrow> router_stats option" where
  "OSC_ReadGlobalStats s =
     (case pData s of
        None \<Rightarrow> None
      | Some d \<Rightarrow> Some \<lparr>os_packets_sent = od_packets_sent d, os_bytes_sent = od_bytes_sent d,
                       os_packets_dropped = od_packets_dropped d,
                       os_active_routes = fold (\<lambda>r n. if rs_active r \<noteq> 0 then n + 1 else n)
                                               (take OSC_ROUTER_ROUTE_SLOTS (od_routes d)) 0\<rparr>)"

primrec read_route_slot :: "nat \<Rightarrow> route_slot \<Rightarrow> route_slot option" where
  "read_route_slot 0 s = None"
| "read_route_slot (Suc n) s =
     (let g1 = rs_generation s
      in if g1 AND 1 \<noteq> 0 then read_route_slot n s
         else let out = s; g2 = rs_generation s
              in if g1 = g2 then Some out else read_route_slot n s)"

definition OSC_TryReadRoute :: "nat \<Rightarrow> u32 \<Rightarrow> osc_shmem \<Rightarrow> route_slot option" where
  "OSC_TryReadRoute max_retries index s =
     (case pData s of
        None \<Rightarrow> None
      | Some d \<Rightarrow>
          if index \<ge> of_nat OSC_ROUTER_ROUTE_SLOTS then None
          else read_route_slot max_retries (od_routes d ! unat index))"

definition osc_wf :: "osc_shmem \<Rightarrow> bool" where
  "osc_wf s \<longleftrightarrow> (\<exists>d. pData s = Some d \<and> length (od_routes d) = OSC_ROUTER_ROUTE_SLOTS \<and>
      list_all (\<lambda>r. rs_generation r AND 1 = 0) (od_routes d))"

text \<open>What a reader finds in a slot, the generation aside.\<close>

definition slot_view :: "route_slot \<Rightarrow> route_stat" where
  "slot_view s = \<lparr>st_pattern = rs_address_pattern s, st_label = rs_subscriber_id s,
     st_match = rs_match_count s, st_drop = rs_drop_count s, st_tick = rs_last_match_tick s,
     st_active = (rs_active s \<noteq> 0)\<rparr>"

definition stored_stat :: "route_stat \<Rightarrow> route_stat" where
  "stored_stat r = r\<lparr>st_pattern := copy_str_field OSC_ROUTE_ADDR_LEN (st_pattern r),
                     st_label := copy_str_field 32 (st_label r)\<rparr>"

lemma write_route_slot_simps [simp]:
  "rs_generation (write_route_slot r s) = rs_generation s + 2"
  "slot_view (write_route_slot r s) = stored_stat r"
  by (simp_all add: write_route_slot_def slot_view_def stored_stat_def CopyStrField_def Let_def)

lemma read_route_slot_even:
  "rs_generation s AND 1 = 0 \<Longrightarrow> read_route_slot (Suc n) s = Some s"
  by simp

lemmas osc_defs = OSC_WriteRoute_def OSC_TryReadRoute_def OSC_ROUTER_ROUTE_SLOTS_def

lemma u32_less_32:
  "i < 32 \<Longrightarrow> (32 :: u32) \<le> of_nat i \<longleftrightarrow> False"
  "i < 32 \<Longrightarrow> unat (of_nat i :: u32) = i"
  by (simp_all add: word_le_nat_alt unat_of_nat)

lemma routes_update:
  "list_all (\<lambda>r. rs_generation r AND 1 = 0) xs \<Longrightarrow>
   list_all (\<lambda>r. rs_generation r AND 1 = 0) (xs[i := write_route_slot r (xs ! i)])"
  by (cases "i < length xs") (auto simp: list_all_length nth_list_update)

interpretation osc: slot_table osc_wf "\<lambda>i r s. OSC_WriteRoute (of_nat i) r s"
    "\<lambda>i s. map_option slot_view (OSC_TryReadRoute (Suc n) (of_nat i) s)" stored_stat
    OSC_ROUTER_ROUTE_SLOTS for n
proof
  fix t i r
  assume t: "osc_wf t"
  then show "osc_wf (OSC_WriteRoute (of_nat i) r t)"
    by (auto simp: osc_wf_def osc_defs routes_update split: option.splits)
  assume i: "i < OSC_ROUTER_ROUTE_SLOTS"
  with t show "map_option slot_view
      (OSC_TryReadRoute (Suc n) (of_nat i) (OSC_WriteRoute (of_nat i) r t)) = Some (stored_stat r)"
    by (auto simp: osc_wf_def osc_defs u32_less_32 list_all_length)
  fix j
  assume "j < OSC_ROUTER_ROUTE_SLOTS" "i \<noteq> j"
  with t i show "map_option slot_view
      (OSC_TryReadRoute (Suc n) (of_nat j) (OSC_WriteRoute (of_nat i) r t)) =
      map_option slot_view (OSC_TryReadRoute (Suc n) (of_nat j) t)"
    by (auto simp: osc_wf_def osc_defs u32_less_32 simp del: read_route_slot.simps)
qed

end
