(* ===== verification/FaceRing.thy ===== *)
theory FaceRing
  imports Shmem
begin

text \<open>
  \<open>FaceTrackingFrameShmem\<close> (\<open>core/src/common/Protocol.h\<close>): the 32-slot ring of face-tracking frames
  with its publish index, and the host liveness fields. A frame is the wire body as bytes. The ring
  refines the list of frames published so far.
\<close>

definition FT_RING_SIZE :: nat where "FT_RING_SIZE = 32"

definition HostStateLegacy :: u32 where "HostStateLegacy = 0"
definition HostStatePublishing :: u32 where "HostStatePublishing = 1"
definition HostStateIdle :: u32 where "HostStateIdle = 2"
definition HostStateDraining :: u32 where "HostStateDraining = 3"

record ft_data =
  ft_magic :: u32
  ft_version :: u32
  ft_ring_size :: u32
  ft_host_state :: u32
  ft_host_heartbeat_qpc :: u64
  ft_publish_index :: u64
  ft_slots :: "seq_slot list"

type_synonym ft_shmem = "ft_data shm"

definition FT_Create :: "bool \<Rightarrow> ft_data option \<Rightarrow> ft_shmem \<Rightarrow> bool \<times> ft_shmem" where
  "FT_Create = shm_Create (\<lambda>d. d\<lparr>ft_magic := 0x46544652, ft_version := 3,
                                  ft_ring_size := of_nat FT_RING_SIZE\<rparr>)"

definition FT_Open :: "bool \<Rightarrow> ft_data option \<Rightarrow> ft_shmem \<Rightarrow> shmem_error option \<times> ft_shmem" where
  "FT_Open = shm_Open ft_magic ft_version 0x46544652 3"

definition FT_RingSize :: "ft_shmem \<Rightarrow> u32" where
  "FT_RingSize s = (case pData s of Some d \<Rightarrow> ft_ring_size d | None \<Rightarrow> 0)"

definition FT_PublishIndex :: "ft_shmem \<Rightarrow> u64" where
  "FT_PublishIndex s = (case pData s of Some d \<Rightarrow> ft_publish_index d | None \<Rightarrow> 0)"

definition FT_HostHeartbeatQpc :: "ft_shmem \<Rightarrow> u64" where
  "FT_HostHeartbeatQpc s = (case pData s of Some d \<Rightarrow> ft_host_heartbeat_qpc d | None \<Rightarrow> 0)"

definition FT_HostStateField :: "ft_shmem \<Rightarrow> u32" where
  "FT_HostStateField s = (case pData s of None \<Rightarrow> HostStateLegacy | Some d \<Rightarrow> ft_host_state d)"

definition FT_ResetHostLiveness :: "ft_shmem \<Rightarrow> ft_shmem" where
  "FT_ResetHostLiveness s =
     (case pData s of
        None \<Rightarrow> s
      | Some d \<Rightarrow> s\<lparr>pData := Some (d\<lparr>ft_host_state := HostStateLegacy,
                                      ft_host_heartbeat_qpc := 0\<rparr>)\<rparr>)"

text \<open>\<open>(index - 1) % RING_SIZE\<close> in 64-bit arithmetic.\<close>

definition ft_slot_of :: "u64 \<Rightarrow> nat" where
  "ft_slot_of index = unat ((index - 1) mod of_nat FT_RING_SIZE)"

definition FT_TryReadLatestWire :: "nat \<Rightarrow> ft_shmem \<Rightarrow> byte list option" where
  "FT_TryReadLatestWire max_retries s =
     (case pData s of
        None \<Rightarrow> None
      | Some d \<Rightarrow>
          let idx = ft_publish_index d
          in if idx = 0 then None else seqlock_read max_retries (ft_slots d ! ft_slot_of idx))"

definition FT_TryReadWireByIndex :: "nat \<Rightarrow> u64 \<Rightarrow> ft_shmem \<Rightarrow> byte list option" where
  "FT_TryReadWireByIndex max_retries target_index s =
     (case pData s of
        None \<Rightarrow> None
      | Some d \<Rightarrow>
          let now = ft_publish_index d
          in if target_index = 0 then None
             else if target_index > now then None
             else if now - target_index \<ge> of_nat FT_RING_SIZE then None
             else seqlock_read max_retries (ft_slots d ! ft_slot_of target_index))"

definition FT_Publish :: "byte list \<Rightarrow> ft_shmem \<Rightarrow> ft_shmem" where
  "FT_Publish b s =
     (case pData s of
        None \<Rightarrow> s
      | Some d \<Rightarrow>
          let nxt = ft_publish_index d + 1;
              i = ft_slot_of nxt;
              d1 = d\<lparr>ft_slots := (ft_slots d)[i := seqlock_write b (ft_slots d ! i)]\<rparr>
          in s\<lparr>pData := Some (d1\<lparr>ft_publish_index := nxt\<rparr>)\<rparr>)"

section \<open>The ring as a list of frames\<close>

text \<open>The ring \<open>s\<close> after the frames \<open>fs\<close> (oldest first): frame number \<open>t\<close>, counted from 1, is in its
  slot while fewer than 32 newer ones exist.\<close>

definition ft_frames :: "ft_shmem \<Rightarrow> byte list list \<Rightarrow> bool" where
  "ft_frames s fs \<longleftrightarrow> (\<exists>d. pData s = Some d \<and> length (ft_slots d) = FT_RING_SIZE \<and>
     list_all settled (ft_slots d) \<and> ft_publish_index d = of_nat (length fs) \<and>
     (\<forall>t < length fs. length fs \<le> t + FT_RING_SIZE \<longrightarrow>
        slot_body (ft_slots d ! (t mod FT_RING_SIZE)) = fs ! t))"

lemma ft_slot_of_nat:
  assumes "t < 2 ^ 64"
  shows "ft_slot_of (of_nat t + 1) = t mod FT_RING_SIZE"
proof -
  have "unat ((of_nat t :: u64) mod 32) = t mod 32"
    using assms by (simp add: unat_mod unat_of_nat)
  then show ?thesis by (simp add: ft_slot_of_def FT_RING_SIZE_def)
qed

lemma mod_ring_neq:
  assumes "t < n" and "Suc n \<le> t + k" and "(t :: nat) mod k = n mod k"
  shows False
proof -
  from assms(3) have "k dvd n - t" using assms(1) mod_eq_dvd_iff_nat [of t n k] by simp
  moreover have "0 < n - t" "n - t < k" using assms(1,2) by auto
  ultimately show False using nat_dvd_not_less by blast
qed

lemma ft_frames_publish:
  assumes "ft_frames s fs" and "length fs < 2 ^ 64"
  shows "ft_frames (FT_Publish b s) (fs @ [b])"
proof -
  from assms(1) obtain d where d: "pData s = Some d" "length (ft_slots d) = FT_RING_SIZE"
      "list_all settled (ft_slots d)" "ft_publish_index d = of_nat (length fs)"
      "\<forall>t < length fs. length fs \<le> t + FT_RING_SIZE \<longrightarrow>
        slot_body (ft_slots d ! (t mod FT_RING_SIZE)) = fs ! t"
    unfolding ft_frames_def by blast
  let ?i = "length fs mod FT_RING_SIZE"
  have i: "ft_slot_of (ft_publish_index d + 1) = ?i" "?i < FT_RING_SIZE"
    using ft_slot_of_nat assms(2) d(4) by (simp_all add: FT_RING_SIZE_def)
  let ?d = "d\<lparr>ft_slots := (ft_slots d)[?i := seqlock_write b (ft_slots d ! ?i)],
              ft_publish_index := ft_publish_index d + 1\<rparr>"
  have p: "pData (FT_Publish b s) = Some ?d"
    using d(1) i(1) by (simp add: FT_Publish_def Let_def)
  have "slot_body (ft_slots ?d ! (t mod FT_RING_SIZE)) = (fs @ [b]) ! t"
    if t: "t < length (fs @ [b])" "length (fs @ [b]) \<le> t + FT_RING_SIZE" for t
  proof (cases "t = length fs")
    case True
    then show ?thesis using d(2) i(2) by simp
  next
    case False
    then have lt: "t < length fs" using t(1) by simp
    then have "t mod FT_RING_SIZE \<noteq> ?i" using mod_ring_neq [of t "length fs" FT_RING_SIZE] t(2) by auto
    then show ?thesis using d(5) lt t(2) by (simp add: nth_append)
  qed
  then show ?thesis unfolding ft_frames_def using p d(2,3,4) by simp
qed

lemma ft_frames_publishes:
  "ft_frames s fs \<Longrightarrow> length fs + length bs \<le> 2 ^ 64 \<Longrightarrow> ft_frames (fold FT_Publish bs s) (fs @ bs)"
proof (induction bs arbitrary: s fs)
  case (Cons b bs)
  then have "ft_frames (FT_Publish b s) (fs @ [b])" by (intro ft_frames_publish) simp_all
  then show ?case using Cons.IH [of "FT_Publish b s" "fs @ [b]"] Cons.prems by simp
qed simp

definition ft_fresh :: ft_shmem where
  "ft_fresh = \<lparr>hMapFile = MappedFile,
     pData = Some \<lparr>ft_magic = 0x46544652, ft_version = 3, ft_ring_size = 32, ft_host_state = 0,
       ft_host_heartbeat_qpc = 0, ft_publish_index = 0,
       ft_slots = replicate 32 \<lparr>generation = 0, slot_body = []\<rparr>\<rparr>\<rparr>"

lemma ft_frames_fresh: "ft_frames ft_fresh []"
  by (simp add: ft_frames_def ft_fresh_def FT_RING_SIZE_def list_all_iff settled_def)

text \<open>Reading by index returns exactly the frame published under that index while it is one of the
  last 32, and fails for index 0, for indices not yet published and for frames already
  overwritten.\<close>

theorem FT_TryReadWireByIndex_history:
  assumes "ft_frames s fs" and "length fs < 2 ^ 64" and "t < 2 ^ 64" and "0 < retries"
  shows "FT_TryReadWireByIndex retries (of_nat t) s =
    (if 0 < t \<and> t \<le> length fs \<and> length fs < t + FT_RING_SIZE then Some (fs ! (t - 1)) else None)"
proof -
  from assms(1) obtain d where d: "pData s = Some d" "length (ft_slots d) = FT_RING_SIZE"
      "list_all settled (ft_slots d)" "ft_publish_index d = of_nat (length fs)"
      "\<forall>t < length fs. length fs \<le> t + FT_RING_SIZE \<longrightarrow>
        slot_body (ft_slots d ! (t mod FT_RING_SIZE)) = fs ! t"
    unfolding ft_frames_def by blast
  have u: "unat (of_nat t :: u64) = t" "unat (of_nat (length fs) :: u64) = length fs"
    using assms(2,3) by (simp_all add: unat_of_nat)
  have ne: "(of_nat t :: u64) = 0 \<longleftrightarrow> t = 0" using u(1) by (simp add: word_unat_eq_iff)
  have gt: "(of_nat t :: u64) > of_nat (length fs) \<longleftrightarrow> t > length fs"
    using u by (simp add: word_less_nat_alt)
  have ge: "(of_nat (length fs) - of_nat t :: u64) \<ge> of_nat FT_RING_SIZE \<longleftrightarrow> length fs - t \<ge> FT_RING_SIZE"
    if "t \<le> length fs"
  proof -
    have "(of_nat (length fs) - of_nat t :: u64) = of_nat (length fs - t)"
      using that by (simp add: of_nat_diff)
    moreover have "unat (of_nat (length fs - t) :: u64) = length fs - t"
      using assms(2) by (simp add: unat_of_nat)
    ultimately show ?thesis by (simp add: word_le_nat_alt FT_RING_SIZE_def)
  qed
  have rd: "seqlock_read retries (ft_slots d ! ft_slot_of (of_nat t)) = Some (fs ! (t - 1))"
    if "0 < t" "t \<le> length fs" "length fs < t + FT_RING_SIZE"
  proof -
    have "ft_slot_of (of_nat t) = (t - 1) mod FT_RING_SIZE"
      using ft_slot_of_nat [of "t - 1"] that(1) assms(3) by (simp add: of_nat_diff)
    moreover have "(t - 1) mod FT_RING_SIZE < length (ft_slots d)"
      using d(2) by (simp add: FT_RING_SIZE_def)
    moreover have "slot_body (ft_slots d ! ((t - 1) mod FT_RING_SIZE)) = fs ! (t - 1)"
      using d(5) that by simp
    ultimately show ?thesis
      using d(3) assms(4) by (simp add: seqlock_read_settled list_all_length)
  qed
  show ?thesis
    unfolding FT_TryReadWireByIndex_def Let_def d(1) option.case d(4) ne gt
    using ge rd by auto
qed

theorem FT_TryReadWireByIndex_history_witness:
  "FT_TryReadWireByIndex 8 2 (fold FT_Publish [[1], [2], [3]] ft_fresh) = Some [2]"
proof -
  have "ft_frames (fold FT_Publish [[1], [2], [3]] ft_fresh) ([] @ [[1], [2], [3]])"
    by (rule ft_frames_publishes [OF ft_frames_fresh]) simp
  from FT_TryReadWireByIndex_history [OF this, of 2 8] show ?thesis by (simp add: FT_RING_SIZE_def)
qed

text \<open>After any sequence of publications the latest-frame read returns the last frame published;
  before the first it fails.\<close>

theorem FT_TryReadLatestWire_last:
  assumes "ft_frames s fs" and "length fs < 2 ^ 64" and "0 < retries"
  shows "FT_TryReadLatestWire retries s = (if fs = [] then None else Some (last fs))"
proof -
  from assms(1) obtain d where d: "pData s = Some d" "length (ft_slots d) = FT_RING_SIZE"
      "list_all settled (ft_slots d)" "ft_publish_index d = of_nat (length fs)"
      "\<forall>t < length fs. length fs \<le> t + FT_RING_SIZE \<longrightarrow>
        slot_body (ft_slots d ! (t mod FT_RING_SIZE)) = fs ! t"
    unfolding ft_frames_def by blast
  have ne: "(of_nat (length fs) :: u64) = 0 \<longleftrightarrow> fs = []"
    using assms(2) by (simp add: word_unat_eq_iff unat_of_nat)
  show ?thesis
  proof (cases "fs = []")
    case True
    then show ?thesis using d ne by (simp add: FT_TryReadLatestWire_def)
  next
    case False
    let ?n = "length fs - 1"
    have n: "?n < length fs" "length fs \<le> ?n + FT_RING_SIZE" using False by (auto simp: FT_RING_SIZE_def)
    have "ft_slot_of (of_nat (length fs)) = ?n mod FT_RING_SIZE"
      using ft_slot_of_nat [of ?n] False assms(2) by (simp add: of_nat_diff Suc_leI)
    moreover have "slot_body (ft_slots d ! (?n mod FT_RING_SIZE)) = last fs"
      using d(5) n False by (simp add: last_conv_nth)
    moreover have "?n mod FT_RING_SIZE < length (ft_slots d)" using d(2) by (simp add: FT_RING_SIZE_def)
    ultimately show ?thesis
      using False d(1,3,4) ne assms(3)
      by (simp add: FT_TryReadLatestWire_def seqlock_read_settled list_all_length)
  qed
qed

theorem FT_TryReadLatestWire_last_witness:
  "FT_TryReadLatestWire 8 (fold FT_Publish [[1], [2], [3]] ft_fresh) = Some [3]"
proof -
  have "ft_frames (fold FT_Publish [[1], [2], [3]] ft_fresh) ([] @ [[1], [2], [3]])"
    by (rule ft_frames_publishes [OF ft_frames_fresh]) simp
  from FT_TryReadLatestWire_last [OF this, of 8] show ?thesis by simp
qed

end
