(* ===== verification/PoseShmem.thy ===== *)
theory PoseShmem
  imports Shmem
begin

text \<open>
  \<open>DriverPoseShmem\<close> (\<open>core/src/common/Protocol.h\<close>): the ring of driver poses the overlay polls, with
  its telemetry counters. The OpenVR SDK is not part of the repository: the number of tracked devices
  \<open>maxdev\<close> is an argument, and of \<open>vr::DriverPose_t\<close> the model keeps the validity flag, whether
  \<open>result\<close> is \<open>TrackingResult_Running_OK\<close>, and the rest as bytes.
\<close>

section \<open>State and operations\<close>

record driver_pose =
  poseIsValid :: bool
  running_ok :: bool
  pose_rest :: "byte list"

record aug_pose =
  sample_time :: int
  deviceId :: int
  ap_pose :: driver_pose

definition zero_pose :: aug_pose where
  "zero_pose = \<lparr>sample_time = 0, deviceId = 0,
     ap_pose = \<lparr>poseIsValid = False, running_ok = False, pose_rest = []\<rparr>\<rparr>"

datatype telemetry_field =
    TELEMETRY_FALLBACK_APPLY
  | TELEMETRY_PER_ID_APPLY
  | TELEMETRY_QUASH_APPLY
  | TELEMETRY_DRIVER_SYNTH_FALLBACK

record pose_data =
  dp_magic :: u32
  dp_version :: u32
  dp_fallback_apply_count :: u64
  dp_per_id_apply_count :: u64
  dp_quash_apply_count :: u64
  dp_driver_synth_fallback_count :: u64
  dp_index :: u64
  dp_poses :: "nat \<Rightarrow> aug_pose"

record pose_shmem = "pose_data shm" +
  cursor :: u64
  lastPose :: "int \<Rightarrow> aug_pose"

definition BUFFERED_SAMPLES :: nat where "BUFFERED_SAMPLES = 64 * 1024"

definition Pose_init :: pose_shmem where
  "Pose_init = \<lparr>hMapFile = INVALID_HANDLE_VALUE, pData = None, cursor = 0, lastPose = (\<lambda>_. zero_pose)\<rparr>"

definition Pose_Close :: "pose_shmem \<Rightarrow> pose_shmem" where
  "Pose_Close s =
     s\<lparr>pData := None,
       hMapFile := (if hMapFile s \<noteq> NullHandle \<and> hMapFile s \<noteq> INVALID_HANDLE_VALUE
                    then INVALID_HANDLE_VALUE else hMapFile s)\<rparr>"

definition Pose_Create :: "bool \<Rightarrow> pose_data option \<Rightarrow> pose_shmem \<Rightarrow> bool \<times> pose_shmem" where
  "Pose_Create file_ok view s =
     (let s = Pose_Close s in
      if \<not> file_ok then (False, s\<lparr>hMapFile := NullHandle\<rparr>)
      else let s = s\<lparr>hMapFile := MappedFile, pData := view\<rparr>
           in case pData s of
                None \<Rightarrow> (False, s)
              | Some d \<Rightarrow> (True, s\<lparr>pData := Some (d\<lparr>dp_magic := 0xCA11B8A7, dp_version := 1\<rparr>)\<rparr>))"

text \<open>Unlike the other segments, a failed view keeps the file handle and a header mismatch leaves a
  null one.\<close>

definition Pose_Open :: "bool \<Rightarrow> pose_data option \<Rightarrow> pose_shmem \<Rightarrow> shmem_error option \<times> pose_shmem" where
  "Pose_Open file_ok view s =
     (let s = Pose_Close s in
      if \<not> file_ok then (Some OpenFailed, s\<lparr>hMapFile := NullHandle\<rparr>)
      else let s = s\<lparr>hMapFile := MappedFile, pData := view\<rparr>
           in case pData s of
                None \<Rightarrow> (Some MapFailed, s)
              | Some d \<Rightarrow>
                  if dp_magic d \<noteq> 0xCA11B8A7
                  then (Some (MagicMismatch (dp_magic d)), s\<lparr>pData := None, hMapFile := NullHandle\<rparr>)
                  else if dp_version d \<noteq> 1
                  then (Some (VersionMismatch (dp_version d)), s\<lparr>pData := None, hMapFile := NullHandle\<rparr>)
                  else (None, s))"

text \<open>The delivery loop of \<open>ReadNewPoses\<close>: the poses handed to the callback, in order.\<close>

function deliver :: "(nat \<Rightarrow> aug_pose) \<Rightarrow> u64 \<Rightarrow> u64 \<Rightarrow> aug_pose list" where
  "deliver poses cur cur_index =
     (if cur < cur_index
      then poses (unat (cur mod of_nat BUFFERED_SAMPLES)) # deliver poses (cur + 1) cur_index
      else [])"
  by pat_completeness auto
termination
proof (relation "measure (\<lambda>(poses, cur, cur_index). unat cur_index - unat cur)", goal_cases)
  case (2 poses cur cur_index)
  then have "unat (cur + 1) = Suc (unat cur)" by (intro unat_suc_less)
  with 2 show ?case by (auto simp: word_less_nat_alt)
qed simp

declare deliver.simps [simp del]

text \<open>The cursor \<open>ReadNewPoses\<close> resumes from: where it was, unless the index went backwards or ran
  more than half a ring ahead.\<close>

definition resume_cursor :: "u64 \<Rightarrow> u64 \<Rightarrow> u64" where
  "resume_cursor cur cur_index =
     (let half = of_nat (BUFFERED_SAMPLES div 2)
      in if cur_index < cur \<or> cur_index - cur > half
         then if cur_index < half then cur_index else cur_index - half
         else cur)"

text \<open>\<open>ReadNewPoses\<close>; \<open>None\<close> is the exception on a closed segment.\<close>

definition ReadNewPoses :: "pose_shmem \<Rightarrow> (aug_pose list \<times> pose_shmem) option" where
  "ReadNewPoses s =
     (case pData s of
        None \<Rightarrow> None
      | Some d \<Rightarrow>
          let cur_index = dp_index d;
              c = resume_cursor (cursor s) cur_index
          in Some (deliver (dp_poses d) c cur_index,
                   s\<lparr>cursor := (if c < cur_index then cur_index else c)\<rparr>))"

definition remember_pose :: "aug_pose \<Rightarrow> (int \<Rightarrow> aug_pose) \<Rightarrow> int \<Rightarrow> aug_pose" where
  "remember_pose p lp =
     (if poseIsValid (ap_pose p) \<and> running_ok (ap_pose p) then lp(deviceId p := p) else lp)"

text \<open>\<open>GetPose\<close>: the pose and its sample time, \<open>None\<close> for an index out of range; the outer \<open>None\<close> is
  the exception.\<close>

definition GetPose :: "nat \<Rightarrow> int \<Rightarrow> pose_shmem \<Rightarrow> (aug_pose option \<times> pose_shmem) option" where
  "GetPose maxdev index s =
     (case ReadNewPoses s of
        None \<Rightarrow> None
      | Some (ps, s1) \<Rightarrow>
          let s2 = s1\<lparr>lastPose := fold remember_pose ps (lastPose s1)\<rparr>
          in if index \<ge> 0 \<and> index < int maxdev then Some (Some (lastPose s2 index), s2)
             else Some (None, s2))"

text \<open>\<open>SetPose\<close>; the comparison with the unsigned device count also rejects negative indices.\<close>

definition SetPose :: "nat \<Rightarrow> int \<Rightarrow> driver_pose \<Rightarrow> int \<Rightarrow> pose_shmem \<Rightarrow> pose_shmem" where
  "SetPose maxdev index p qpc s =
     (if index < 0 \<or> index \<ge> int maxdev then s
      else case pData s of
             None \<Rightarrow> s
           | Some d \<Rightarrow>
               let augPose = \<lparr>sample_time = qpc, deviceId = index, ap_pose = p\<rparr>;
                   cur_index = dp_index d + 1;
                   d1 = d\<lparr>dp_poses := (dp_poses d)(unat (cur_index mod of_nat BUFFERED_SAMPLES) := augPose)\<rparr>
               in s\<lparr>pData := Some (d1\<lparr>dp_index := cur_index\<rparr>)\<rparr>)"

definition IncrementTelemetry :: "telemetry_field \<Rightarrow> pose_shmem \<Rightarrow> pose_shmem" where
  "IncrementTelemetry field s =
     (case pData s of
        None \<Rightarrow> s
      | Some d \<Rightarrow>
          s\<lparr>pData := Some (case field of
              TELEMETRY_FALLBACK_APPLY \<Rightarrow> d\<lparr>dp_fallback_apply_count := dp_fallback_apply_count d + 1\<rparr>
            | TELEMETRY_PER_ID_APPLY \<Rightarrow> d\<lparr>dp_per_id_apply_count := dp_per_id_apply_count d + 1\<rparr>
            | TELEMETRY_QUASH_APPLY \<Rightarrow> d\<lparr>dp_quash_apply_count := dp_quash_apply_count d + 1\<rparr>
            | TELEMETRY_DRIVER_SYNTH_FALLBACK \<Rightarrow>
                d\<lparr>dp_driver_synth_fallback_count := dp_driver_synth_fallback_count d + 1\<rparr>)\<rparr>)"

definition GetTelemetry :: "pose_shmem \<Rightarrow> (u64 \<times> u64 \<times> u64 \<times> u64) option" where
  "GetTelemetry s =
     (case pData s of
        None \<Rightarrow> None
      | Some d \<Rightarrow> Some (dp_fallback_apply_count d, dp_per_id_apply_count d, dp_quash_apply_count d,
                       dp_driver_synth_fallback_count d))"

section \<open>The ring as a history\<close>

text \<open>The history \<open>h\<close> of the ring starts with the zero-filled slot 0 and continues with the poses set,
  oldest first; the index is the position of the newest one.\<close>

definition pose_log :: "pose_shmem \<Rightarrow> aug_pose list \<Rightarrow> bool" where
  "pose_log s h \<longleftrightarrow> (\<exists>d. pData s = Some d \<and> h \<noteq> [] \<and> dp_index d = of_nat (length h - 1) \<and>
     (\<forall>t < length h. length h \<le> t + BUFFERED_SAMPLES \<longrightarrow> dp_poses d (t mod BUFFERED_SAMPLES) = h ! t))"

lemma unat_mod_samples: "unat ((x :: u64) mod of_nat BUFFERED_SAMPLES) = unat x mod BUFFERED_SAMPLES"
  by (simp add: BUFFERED_SAMPLES_def unat_mod)

lemma deliver_upt:
  "deliver poses c n = map (\<lambda>t. poses (t mod BUFFERED_SAMPLES)) [unat c..<unat n]"
proof (induction poses c n rule: deliver.induct)
  case (1 poses c n)
  show ?case
  proof (cases "c < n")
    case True
    then have "unat (c + 1) = Suc (unat c)" by (rule unat_suc_less)
    moreover have "unat c < unat n" using True by (simp add: word_less_nat_alt)
    ultimately show ?thesis
      using 1 True by (subst deliver.simps) (simp add: unat_mod_samples upt_conv_Cons)
  next
    case False
    then show ?thesis by (subst deliver.simps) (simp add: word_less_nat_alt)
  qed
qed

lemma mod_samples_neq:
  assumes "t < n" and "Suc n \<le> t + BUFFERED_SAMPLES"
  shows "t mod BUFFERED_SAMPLES \<noteq> n mod BUFFERED_SAMPLES"
proof
  assume "t mod BUFFERED_SAMPLES = n mod BUFFERED_SAMPLES"
  then have "BUFFERED_SAMPLES dvd n - t"
    using assms(1) mod_eq_dvd_iff_nat [of t n BUFFERED_SAMPLES] by simp
  moreover have "0 < n - t" "n - t < BUFFERED_SAMPLES" using assms by auto
  ultimately show False using nat_dvd_not_less by blast
qed

lemma pose_log_SetPose:
  assumes "pose_log s h" and "length h < 2 ^ 64" and "0 \<le> i" and "i < int maxdev"
  shows "pose_log (SetPose maxdev i p qpc s)
           (h @ [\<lparr>sample_time = qpc, deviceId = i, ap_pose = p\<rparr>])"
proof -
  from assms(1) obtain d where d: "pData s = Some d" "h \<noteq> []" "dp_index d = of_nat (length h - 1)"
      "\<forall>t < length h. length h \<le> t + BUFFERED_SAMPLES \<longrightarrow> dp_poses d (t mod BUFFERED_SAMPLES) = h ! t"
    unfolding pose_log_def by blast
  have idx: "dp_index d + 1 = of_nat (length h)"
    using d(2,3) by (simp add: of_nat_diff Suc_leI)
  have slot: "unat ((dp_index d + 1) mod of_nat BUFFERED_SAMPLES) = length h mod BUFFERED_SAMPLES"
    unfolding unat_mod_samples idx using assms(2) by (simp add: unat_of_nat)
  let ?a = "\<lparr>sample_time = qpc, deviceId = i, ap_pose = p\<rparr>"
  let ?d = "d\<lparr>dp_poses := (dp_poses d)(length h mod BUFFERED_SAMPLES := ?a), dp_index := of_nat (length h)\<rparr>"
  have pd: "pData (SetPose maxdev i p qpc s) = Some ?d"
    using assms(3,4) d(1) slot idx by (simp add: SetPose_def Let_def)
  have "dp_poses ?d (t mod BUFFERED_SAMPLES) = (h @ [?a]) ! t"
    if "t < length (h @ [?a])" "length (h @ [?a]) \<le> t + BUFFERED_SAMPLES" for t
    using that d(4) mod_samples_neq [of t "length h"] by (cases "t = length h") (auto simp: nth_append)
  then show ?thesis unfolding pose_log_def using pd by simp
qed

text \<open>Where the next read starts: at the cursor, or half a ring back when the reader fell behind.\<close>

definition read_start :: "nat \<Rightarrow> nat \<Rightarrow> nat" where
  "read_start c n = (if n - c > BUFFERED_SAMPLES div 2 then n - BUFFERED_SAMPLES div 2 else c)"

lemma unat_half: "unat (of_nat (BUFFERED_SAMPLES div 2) :: u64) = BUFFERED_SAMPLES div 2"
  by (simp add: BUFFERED_SAMPLES_def)

lemma unat_resume_cursor:
  assumes "unat c \<le> n" and "n < 2 ^ 64"
  shows "unat (resume_cursor c (of_nat n)) = read_start (unat c) n"
proof -
  let ?half = "BUFFERED_SAMPLES div 2"
  have n: "unat (of_nat n :: u64) = n" using assms(2) by (simp add: unat_of_nat)
  have sub: "unat (of_nat n - c) = n - unat c"
    using assms(1) n by (simp add: unat_sub word_le_nat_alt)
  show ?thesis
  proof (cases "n - unat c > ?half")
    case True
    then have "of_nat n - c > of_nat ?half" "\<not> of_nat n < (of_nat ?half :: u64)"
      unfolding word_less_nat_alt sub n unat_half by simp_all
    moreover have "unat (of_nat n - of_nat ?half :: u64) = n - ?half"
      using True by (subst unat_sub) (unfold word_le_nat_alt n unat_half, linarith+)
    ultimately show ?thesis using True by (simp add: resume_cursor_def read_start_def Let_def)
  next
    case False
    then have "\<not> of_nat n - c > of_nat ?half" "\<not> of_nat n < c"
      unfolding word_less_nat_alt sub n unat_half using assms(1) by simp_all
    then show ?thesis using False by (simp add: resume_cursor_def read_start_def Let_def)
  qed
qed

text \<open>A read delivers the recorded poses from the cursor (or the last half ring when the reader fell
  behind) in order, without gaps or repeats, up to but excluding the newest one, and leaves the
  cursor at the newest one.\<close>

theorem ReadNewPoses_delivers:
  assumes "pose_log s h" and "length h \<le> 2 ^ 64" and "unat (cursor s) < length h"
  shows "ReadNewPoses s =
    Some (map ((!) h) [read_start (unat (cursor s)) (length h - 1)..<length h - 1],
          s\<lparr>cursor := of_nat (length h - 1)\<rparr>)"
proof -
  define n where "n = length h - 1"
  let ?r = "resume_cursor (cursor s) (of_nat n)"
  from assms(1) obtain d where d: "pData s = Some d" "h \<noteq> []" "dp_index d = of_nat n"
      "\<forall>t < length h. length h \<le> t + BUFFERED_SAMPLES \<longrightarrow> dp_poses d (t mod BUFFERED_SAMPLES) = h ! t"
    unfolding pose_log_def n_def by blast
  have "length h = Suc n" using d(2) by (simp add: n_def)
  then have n: "n < 2 ^ 64" "unat (cursor s) \<le> n" using assms(2,3) by simp_all
  then have un: "unat (of_nat n :: u64) = n" by (simp add: unat_of_nat)
  have r: "unat ?r = read_start (unat (cursor s)) n" using n by (intro unat_resume_cursor)
  also have "\<dots> \<le> n" using n(2) by (auto simp: read_start_def)
  finally have "(if ?r < of_nat n then of_nat n else ?r) = of_nat n"
    using un by (auto simp: word_less_nat_alt word_unat_eq_iff)
  moreover have "deliver (dp_poses d) ?r (of_nat n) = map ((!) h) [read_start (unat (cursor s)) n..<n]"
    unfolding deliver_upt r un using d(4) \<open>length h = Suc n\<close>
    by (auto simp: read_start_def BUFFERED_SAMPLES_def split: if_splits)
  ultimately show ?thesis
    using d(1,3) unfolding n_def [symmetric] by (simp add: ReadNewPoses_def Let_def)
qed

definition fresh_pose_shmem :: pose_shmem where
  "fresh_pose_shmem = Pose_init\<lparr>hMapFile := MappedFile, pData := Some \<lparr>dp_magic = 0xCA11B8A7, dp_version = 1,
     dp_fallback_apply_count = 0, dp_per_id_apply_count = 0, dp_quash_apply_count = 0,
     dp_driver_synth_fallback_count = 0, dp_index = 0, dp_poses = (\<lambda>_. zero_pose)\<rparr>\<rparr>"

lemma pose_log_fresh: "pose_log fresh_pose_shmem [zero_pose]"
  by (simp add: pose_log_def fresh_pose_shmem_def)

definition demo_pose :: "int \<Rightarrow> int \<Rightarrow> aug_pose" where
  "demo_pose t i = \<lparr>sample_time = t, deviceId = i,
     ap_pose = \<lparr>poseIsValid = True, running_ok = True, pose_rest = []\<rparr>\<rparr>"

definition demo_ring :: pose_shmem where
  "demo_ring = SetPose 64 3 (ap_pose (demo_pose 20 3)) 20
                 (SetPose 64 2 (ap_pose (demo_pose 10 2)) 10 fresh_pose_shmem)"

lemma demo_ring_history: "pose_log demo_ring [zero_pose, demo_pose 10 2, demo_pose 20 3]"
proof -
  have "pose_log (SetPose 64 2 (ap_pose (demo_pose 10 2)) 10 fresh_pose_shmem)
      ([zero_pose] @ [\<lparr>sample_time = 10, deviceId = 2, ap_pose = ap_pose (demo_pose 10 2)\<rparr>])"
    by (rule pose_log_SetPose [OF pose_log_fresh]) simp_all
  then have "pose_log demo_ring
      (([zero_pose] @ [\<lparr>sample_time = 10, deviceId = 2, ap_pose = ap_pose (demo_pose 10 2)\<rparr>])
        @ [\<lparr>sample_time = 20, deviceId = 3, ap_pose = ap_pose (demo_pose 20 3)\<rparr>])"
    unfolding demo_ring_def by (rule pose_log_SetPose) simp_all
  then show ?thesis by (simp add: demo_pose_def)
qed

lemma demo_ring_cursor: "cursor demo_ring = 0" "lastPose demo_ring = (\<lambda>_. zero_pose)"
  by (simp_all add: demo_ring_def SetPose_def fresh_pose_shmem_def Pose_init_def Let_def)

theorem ReadNewPoses_delivers_witness:
  "ReadNewPoses demo_ring = Some ([zero_pose, demo_pose 10 2], demo_ring\<lparr>cursor := 2\<rparr>)"
  using ReadNewPoses_delivers [OF demo_ring_history]
  by (simp add: demo_ring_cursor read_start_def BUFFERED_SAMPLES_def)

section \<open>The last pose of a device\<close>

definition usable :: "int \<Rightarrow> aug_pose \<Rightarrow> bool" where
  "usable i p \<longleftrightarrow> deviceId p = i \<and> poseIsValid (ap_pose p) \<and> running_ok (ap_pose p)"

lemma fold_remember_pose:
  "fold remember_pose ps lp i =
     (case filter (usable i) (rev ps) of [] \<Rightarrow> lp i | p # _ \<Rightarrow> p)"
  by (induction ps arbitrary: lp)
     (auto simp: remember_pose_def usable_def filter_empty_conv split: list.splits)

text \<open>The pose of a device is the newest valid, running one among the poses delivered by this call,
  or the one remembered before; an index outside the device range is reported and changes no
  pose.\<close>

theorem GetPose_newest:
  assumes "pose_log s h" and "length h \<le> 2 ^ 64" and "unat (cursor s) < length h"
  shows "\<exists>s'. GetPose maxdev i s =
    Some (if 0 \<le> i \<and> i < int maxdev
          then Some (case filter (usable i)
                 (rev (map ((!) h) [read_start (unat (cursor s)) (length h - 1)..<length h - 1])) of
                       [] \<Rightarrow> lastPose s i | p # _ \<Rightarrow> p)
          else None, s')"
  using ReadNewPoses_delivers [OF assms]
  by (simp add: GetPose_def Let_def fold_remember_pose)

theorem GetPose_newest_witness:
  "\<exists>s'. GetPose 64 2 demo_ring = Some (Some (demo_pose 10 2), s')"
  using GetPose_newest [OF demo_ring_history, of 64 2]
  by (simp add: demo_ring_cursor read_start_def BUFFERED_SAMPLES_def usable_def demo_pose_def zero_pose_def)

section \<open>Telemetry\<close>

text \<open>The four counters count the increments of their own field, modulo \<open>2 ^ 64\<close>.\<close>

theorem telemetry_counts:
  "GetTelemetry (fold IncrementTelemetry fs fresh_pose_shmem) =
     Some (of_nat (count_list fs TELEMETRY_FALLBACK_APPLY), of_nat (count_list fs TELEMETRY_PER_ID_APPLY),
           of_nat (count_list fs TELEMETRY_QUASH_APPLY),
           of_nat (count_list fs TELEMETRY_DRIVER_SYNTH_FALLBACK))"
proof -
  have "GetTelemetry (fold IncrementTelemetry fs s) =
     map_option (\<lambda>(a, b, c, e). (a + of_nat (count_list fs TELEMETRY_FALLBACK_APPLY),
           b + of_nat (count_list fs TELEMETRY_PER_ID_APPLY),
           c + of_nat (count_list fs TELEMETRY_QUASH_APPLY),
           e + of_nat (count_list fs TELEMETRY_DRIVER_SYNTH_FALLBACK))) (GetTelemetry s)" for s
    by (induction fs arbitrary: s)
       (auto simp: GetTelemetry_def IncrementTelemetry_def ac_simps split: option.splits telemetry_field.splits)
  then show ?thesis by (simp add: GetTelemetry_def fresh_pose_shmem_def)
qed

end
