(* ===== verification/InputHealth.thy ===== *)
theory InputHealth
  imports Shmem BoundedMap
begin

text \<open>
  The two ends of the InputHealth segment: the driver's publisher,
  \<open>modules/inputhealth/src/driver/InputHealthSnapshotPublisher.cpp\<close>, and the overlay's reader,
  \<open>modules/inputhealth/src/overlay/SnapshotReader.cpp\<close>. The snapshots that \<open>StageSnapshots\<close> collects,
  what the segment holds when it is mapped and the time are arguments.
\<close>

section \<open>Snapshot bodies\<close>

text \<open>A body is the bytes of \<open>InputHealthSnapshotBody\<close>; its first field is the component handle, in
  little-endian order.\<close>

definition body_handle :: "byte list \<Rightarrow> u64" where
  "body_handle b = word_rcat (rev (take 8 b))"

record staged_snapshot =
  ss_handle :: u64
  ss_body :: "byte list"

section \<open>The publisher\<close>

record snapshot_publisher =
  g_shmem :: ih_shmem
  g_workerStop :: bool
  g_running :: bool
  g_handleToSlot :: "u64 \<rightharpoonup> u32"
  g_nextFreeSlot :: u32
  g_loggedFullTable :: bool

definition publisher_init :: snapshot_publisher where
  "publisher_init = \<lparr>g_shmem = shm_empty, g_workerStop = False, g_running = False,
     g_handleToSlot = Map.empty, g_nextFreeSlot = 0, g_loggedFullTable = False\<rparr>"

definition publish_record :: "u64 \<Rightarrow> byte list \<Rightarrow> snapshot_publisher \<Rightarrow> bool \<times> snapshot_publisher" where
  "publish_record handle body p =
     (case g_handleToSlot p handle of
        None \<Rightarrow>
          if g_nextFreeSlot p \<ge> of_nat INPUTHEALTH_SLOT_COUNT
          then (False, p\<lparr>g_loggedFullTable := True\<rparr>)
          else let sl = g_nextFreeSlot p
               in (True, p\<lparr>g_nextFreeSlot := sl + 1,
                           g_handleToSlot := (g_handleToSlot p)(handle \<mapsto> sl),
                           g_shmem := IH_WriteSlot sl body (g_shmem p)\<rparr>)
      | Some sl \<Rightarrow> (True, p\<lparr>g_shmem := IH_WriteSlot sl body (g_shmem p)\<rparr>))"

definition publish_staged :: "staged_snapshot list \<Rightarrow> snapshot_publisher \<Rightarrow> snapshot_publisher" where
  "publish_staged staged p = fold (\<lambda>rec p. snd (publish_record (ss_handle rec) (ss_body rec) p)) staged p"

definition PublishOneTick :: "staged_snapshot list \<Rightarrow> snapshot_publisher \<Rightarrow> snapshot_publisher" where
  "PublishOneTick staged p =
     (let p = publish_staged staged p in p\<lparr>g_shmem := IH_BumpPublishTick (g_shmem p)\<rparr>)"

text \<open>One turn of \<open>WorkerMain\<close>: whether it goes on, and the state.\<close>

definition WorkerTurn :: "staged_snapshot list \<Rightarrow> snapshot_publisher \<Rightarrow> bool \<times> snapshot_publisher" where
  "WorkerTurn staged p = (if g_workerStop p then (False, p) else (True, PublishOneTick staged p))"

definition SnapshotPublisherInit :: "bool \<Rightarrow> ih_data option \<Rightarrow> snapshot_publisher \<Rightarrow> snapshot_publisher" where
  "SnapshotPublisherInit file_ok view p =
     (if g_running p then p
      else case IH_Create file_ok view (g_shmem p) of
             (False, shm) \<Rightarrow> p\<lparr>g_shmem := shm\<rparr>
           | (True, shm) \<Rightarrow> p\<lparr>g_shmem := shm, g_handleToSlot := Map.empty, g_nextFreeSlot := 0,
                              g_loggedFullTable := False, g_workerStop := False, g_running := True\<rparr>)"

definition SnapshotPublisherShutdown :: "snapshot_publisher \<Rightarrow> snapshot_publisher" where
  "SnapshotPublisherShutdown p =
     (if \<not> g_running p then p
      else p\<lparr>g_workerStop := True, g_shmem := shm_Close (g_shmem p), g_handleToSlot := Map.empty,
             g_nextFreeSlot := 0, g_loggedFullTable := False, g_running := False\<rparr>)"

section \<open>The reader\<close>

record snapshot_entry =
  se_body :: "byte list"
  se_last_seen_publish_tick :: u64

datatype reader_error = RE_none | RE_open shmem_error | RE_stale

text \<open>The time point \<open>{}\<close> that marks an unset change time is \<open>None\<close>; times are in milliseconds.\<close>

record snapshot_reader =
  sr_shmem :: ih_shmem
  sr_entries :: "u64 \<rightharpoonup> snapshot_entry"
  sr_last_error :: reader_error
  sr_version_mismatch :: bool
  sr_last_publish_tick :: u64
  sr_last_change :: "int option"

definition reader_init :: snapshot_reader where
  "reader_init = \<lparr>sr_shmem = shm_empty, sr_entries = Map.empty, sr_last_error = RE_none,
     sr_version_mismatch = False, sr_last_publish_tick = 0, sr_last_change = None\<rparr>"

text \<open>Whether the message of the exception contains "mismatch".\<close>

definition is_mismatch :: "shmem_error \<Rightarrow> bool" where
  "is_mismatch e = (case e of MagicMismatch m \<Rightarrow> True | VersionMismatch v \<Rightarrow> True | _ \<Rightarrow> False)"

definition TryOpen :: "bool \<Rightarrow> ih_data option \<Rightarrow> int \<Rightarrow> snapshot_reader \<Rightarrow> bool \<times> snapshot_reader" where
  "TryOpen file_ok view now r =
     (case IH_Open file_ok view (sr_shmem r) of
        (None, shm) \<Rightarrow>
          (True, r\<lparr>sr_shmem := shm, sr_last_error := RE_none, sr_version_mismatch := False,
                   sr_entries := Map.empty, sr_last_publish_tick := IH_LoadPublishTick shm,
                   sr_last_change := Some now\<rparr>)
      | (Some e, shm) \<Rightarrow>
          (False, r\<lparr>sr_shmem := shm, sr_last_error := RE_open e, sr_version_mismatch := is_mismatch e\<rparr>))"

definition SnapshotReader_Close :: "snapshot_reader \<Rightarrow> snapshot_reader" where
  "SnapshotReader_Close r =
     r\<lparr>sr_shmem := shm_Close (sr_shmem r), sr_entries := Map.empty, sr_last_publish_tick := 0,
       sr_last_change := None\<rparr>"

text \<open>The body of the loop over the slots.\<close>

definition refresh_slot :: "nat \<Rightarrow> snapshot_reader \<Rightarrow> snapshot_reader" where
  "refresh_slot i r =
     (case IH_TryReadSlot 8 (of_nat i) (sr_shmem r) of
        None \<Rightarrow> r
      | Some body \<Rightarrow>
          if body_handle body = 0 then r
          else r\<lparr>sr_entries := (sr_entries r)(body_handle body \<mapsto>
                   \<lparr>se_body = body, se_last_seen_publish_tick = sr_last_publish_tick r\<rparr>)\<rparr>)"

definition refresh_slots :: "snapshot_reader \<Rightarrow> snapshot_reader" where
  "refresh_slots r = fold refresh_slot [0..<INPUTHEALTH_SLOT_COUNT] r"

text \<open>What the mapped segment holds when the reader looks at it.\<close>

definition sees :: "ih_data \<Rightarrow> ih_shmem \<Rightarrow> ih_shmem" where
  "sees mem s = s\<lparr>pData := map_option (\<lambda>_. mem) (pData s)\<rparr>"

definition Refresh_open :: "ih_data \<Rightarrow> int \<Rightarrow> snapshot_reader \<Rightarrow> snapshot_reader" where
  "Refresh_open mem now r =
     (let r = r\<lparr>sr_shmem := sees mem (sr_shmem r)\<rparr>;
          publish_tick = IH_LoadPublishTick (sr_shmem r)
      in if publish_tick \<noteq> sr_last_publish_tick r
         then refresh_slots (r\<lparr>sr_last_publish_tick := publish_tick, sr_last_change := Some now\<rparr>)
         else case sr_last_change r of
                Some t \<Rightarrow> if now - t > 2000 then SnapshotReader_Close (r\<lparr>sr_last_error := RE_stale\<rparr>)
                          else refresh_slots r
              | None \<Rightarrow> refresh_slots r)"

definition Refresh :: "bool \<Rightarrow> ih_data \<Rightarrow> int \<Rightarrow> snapshot_reader \<Rightarrow> snapshot_reader" where
  "Refresh file_ok mem now r =
     (if pData (sr_shmem r) = None
      then case TryOpen file_ok (Some mem) now r of
             (_, r) \<Rightarrow> if pData (sr_shmem r) = None then r else Refresh_open mem now r
      else Refresh_open mem now r)"

section \<open>The slot directory as a map of bounded size\<close>

definition pub_wf :: "snapshot_publisher \<Rightarrow> bool" where
  "pub_wf p \<longleftrightarrow>
     ih_wf (g_shmem p) \<and> unat (g_nextFreeSlot p) \<le> INPUTHEALTH_SLOT_COUNT \<and>
     (\<forall>h s. g_handleToSlot p h = Some s \<longrightarrow> s < g_nextFreeSlot p) \<and>
     inj_on (g_handleToSlot p) (dom (g_handleToSlot p)) \<and>
     card (dom (g_handleToSlot p)) = unat (g_nextFreeSlot p) \<and> finite (dom (g_handleToSlot p))"

text \<open>The body a handle has in the segment.\<close>

definition published :: "snapshot_publisher \<Rightarrow> u64 \<Rightarrow> byte list option" where
  "published p h =
     (case g_handleToSlot p h of None \<Rightarrow> None | Some s \<Rightarrow> IH_TryReadSlot 8 s (g_shmem p))"

lemma ih_read_some: "ih_wf s \<Longrightarrow> i < INPUTHEALTH_SLOT_COUNT \<Longrightarrow> IH_TryReadSlot 8 (of_nat i) s \<noteq> None"
  by (auto simp: ih_wf_def IH_TryReadSlot_def INPUTHEALTH_SLOT_COUNT_def u32_less_256 list_all_length
      seqlock_read_settled simp del: seqlock_read.simps)

lemma ih_rd:
  assumes "ih_wf s" "i < 256" "j < 256"
  shows "IH_TryReadSlot 8 j (IH_WriteSlot i b s) = (if i = j then Some b else IH_TryReadSlot 8 j s)"
proof -
  have ij: "i = of_nat (unat i)" "j = of_nat (unat j)" "unat i < INPUTHEALTH_SLOT_COUNT" "unat j < INPUTHEALTH_SLOT_COUNT"
    using assms by (simp_all add: word_less_nat_alt INPUTHEALTH_SLOT_COUNT_def)
  show ?thesis
  proof (cases "i = j")
    case True
    then show ?thesis using ih.rd_wr_same [OF assms(1) ij(3), of 7] ij(1) by simp
  next
    case False
    then have "unat i \<noteq> unat j" by (simp add: word_unat_eq_iff)
    then show ?thesis using ih.rd_wr_other [OF assms(1) ij(3,4), of 7] ij(1,2) False by simp
  qed
qed

lemma ih_wf_write: "ih_wf s \<Longrightarrow> ih_wf (IH_WriteSlot i b s)"
  using ih.wf_wr [of s "unat i" b] by simp

lemma pub_wf_slot_less:
  assumes "pub_wf p" "g_handleToSlot p h = Some s"
  shows "s < 256"
proof -
  have "s < g_nextFreeSlot p" "unat (g_nextFreeSlot p) \<le> 256"
    using assms by (auto simp: pub_wf_def INPUTHEALTH_SLOT_COUNT_def)
  then show ?thesis by (simp add: word_less_nat_alt)
qed

lemma dom_published:
  assumes "pub_wf p"
  shows "dom (published p) = dom (g_handleToSlot p)"
proof -
  have "published p h \<noteq> None \<longleftrightarrow> g_handleToSlot p h \<noteq> None" for h
  proof (cases "g_handleToSlot p h")
    case (Some s)
    then have "unat s < INPUTHEALTH_SLOT_COUNT"
      using pub_wf_slot_less [OF assms Some] by (simp add: word_less_nat_alt INPUTHEALTH_SLOT_COUNT_def)
    then show ?thesis
      using Some assms ih_read_some [of "g_shmem p" "unat s"] by (auto simp: published_def pub_wf_def)
  qed (simp add: published_def)
  then show ?thesis by (auto simp: dom_def)
qed

lemma publish_record_cases:
  assumes "pub_wf p"
  obtains (full) "g_handleToSlot p h = None" "unat (g_nextFreeSlot p) = 256"
      "publish_record h b p = (False, p\<lparr>g_loggedFullTable := True\<rparr>)"
    | (fresh) s where "g_handleToSlot p h = None" "s = g_nextFreeSlot p" "s < 256"
      "publish_record h b p = (True, p\<lparr>g_nextFreeSlot := s + 1,
         g_handleToSlot := (g_handleToSlot p)(h \<mapsto> s), g_shmem := IH_WriteSlot s b (g_shmem p)\<rparr>)"
    | (known) s where "g_handleToSlot p h = Some s" "s < g_nextFreeSlot p" "s < 256"
      "publish_record h b p = (True, p\<lparr>g_shmem := IH_WriteSlot s b (g_shmem p)\<rparr>)"
proof (cases "g_handleToSlot p h")
  case None
  have "unat (g_nextFreeSlot p) \<le> 256" using assms by (simp add: pub_wf_def INPUTHEALTH_SLOT_COUNT_def)
  then consider "unat (g_nextFreeSlot p) = 256" | "unat (g_nextFreeSlot p) < 256" by linarith
  then show ?thesis
  proof cases
    case 1
    with None full show ?thesis
      by (simp add: publish_record_def INPUTHEALTH_SLOT_COUNT_def word_le_nat_alt)
  next
    case 2
    with None fresh show ?thesis
      by (simp add: publish_record_def INPUTHEALTH_SLOT_COUNT_def word_le_nat_alt word_less_nat_alt Let_def)
  qed
next
  case (Some s)
  then show ?thesis using known assms pub_wf_slot_less [OF assms Some]
    by (auto simp: publish_record_def pub_wf_def)
qed

lemma pub_wf_fresh:
  assumes "pub_wf p" "g_handleToSlot p h = None" "g_nextFreeSlot p < 256"
  shows "pub_wf (p\<lparr>g_nextFreeSlot := g_nextFreeSlot p + 1,
     g_handleToSlot := (g_handleToSlot p)(h \<mapsto> g_nextFreeSlot p),
     g_shmem := IH_WriteSlot (g_nextFreeSlot p) b (g_shmem p)\<rparr>)"
proof -
  have n: "unat (g_nextFreeSlot p + 1) = Suc (unat (g_nextFreeSlot p))"
    by (rule unat_suc_less [OF assms(3)])
  have lt: "g_handleToSlot p k = Some s \<Longrightarrow> s < g_nextFreeSlot p" for k s
    using assms(1) by (auto simp: pub_wf_def)
  have lt': "g_handleToSlot p k = Some s \<Longrightarrow> s < g_nextFreeSlot p + 1" for k s
    using lt [of k s] n by (simp add: word_less_nat_alt)
  have "g_handleToSlot p k \<noteq> Some (g_nextFreeSlot p)" for k
    using lt [of k "g_nextFreeSlot p"] by auto
  moreover have "inj_on (g_handleToSlot p) (dom (g_handleToSlot p))"
    using assms(1) by (simp add: pub_wf_def)
  ultimately have "inj_on ((g_handleToSlot p)(h \<mapsto> g_nextFreeSlot p)) (insert h (dom (g_handleToSlot p)))"
    unfolding inj_on_def by (metis fun_upd_apply insert_iff)
  moreover have "card (insert h (dom (g_handleToSlot p))) = Suc (unat (g_nextFreeSlot p))"
    using assms(1,2) by (subst card_insert_disjoint) (auto simp: pub_wf_def)
  ultimately show ?thesis
    using assms n lt' by (auto simp: pub_wf_def ih_wf_write INPUTHEALTH_SLOT_COUNT_def word_less_nat_alt)
qed

interpretation ihp: bounded_insert pub_wf published publish_record "\<lambda>b. b" INPUTHEALTH_SLOT_COUNT
proof
  fix p h b
  assume wf: "pub_wf p"
  have cd: "card (dom (published p)) = unat (g_nextFreeSlot p)" "finite (dom (g_handleToSlot p))"
    using wf by (simp_all add: dom_published pub_wf_def)
  have none: "published p h = None \<longleftrightarrow> g_handleToSlot p h = None"
    using dom_published [OF wf] by (metis domIff)
  have lt: "\<And>k s. g_handleToSlot p k = Some s \<Longrightarrow> s < g_nextFreeSlot p \<and> s < 256"
    using wf pub_wf_slot_less [OF wf] by (auto simp: pub_wf_def)
  have inj: "\<And>k k' s. g_handleToSlot p k = Some s \<Longrightarrow> g_handleToSlot p k' = Some s \<Longrightarrow> k = k'"
    using wf unfolding pub_wf_def inj_on_def by (metis domI)
  have ihw: "ih_wf (g_shmem p)" using wf by (simp add: pub_wf_def)
  show "pub_wf (snd (publish_record h b p))"
    by (rule publish_record_cases [OF wf, of h b])
      (use wf in \<open>auto simp: pub_wf_fresh\<close>, auto simp: pub_wf_def ih_wf_write)
  show "fst (publish_record h b p) \<longleftrightarrow> published p h \<noteq> None \<or> card (dom (published p)) < INPUTHEALTH_SLOT_COUNT"
    by (rule publish_record_cases [OF wf, of h b])
      (auto simp: none cd INPUTHEALTH_SLOT_COUNT_def word_less_nat_alt)
  show "\<not> fst (publish_record h b p) \<Longrightarrow> published (snd (publish_record h b p)) = published p"
    by (rule publish_record_cases [OF wf, of h b]) (auto simp: published_def fun_eq_iff split: option.splits)
  show "fst (publish_record h b p) \<Longrightarrow> published (snd (publish_record h b p)) = (published p)(h \<mapsto> b)"
  proof (rule publish_record_cases [OF wf, of h b])
    fix s
    assume "g_handleToSlot p h = Some s" "s < 256"
      "publish_record h b p = (True, p\<lparr>g_shmem := IH_WriteSlot s b (g_shmem p)\<rparr>)"
    then show ?thesis
      using lt inj by (auto simp: published_def fun_eq_iff ih_rd [OF ihw] split: option.splits)
  next
    fix s
    assume "g_handleToSlot p h = None" "s = g_nextFreeSlot p" "s < 256"
      "publish_record h b p = (True, p\<lparr>g_nextFreeSlot := s + 1,
         g_handleToSlot := (g_handleToSlot p)(h \<mapsto> s), g_shmem := IH_WriteSlot s b (g_shmem p)\<rparr>)"
    then show ?thesis
      using lt by (fastforce simp: published_def fun_eq_iff ih_rd [OF ihw] split: option.splits)
  qed simp
qed

section \<open>What a refresh finds\<close>

lemma refresh_slot_fields [simp]:
  "sr_shmem (refresh_slot i r) = sr_shmem r"
  "sr_last_publish_tick (refresh_slot i r) = sr_last_publish_tick r"
  by (auto simp: refresh_slot_def split: option.splits)

lemma refresh_fold_fields [simp]:
  "sr_shmem (fold refresh_slot is r) = sr_shmem r"
  "sr_last_publish_tick (fold refresh_slot is r) = sr_last_publish_tick r"
  by (induction "is" arbitrary: r) simp_all

text \<open>The slot \<open>i\<close> holds the body \<open>b\<close> for the reader.\<close>

definition slot_holds :: "ih_shmem \<Rightarrow> nat \<Rightarrow> byte list \<Rightarrow> bool" where
  "slot_holds s i b \<longleftrightarrow> IH_TryReadSlot 8 (of_nat i) s = Some b"

lemma refresh_slot_entries:
  "sr_entries (refresh_slot i r) h =
     (case IH_TryReadSlot 8 (of_nat i) (sr_shmem r) of
        Some b \<Rightarrow> if body_handle b = h \<and> h \<noteq> 0
                  then Some \<lparr>se_body = b, se_last_seen_publish_tick = sr_last_publish_tick r\<rparr> else sr_entries r h
      | None \<Rightarrow> sr_entries r h)"
  by (auto simp: refresh_slot_def split: option.splits)

lemma refresh_fold_other:
  assumes "\<forall>i \<in> set is. \<forall>b. slot_holds (sr_shmem r) i b \<longrightarrow> body_handle b \<noteq> h"
  shows "sr_entries (fold refresh_slot is r) h = sr_entries r h"
  using assms
  by (induction "is" arbitrary: r)
    (auto simp: refresh_slot_entries slot_holds_def split: option.splits)

lemma refresh_fold_zero: "sr_entries (fold refresh_slot is r) 0 = sr_entries r 0"
  by (induction "is" arbitrary: r) (auto simp: refresh_slot_entries split: option.splits)

text \<open>The entry of a handle is the body in the highest slot that carries the handle.\<close>

lemma refresh_slots_highest:
  assumes "slot_holds (sr_shmem r) i b" "body_handle b \<noteq> 0" "i < INPUTHEALTH_SLOT_COUNT"
    and "\<forall>j b'. i < j \<and> j < INPUTHEALTH_SLOT_COUNT \<and> slot_holds (sr_shmem r) j b' \<longrightarrow> body_handle b' \<noteq> body_handle b"
  shows "sr_entries (refresh_slots r) (body_handle b) =
         Some \<lparr>se_body = b, se_last_seen_publish_tick = sr_last_publish_tick r\<rparr>"
proof -
  have "[0..<INPUTHEALTH_SLOT_COUNT] = [0..<i] @ i # [Suc i..<INPUTHEALTH_SLOT_COUNT]"
    using assms(3) by (metis less_imp_le upt_add_eq_append upt_conv_Cons le0 add_0 le_add_diff_inverse)
  then have "refresh_slots r = fold refresh_slot [Suc i..<INPUTHEALTH_SLOT_COUNT] (refresh_slot i (fold refresh_slot [0..<i] r))"
    by (simp add: refresh_slots_def)
  moreover have "sr_entries (fold refresh_slot [Suc i..<INPUTHEALTH_SLOT_COUNT] (refresh_slot i (fold refresh_slot [0..<i] r))) (body_handle b)
     = sr_entries (refresh_slot i (fold refresh_slot [0..<i] r)) (body_handle b)"
    using assms(4) by (intro refresh_fold_other) (auto simp: Suc_le_eq)
  moreover have "sr_entries (refresh_slot i (fold refresh_slot [0..<i] r)) (body_handle b) =
     Some \<lparr>se_body = b, se_last_seen_publish_tick = sr_last_publish_tick r\<rparr>"
    using assms(1,2) by (simp add: refresh_slot_entries slot_holds_def)
  ultimately show ?thesis by simp
qed

lemma refresh_slots_none:
  assumes "\<forall>j b. j < INPUTHEALTH_SLOT_COUNT \<and> slot_holds (sr_shmem r) j b \<longrightarrow> body_handle b \<noteq> h"
  shows "sr_entries (refresh_slots r) h = sr_entries r h"
  using assms unfolding refresh_slots_def by (intro refresh_fold_other) auto

lemma Refresh_new_tick:
  assumes "pData (sr_shmem r) \<noteq> None" "ih_publish_tick mem \<noteq> sr_last_publish_tick r"
  shows "Refresh ok mem now r =
     refresh_slots (r\<lparr>sr_shmem := sees mem (sr_shmem r), sr_last_publish_tick := ih_publish_tick mem,
                     sr_last_change := Some now\<rparr>)"
  using assms by (auto simp: Refresh_def Refresh_open_def sees_def IH_LoadPublishTick_def Let_def)

section \<open>Slots carry the handles of the directory\<close>

definition tagged :: "snapshot_publisher \<Rightarrow> bool" where
  "tagged p \<longleftrightarrow>
     g_handleToSlot p 0 = None \<and>
     (\<forall>h s b. g_handleToSlot p h = Some s \<and> IH_TryReadSlot 8 s (g_shmem p) = Some b \<longrightarrow> body_handle b = h) \<and>
     (\<forall>s<256. \<forall>b. IH_TryReadSlot 8 s (g_shmem p) = Some b \<longrightarrow>
        body_handle b \<noteq> 0 \<longrightarrow> g_handleToSlot p (body_handle b) = Some s)"

lemma tagged_publish_record:
  assumes "pub_wf p" "tagged p" "body_handle b = h" "h \<noteq> 0"
  shows "tagged (snd (publish_record h b p))"
proof -
  have ihw: "ih_wf (g_shmem p)" using assms(1) by (simp add: pub_wf_def)
  have lt: "\<And>k s. g_handleToSlot p k = Some s \<Longrightarrow> s < g_nextFreeSlot p \<and> s < 256"
    using assms(1) pub_wf_slot_less [OF assms(1)] by (auto simp: pub_wf_def)
  have inj: "\<And>k k' s. g_handleToSlot p k = Some s \<Longrightarrow> g_handleToSlot p k' = Some s \<Longrightarrow> k = k'"
    using assms(1) unfolding pub_wf_def inj_on_def by (metis domI)
  show ?thesis
  proof (rule publish_record_cases [OF assms(1), of h b])
    assume "publish_record h b p = (False, p\<lparr>g_loggedFullTable := True\<rparr>)"
    then show ?thesis using assms(2) by (simp add: tagged_def)
  next
    fix s
    assume f: "g_handleToSlot p h = None" "s = g_nextFreeSlot p" "s < 256"
      and e: "publish_record h b p = (True, p\<lparr>g_nextFreeSlot := s + 1,
         g_handleToSlot := (g_handleToSlot p)(h \<mapsto> s), g_shmem := IH_WriteSlot s b (g_shmem p)\<rparr>)"
    show ?thesis
      unfolding e tagged_def using assms(2-4) f lt by (auto simp: tagged_def ih_rd [OF ihw] split: if_splits dest: lt)
  next
    fix s
    assume f: "g_handleToSlot p h = Some s" "s < g_nextFreeSlot p" "s < 256"
      and e: "publish_record h b p = (True, p\<lparr>g_shmem := IH_WriteSlot s b (g_shmem p)\<rparr>)"
    have rd: "\<And>s'. s' < 256 \<Longrightarrow> IH_TryReadSlot 8 s' (IH_WriteSlot s b (g_shmem p)) =
        (if s = s' then Some b else IH_TryReadSlot 8 s' (g_shmem p))"
      using f(3) by (rule ih_rd [OF ihw])
    have "body_handle c = k" if k: "g_handleToSlot p k = Some s'"
      and c: "IH_TryReadSlot 8 s' (IH_WriteSlot s b (g_shmem p)) = Some c" for k s' c
    proof (cases "s = s'")
      case True
      with c lt [OF k] have "c = b" by (simp add: ih_rd [OF ihw])
      moreover have "k = h" using inj [OF k] f(1) True by simp
      ultimately show ?thesis using assms(3) by simp
    next
      case False
      with k c lt [OF k] assms(2) show ?thesis by (auto simp: rd tagged_def)
    qed
    then show ?thesis
      unfolding e tagged_def using assms(2-4) f by (auto simp: tagged_def rd split: if_splits)
  qed
qed

text \<open>A staged record carries the handle it is filed under, which is not zero.\<close>

definition staged_ok :: "staged_snapshot \<Rightarrow> bool" where
  "staged_ok rec \<longleftrightarrow> ss_handle rec \<noteq> 0 \<and> body_handle (ss_body rec) = ss_handle rec"

definition pub_inv :: "snapshot_publisher \<Rightarrow> bool" where
  "pub_inv p \<longleftrightarrow> pub_wf p \<and> tagged p"

lemma pub_inv_wf: "pub_inv p \<Longrightarrow> pub_wf p"
  by (simp add: pub_inv_def)

lemma pub_inv_publish_staged:
  assumes "pub_inv p" "list_all staged_ok staged"
  shows "pub_inv (publish_staged staged p)"
  using assms unfolding publish_staged_def
  by (induction staged arbitrary: p)
    (simp_all add: pub_inv_def staged_ok_def tagged_publish_record ihp.wf_ins)

lemma bump_read [simp]:
  "IH_TryReadSlot n i (IH_BumpPublishTick s) = IH_TryReadSlot n i s" "ih_wf (IH_BumpPublishTick s) = ih_wf s"
  by (auto simp: IH_TryReadSlot_def IH_BumpPublishTick_def ih_wf_def split: option.splits)

lemma PublishOneTick_fields [simp]:
  "g_handleToSlot (PublishOneTick staged p) = g_handleToSlot (publish_staged staged p)"
  "g_nextFreeSlot (PublishOneTick staged p) = g_nextFreeSlot (publish_staged staged p)"
  "published (PublishOneTick staged p) = published (publish_staged staged p)"
  by (simp_all add: PublishOneTick_def Let_def published_def fun_eq_iff split: option.splits)

lemma pub_inv_PublishOneTick:
  assumes "pub_inv p" "list_all staged_ok staged"
  shows "pub_inv (PublishOneTick staged p)"
proof -
  have "pub_inv (publish_staged staged p)" by (rule pub_inv_publish_staged [OF assms])
  then show ?thesis
    by (simp add: pub_inv_def pub_wf_def tagged_def PublishOneTick_def Let_def)
qed

text \<open>The segment as Windows provides it when it is created: filled with zero bytes.\<close>

definition fresh_mem :: "nat \<Rightarrow> ih_data" where
  "fresh_mem n = \<lparr>ih_magic = 0, ih_version = 0, ih_slot_count = 0, ih_publish_tick = 0,
     ih_slots = replicate INPUTHEALTH_SLOT_COUNT \<lparr>generation = 0, slot_body = replicate n 0\<rparr>\<rparr>"

definition started_publisher :: "nat \<Rightarrow> snapshot_publisher" where
  "started_publisher n = SnapshotPublisherInit True (Some (fresh_mem n)) publisher_init"

lemma body_handle_zero: "body_handle (replicate n 0) = 0"
proof -
  have "horner_sum uint a (replicate k (0 :: byte)) = 0" for a k
    by (induction k) simp_all
  then show ?thesis by (simp add: body_handle_def word_rcat_def)
qed

lemma pub_inv_started: "pub_inv (started_publisher n)"
proof -
  let ?s = "g_shmem (started_publisher n)"
  have s: "pData ?s = Some (ih_stamp (fresh_mem n))"
    by (simp add: started_publisher_def SnapshotPublisherInit_def publisher_init_def IH_Create_def shm_defs)
  then have "ih_wf ?s"
    by (simp add: ih_wf_def ih_stamp_def fresh_mem_def list_all_length settled_def)
  moreover have "IH_TryReadSlot 8 i ?s = Some b \<Longrightarrow> body_handle b = 0" if "i < 256" for i b
  proof -
    have "unat i < 256" "\<not> 256 \<le> i" using that by (simp_all add: word_less_nat_alt not_le)
    then have "IH_TryReadSlot 8 i ?s = Some (replicate n 0)"
      by (simp add: IH_TryReadSlot_def s ih_stamp_def fresh_mem_def INPUTHEALTH_SLOT_COUNT_def
          seqlock_read_settled settled_def del: seqlock_read.simps)
    then show "IH_TryReadSlot 8 i ?s = Some b \<Longrightarrow> body_handle b = 0"
      by (auto simp: body_handle_zero)
  qed
  ultimately show ?thesis
    by (auto simp: pub_inv_def pub_wf_def tagged_def)
      (simp_all add: started_publisher_def SnapshotPublisherInit_def publisher_init_def IH_Create_def shm_defs)
qed

lemma pub_inv_run:
  assumes "list_all (list_all staged_ok) batches"
  shows "pub_inv (fold PublishOneTick batches (started_publisher n))"
proof -
  have "pub_inv p \<Longrightarrow> pub_inv (fold PublishOneTick batches p)" for p
    using assms by (induction batches arbitrary: p) (simp_all add: pub_inv_PublishOneTick)
  then show ?thesis by (simp add: pub_inv_started)
qed

lemma publish_staged_insert_all:
  "publish_staged staged p = ihp.insert_all (map (\<lambda>rec. (ss_handle rec, ss_body rec)) staged) p"
  unfolding publish_staged_def ihp.insert_all_def by (induction staged arbitrary: p) simp_all

text \<open>What the batches of a session amount to: a map from handles to bodies with room for 256 handles.\<close>

definition snapshot_map :: "staged_snapshot list \<Rightarrow> (u64 \<rightharpoonup> byte list) \<Rightarrow> (u64 \<rightharpoonup> byte list)" where
  "snapshot_map staged m =
     fold (\<lambda>rec. bounded_step INPUTHEALTH_SLOT_COUNT (\<lambda>b. b) (MIns (ss_handle rec) (ss_body rec))) staged m"

lemma published_staged:
  assumes "pub_wf p"
  shows "published (publish_staged staged p) = snapshot_map staged (published p)"
proof -
  have "fold (\<lambda>(k, v). bounded_step c st (MIns k v)) (map (\<lambda>rec. (ss_handle rec, ss_body rec)) staged) m =
     fold (\<lambda>rec. bounded_step c st (MIns (ss_handle rec) (ss_body rec))) staged m" for c st m
    by (induction staged arbitrary: m) simp_all
  then show ?thesis
    by (simp add: publish_staged_insert_all ihp.lookup_insert_all [OF assms] snapshot_map_def)
qed

lemma published_run:
  assumes "list_all (list_all staged_ok) batches"
  shows "published (fold PublishOneTick batches (started_publisher n)) = fold snapshot_map batches Map.empty"
proof -
  have "pub_inv p \<Longrightarrow> published (fold PublishOneTick batches p) = fold snapshot_map batches (published p)" for p
    using assms
    by (induction batches arbitrary: p) (simp_all add: pub_inv_PublishOneTick published_staged pub_inv_wf)
  moreover have "published (started_publisher n) = Map.empty"
    by (simp add: fun_eq_iff published_def started_publisher_def SnapshotPublisherInit_def publisher_init_def
        IH_Create_def shm_defs)
  ultimately show ?thesis by (simp add: pub_inv_started)
qed

lemma Refresh_published:
  assumes inv: "pub_inv p" and mem: "pData (g_shmem p) = Some mem"
    and r: "pData (sr_shmem r) \<noteq> None" "ih_publish_tick mem \<noteq> sr_last_publish_tick r"
  shows "sr_entries (Refresh ok mem now r) h =
     (case published p h of
        Some b \<Rightarrow> Some \<lparr>se_body = b, se_last_seen_publish_tick = ih_publish_tick mem\<rparr>
      | None \<Rightarrow> sr_entries r h)"
proof -
  let ?r = "r\<lparr>sr_shmem := sees mem (sr_shmem r), sr_last_publish_tick := ih_publish_tick mem, sr_last_change := Some now\<rparr>"
  have wf: "pub_wf p" and tg: "tagged p" using inv by (simp_all add: pub_inv_def)
  have rd: "IH_TryReadSlot 8 i (sees mem (sr_shmem r)) = IH_TryReadSlot 8 i (g_shmem p)" for i
    using mem r by (auto simp: IH_TryReadSlot_def sees_def)
  have tag: "g_handleToSlot p (body_handle b) = Some (of_nat i)"
    if "slot_holds (sr_shmem ?r) i b" "i < INPUTHEALTH_SLOT_COUNT" "body_handle b \<noteq> 0" for i b
  proof -
    have "(of_nat i :: u32) < 256" using that(2) by (simp add: word_less_nat_alt unat_of_nat INPUTHEALTH_SLOT_COUNT_def)
    then show ?thesis using that tg by (auto simp: tagged_def slot_holds_def rd)
  qed
  have zero: "g_handleToSlot p 0 = None" using tg by (simp add: tagged_def)
  show ?thesis
  proof (cases "published p h")
    case None
    then have h: "g_handleToSlot p h = None" using dom_published [OF wf] by (metis domIff)
    have "sr_entries (refresh_slots ?r) h = sr_entries ?r h"
    proof (cases "h = 0")
      case True
      then show ?thesis by (simp add: refresh_slots_def refresh_fold_zero)
    next
      case False
      then show ?thesis using h tag by (intro refresh_slots_none) auto
    qed
    then show ?thesis using None r by (simp add: Refresh_new_tick)
  next
    case (Some b)
    then obtain s where s: "g_handleToSlot p h = Some s" "IH_TryReadSlot 8 s (g_shmem p) = Some b"
      by (auto simp: published_def split: option.splits)
    have b: "body_handle b = h" "h \<noteq> 0" using s tg zero by (auto simp: tagged_def)
    have us: "unat s < INPUTHEALTH_SLOT_COUNT" "s = of_nat (unat s)"
      using pub_wf_slot_less [OF wf s(1)] by (simp_all add: word_less_nat_alt INPUTHEALTH_SLOT_COUNT_def)
    have "sr_entries (refresh_slots ?r) (body_handle b) =
        Some \<lparr>se_body = b, se_last_seen_publish_tick = sr_last_publish_tick ?r\<rparr>"
    proof (rule refresh_slots_highest [of _ "unat s"])
      show "slot_holds (sr_shmem ?r) (unat s) b" using s(2) by (simp add: slot_holds_def rd)
      show "\<forall>j b'. unat s < j \<and> j < INPUTHEALTH_SLOT_COUNT \<and> slot_holds (sr_shmem ?r) j b' \<longrightarrow>
          body_handle b' \<noteq> body_handle b"
      proof (intro allI impI notI)
        fix j b'
        assume j: "unat s < j \<and> j < INPUTHEALTH_SLOT_COUNT \<and> slot_holds (sr_shmem ?r) j b'"
          and "body_handle b' = body_handle b"
        then have "s = of_nat j" using tag [of j b'] b s(1) by simp
        then have "unat s = j" using j by (simp add: u32_less_256 INPUTHEALTH_SLOT_COUNT_def)
        with j show False by simp
      qed
    qed (use b us in auto)
    then show ?thesis using Some b r by (simp add: Refresh_new_tick)
  qed
qed


text \<open>When two slots carry the same handle the reader believes the higher one. The publisher hands out
  slots from zero in every session and neither it nor \<open>Create\<close> clears the table, so a slot left over in
  a segment that outlived the driver hides the live snapshot below it.\<close>

theorem leftover_slot_wins:
  assumes "pData (sr_shmem r) \<noteq> None" "ih_publish_tick mem \<noteq> sr_last_publish_tick r"
    and "slot_holds (sees mem (sr_shmem r)) i live" "slot_holds (sees mem (sr_shmem r)) 255 old" "i < 255"
    and "body_handle live = body_handle old" "body_handle old \<noteq> 0"
  shows "sr_entries (Refresh ok mem now r) (body_handle live) =
     Some \<lparr>se_body = old, se_last_seen_publish_tick = ih_publish_tick mem\<rparr>"
proof -
  let ?r = "r\<lparr>sr_shmem := sees mem (sr_shmem r), sr_last_publish_tick := ih_publish_tick mem, sr_last_change := Some now\<rparr>"
  have "sr_entries (refresh_slots ?r) (body_handle old) =
      Some \<lparr>se_body = old, se_last_seen_publish_tick = sr_last_publish_tick ?r\<rparr>"
    using assms by (intro refresh_slots_highest [of _ 255]) (auto simp: INPUTHEALTH_SLOT_COUNT_def)
  then show ?thesis using assms by (simp add: Refresh_new_tick)
qed


text \<open>A snapshot of the component with handle 5.\<close>

definition demo_body :: "byte \<Rightarrow> byte list" where
  "demo_body v = [5, 0, 0, 0, 0, 0, 0, 0, v]"

lemma body_handle_demo: "body_handle (demo_body v) = 5"
  by (simp add: body_handle_def demo_body_def word_rcat_def)

definition open_reader :: "u64 \<Rightarrow> snapshot_reader" where
  "open_reader t = reader_init\<lparr>sr_shmem := \<lparr>hMapFile = MappedFile, pData = Some (fresh_mem 9)\<rparr>, sr_last_publish_tick := t\<rparr>"


definition leftover_mem :: ih_data where
  "leftover_mem = (ih_stamp (fresh_mem 9))\<lparr>ih_publish_tick := 3, ih_slots := (ih_slots (fresh_mem 9))
     [0 := \<lparr>generation = 2, slot_body = demo_body 1\<rparr>, 255 := \<lparr>generation = 4, slot_body = demo_body 2\<rparr>]\<rparr>"

theorem leftover_slot_wins_witness:
  "sr_entries (Refresh True leftover_mem 0 (open_reader 0)) 5 =
     Some \<lparr>se_body = demo_body 2, se_last_seen_publish_tick = 3\<rparr>"
proof -
  have "slot_holds (sees leftover_mem (sr_shmem (open_reader 0))) 0 (demo_body 1)"
    "slot_holds (sees leftover_mem (sr_shmem (open_reader 0))) 255 (demo_body 2)"
    by (simp_all add: slot_holds_def IH_TryReadSlot_def sees_def open_reader_def leftover_mem_def ih_stamp_def
        fresh_mem_def INPUTHEALTH_SLOT_COUNT_def seqlock_read_settled settled_def del: seqlock_read.simps)
  then show ?thesis
    using leftover_slot_wins [of "open_reader 0" leftover_mem 0 "demo_body 1" "demo_body 2" True 0]
    by (simp add: body_handle_demo open_reader_def leftover_mem_def)
qed

end
