(* ===== verification/OscWire.thy ===== *)
theory OscWire
  imports Prelude
begin

text \<open>
  The OSC 1.0 wire format of \<open>modules/oscrouter/src/driver/OscWire.h\<close>: the fixed-capacity packet
  writer \<open>OscPacket<N>\<close>, the bounds-checked reader \<open>OscReader\<close>, the message parser and the
  bundle dispatcher. A packet's state is the written prefix of its buffer and the \<open>ok_\<close> flag
  (\<open>pos_\<close> is the length of the prefix); a reader's state is its data, its position and
  \<open>valid_\<close>. The dispatcher returns the list of the callbacks it makes, in order.
\<close>

section \<open>Padding\<close>

text \<open>
  \<open>(n + 3u) & ~3u\<close>: the mask is a 32-bit constant that is zero-extended to \<open>size_t\<close>, so the
  result keeps the low 32 bits only.
\<close>

definition OscPad4 :: "nat \<Rightarrow> nat" where
  "OscPad4 n = (n + 3) AND 0xFFFFFFFC"

section \<open>Serialisation\<close>

record osc_packet =
  pk_cap :: nat
  pk_buf :: "byte list"
  pk_ok :: bool

definition OscPacket_init :: "nat \<Rightarrow> osc_packet" where
  "OscPacket_init n = \<lparr>pk_cap = n, pk_buf = [], pk_ok = True\<rparr>"

definition OscPacket_AppendByte :: "byte \<Rightarrow> osc_packet \<Rightarrow> osc_packet" where
  "OscPacket_AppendByte b p =
     (if \<not> pk_ok p then p
      else if length (pk_buf p) \<ge> pk_cap p then p\<lparr>pk_ok := False\<rparr>
      else p\<lparr>pk_buf := pk_buf p @ [b]\<rparr>)"

definition OscPacket_Append :: "byte list \<Rightarrow> osc_packet \<Rightarrow> osc_packet" where
  "OscPacket_Append src p =
     (if \<not> pk_ok p then p
      else if length (pk_buf p) + length src > pk_cap p then p\<lparr>pk_ok := False\<rparr>
      else p\<lparr>pk_buf := pk_buf p @ src\<rparr>)"

definition be32 :: "u32 \<Rightarrow> byte list" where
  "be32 v = [ucast (drop_bit 24 v), ucast (drop_bit 16 v), ucast (drop_bit 8 v), ucast v]"

definition OscPacket_WriteInt32 :: "u32 \<Rightarrow> osc_packet \<Rightarrow> osc_packet" where
  "OscPacket_WriteInt32 v p = OscPacket_Append (be32 v) p"

text \<open>\<open>WriteFloat\<close> copies the bit pattern of the float, so the model takes the pattern.\<close>

definition OscPacket_WriteFloat :: "u32 \<Rightarrow> osc_packet \<Rightarrow> osc_packet" where
  "OscPacket_WriteFloat bits p = OscPacket_WriteInt32 bits p"

definition OscPacket_pad :: "nat \<Rightarrow> osc_packet \<Rightarrow> osc_packet" where
  "OscPacket_pad len p = (OscPacket_AppendByte 0 ^^ (OscPad4 len - len)) p"

definition OscPacket_WriteStr :: "cstring \<Rightarrow> osc_packet \<Rightarrow> osc_packet" where
  "OscPacket_WriteStr s p =
     OscPacket_pad (length s + 1) (OscPacket_Append (s @ [0]) p)"

definition OscPacket_WriteBlob :: "byte list \<Rightarrow> osc_packet \<Rightarrow> osc_packet" where
  "OscPacket_WriteBlob d p =
     OscPacket_pad (length d)
       (OscPacket_Append d (OscPacket_WriteInt32 (of_nat (length d)) p))"

definition OscPacket_WriteRawArgs :: "byte list \<Rightarrow> osc_packet \<Rightarrow> osc_packet" where
  "OscPacket_WriteRawArgs d p = OscPacket_Append d p"

definition OscPacket_Begin :: "cstring \<Rightarrow> cstring \<Rightarrow> osc_packet \<Rightarrow> osc_packet" where
  "OscPacket_Begin address typetag p =
     OscPacket_WriteStr typetag
       (OscPacket_WriteStr address (p\<lparr>pk_buf := [], pk_ok := True\<rparr>))"

section \<open>Parsing\<close>

record osc_reader =
  rd_data :: "byte list"
  rd_pos :: nat
  rd_valid :: bool

definition OscReader_init :: "byte list \<Rightarrow> osc_reader" where
  "OscReader_init d = \<lparr>rd_data = d, rd_pos = 0, rd_valid = (0 < length d)\<rparr>"

definition OscReader_ReadStr :: "osc_reader \<Rightarrow> cstring option \<times> osc_reader" where
  "OscReader_ReadStr r =
     (if \<not> rd_valid r then (None, r)
      else let start = drop (rd_pos r) (rd_data r);
               remaining = length (rd_data r) - rd_pos r;
               len = length (cstr_of start)
           in if len = remaining then (None, r\<lparr>rd_valid := False\<rparr>)
              else let advance = OscPad4 (len + 1)
                   in if rd_pos r + advance > length (rd_data r)
                      then (None, r\<lparr>rd_valid := False\<rparr>)
                      else (Some (cstr_of start), r\<lparr>rd_pos := rd_pos r + advance\<rparr>))"

definition OscReader_ReadBytes :: "nat \<Rightarrow> osc_reader \<Rightarrow> byte list option \<times> osc_reader" where
  "OscReader_ReadBytes n r =
     (if \<not> rd_valid r then (None, r)
      else if rd_pos r + n > length (rd_data r) then (None, r\<lparr>rd_valid := False\<rparr>)
      else (Some (take n (drop (rd_pos r) (rd_data r))), r\<lparr>rd_pos := rd_pos r + n\<rparr>))"

definition from_be32 :: "byte list \<Rightarrow> u32" where
  "from_be32 b =
     push_bit 24 (ucast (b ! 0)) OR push_bit 16 (ucast (b ! 1)) OR
     push_bit 8 (ucast (b ! 2)) OR ucast (b ! 3)"

definition OscReader_ReadInt32 :: "osc_reader \<Rightarrow> u32 \<times> osc_reader" where
  "OscReader_ReadInt32 r =
     (case OscReader_ReadBytes 4 r of
        (None, r') \<Rightarrow> (0, r')
      | (Some b, r') \<Rightarrow> (from_be32 b, r'))"

definition OscReader_ReadFloat :: "osc_reader \<Rightarrow> u32 \<times> osc_reader" where
  "OscReader_ReadFloat r = OscReader_ReadInt32 r"

text \<open>Result: the blob (\<open>None\<close> for a null pointer), \<open>len_out\<close> and the reader.\<close>

definition OscReader_ReadBlob :: "osc_reader \<Rightarrow> byte list option \<times> u32 \<times> osc_reader" where
  "OscReader_ReadBlob r =
     (let (raw, r1) = OscReader_ReadInt32 r
      in if \<not> rd_valid r1 \<or> sint raw < 0 then (None, 0, r1\<lparr>rd_valid := False\<rparr>)
         else if rd_pos r1 + unat raw > length (rd_data r1)
              then (None, raw, r1\<lparr>rd_valid := False\<rparr>)
         else let r2 = r1\<lparr>rd_pos := rd_pos r1 + OscPad4 (unat raw)\<rparr>
              in if rd_pos r2 > length (rd_data r2)
                 then (None, raw, r2\<lparr>rd_valid := False\<rparr>)
                 else (Some (take (unat raw) (drop (rd_pos r1) (rd_data r1))), raw, r2))"

record osc_message =
  om_address :: cstring
  om_typetag :: cstring
  om_args :: "byte list"

text \<open>\<open>None\<close> is a message with \<open>valid = false\<close>.\<close>

definition OscParseMessage :: "byte list \<Rightarrow> osc_message option" where
  "OscParseMessage d =
     (let (address, r1) = OscReader_ReadStr (OscReader_init d);
          (typetag, r2) = OscReader_ReadStr r1
      in case (address, typetag) of
           (Some a, Some t) \<Rightarrow>
             (if rd_valid r2
              then Some \<lparr>om_address = a, om_typetag = t, om_args = drop (rd_pos r2) d\<rparr>
              else None)
         | _ \<Rightarrow> None)"

section \<open>Bundle dispatch\<close>

definition kOscBundlePrefix :: "byte list" where
  "kOscBundlePrefix = [35, 98, 117, 110, 100, 108, 101, 0]"

text \<open>
  The callbacks made by \<open>OscDispatch\<close>, in order. \<open>OscDispatch_loop\<close> is its \<open>while\<close> loop over the
  bytes that remain after position \<open>pos\<close>.
\<close>

function (sequential) OscDispatch :: "byte list \<Rightarrow> osc_message list"
  and OscDispatch_loop :: "byte list \<Rightarrow> osc_message list" where
  "OscDispatch d =
     (if length d < 8 then []
      else if take 8 d = kOscBundlePrefix
      then (if length d < 16 then [] else OscDispatch_loop (drop 16 d))
      else (case OscParseMessage d of None \<Rightarrow> [] | Some m \<Rightarrow> [m]))"
| "OscDispatch_loop d =
     (if length d < 4 then []
      else let len = unat (fst (OscReader_ReadInt32 (OscReader_init (take 4 d))))
           in if len > length (drop 4 d) then []
              else OscDispatch (take len (drop 4 d)) @ OscDispatch_loop (drop len (drop 4 d)))"
  by pat_completeness auto
termination
  by (relation "measure (\<lambda>x. case x of Inl d \<Rightarrow> length d | Inr d \<Rightarrow> length d)") auto

declare OscDispatch.simps [simp del] OscDispatch_loop.simps [simp del]


section \<open>Reference encoding\<close>

text \<open>The bytes \<open>WriteStr\<close> produces for a string.\<close>

definition osc_str :: "cstring \<Rightarrow> byte list" where
  "osc_str s = s @ 0 # replicate (OscPad4 (length s + 1) - (length s + 1)) 0"


text \<open>OSC elements: a message, or a bundle with its 8-byte time tag and its elements.\<close>

datatype osc_elem = EMsg osc_message | EBundle "byte list" "osc_elem list"

primrec enc_elem :: "osc_elem \<Rightarrow> byte list" where
  "enc_elem (EMsg m) = osc_str (om_address m) @ osc_str (om_typetag m) @ om_args m"
| "enc_elem (EBundle tt es) =
     kOscBundlePrefix @ tt @ concat (map (\<lambda>b. be32 (of_nat (length b)) @ b) (map enc_elem es))"

primrec elem_messages :: "osc_elem \<Rightarrow> osc_message list" where
  "elem_messages (EMsg m) = [m]"
| "elem_messages (EBundle tt es) = concat (map elem_messages es)"

primrec wf_elem :: "osc_elem \<Rightarrow> bool" where
  "wf_elem (EMsg m) \<longleftrightarrow>
     is_cstr (om_address m) \<and> is_cstr (om_typetag m) \<and> om_address m \<noteq> bytes ''#bundle''"
| "wf_elem (EBundle tt es) \<longleftrightarrow> length tt = 8 \<and> list_all id (map wf_elem es)"

definition message_bytes :: "osc_message \<Rightarrow> nat" where
  "message_bytes m = length (om_address m) + 1 + (length (om_typetag m) + 1) + length (om_args m)"

section \<open>Lemmas on the encoding\<close>

lemma from_be32_be32 [simp]: "from_be32 (be32 v) = v"
proof (rule bit_word_eqI)
  fix n assume "n < LENGTH(32)"
  then consider "n < 8" | "8 \<le> n" "n < 16" | "16 \<le> n" "n < 24" | "24 \<le> n" "n < 32"
    by fastforce
  then show "bit (from_be32 (be32 v)) n = bit v n"
    by cases (auto simp: from_be32_def be32_def bit_simps)
qed

lemma length_be32 [simp]: "length (be32 v) = 4"
  by (simp add: be32_def)

lemma OscPad4_eq: "n + 3 < 2 ^ 32 \<Longrightarrow> OscPad4 n = 4 * ((n + 3) div 4)"
proof -
  assume small: "n + 3 < 2 ^ 32"
  have "(0xFFFFFFFC :: nat) = push_bit 2 (mask 30)"
    by (simp add: push_bit_eq_mult mask_eq_exp_minus_1)
  moreover have "x AND push_bit 2 (mask 30) = push_bit 2 (take_bit 30 (drop_bit 2 x))" for x :: nat
    by (rule bit_eqI) (auto simp: bit_simps simp del: add_2_eq_Suc add_2_eq_Suc')
  ultimately have "OscPad4 n = push_bit 2 (take_bit 30 (drop_bit 2 (n + 3)))"
    by (simp only: OscPad4_def)
  moreover have "take_bit 30 ((n + 3) div 4) = (n + 3) div 4"
    using small by (intro take_bit_nat_eq_self) simp
  ultimately show ?thesis
    by (simp add: push_bit_eq_mult drop_bit_eq_div)
qed

lemma OscPad4_bounds:
  assumes "n + 3 < 2 ^ 32"
  shows "n \<le> OscPad4 n" and "OscPad4 n < n + 4" and "4 dvd OscPad4 n"
  using OscPad4_eq [OF assms] by auto

lemma osc_str_not_Nil [simp]: "osc_str s \<noteq> []"
  by (simp add: osc_str_def)

lemma length_osc_str:
  "length s + 4 < 2 ^ 32 \<Longrightarrow> length (osc_str s) = OscPad4 (length s + 1)"
  using OscPad4_bounds(1) [of "length s + 1"] by (simp add: osc_str_def)

lemma AppendByte_pow:
  "(OscPacket_AppendByte b ^^ k) p =
     (if \<not> pk_ok p then p
      else if length (pk_buf p) \<le> pk_cap p \<and> length (pk_buf p) + k \<le> pk_cap p
      then p\<lparr>pk_buf := pk_buf p @ replicate k b\<rparr>
      else if k = 0 then p
      else p\<lparr>pk_buf := pk_buf p @ replicate (pk_cap p - length (pk_buf p)) b, pk_ok := False\<rparr>)"
proof (induction k)
  case 0 then show ?case by simp
next
  case (Suc k) then show ?case
    by (auto simp: OscPacket_AppendByte_def replicate_append_same Suc_diff_le not_le)
qed

lemma Append_simps:
  "\<not> pk_ok p \<Longrightarrow> OscPacket_Append d p = p"
  "pk_ok p \<Longrightarrow> length (pk_buf p) + length d > pk_cap p \<Longrightarrow> OscPacket_Append d p = p\<lparr>pk_ok := False\<rparr>"
  "pk_ok p \<Longrightarrow> length (pk_buf p) + length d \<le> pk_cap p \<Longrightarrow>
     OscPacket_Append d p = p\<lparr>pk_buf := pk_buf p @ d\<rparr>"
  by (simp_all add: OscPacket_Append_def)

lemma WriteStr_cases:
  assumes "length s + 4 < 2 ^ 32" and "length (pk_buf p) \<le> pk_cap p"
  shows "if pk_ok p \<and> length (pk_buf p) + length (osc_str s) \<le> pk_cap p
         then OscPacket_WriteStr s p = p\<lparr>pk_buf := pk_buf p @ osc_str s\<rparr>
         else \<not> pk_ok (OscPacket_WriteStr s p) \<and>
              length (pk_buf (OscPacket_WriteStr s p)) \<le> pk_cap p \<and>
              pk_cap (OscPacket_WriteStr s p) = pk_cap p"
proof -
  have pad: "length s + 1 \<le> OscPad4 (length s + 1)"
    using OscPad4_bounds(1) [of "length s + 1"] assms(1) by simp
  consider "\<not> pk_ok p" | "pk_ok p" "length (pk_buf p) + length (s @ [0]) > pk_cap p"
    | "pk_ok p" "length (pk_buf p) + length (s @ [0]) \<le> pk_cap p" by linarith
  then show ?thesis
  proof cases
    case 1
    with assms(2) show ?thesis
      by (simp add: OscPacket_WriteStr_def OscPacket_pad_def AppendByte_pow Append_simps)
  next
    case 2
    with assms(2) pad show ?thesis
      by (simp add: OscPacket_WriteStr_def OscPacket_pad_def AppendByte_pow Append_simps osc_str_def)
  next
    case 3
    with assms(2) pad show ?thesis
      by (auto simp add: OscPacket_WriteStr_def OscPacket_pad_def AppendByte_pow Append_simps osc_str_def)
  qed
qed

lemma WriteStr_ok:
  assumes "pk_ok (OscPacket_WriteStr s p)" and "length s + 4 < 2 ^ 32"
    and "length (pk_buf p) \<le> pk_cap p"
  shows "OscPacket_WriteStr s p = p\<lparr>pk_buf := pk_buf p @ osc_str s\<rparr>" and "pk_ok p"
    and "length (pk_buf p) + length (osc_str s) \<le> pk_cap p"
  using WriteStr_cases [OF assms(2,3)] assms(1) by (auto split: if_splits)

lemma WriteStr_ok_length:
  assumes "pk_ok (OscPacket_WriteStr s p)"
  shows "length (pk_buf p) + length s + 1 \<le> pk_cap p"
  using assms
  by (auto simp: OscPacket_WriteStr_def OscPacket_pad_def AppendByte_pow OscPacket_Append_def
      split: if_splits)

lemma WriteStr_ok_before: "pk_ok (OscPacket_WriteStr s p) \<Longrightarrow> pk_ok p"
  by (auto simp: OscPacket_WriteStr_def OscPacket_pad_def AppendByte_pow OscPacket_Append_def
      split: if_splits)

lemma WriteStr_cap [simp]: "pk_cap (OscPacket_WriteStr s p) = pk_cap p"
  by (simp add: OscPacket_WriteStr_def OscPacket_pad_def AppendByte_pow OscPacket_Append_def)

lemma ReadStr_osc_str:
  assumes "is_cstr s" and "length s + 4 < 2 ^ 32"
    and "rd_valid r" and "rd_data r = pre @ osc_str s @ post" and "rd_pos r = length pre"
  shows "OscReader_ReadStr r = (Some s, r\<lparr>rd_pos := length pre + length (osc_str s)\<rparr>)"
  using assms length_osc_str [of s]
  by (auto simp: OscReader_ReadStr_def Let_def osc_str_def)

lemma OscParseMessage_enc:
  assumes "is_cstr a" and "is_cstr t" and "length a + 4 < 2 ^ 32" and "length t + 4 < 2 ^ 32"
  shows "OscParseMessage (osc_str a @ osc_str t @ args) =
           Some \<lparr>om_address = a, om_typetag = t, om_args = args\<rparr>"
proof -
  let ?d = "osc_str a @ osc_str t @ args"
  let ?r0 = "OscReader_init ?d"
  let ?r1 = "?r0\<lparr>rd_pos := length (osc_str a)\<rparr>"
  have "OscReader_ReadStr ?r0 = (Some a, ?r1)"
    using ReadStr_osc_str [OF assms(1,3), of ?r0 "[]" "osc_str t @ args"]
    by (simp add: OscReader_init_def)
  moreover have "OscReader_ReadStr ?r1 =
      (Some t, ?r1\<lparr>rd_pos := length (osc_str a) + length (osc_str t)\<rparr>)"
    using ReadStr_osc_str [OF assms(2,4), of ?r1 "osc_str a" args]
    by (simp add: OscReader_init_def)
  ultimately show ?thesis
    by (simp add: OscParseMessage_def OscReader_init_def)
qed

lemma take_prefix_neq:
  assumes "is_cstr a" and "a \<noteq> bytes ''#bundle''"
  shows "take 8 (a @ 0 # x) \<noteq> kOscBundlePrefix"
proof
  assume eq: "take 8 (a @ 0 # x) = kOscBundlePrefix"
  show False
  proof (cases "length a \<le> 7")
    case True
    then have "8 - length a = Suc (7 - length a)" by simp
    with True have "take 8 (a @ 0 # x) = a @ 0 # take (7 - length a) x" by simp
    then have "cstr_of (take 8 (a @ 0 # x)) = a" using assms(1) by simp
    then have "cstr_of kOscBundlePrefix = a" using eq by simp
    with assms(2) show False by (simp add: kOscBundlePrefix_def cstr_of_def bytes_def)
  next
    case False
    with eq have "kOscBundlePrefix = take 8 a" by simp
    moreover have "0 \<in> set kOscBundlePrefix" by (simp add: kOscBundlePrefix_def)
    ultimately show False using assms(1) by (metis in_set_takeD is_cstr_def)
  qed
qed

lemma length_prefix [simp]: "length kOscBundlePrefix = 8"
  by (simp add: kOscBundlePrefix_def)

lemma length_osc_str_ge: "length s + 4 < 2 ^ 32 \<Longrightarrow> 4 \<le> length (osc_str s) \<and> length s < length (osc_str s)"
  using length_osc_str [of s] OscPad4_bounds [of "length s + 1"] by (auto simp: OscPad4_eq)

lemma OscDispatch_message:
  assumes "wf_elem (EMsg m)" and "length (enc_elem (EMsg m)) < 2 ^ 32 - 4"
  shows "OscDispatch (enc_elem (EMsg m)) = [m]"
proof -
  let ?a = "om_address m" and ?t = "om_typetag m"
  have small: "length ?a + 4 < 2 ^ 32" "length ?t + 4 < 2 ^ 32"
    using assms(2) by (auto simp: osc_str_def)
  have "8 \<le> length (enc_elem (EMsg m))"
    using length_osc_str_ge [OF small(1)] length_osc_str_ge [OF small(2)] by simp
  moreover have "take 8 (enc_elem (EMsg m)) \<noteq> kOscBundlePrefix"
    using take_prefix_neq assms(1) by (simp add: osc_str_def)
  moreover have "OscParseMessage (enc_elem (EMsg m)) = Some m"
    using OscParseMessage_enc [OF _ _ small] assms(1) by simp
  ultimately show ?thesis by (simp add: OscDispatch.simps)
qed

lemma OscDispatch_loop_chunk:
  assumes "length b < 2 ^ 32"
  shows "OscDispatch_loop (be32 (of_nat (length b)) @ b @ x) = OscDispatch b @ OscDispatch_loop x"
  using assms
  by (subst OscDispatch_loop.simps)
    (simp add: OscReader_ReadInt32_def OscReader_ReadBytes_def OscReader_init_def unat_of_nat
      take_bit_nat_eq_self)

lemma OscDispatch_loop_Nil: "OscDispatch_loop [] = []"
  by (simp add: OscDispatch_loop.simps)

lemma length_enc_mem: "e \<in> set es \<Longrightarrow> length (enc_elem e) \<le>
    length (concat (map (\<lambda>b. be32 (of_nat (length b)) @ b) (map enc_elem es)))"
  by (induction es) auto

lemma OscDispatch_bundle:
  assumes "length tt = 8"
  shows "OscDispatch (kOscBundlePrefix @ tt @ x) = OscDispatch_loop x"
  using assms by (subst OscDispatch.simps) simp

lemma OscDispatch_loop_concat:
  assumes "\<And>b. b \<in> set bs \<Longrightarrow> length b < 2 ^ 32"
  shows "OscDispatch_loop (concat (map (\<lambda>b. be32 (of_nat (length b)) @ b) bs)) =
           concat (map OscDispatch bs)"
  using assms by (induction bs) (simp_all add: OscDispatch_loop_Nil OscDispatch_loop_chunk)

lemma OscDispatch_enc_elem:
  "wf_elem e \<Longrightarrow> length (enc_elem e) < 2 ^ 32 - 4 \<Longrightarrow> OscDispatch (enc_elem e) = elem_messages e"
proof (induction e)
  case (EMsg m)
  then show ?case using OscDispatch_message by simp
next
  case (EBundle tt es)
  have small: "length (enc_elem e) < 2 ^ 32 - 4" if "e \<in> set es" for e
    using length_enc_mem [OF that] EBundle.prems(2) by simp
  have "OscDispatch (enc_elem (EBundle tt es)) = concat (map OscDispatch (map enc_elem es))"
    using EBundle.prems(1) small
    by (simp only: enc_elem.simps OscDispatch_bundle wf_elem.simps)
      (rule OscDispatch_loop_concat, fastforce)
  also have "map OscDispatch (map enc_elem es) = map elem_messages es"
    using EBundle.IH EBundle.prems(1) small by (auto simp: list_all_iff)
  finally show ?case by simp
qed

section \<open>Lemmas on the reader\<close>

lemma ReadStr_bounds:
  assumes "OscReader_ReadStr r = (Some s, r')" and "rd_pos r \<le> length (rd_data r)"
    and "length (rd_data r) + 3 < 2 ^ 32"
  shows "rd_pos r + length s + 1 \<le> rd_pos r'" and "rd_pos r' \<le> length (rd_data r')"
    and "rd_data r' = rd_data r" and "rd_valid r'"
proof -
  let ?s = "cstr_of (drop (rd_pos r) (rd_data r))"
  have "length ?s \<le> length (rd_data r) - rd_pos r"
    using length_cstr_of [of "drop (rd_pos r) (rd_data r)"] by simp
  with assms have "length ?s + 1 \<le> OscPad4 (length ?s + 1)"
    by (intro OscPad4_bounds(1)) (auto simp: OscReader_ReadStr_def Let_def split: if_splits)
  with assms show "rd_pos r + length s + 1 \<le> rd_pos r'" "rd_pos r' \<le> length (rd_data r')"
    "rd_data r' = rd_data r" "rd_valid r'"
    by (auto simp: OscReader_ReadStr_def Let_def split: if_splits)
qed

lemma OscParseMessage_bytes:
  assumes "OscParseMessage d = Some m" and "length d + 3 < 2 ^ 32"
  shows "message_bytes m \<le> length d"
proof -
  obtain t r2 a r1 where rd: "OscReader_ReadStr (OscReader_init d) = (Some a, r1)"
      "OscReader_ReadStr r1 = (Some t, r2)"
    and m: "m = \<lparr>om_address = a, om_typetag = t, om_args = drop (rd_pos r2) d\<rparr>"
    using assms(1)
    by (auto simp: OscParseMessage_def Let_def split: prod.splits option.splits if_splits)
  have b1: "length a + 1 \<le> rd_pos r1" "rd_pos r1 \<le> length d" "rd_data r1 = d"
    using ReadStr_bounds [OF rd(1)] assms(2) by (auto simp: OscReader_init_def)
  have "rd_pos r1 + length t + 1 \<le> rd_pos r2" "rd_pos r2 \<le> length d"
    using ReadStr_bounds [OF rd(2)] b1 assms(2) by auto
  with b1 m show ?thesis by (simp add: message_bytes_def)
qed

lemma OscDispatch_bytes:
  "length d + 3 < 2 ^ 32 \<Longrightarrow> sum_list (map message_bytes (OscDispatch d)) \<le> length d"
  "length x + 3 < 2 ^ 32 \<Longrightarrow> sum_list (map message_bytes (OscDispatch_loop x)) \<le> length x"
proof (induction d and x rule: OscDispatch_OscDispatch_loop.induct)
  case (1 d)
  have "sum_list (map message_bytes (OscDispatch_loop (drop 16 d))) \<le> length d"
    if "\<not> length d < 16" "take 8 d = kOscBundlePrefix"
    using 1 that by fastforce
  then show ?case
    using OscParseMessage_bytes [of d] "1.prems"
    by (subst OscDispatch.simps) (auto split: option.splits)
next
  case (2 x)
  let ?len = "unat (fst (OscReader_ReadInt32 (OscReader_init (take 4 x))))"
  show ?case
  proof (cases "length x < 4 \<or> ?len > length (drop 4 x)")
    case True
    then show ?thesis by (subst OscDispatch_loop.simps) (auto simp: Let_def)
  next
    case False
    have "sum_list (map message_bytes (OscDispatch (take ?len (drop 4 x)))) \<le> ?len"
      using "2.IH"(1) [OF _ refl] False "2.prems" by auto
    moreover have "sum_list (map message_bytes (OscDispatch_loop (drop ?len (drop 4 x))))
        \<le> length (drop ?len (drop 4 x))"
      using "2.IH"(2) [OF _ refl] False "2.prems" by auto
    ultimately show ?thesis using False
      by (subst OscDispatch_loop.simps) (auto simp: Let_def)
  qed
qed

text \<open>The bytes of an accepted packet.\<close>

lemma packet_bytes:
  assumes "N + 4 < 2 ^ 32" and "p = OscPacket_WriteRawArgs args (OscPacket_Begin a t (OscPacket_init N))"
    and "pk_ok p"
  shows "pk_buf p = osc_str a @ osc_str t @ args" and "length (pk_buf p) \<le> N"
    and "length a + 4 < 2 ^ 32" and "length t + 4 < 2 ^ 32"
proof -
  let ?p0 = "OscPacket_init N"
  let ?p1 = "OscPacket_WriteStr a ?p0" and ?p2 = "OscPacket_Begin a t ?p0"
  have p2: "?p2 = OscPacket_WriteStr t ?p1"
    by (simp add: OscPacket_Begin_def OscPacket_init_def)
  have ok2: "pk_ok ?p2" and ap: "length (pk_buf ?p2) + length args \<le> pk_cap ?p2"
      and buf: "pk_buf p = pk_buf ?p2 @ args"
    using assms(2,3) by (auto simp: OscPacket_WriteRawArgs_def OscPacket_Append_def split: if_splits)
  have cap: "pk_cap ?p1 = N"
    by (simp add: OscPacket_init_def)
  show t4: "length t + 4 < 2 ^ 32"
    using WriteStr_ok_length [OF ok2 [unfolded p2]] cap assms(1) by simp
  have ok1: "pk_ok ?p1"
    using ok2 [unfolded p2] by (rule WriteStr_ok_before)
  then show a4: "length a + 4 < 2 ^ 32"
    using WriteStr_ok_length [OF ok1] assms(1) by (simp add: OscPacket_init_def)
  have p1: "?p1 = ?p0\<lparr>pk_buf := osc_str a\<rparr>" and l1: "length (osc_str a) \<le> N"
    using WriteStr_ok [OF ok1 a4] by (simp_all add: OscPacket_init_def)
  have "pk_buf ?p2 = osc_str a @ osc_str t"
    using WriteStr_ok(1) [OF ok2 [unfolded p2] t4] p1 l1 p2 by (simp add: OscPacket_init_def)
  moreover have "pk_cap ?p2 = N" using p2 cap by simp
  ultimately show "pk_buf p = osc_str a @ osc_str t @ args" "length (pk_buf p) \<le> N"
    using buf ap by simp_all
qed

section \<open>Properties\<close>

text \<open>C14: whatever \<open>OscPacket\<close> accepts, \<open>OscParseMessage\<close> gives back: if \<open>Begin\<close> and
  \<open>WriteRawArgs\<close> leave \<open>Ok()\<close> true, the written bytes parse to the same address, type tag and
  argument bytes.\<close>

theorem OscPacket_parse_roundtrip:
  assumes "is_cstr a" and "is_cstr t" and "N + 4 < 2 ^ 32"
    and "p = OscPacket_WriteRawArgs args (OscPacket_Begin a t (OscPacket_init N))"
    and "pk_ok p"
  shows "OscParseMessage (pk_buf p) = Some \<lparr>om_address = a, om_typetag = t, om_args = args\<rparr> \<and>
         length (pk_buf p) \<le> N"
  using packet_bytes [OF assms(3,4,5)] OscParseMessage_enc [OF assms(1,2)] by simp

theorem OscPacket_parse_roundtrip_witness:
  "OscParseMessage (pk_buf (OscPacket_WriteRawArgs [63, 64, 0, 0]
       (OscPacket_Begin [47, 106] [44, 102] (OscPacket_init 512)))) =
     Some \<lparr>om_address = [47, 106], om_typetag = [44, 102], om_args = [63, 64, 0, 0]\<rparr>"
proof -
  let ?p = "OscPacket_WriteRawArgs [63, 64, 0, 0]
       (OscPacket_Begin [47, 106] [44, 102] (OscPacket_init 512))"
  have ok: "pk_ok ?p"
    by (simp add: OscPacket_WriteRawArgs_def OscPacket_Begin_def OscPacket_WriteStr_def
        OscPacket_init_def OscPacket_pad_def OscPacket_Append_def OscPacket_AppendByte_def OscPad4_def)
  show ?thesis
    using OscPacket_parse_roundtrip [of "[47, 106]" "[44, 102]" 512 ?p "[63, 64, 0, 0]"] ok by simp
qed

text \<open>A bundle, nested to any depth, is dispatched as its messages, each once and in order, and
  a plain message as itself.\<close>

theorem OscDispatch_bundle_roundtrip:
  assumes "wf_elem e" and "length (enc_elem e) < 2 ^ 32 - 4"
  shows "OscDispatch (enc_elem e) = elem_messages e"
  using assms by (rule OscDispatch_enc_elem)

theorem OscDispatch_bundle_roundtrip_witness:
  "OscDispatch (enc_elem (EBundle (replicate 8 0)
      [EMsg \<lparr>om_address = [47, 97], om_typetag = [44], om_args = []\<rparr>,
       EBundle (replicate 8 1) [EMsg \<lparr>om_address = [47, 98], om_typetag = [44, 105], om_args = [0, 0, 0, 1]\<rparr>]]))
   = [\<lparr>om_address = [47, 97], om_typetag = [44], om_args = []\<rparr>,
      \<lparr>om_address = [47, 98], om_typetag = [44, 105], om_args = [0, 0, 0, 1]\<rparr>]"
proof -
  let ?e = "EBundle (replicate 8 0)
      [EMsg \<lparr>om_address = [47, 97], om_typetag = [44], om_args = []\<rparr>,
       EBundle (replicate 8 1) [EMsg \<lparr>om_address = [47, 98], om_typetag = [44, 105], om_args = [0, 0, 0, 1]\<rparr>]]"
  have "wf_elem ?e" by (simp add: bytes_def)
  moreover have "length (enc_elem ?e) < 2 ^ 32 - 4"
    by (simp add: osc_str_def OscPad4_def)
  ultimately show ?thesis using OscDispatch_bundle_roundtrip [of ?e] by simp
qed



text \<open>What \<open>WriteBlob\<close> writes, \<open>ReadBlob\<close> gives back, and the reader stands on the byte after
  the padding.\<close>

theorem OscBlob_roundtrip:
  assumes "length d + 3 < 2 ^ 31" and "N < 2 ^ 32"
    and "p = OscPacket_WriteBlob d (OscPacket_init N)" and "pk_ok p"
  shows "\<exists>r. OscReader_ReadBlob (OscReader_init (pk_buf p)) = (Some d, of_nat (length d), r) \<and>
             rd_valid r \<and> rd_pos r = length (pk_buf p)"
proof -
  have small: "length d + 3 < 2 ^ 32" using assms(1) by simp
  note pad = OscPad4_bounds(1) [OF small]
  have buf: "pk_buf p = be32 (of_nat (length d)) @ d @ replicate (OscPad4 (length d) - length d) 0"
    using assms(3,4)
    by (auto simp: OscPacket_WriteBlob_def OscPacket_pad_def AppendByte_pow OscPacket_Append_def
        OscPacket_WriteInt32_def OscPacket_init_def split: if_splits)
  have n: "unat (of_nat (length d) :: u32) = length d"
    using small by (simp add: unat_of_nat take_bit_nat_eq_self)
  have "sint (of_nat (length d) :: u32) = int (length d)"
    using assms(1) sint_sbintrunc' [of "int (length d)", where 'a = 32]
    by (simp add: signed_take_bit_int_eq_self_iff)
  then show ?thesis
    using buf n pad
    by (auto simp: OscReader_ReadBlob_def OscReader_ReadInt32_def OscReader_ReadBytes_def
        OscReader_init_def Let_def)
qed

theorem OscBlob_roundtrip_witness:
  "\<exists>r. OscReader_ReadBlob (OscReader_init (pk_buf (OscPacket_WriteBlob [1, 2, 3, 4, 5] (OscPacket_init 64))))
         = (Some [1, 2, 3, 4, 5], 5, r) \<and> rd_valid r"
proof -
  let ?p = "OscPacket_WriteBlob [1, 2, 3, 4, 5] (OscPacket_init 64)"
  have "pk_ok ?p"
    by (simp add: OscPacket_WriteBlob_def OscPacket_WriteInt32_def OscPacket_init_def
        OscPacket_pad_def OscPacket_Append_def AppendByte_pow OscPad4_def)
  then show ?thesis using OscBlob_roundtrip [of "[1, 2, 3, 4, 5]" 64 ?p] by auto
qed

end
