(* ===== verification/OscPattern.thy ===== *)
theory OscPattern
  imports Prelude
begin

text \<open>
  OSC 1.0 address patterns, \<open>modules/oscrouter/src/driver/OscWire.cpp\<close>. Patterns and addresses are
  C strings; \<open>*p == 0\<close> is the empty list. \<open>char\<close> is signed in the build, so ranges compare with
  the signed order. The reference semantics \<open>glob\<close> reads a pattern as a list of tokens.
\<close>

section \<open>The matcher\<close>

definition chSTAR :: byte where "chSTAR = 42"
definition chQM :: byte where "chQM = 63"
definition chLB :: byte where "chLB = 91"
definition chRB :: byte where "chRB = 93"
definition chLC :: byte where "chLC = 123"
definition chRC :: byte where "chRC = 125"
definition chCOMMA :: byte where "chCOMMA = 44"
definition chDASH :: byte where "chDASH = 45"
definition chBANG :: byte where "chBANG = 33"

lemmas ch_defs = chSTAR_def chQM_def chLB_def chRB_def chLC_def chRC_def chCOMMA_def
  chDASH_def chBANG_def

text \<open>The \<open>while\<close> loop of \<open>MatchCharClass\<close>: what remains of the pattern, and \<open>matched\<close>.\<close>

fun class_loop :: "byte \<Rightarrow> cstring \<Rightarrow> bool \<Rightarrow> cstring \<times> bool" where
  "class_loop ch [] m = ([], m)"
| "class_loop ch (c1 # d # c2 # p) m =
     (if c1 = chRB then (c1 # d # c2 # p, m)
      else if d = chDASH \<and> c2 \<noteq> chRB then class_loop ch p (m \<or> (c1 <=s ch \<and> ch <=s c2))
      else class_loop ch (d # c2 # p) (m \<or> ch = c1))"
| "class_loop ch (c1 # p) m =
     (if c1 = chRB then (c1 # p, m) else class_loop ch p (m \<or> ch = c1))"

text \<open>\<open>None\<close> is \<open>ok = false\<close>; otherwise the pattern after the closing bracket and the result.\<close>

definition MatchCharClass :: "cstring \<Rightarrow> byte \<Rightarrow> (cstring \<times> bool) option" where
  "MatchCharClass p ch =
     (let negated = (case p of c # _ \<Rightarrow> c = chBANG | [] \<Rightarrow> False);
          (q, matched) = class_loop ch (if negated then tl p else p) False
      in case q of
           [] \<Rightarrow> None
         | c # rest \<Rightarrow> Some (rest, if negated then \<not> matched else matched))"

text \<open>The pattern after the brace that closes the group, as the \<open>'{'\<close> case finds it.\<close>

fun skip_group :: "nat \<Rightarrow> cstring \<Rightarrow> cstring" where
  "skip_group depth [] = []"
| "skip_group depth (c # p) =
     (if depth = 0 then c # p
      else skip_group (if c = chLC then depth + 1 else if c = chRC then depth - 1 else depth) p)"

text \<open>
  The patterns \<open>MatchAlternates\<close> tries, in order; \<open>cur\<close> is the text from \<open>start\<close> to \<open>p\<close>. The list
  ends where the code gives up: at an alternative that does not fit the 256-byte buffer, or at a
  missing closing brace.
\<close>

fun alternates :: "cstring \<Rightarrow> cstring \<Rightarrow> cstring \<Rightarrow> cstring list" where
  "alternates rest cur [] = []"
| "alternates rest cur (c # p) =
     (if c = chRC
      then (if length cur \<ge> 255 \<or> length cur + length p \<ge> 256 then [] else [cur @ p])
      else if c = chCOMMA
      then (if length cur \<ge> 255 \<or> length cur + length rest \<ge> 256 then []
            else (cur @ rest) # alternates rest [] p)
      else alternates rest (cur @ [c]) p)"

fun nonempty_suffixes :: "'a list \<Rightarrow> 'a list list" where
  "nonempty_suffixes [] = []"
| "nonempty_suffixes (x # xs) = (x # xs) # nonempty_suffixes xs"

lemma class_loop_length: "class_loop ch p m = (q, b) \<Longrightarrow> length q \<le> length p"
  by (induction ch p m rule: class_loop.induct) (auto split: if_splits)

lemma MatchCharClass_length:
  assumes "MatchCharClass p ch = Some (q, b)"
  shows "length q < length p"
proof -
  let ?p = "if (case p of c # _ \<Rightarrow> c = chBANG | [] \<Rightarrow> False) then tl p else p"
  obtain r m where r: "class_loop ch ?p False = (r, m)" by (rule prod.exhaust)
  with assms obtain c where "r = c # q"
    by (cases r) (auto simp only: MatchCharClass_def Let_def list.case prod.case option.simps)
  with r have "class_loop ch ?p False = (c # q, m)" by simp
  then have "length (c # q) \<le> length ?p" by (rule class_loop_length)
  also have "length ?p \<le> length p" by simp
  finally show ?thesis by simp
qed

lemma skip_group_length: "length (skip_group d p) \<le> length p"
  by (induction d p rule: skip_group.induct) (auto simp: le_Suc_eq)

lemma alternates_length:
  "0 < d \<Longrightarrow> q \<in> set (alternates (skip_group d p) cur p) \<Longrightarrow> length q \<le> length cur + length p"
proof (induction p arbitrary: d cur)
  case Nil
  then show ?case by simp
next
  case (Cons c p)
  have sub: "length (skip_group d (c # p)) \<le> length (c # p)" by (rule skip_group_length)
  consider "c = chRC" | "c = chCOMMA" | "c \<noteq> chRC" "c \<noteq> chCOMMA" by blast
  then show ?case
  proof cases
    case 1
    with Cons.prems show ?thesis by (auto split: if_splits)
  next
    case 2
    then have rest: "skip_group d (c # p) = skip_group d p"
      using Cons.prems(1) by (simp add: ch_defs)
    from 2 Cons.prems(2) have "q = cur @ skip_group d (c # p) \<or>
        q \<in> set (alternates (skip_group d p) [] p)"
      unfolding rest by (auto simp: ch_defs split: if_splits)
    then show ?thesis using sub Cons.IH [OF Cons.prems(1)] by fastforce
  next
    case 3
    let ?d = "if c = chLC then d + 1 else d"
    from 3 Cons.prems have "q \<in> set (alternates (skip_group ?d p) (cur @ [c]) p)"
      by (simp split: if_splits)
    moreover have "0 < ?d" using Cons.prems(1) by simp
    ultimately show ?thesis using Cons.IH [of ?d "cur @ [c]"] by fastforce
  qed
qed

function PatternMatchImpl :: "cstring \<Rightarrow> cstring \<Rightarrow> bool" where
  "PatternMatchImpl p a =
     (case p of
        [] \<Rightarrow> a = []
      | c # p' \<Rightarrow>
          if c = chQM then a \<noteq> [] \<and> PatternMatchImpl p' (tl a)
          else if c = chSTAR then
            (let q = dropWhile (\<lambda>x. x = chSTAR) p'
             in q = [] \<or> list_ex (\<lambda>a'. PatternMatchImpl q a') (nonempty_suffixes a))
          else if c = chLB then
            (case MatchCharClass p' (case a of [] \<Rightarrow> 0 | x # _ \<Rightarrow> x) of
               None \<Rightarrow> False
             | Some (q, hit) \<Rightarrow> hit \<and> a \<noteq> [] \<and> PatternMatchImpl q (tl a))
          else if c = chLC then
            list_ex (\<lambda>q. PatternMatchImpl q a) (alternates (skip_group 1 p') [] p')
          else a \<noteq> [] \<and> c = hd a \<and> PatternMatchImpl p' (tl a))"
  by pat_completeness auto
termination
proof (relation "measure (\<lambda>(p, a). length p)", goal_cases)
  case (3 p a c p' q a')
  have "length q \<le> length p'" using 3 by (simp add: length_dropWhile_le)
  with 3 show ?case by simp
next
  case (4 p a c p' x q hit)
  then show ?case using MatchCharClass_length by fastforce
next
  case (5 p a c p' q)
  then show ?case using alternates_length [of 1 q p' "[]"] by simp
qed auto

declare PatternMatchImpl.simps [simp del]

text \<open>\<open>OscPatternMatch\<close>; a null pointer is \<open>None\<close>.\<close>

definition OscPatternMatch :: "cstring option \<Rightarrow> cstring option \<Rightarrow> bool" where
  "OscPatternMatch pattern address =
     (case (pattern, address) of
        (Some p, Some a) \<Rightarrow> PatternMatchImpl p a
      | _ \<Rightarrow> False)"

section \<open>Reference semantics\<close>

text \<open>A pattern without groups as tokens: any character, any text, a character class (negated or
  not, with its ranges), a malformed class, a literal.\<close>

datatype tok = TAny | TStar | TClass bool "(byte \<times> byte) list" | TBad | TLit byte

fun class_ranges :: "cstring \<Rightarrow> (byte \<times> byte) list \<times> cstring" where
  "class_ranges [] = ([], [])"
| "class_ranges (c1 # d # c2 # p) =
     (if c1 = chRB then ([], c1 # d # c2 # p)
      else if d = chDASH \<and> c2 \<noteq> chRB then apfst (Cons (c1, c2)) (class_ranges p)
      else apfst (Cons (c1, c1)) (class_ranges (d # c2 # p)))"
| "class_ranges (c1 # p) =
     (if c1 = chRB then ([], c1 # p) else apfst (Cons (c1, c1)) (class_ranges p))"

lemma class_ranges_length: "length (snd (class_ranges p)) \<le> length p"
  by (induction p rule: class_ranges.induct) auto

definition class_token :: "cstring \<Rightarrow> tok \<times> cstring" where
  "class_token p =
     (let negated = (case p of c # _ \<Rightarrow> c = chBANG | [] \<Rightarrow> False);
          (rs, q) = class_ranges (if negated then tl p else p)
      in case q of [] \<Rightarrow> (TBad, []) | c # rest \<Rightarrow> (TClass negated rs, rest))"

lemma class_token_length: "length (snd (class_token p)) \<le> length p"
proof -
  let ?p = "if (case p of c # _ \<Rightarrow> c = chBANG | [] \<Rightarrow> False) then tl p else p"
  have "length (snd (class_ranges ?p)) \<le> length ?p" by (rule class_ranges_length)
  also have "length ?p \<le> length p" by simp
  finally show ?thesis
    by (auto simp add: class_token_def Let_def split: prod.splits list.splits)
qed

function tokens :: "cstring \<Rightarrow> tok list" where
  "tokens p =
     (case p of
        [] \<Rightarrow> []
      | c # p' \<Rightarrow>
          if c = chQM then TAny # tokens p'
          else if c = chSTAR then TStar # tokens p'
          else if c = chLB then fst (class_token p') # tokens (snd (class_token p'))
          else TLit c # tokens p')"
  by pat_completeness auto
termination
  by (relation "measure length") (auto simp: le_imp_less_Suc class_token_length)

declare tokens.simps [simp del]

lemmas tokens_Cons = tokens.simps [of "c # p" for c p, simplified]
lemmas PatternMatchImpl_Cons = PatternMatchImpl.simps [of "c # p" for c p, unfolded list.case]

primrec tok_char :: "tok \<Rightarrow> byte \<Rightarrow> bool" where
  "tok_char TAny x = True"
| "tok_char TStar x = False"
| "tok_char (TClass neg rs) x = (neg \<noteq> list_ex (\<lambda>(lo, hi). lo <=s x \<and> x <=s hi) rs)"
| "tok_char TBad x = False"
| "tok_char (TLit c) x = (c = x)"

fun glob :: "tok list \<Rightarrow> cstring \<Rightarrow> bool" where
  "glob [] a = (a = [])"
| "glob (TStar # ts) a = list_ex (\<lambda>n. glob ts (drop n a)) [0..<Suc (length a)]"
| "glob (t # ts) [] = False"
| "glob (t # ts) (x # a) = (tok_char t x \<and> glob ts a)"

section \<open>The matcher against the reference semantics\<close>

lemma sle_antisym: "a <=s b \<Longrightarrow> b <=s a \<Longrightarrow> a = (b :: byte)"
  by (metis word_sle_eq order_antisym signed_word_eqI)

lemma class_loop_ranges:
  "class_loop ch p m =
     (snd (class_ranges p),
      m \<or> list_ex (\<lambda>(lo, hi). lo <=s ch \<and> ch <=s hi) (fst (class_ranges p)))"
proof -
  have eq: "ch = c \<longleftrightarrow> c <=s ch \<and> ch <=s c" for c
    using sle_antisym by (auto simp: word_sle_eq)
  show ?thesis
    by (induction ch p m rule: class_loop.induct) (auto simp: eq)
qed

lemma MatchCharClass_token:
  "MatchCharClass p ch =
     (case class_token p of
        (TClass neg rs, q) \<Rightarrow> Some (q, tok_char (TClass neg rs) ch)
      | _ \<Rightarrow> None)"
  by (auto simp: MatchCharClass_def class_token_def Let_def class_loop_ranges split: list.splits prod.splits)

lemma class_token_cases:
  obtains "class_token p = (TBad, [])" | neg rs q where "class_token p = (TClass neg rs, q)"
proof -
  let ?neg = "case p of c # _ \<Rightarrow> c = chBANG | [] \<Rightarrow> False"
  obtain rs q where r: "class_ranges (if ?neg then tl p else p) = (rs, q)" by (rule prod.exhaust)
  show thesis
  proof (cases q)
    case Nil
    with r have "class_token p = (TBad, [])" unfolding class_token_def Let_def by simp
    then show thesis by (rule that(1))
  next
    case (Cons c rest)
    with r have "class_token p = (TClass ?neg rs, rest)" unfolding class_token_def Let_def by simp
    then show thesis by (rule that(2))
  qed
qed

lemma class_ranges_subset: "set (snd (class_ranges p)) \<subseteq> set p"
  by (induction p rule: class_ranges.induct) auto

lemma class_token_subset: "set (snd (class_token p)) \<subseteq> set p"
proof -
  let ?p = "if (case p of c # _ \<Rightarrow> c = chBANG | [] \<Rightarrow> False) then tl p else p"
  have "set (snd (class_ranges ?p)) \<subseteq> set ?p" by (rule class_ranges_subset)
  also have "set ?p \<subseteq> set p" by (cases p) auto
  finally show ?thesis
    by (auto simp add: class_token_def Let_def split: prod.splits list.splits)
qed

lemma glob_star_iff: "glob (TStar # ts) a \<longleftrightarrow> (\<exists>n\<le>length a. glob ts (drop n a))"
proof -
  have "set [0..<Suc (length a)] = {..length a}" by auto
  then show ?thesis by (simp only: glob.simps list_ex_iff) auto
qed

lemma glob_star_star: "glob (TStar # TStar # ts) a \<longleftrightarrow> glob (TStar # ts) a"
proof
  assume "glob (TStar # TStar # ts) a"
  then obtain n m where "n \<le> length a" "m \<le> length (drop n a)" "glob ts (drop m (drop n a))"
    unfolding glob_star_iff by blast
  then show "glob (TStar # ts) a"
    unfolding glob_star_iff by (intro exI [of _ "m + n"]) auto
next
  assume "glob (TStar # ts) a"
  then show "glob (TStar # TStar # ts) a"
    unfolding glob_star_iff [of "TStar # ts"] by (intro exI [of _ 0]) auto
qed

lemma glob_star_dropWhile:
  "glob (TStar # tokens p) a \<longleftrightarrow> glob (TStar # tokens (dropWhile (\<lambda>x. x = chSTAR) p)) a"
proof (induction p)
  case (Cons c p)
  show ?case
  proof (cases "c = chSTAR")
    case True
    then have "tokens (c # p) = TStar # tokens p"
      by (subst tokens.simps) (simp add: ch_defs)
    with True Cons show ?thesis by (simp add: glob_star_star del: glob.simps)
  qed simp
qed simp

lemma set_nonempty_suffixes: "set (nonempty_suffixes a) = (\<lambda>n. drop n a) ` {..<length a}"
proof (induction a)
  case (Cons x a)
  have "{..<length (x # a)} = insert 0 (Suc ` {..<length a})"
    by (simp add: lessThan_Suc_eq_insert_0)
  with Cons show ?case by (simp add: image_image)
qed simp

lemma glob_tokens_Nil:
  assumes "q \<noteq> []" and "hd q \<noteq> chSTAR"
  shows "\<not> glob (tokens q) []"
proof -
  obtain c p where q: "q = c # p" using assms(1) by (cases q) auto
  have "fst (class_token p) \<noteq> TStar" by (rule class_token_cases [of p]) auto
  with assms(2) have "\<exists>t ts. tokens q = t # ts \<and> t \<noteq> TStar"
    unfolding q by (simp add: tokens_Cons)
  then obtain t ts where t: "tokens q = t # ts" "t \<noteq> TStar" by blast
  then show ?thesis by (cases t) auto
qed

lemma glob_star_suffixes:
  assumes "q = [] \<or> hd q \<noteq> chSTAR"
  shows "glob (TStar # tokens q) a \<longleftrightarrow>
         q = [] \<or> list_ex (\<lambda>a'. glob (tokens q) a') (nonempty_suffixes a)"
proof (cases "q = []")
  case True
  then have "tokens q = []" by (simp add: tokens.simps)
  with True show ?thesis unfolding glob_star_iff by auto
next
  case False
  with assms have "\<not> glob (tokens q) []" by (intro glob_tokens_Nil) auto
  then have "glob (tokens q) (drop n a) \<Longrightarrow> n < length a" for n
    by (cases "n < length a") auto
  with False show ?thesis
    unfolding glob_star_iff list_ex_iff set_nonempty_suffixes by (auto intro: less_imp_le)
qed



section \<open>Brace groups\<close>

fun join_comma :: "cstring list \<Rightarrow> cstring" where
  "join_comma [] = []"
| "join_comma [u] = u"
| "join_comma (u # v # us) = u @ chCOMMA # join_comma (v # us)"

definition plain :: "cstring \<Rightarrow> bool" where
  "plain u \<longleftrightarrow> chLC \<notin> set u \<and> chRC \<notin> set u \<and> chCOMMA \<notin> set u"

lemma skip_group_no_brace:
  "chLC \<notin> set u \<Longrightarrow> chRC \<notin> set u \<Longrightarrow> 0 < d \<Longrightarrow> skip_group d (u @ p) = skip_group d p"
  by (induction u) auto

lemma skip_group_0 [simp]: "skip_group 0 p = p"
  by (cases p) auto

lemma join_comma_no_brace:
  "\<forall>u \<in> set us. plain u \<Longrightarrow> chLC \<notin> set (join_comma us) \<and> chRC \<notin> set (join_comma us)"
  by (induction us rule: join_comma.induct) (auto simp: plain_def ch_defs)

lemma alternates_plain:
  "plain u \<Longrightarrow> alternates rest cur (u @ p) = alternates rest (cur @ u) p"
  by (induction u arbitrary: cur) (auto simp: plain_def)

definition fits_group :: "cstring \<Rightarrow> cstring \<Rightarrow> bool" where
  "fits_group rest u \<longleftrightarrow> length u < 255 \<and> length u + length rest < 256"

lemma alternates_join:
  assumes "us \<noteq> []" and "\<forall>u \<in> set us. plain u \<and> fits_group rest u"
  shows "alternates rest [] (join_comma us @ chRC # rest) = map (\<lambda>u. u @ rest) us"
  using assms
proof (induction us rule: join_comma.induct)
  case (2 u)
  then show ?case by (simp add: alternates_plain fits_group_def)
next
  case (3 u v us)
  then have "alternates rest [] (u @ chCOMMA # join_comma (v # us) @ chRC # rest)
      = (u @ rest) # alternates rest [] (join_comma (v # us) @ chRC # rest)"
    by (simp add: alternates_plain fits_group_def ch_defs)
  with 3 show ?case by simp
qed simp

text \<open>A closed group of plain alternatives that fit the 256-byte buffer matches exactly when one
  of the alternatives, followed by the rest of the pattern, matches.\<close>

theorem PatternMatchImpl_group:
  assumes "us \<noteq> []" and "\<forall>u \<in> set us. plain u \<and> fits_group rest u"
  shows "PatternMatchImpl (chLC # join_comma us @ chRC # rest) a
     \<longleftrightarrow> list_ex (\<lambda>u. PatternMatchImpl (u @ rest) a) us"
proof -
  have "chLC \<notin> set (join_comma us)" "chRC \<notin> set (join_comma us)"
    using join_comma_no_brace assms(2) by blast+
  then have "skip_group 1 (join_comma us @ chRC # rest) = rest"
    by (simp add: skip_group_no_brace ch_defs)
  then show ?thesis
    using alternates_join [OF assms] by (simp add: PatternMatchImpl_Cons ch_defs list_ex_iff)
qed

theorem PatternMatchImpl_group_witness:
  "PatternMatchImpl (bytes ''{ab,cd}?'') (bytes ''cdx'')"
proof -
  have e: "bytes ''{ab,cd}?'' = chLC # join_comma [bytes ''ab'', bytes ''cd''] @ chRC # bytes ''?''"
    by (simp add: bytes_def ch_defs)
  have "PatternMatchImpl (bytes ''cd'' @ bytes ''?'') (bytes ''cdx'')"
    by (simp add: bytes_def PatternMatchImpl.simps ch_defs)
  then show ?thesis unfolding e
    by (subst PatternMatchImpl_group) (auto simp: plain_def fits_group_def bytes_def ch_defs)
qed

text \<open>An unclosed group does not fail: every alternative before its last comma is still tried, with
  nothing after it, so \<open>{u,v\<close> matches exactly what \<open>u\<close> matches.\<close>

theorem PatternMatchImpl_unclosed_group:
  assumes "plain u" and "plain v" and "length u < 255"
  shows "PatternMatchImpl (chLC # u @ chCOMMA # v) a \<longleftrightarrow> PatternMatchImpl u a"
proof -
  have "skip_group 1 (u @ chCOMMA # v @ []) = []"
    using assms unfolding plain_def
    by (subst skip_group_no_brace) (simp_all add: skip_group_no_brace ch_defs del: append_Nil2)
  moreover have "alternates [] [] (v @ []) = []"
    using assms(2) by (subst alternates_plain) simp_all
  ultimately show ?thesis
    using assms by (simp add: PatternMatchImpl_Cons alternates_plain ch_defs)
qed

theorem PatternMatchImpl_unclosed_group_witness:
  "PatternMatchImpl (bytes ''{ab,cd'') (bytes ''ab'')"
proof -
  have e: "bytes ''{ab,cd'' = chLC # bytes ''ab'' @ chCOMMA # bytes ''cd''"
    by (simp add: bytes_def ch_defs)
  have "PatternMatchImpl (bytes ''ab'') (bytes ''ab'')"
    by (simp add: bytes_def PatternMatchImpl.simps ch_defs)
  then show ?thesis unfolding e
    by (subst PatternMatchImpl_unclosed_group) (auto simp: plain_def bytes_def ch_defs)
qed

end
