(* ===== verification/RouteTable.thy ===== *)
theory RouteTable
  imports OscPattern Shmem BoundedMap
begin

text \<open>
  The OSC route table, \<open>modules/oscrouter/src/driver/RouteTable.cpp\<close>: 32 slots, each with a
  subscriber, an address pattern and counters. The table refines a finite map from subscribers to
  routes with a capacity of 32 (locale \<open>bounded_map\<close>).
\<close>

section \<open>The table\<close>

definition kMaxRoutes :: nat where "kMaxRoutes = OSC_ROUTER_ROUTE_SLOTS"

record route_entry =
  subscriber_id :: u32
  re_pattern :: cstring
  subscriber_label :: cstring
  match_count :: u64
  drop_count :: u64
  last_match_tick :: u64
  active :: bool

type_synonym route_table = "route_entry list"

definition empty_entry :: route_entry where
  "empty_entry = \<lparr>subscriber_id = 0, re_pattern = [], subscriber_label = [], match_count = 0,
     drop_count = 0, last_match_tick = 0, active = False\<rparr>"

definition RouteTable_init :: route_table where
  "RouteTable_init = replicate kMaxRoutes empty_entry"

definition FindSlot :: "u32 \<Rightarrow> route_table \<Rightarrow> nat option" where
  "FindSlot i t = find_index (\<lambda>e. active e \<and> subscriber_id e = i) t"

definition FindFreeSlot :: "route_table \<Rightarrow> nat option" where
  "FindFreeSlot t = find_index (\<lambda>e. \<not> active e) t"

definition fill_entry :: "u32 \<Rightarrow> cstring \<Rightarrow> cstring \<Rightarrow> route_entry \<Rightarrow> route_entry" where
  "fill_entry i pattern label e =
     e\<lparr>subscriber_id := i,
       re_pattern := copy_str_field OSC_ROUTE_ADDR_LEN pattern,
       subscriber_label := copy_str_field 32 label,
       match_count := 0, drop_count := 0, last_match_tick := 0, active := True\<rparr>"

definition Subscribe :: "u32 \<Rightarrow> cstring \<Rightarrow> cstring \<Rightarrow> route_table \<Rightarrow> bool \<times> route_table" where
  "Subscribe i pattern label t =
     (case (case FindSlot i t of None \<Rightarrow> FindFreeSlot t | Some k \<Rightarrow> Some k) of
        None \<Rightarrow> (False, t)
      | Some k \<Rightarrow> (True, t[k := fill_entry i pattern label (t ! k)]))"

definition Unsubscribe :: "u32 \<Rightarrow> route_table \<Rightarrow> route_table" where
  "Unsubscribe i t =
     (case FindSlot i t of None \<Rightarrow> t | Some k \<Rightarrow> t[k := (t ! k)\<lparr>active := False\<rparr>])"

definition route_matches :: "cstring \<Rightarrow> route_entry \<Rightarrow> bool" where
  "route_matches address e \<longleftrightarrow> active e \<and> OscPatternMatch (Some (re_pattern e)) (Some address)"

text \<open>\<open>Dispatch\<close>: the table afterwards and \<open>matched_out\<close>.\<close>

definition Dispatch :: "cstring \<Rightarrow> u64 \<Rightarrow> route_table \<Rightarrow> route_table \<times> bool" where
  "Dispatch address qpc_tick t =
     (map (\<lambda>e. if route_matches address e
               then e\<lparr>match_count := match_count e + 1, last_match_tick := qpc_tick\<rparr> else e) t,
      list_ex (route_matches address) t)"

definition BumpDropCount :: "cstring \<Rightarrow> route_table \<Rightarrow> route_table" where
  "BumpDropCount address t =
     map (\<lambda>e. if route_matches address e then e\<lparr>drop_count := drop_count e + 1\<rparr> else e) t"

text \<open>The snapshot of one entry; the counters of an inactive entry are not copied, so what the code
  then publishes is whatever its stack holds: the argument \<open>junk\<close>.\<close>

definition snap_entry :: "(u64 \<times> u64 \<times> u64) \<Rightarrow> route_entry \<Rightarrow> route_stat" where
  "snap_entry junk e =
     (if active e
      then \<lparr>st_pattern = re_pattern e, st_label = subscriber_label e, st_match = match_count e,
            st_drop = drop_count e, st_tick = last_match_tick e, st_active = True\<rparr>
      else \<lparr>st_pattern = [], st_label = [], st_match = fst junk, st_drop = fst (snd junk),
            st_tick = snd (snd junk), st_active = False\<rparr>)"

definition PublishToShmem :: "(nat \<Rightarrow> u64 \<times> u64 \<times> u64) \<Rightarrow> route_table \<Rightarrow> osc_shmem \<Rightarrow> osc_shmem" where
  "PublishToShmem junk t shm =
     fold (\<lambda>(i, r). OSC_WriteRoute (of_nat i) r)
          (enumerate 0 (map (\<lambda>(i, e). snap_entry (junk i) e) (enumerate 0 t))) shm"

definition ActiveCount :: "route_table \<Rightarrow> u32" where
  "ActiveCount t = fold (\<lambda>e n. if active e then n + 1 else n) t 0"

section \<open>The abstraction\<close>

text \<open>Well-formed: 32 entries, at most one active entry per subscriber, and strings that fit their
  fields.\<close>

definition entry_ok :: "route_entry \<Rightarrow> bool" where
  "entry_ok e \<longleftrightarrow> is_cstr (re_pattern e) \<and> length (re_pattern e) < OSC_ROUTE_ADDR_LEN \<and>
     is_cstr (subscriber_label e) \<and> length (subscriber_label e) < 32"

definition rt_wf :: "route_table \<Rightarrow> bool" where
  "rt_wf t \<longleftrightarrow> length t = kMaxRoutes \<and> list_all entry_ok t \<and>
     (\<forall>j < length t. \<forall>k < length t. active (t ! j) \<and> active (t ! k)
        \<and> subscriber_id (t ! j) = subscriber_id (t ! k) \<longrightarrow> j = k)"

definition routes :: "route_table \<Rightarrow> u32 \<Rightarrow> route_entry option" where
  "routes t i = map_option ((!) t) (FindSlot i t)"

lemma FindSlot_Some:
  assumes "rt_wf t"
  shows "FindSlot i t = Some k \<longleftrightarrow> k < length t \<and> active (t ! k) \<and> subscriber_id (t ! k) = i"
proof
  assume "FindSlot i t = Some k"
  then show "k < length t \<and> active (t ! k) \<and> subscriber_id (t ! k) = i"
    unfolding FindSlot_def by (auto dest: find_index_Some)
next
  assume k: "k < length t \<and> active (t ! k) \<and> subscriber_id (t ! k) = i"
  then have "FindSlot i t \<noteq> None" by (auto simp: FindSlot_def find_index_None)
  then obtain j where j: "FindSlot i t = Some j" by auto
  then have "j < length t" "active (t ! j)" "subscriber_id (t ! j) = i"
    unfolding FindSlot_def by (auto dest: find_index_Some)
  with k assms have "j = k" by (auto simp: rt_wf_def)
  with j show "FindSlot i t = Some k" by simp
qed

lemma routes_Some:
  assumes "rt_wf t"
  shows "routes t i = Some e \<longleftrightarrow> (\<exists>k < length t. t ! k = e \<and> active e \<and> subscriber_id e = i)"
  using FindSlot_Some [OF assms] by (auto simp: routes_def)

definition active_slots :: "route_table \<Rightarrow> nat set" where
  "active_slots t = {k. k < length t \<and> active (t ! k)}"

lemma dom_routes:
  assumes "rt_wf t"
  shows "dom (routes t) = (\<lambda>k. subscriber_id (t ! k)) ` active_slots t"
  using routes_Some [OF assms] by (auto simp: dom_def active_slots_def image_iff)

lemma card_dom_routes:
  assumes "rt_wf t"
  shows "card (dom (routes t)) = card (active_slots t)"
proof -
  have "inj_on (\<lambda>k. subscriber_id (t ! k)) (active_slots t)"
    using assms by (auto simp: rt_wf_def active_slots_def inj_on_def)
  then show ?thesis by (simp add: dom_routes [OF assms] card_image)
qed

lemma active_slots_full:
  assumes "rt_wf t"
  shows "FindFreeSlot t = None \<longleftrightarrow> card (dom (routes t)) = kMaxRoutes"
proof -
  have sub: "active_slots t \<subseteq> {..<kMaxRoutes}" using assms by (auto simp: active_slots_def rt_wf_def)
  have "FindFreeSlot t = None \<longleftrightarrow> active_slots t = {..<kMaxRoutes}"
    using assms by (auto simp: FindFreeSlot_def find_index_None active_slots_def rt_wf_def all_set_conv_all_nth)
  also have "\<dots> \<longleftrightarrow> card (active_slots t) = card {..<kMaxRoutes}"
    using sub by (metis card_subset_eq finite_lessThan)
  finally show ?thesis by (simp add: card_dom_routes [OF assms])
qed

lemma card_routes_le: "rt_wf t \<Longrightarrow> card (dom (routes t)) \<le> kMaxRoutes"
  by (subst card_dom_routes, assumption)
     (rule card_mono [of "{..<kMaxRoutes}", simplified], auto simp: active_slots_def rt_wf_def)

text \<open>The slot \<open>Subscribe\<close> takes: the subscriber's own, or a free one.\<close>

lemma subscribe_slot:
  assumes "rt_wf t" and "(case FindSlot i t of None \<Rightarrow> FindFreeSlot t | Some k \<Rightarrow> Some k) = Some k"
  shows "k < length t"
    and "j < length t \<Longrightarrow> active (t ! j) \<Longrightarrow> j \<noteq> k \<Longrightarrow> subscriber_id (t ! j) \<noteq> i"
    and "active (t ! k) \<Longrightarrow> subscriber_id (t ! k) = i"
proof -
  consider "FindSlot i t = Some k" | "FindSlot i t = None" "FindFreeSlot t = Some k"
    using assms(2) by (auto split: option.splits)
  then have "k < length t \<and>
      (\<forall>j < length t. active (t ! j) \<and> j \<noteq> k \<longrightarrow> subscriber_id (t ! j) \<noteq> i) \<and>
      (active (t ! k) \<longrightarrow> subscriber_id (t ! k) = i)"
  proof cases
    case 1
    with assms(1) show ?thesis by (auto simp: FindSlot_Some) (auto simp: rt_wf_def)
  next
    case 2
    have "\<forall>j < length t. active (t ! j) \<longrightarrow> subscriber_id (t ! j) \<noteq> i"
      using 2(1) by (auto simp: FindSlot_def find_index_None all_set_conv_all_nth)
    with 2(2) show ?thesis by (auto simp: FindFreeSlot_def dest: find_index_Some)
  qed
  then show "k < length t"
    and "j < length t \<Longrightarrow> active (t ! j) \<Longrightarrow> j \<noteq> k \<Longrightarrow> subscriber_id (t ! j) \<noteq> i"
    and "active (t ! k) \<Longrightarrow> subscriber_id (t ! k) = i" by blast+
qed

lemma entry_ok_fill: "entry_ok (fill_entry i p l e)"
  by (simp add: entry_ok_def fill_entry_def length_copy_str_field OSC_ROUTE_ADDR_LEN_def)

lemma rt_wf_fill:
  assumes "rt_wf t" and "(case FindSlot i t of None \<Rightarrow> FindFreeSlot t | Some k \<Rightarrow> Some k) = Some k"
  shows "rt_wf (t[k := fill_entry i p l (t ! k)])"
proof -
  let ?t = "t[k := fill_entry i p l (t ! k)]"
  note sl = subscribe_slot [OF assms]
  have "list_all entry_ok ?t"
    using assms(1) by (auto simp: rt_wf_def list_all_iff entry_ok_fill dest!: set_update_subset_insert [THEN subsetD])
  moreover have "j = m" if "j < length t" "m < length t" "active (?t ! j)" "active (?t ! m)"
      "subscriber_id (?t ! j) = subscriber_id (?t ! m)" for j m
  proof (rule ccontr)
    assume "j \<noteq> m"
    have sid: "subscriber_id (?t ! k) = i" using sl(1) by (simp add: fill_entry_def)
    show False
    proof (cases "j = k \<or> m = k")
      case True
      then show False using \<open>j \<noteq> m\<close> that sid sl(2) by (metis nth_list_update_neq)
    next
      case False
      then show False using \<open>j \<noteq> m\<close> that assms(1) by (simp add: rt_wf_def)
    qed
  qed
  ultimately show ?thesis using assms(1) by (simp add: rt_wf_def)
qed

lemma routes_fill:
  assumes "rt_wf t" and "(case FindSlot i t of None \<Rightarrow> FindFreeSlot t | Some k \<Rightarrow> Some k) = Some k"
  shows "routes (t[k := fill_entry i p l (t ! k)]) = (routes t)(i \<mapsto> fill_entry i p l (t ! k))"
proof
  fix j
  let ?e = "fill_entry i p l (t ! k)"
  let ?t = "t[k := ?e]"
  note sl = subscribe_slot [OF assms]
  have wf: "rt_wf ?t" using assms by (rule rt_wf_fill)
  have e: "active ?e" "subscriber_id ?e = i" by (simp_all add: fill_entry_def)
  have "routes ?t j = Some e' \<longleftrightarrow> ((routes t)(i \<mapsto> ?e)) j = Some e'" for e'
  proof (cases "j = i")
    case True
    have "routes ?t i = Some ?e"
      using sl(1) e by (auto simp: routes_Some [OF wf] intro!: exI [of _ k])
    with True show ?thesis by auto
  next
    case False
    have "(\<exists>m < length t. ?t ! m = e' \<and> active e' \<and> subscriber_id e' = j) \<longleftrightarrow>
          (\<exists>m < length t. t ! m = e' \<and> active e' \<and> subscriber_id e' = j)"
      using False e sl(3) by (metis nth_list_update_eq nth_list_update_neq)
    with False show ?thesis by (simp add: routes_Some [OF wf] routes_Some [OF assms(1)])
  qed
  then show "routes ?t j = ((routes t)(i \<mapsto> ?e)) j" by (metis not_Some_eq option.exhaust)
qed

lemma rt_wf_Unsubscribe: "rt_wf t \<Longrightarrow> rt_wf (Unsubscribe i t)"
proof -
  assume wf: "rt_wf t"
  have "rt_wf (t[k := (t ! k)\<lparr>active := False\<rparr>])" for k
  proof (cases "k < length t")
    case True
    with wf have "entry_ok ((t ! k)\<lparr>active := False\<rparr>)"
      by (simp add: rt_wf_def list_all_length entry_ok_def)
    with wf True show ?thesis
      by (auto simp: rt_wf_def list_all_length nth_list_update split: if_splits)
  next
    case False
    then have "t[k := (t ! k)\<lparr>active := False\<rparr>] = t" by (simp add: list_update_beyond)
    with wf show ?thesis by simp
  qed
  then show "rt_wf (Unsubscribe i t)" using wf by (auto simp: Unsubscribe_def split: option.splits)
qed

lemma routes_Unsubscribe:
  assumes "rt_wf t"
  shows "routes (Unsubscribe i t) = (routes t)(i := None)"
proof
  fix j
  have wf: "rt_wf (Unsubscribe i t)" using assms by (rule rt_wf_Unsubscribe)
  have "routes (Unsubscribe i t) j = Some e \<longleftrightarrow> ((routes t)(i := None)) j = Some e" for e
  proof (cases "FindSlot i t")
    case None
    then have "routes t i = None" by (simp add: routes_def)
    with None show ?thesis by (auto simp: Unsubscribe_def)
  next
    case (Some k)
    then have k: "k < length t" "active (t ! k)" "subscriber_id (t ! k) = i"
      using FindSlot_Some [OF assms] by auto
    have "(\<exists>m < length t. t[k := (t ! k)\<lparr>active := False\<rparr>] ! m = e \<and> active e \<and> subscriber_id e = j) \<longleftrightarrow>
          j \<noteq> i \<and> (\<exists>m < length t. t ! m = e \<and> active e \<and> subscriber_id e = j)"
      (is "?l \<longleftrightarrow> ?r")
    proof
      assume ?l
      then obtain m where m: "m < length t" "t[k := (t ! k)\<lparr>active := False\<rparr>] ! m = e" "active e"
          "subscriber_id e = j" by blast
      then have "m \<noteq> k" using k(1) by auto
      with m have "t ! m = e" by simp
      with m k \<open>m \<noteq> k\<close> assms show ?r by (auto simp: rt_wf_def)
    next
      assume ?r
      then obtain m where m: "m < length t" "t ! m = e" "active e" "subscriber_id e = j" "j \<noteq> i" by blast
      with k(3) have "m \<noteq> k" by auto
      with m show ?l by (intro exI [of _ m]) simp
    qed
    with Some show ?thesis
      by (simp add: routes_Some [OF wf] routes_Some [OF assms]) (auto simp: Unsubscribe_def)
  qed
  then show "routes (Unsubscribe i t) j = ((routes t)(i := None)) j" by (metis not_Some_eq)
qed

section \<open>The table as a map of bounded size\<close>

text \<open>What a subscription amounts to: its pattern and label, cut to their fields.\<close>

definition route_info :: "route_table \<Rightarrow> u32 \<Rightarrow> (cstring \<times> cstring) option" where
  "route_info t i = map_option (\<lambda>e. (re_pattern e, subscriber_label e)) (routes t i)"

definition stored_info :: "cstring \<times> cstring \<Rightarrow> cstring \<times> cstring" where
  "stored_info pl = (copy_str_field OSC_ROUTE_ADDR_LEN (fst pl), copy_str_field 32 (snd pl))"

lemma dom_route_info [simp]: "dom (route_info t) = dom (routes t)"
  by (auto simp: route_info_def dom_def)

lemma route_info_fill:
  assumes "rt_wf t" and "(case FindSlot i t of None \<Rightarrow> FindFreeSlot t | Some k \<Rightarrow> Some k) = Some k"
  shows "route_info (t[k := fill_entry i p l (t ! k)]) = (route_info t)(i \<mapsto> stored_info (p, l))"
  unfolding fun_eq_iff route_info_def routes_fill [OF assms]
  by (simp add: stored_info_def fill_entry_def)

lemma Subscribe_cases:
  assumes "rt_wf t"
  obtains (full) "FindSlot i t = None" "FindFreeSlot t = None" "Subscribe i p l t = (False, t)"
    | (slot) k where "(case FindSlot i t of None \<Rightarrow> FindFreeSlot t | Some k \<Rightarrow> Some k) = Some k"
        "Subscribe i p l t = (True, t[k := fill_entry i p l (t ! k)])"
  using assms by (cases "case FindSlot i t of None \<Rightarrow> FindFreeSlot t | Some k \<Rightarrow> Some k")
    (auto simp: Subscribe_def split: option.splits)

interpretation rt: bounded_map rt_wf route_info "\<lambda>i pl t. Subscribe i (fst pl) (snd pl) t"
    stored_info kMaxRoutes Unsubscribe
proof
  fix t i pl
  assume wf: "rt_wf t"
  show "rt_wf (snd (Subscribe i (fst pl) (snd pl) t))"
    by (rule Subscribe_cases [OF wf, of i "fst pl" "snd pl"]) (simp_all add: wf rt_wf_fill)
  show "rt_wf (Unsubscribe i t)" using wf by (rule rt_wf_Unsubscribe)
  show "fst (Subscribe i (fst pl) (snd pl) t) \<longleftrightarrow>
      route_info t i \<noteq> None \<or> card (dom (route_info t)) < kMaxRoutes"
  proof (rule Subscribe_cases [OF wf, of i "fst pl" "snd pl"])
    assume "FindSlot i t = None" "FindFreeSlot t = None"
      "Subscribe i (fst pl) (snd pl) t = (False, t)"
    then show ?thesis using active_slots_full [OF wf] by (simp add: route_info_def routes_def)
  next
    fix k
    assume "(case FindSlot i t of None \<Rightarrow> FindFreeSlot t | Some k \<Rightarrow> Some k) = Some k"
      "Subscribe i (fst pl) (snd pl) t = (True, t[k := fill_entry i (fst pl) (snd pl) (t ! k)])"
    then show ?thesis using active_slots_full [OF wf] card_routes_le [OF wf]
      by (auto simp: route_info_def routes_def split: option.splits)
  qed
  show "fst (Subscribe i (fst pl) (snd pl) t) \<Longrightarrow>
      route_info (snd (Subscribe i (fst pl) (snd pl) t)) = (route_info t)(i \<mapsto> stored_info pl)"
    by (rule Subscribe_cases [OF wf, of i "fst pl" "snd pl"])
       (simp_all add: route_info_fill [OF wf])
  show "\<not> fst (Subscribe i (fst pl) (snd pl) t) \<Longrightarrow>
      route_info (snd (Subscribe i (fst pl) (snd pl) t)) = route_info t"
    by (rule Subscribe_cases [OF wf, of i "fst pl" "snd pl"]) simp_all
  show "route_info (Unsubscribe i t) = (route_info t)(i := None)"
    by (auto simp: route_info_def routes_Unsubscribe [OF wf])
qed

lemma rt_wf_init: "rt_wf RouteTable_init"
  by (simp add: rt_wf_def RouteTable_init_def list_all_iff empty_entry_def entry_ok_def OSC_ROUTE_ADDR_LEN_def)

lemma route_info_init: "route_info RouteTable_init = Map.empty"
proof
  fix i
  have "FindSlot i RouteTable_init = None"
    by (auto simp: FindSlot_def find_index_None RouteTable_init_def empty_entry_def)
  then show "route_info RouteTable_init i = None" by (simp add: route_info_def routes_def)
qed

text \<open>One request on the table.\<close>

definition rt_request :: "(u32, cstring \<times> cstring) map_op \<Rightarrow> route_table \<Rightarrow> route_table" where
  "rt_request op t =
     (case op of MIns i pl \<Rightarrow> snd (Subscribe i (fst pl) (snd pl) t) | MDel i \<Rightarrow> Unsubscribe i t)"

text \<open>C10: after any sequence of subscriptions and removals the table holds exactly the routes of a map
  from subscribers to (pattern, label) that refuses a new subscriber when it has 32.\<close>

theorem RouteTable_refines_map:
  "route_info (fold rt_request ops RouteTable_init) =
     fold (bounded_step kMaxRoutes stored_info) ops Map.empty"
proof -
  have "rt_request = rt.run_op" by (intro ext) (simp add: rt_request_def rt.run_op_def)
  then show ?thesis using rt.refines [OF rt_wf_init] by (simp add: route_info_init)
qed

section \<open>Counters\<close>

lemma routes_map:
  assumes "\<And>e. active (f e) = active e" and "\<And>e. subscriber_id (f e) = subscriber_id e"
  shows "routes (map f t) i = map_option f (routes t i)"
proof -
  have "FindSlot i (map f t) = FindSlot i t"
    using assms by (simp add: FindSlot_def find_index_map)
  moreover have "FindSlot i t = Some k \<Longrightarrow> k < length t" for k
    by (auto simp: FindSlot_def dest: find_index_Some)
  ultimately show ?thesis by (cases "FindSlot i t") (auto simp: routes_def)
qed

lemma route_matches_iff: "route_matches a e \<longleftrightarrow> active e \<and> PatternMatchImpl (re_pattern e) a"
  by (simp add: route_matches_def OscPatternMatch_def)

lemma Dispatch_routes:
  assumes "rt_wf t"
  shows "routes (fst (Dispatch a q t)) i =
           map_option (\<lambda>e. if PatternMatchImpl (re_pattern e) a
             then e\<lparr>match_count := match_count e + 1, last_match_tick := q\<rparr> else e) (routes t i)"
    and "routes (BumpDropCount a t) i =
           map_option (\<lambda>e. if PatternMatchImpl (re_pattern e) a
             then e\<lparr>drop_count := drop_count e + 1\<rparr> else e) (routes t i)"
proof -
  have act: "active e" if "routes t i = Some e" for e
    using that routes_Some [OF assms] by auto
  show "routes (fst (Dispatch a q t)) i =
           map_option (\<lambda>e. if PatternMatchImpl (re_pattern e) a
             then e\<lparr>match_count := match_count e + 1, last_match_tick := q\<rparr> else e) (routes t i)"
    using act by (cases "routes t i") (simp_all add: Dispatch_def routes_map route_matches_iff)
  show "routes (BumpDropCount a t) i =
           map_option (\<lambda>e. if PatternMatchImpl (re_pattern e) a
             then e\<lparr>drop_count := drop_count e + 1\<rparr> else e) (routes t i)"
    using act by (cases "routes t i") (simp_all add: BumpDropCount_def routes_map route_matches_iff)
qed

text \<open>Publishing an address increments the match counter and stamps the tick of exactly the
  subscribed routes whose pattern matches it, and reports whether there is one; a drop increments
  exactly their drop counters.\<close>

theorem Dispatch_counts:
  assumes "rt_wf t"
  shows "routes (fst (Dispatch a q t)) i =
           map_option (\<lambda>e. if PatternMatchImpl (re_pattern e) a
             then e\<lparr>match_count := match_count e + 1, last_match_tick := q\<rparr> else e) (routes t i)
       \<and> (snd (Dispatch a q t) \<longleftrightarrow> (\<exists>j e. routes t j = Some e \<and> PatternMatchImpl (re_pattern e) a))
       \<and> routes (BumpDropCount a t) i =
           map_option (\<lambda>e. if PatternMatchImpl (re_pattern e) a
             then e\<lparr>drop_count := drop_count e + 1\<rparr> else e) (routes t i)"
proof -
  have "snd (Dispatch a q t) \<longleftrightarrow> (\<exists>j e. routes t j = Some e \<and> PatternMatchImpl (re_pattern e) a)"
    unfolding routes_Some [OF assms] by (auto simp: Dispatch_def list_ex_length route_matches_iff)
  then show ?thesis using Dispatch_routes [OF assms] by simp
qed

definition demo_table :: route_table where
  "demo_table = snd (Subscribe 7 (bytes ''/a?'') (bytes ''x'') RouteTable_init)"

lemma demo_table_wf: "rt_wf demo_table"
  using rt.wf_ins [OF rt_wf_init, of 7 "(bytes ''/a?'', bytes ''x'')"] by (simp add: demo_table_def)

lemma demo_table_route: "\<exists>e. routes demo_table 7 = Some e \<and> re_pattern e = bytes ''/a?''"
proof -
  have "fst (Subscribe 7 (bytes ''/a?'') (bytes ''x'') RouteTable_init)"
    using rt.ins_ok [OF rt_wf_init, of 7 "(bytes ''/a?'', bytes ''x'')"]
    unfolding route_info_init by (simp add: kMaxRoutes_def OSC_ROUTER_ROUTE_SLOTS_def)
  then have "route_info demo_table 7 = Some (stored_info (bytes ''/a?'', bytes ''x''))"
    using rt.lookup_ins [OF rt_wf_init, of 7 "(bytes ''/a?'', bytes ''x'')"] by (simp add: demo_table_def)
  then show ?thesis
    by (auto simp: route_info_def stored_info_def copy_str_field_fits bytes_def OSC_ROUTE_ADDR_LEN_def)
qed

theorem Dispatch_counts_witness: "snd (Dispatch (bytes ''/ab'') 5 demo_table)"
proof -
  have "PatternMatchImpl (bytes ''/a?'') (bytes ''/ab'')"
    by (simp add: bytes_def PatternMatchImpl.simps ch_defs)
  then show ?thesis using Dispatch_counts [OF demo_table_wf, of "bytes ''/ab''" 5] demo_table_route by metis
qed

lemma rt_wf_map:
  assumes "rt_wf t" and "\<And>e. active (f e) = active e" and "\<And>e. subscriber_id (f e) = subscriber_id e"
    and "\<And>e. re_pattern (f e) = re_pattern e" and "\<And>e. subscriber_label (f e) = subscriber_label e"
  shows "rt_wf (map f t)"
  using assms by (auto simp: rt_wf_def list_all_length entry_ok_def)

text \<open>Every operation of the table, in any order, keeps it well-formed: 32 entries, no subscriber
  with two active entries, strings terminated inside their fields.\<close>

theorem RouteTable_invariant:
  assumes "rt_wf t"
  shows "rt_wf (snd (Subscribe i p l t)) \<and> rt_wf (Unsubscribe i t) \<and> rt_wf (fst (Dispatch a q t))
       \<and> rt_wf (BumpDropCount a t)"
  using rt.wf_ins [OF assms, of i "(p, l)"] rt_wf_Unsubscribe [OF assms]
  by (simp add: Dispatch_def BumpDropCount_def rt_wf_map [OF assms])

theorem RouteTable_invariant_witness: "rt_wf (Unsubscribe 7 demo_table)"
  using RouteTable_invariant [OF demo_table_wf, of 7] by blast

section \<open>The statistics segment\<close>

lemma stored_snap: "entry_ok e \<Longrightarrow> stored_stat (snap_entry junk e) = snap_entry junk e"
  by (simp add: stored_stat_def snap_entry_def entry_ok_def copy_str_field_fits OSC_ROUTE_ADDR_LEN_def)

text \<open>After the table is published, a reader of the statistics segment finds in every slot the entry
  of the table, complete: pattern, label, counters and whether it is in use.\<close>

theorem PublishToShmem_readable:
  assumes "rt_wf t" and "osc_wf shm" and "k < kMaxRoutes"
  shows "map_option slot_view (OSC_TryReadRoute (Suc n) (of_nat k) (PublishToShmem junk t shm)) =
         Some (snap_entry (junk k) (t ! k))"
proof -
  let ?bs = "map (\<lambda>(i, e). snap_entry (junk i) e) (enumerate 0 t)"
  have len: "length ?bs = OSC_ROUTER_ROUTE_SLOTS" using assms(1) by (simp add: rt_wf_def kMaxRoutes_def)
  have "map_option slot_view (OSC_TryReadRoute (Suc n) (of_nat k) (PublishToShmem junk t shm)) =
      Some (stored_stat (?bs ! k))"
    unfolding PublishToShmem_def using osc.rd_pass [OF assms(2), of ?bs k n] len assms(3)
    by (simp add: kMaxRoutes_def)
  also have "?bs ! k = snap_entry (junk k) (t ! k)"
    using assms(1,3) by (simp add: rt_wf_def nth_enumerate_eq)
  also have "stored_stat \<dots> = \<dots>"
    using assms(1,3) by (intro stored_snap) (simp add: rt_wf_def list_all_length)
  finally show ?thesis .
qed

definition demo_stats :: osc_shmem where
  "demo_stats = \<lparr>hMapFile = MappedFile, pData = Some \<lparr>od_magic = 0xC5C7057C, od_version = 1,
     od_packets_sent = 0, od_bytes_sent = 0, od_packets_dropped = 0,
     od_routes = replicate OSC_ROUTER_ROUTE_SLOTS \<lparr>rs_generation = 0, rs_address_pattern = [],
       rs_subscriber_id = [], rs_match_count = 0, rs_drop_count = 0, rs_last_match_tick = 0,
       rs_active = 0\<rparr>\<rparr>\<rparr>"

lemma demo_stats_wf: "osc_wf demo_stats"
  by (simp add: osc_wf_def demo_stats_def list_all_iff)

theorem PublishToShmem_readable_witness:
  "map_option slot_view (OSC_TryReadRoute 8 3 (PublishToShmem (\<lambda>_. (0, 0, 0)) RouteTable_init demo_stats)) =
     Some (snap_entry (0, 0, 0) empty_entry)"
  using PublishToShmem_readable [OF rt_wf_init demo_stats_wf, of 3 7 "\<lambda>_. (0, 0, 0)"]
  by (simp add: kMaxRoutes_def OSC_ROUTER_ROUTE_SLOTS_def RouteTable_init_def)

end
