(* ===== verification/SendQueue.thy ===== *)
theory SendQueue
  imports Prelude
begin

text \<open>
  The bounded send queue of the OSC router (\<open>queue_\<close>, \<open>qHead_\<close>, \<open>qTail_\<close>, \<open>qCount_\<close> and
  \<open>EnqueueLocked\<close> in \<open>modules/oscrouter/src/driver/OscRouter.cpp\<close>; the removal is the block under
  \<open>queueMutex_\<close> in \<open>SendWorkerMain\<close>). The contract of a bounded queue is the locale
  \<open>bounded_fifo\<close>.
\<close>

section \<open>The contract\<close>

text \<open>Arrivals and removals as the two sides of the queue perform them under its lock.\<close>

datatype 'a q_op = Enq 'a | Deq

locale bounded_fifo =
  fixes wf :: "'q \<Rightarrow> bool"
    and contents :: "'q \<Rightarrow> 'a list"
    and enq :: "'a \<Rightarrow> 'q \<Rightarrow> bool \<times> 'q"
    and deq :: "'q \<Rightarrow> ('a \<times> 'q) option"
    and fits :: "'a \<Rightarrow> bool"
    and cap :: nat
  assumes wf_enq: "wf q \<Longrightarrow> wf (snd (enq x q))"
    and wf_deq: "wf q \<Longrightarrow> deq q = Some (x, q') \<Longrightarrow> wf q'"
    and enq_ok: "wf q \<Longrightarrow> fst (enq x q) \<longleftrightarrow> length (contents q) < cap \<and> fits x"
    and contents_enq: "wf q \<Longrightarrow> fst (enq x q) \<Longrightarrow> contents (snd (enq x q)) = contents q @ [x]"
    and enq_refused: "wf q \<Longrightarrow> \<not> fst (enq x q) \<Longrightarrow> snd (enq x q) = q"
    and deq_None: "wf q \<Longrightarrow> deq q = None \<longleftrightarrow> contents q = []"
    and contents_deq: "wf q \<Longrightarrow> deq q = Some (x, q') \<Longrightarrow> contents q = x # contents q'"
begin

text \<open>Running a sequence of operations: the entries accepted, the entries removed, the final queue.\<close>

fun run :: "'a q_op list \<Rightarrow> 'q \<Rightarrow> 'a list \<times> 'a list \<times> 'q" where
  "run [] q = ([], [], q)"
| "run (Enq x # ops) q =
     (case enq x q of (ok, q1) \<Rightarrow>
        (case run ops q1 of (ins, outs, q2) \<Rightarrow> ((if ok then x # ins else ins), outs, q2)))"
| "run (Deq # ops) q =
     (case deq q of
        None \<Rightarrow> run ops q
      | Some (x, q1) \<Rightarrow> (case run ops q1 of (ins, outs, q2) \<Rightarrow> (ins, x # outs, q2)))"

lemma run_fifo:
  assumes "wf q" and "run ops q = (ins, outs, q')"
  shows "wf q' \<and> contents q @ ins = outs @ contents q'"
  using assms
proof (induction ops arbitrary: q ins outs)
  case (Cons op ops)
  show ?case
  proof (cases op)
    case (Enq x)
    obtain ok q1 where e: "enq x q = (ok, q1)" by (rule prod.exhaust)
    obtain i o1 q2 where r: "run ops q1 = (i, o1, q2)" by (rule prod_cases3)
    have "wf q1" using wf_enq [OF Cons.prems(1), of x] e by simp
    moreover have "contents q1 = (if ok then contents q @ [x] else contents q)"
      using contents_enq [OF Cons.prems(1), of x] enq_refused [OF Cons.prems(1), of x] e by simp
    ultimately show ?thesis using Cons.IH [of q1 i o1] Cons.prems Enq e r by (auto split: if_splits)
  next
    case Deq
    show ?thesis
    proof (cases "deq q")
      case None
      then show ?thesis using Cons Deq by simp
    next
      case (Some p)
      then obtain x q1 where d: "deq q = Some (x, q1)" by (cases p) auto
      obtain i o1 q2 where r: "run ops q1 = (i, o1, q2)" by (rule prod_cases3)
      show ?thesis
        using Cons.IH [of q1 i o1] Cons.prems Deq d r wf_deq [OF Cons.prems(1) d]
          contents_deq [OF Cons.prems(1) d] by auto
    qed
  qed
qed simp

end

section \<open>The ring\<close>

definition kSendQueueCapacity :: nat where "kSendQueueCapacity = 1024"
definition kSendQueueEntryMaxSize :: nat where "kSendQueueEntryMaxSize = 512"

text \<open>An entry is its first \<open>size\<close> bytes.\<close>

record send_ring =
  queue :: "byte list list"
  qHead :: nat
  qTail :: nat
  qCount :: nat

definition send_ring_init :: send_ring where
  "send_ring_init = \<lparr>queue = replicate kSendQueueCapacity [], qHead = 0, qTail = 0, qCount = 0\<rparr>"

definition EnqueueLocked :: "byte list \<Rightarrow> send_ring \<Rightarrow> bool \<times> send_ring" where
  "EnqueueLocked d q =
     (if qCount q \<ge> kSendQueueCapacity then (False, q)
      else if length d > kSendQueueEntryMaxSize then (False, q)
      else (True, q\<lparr>queue := (queue q)[qTail q := d],
                    qTail := (qTail q + 1) mod kSendQueueCapacity,
                    qCount := qCount q + 1\<rparr>))"

text \<open>The removal in \<open>SendWorkerMain\<close>; \<open>None\<close> is the jump to \<open>maybe_stats\<close>.\<close>

definition DequeueLocked :: "send_ring \<Rightarrow> (byte list \<times> send_ring) option" where
  "DequeueLocked q =
     (if qCount q = 0 then None
      else Some (queue q ! qHead q,
                 q\<lparr>qHead := (qHead q + 1) mod kSendQueueCapacity, qCount := qCount q - 1\<rparr>))"

definition ring_wf :: "send_ring \<Rightarrow> bool" where
  "ring_wf q \<longleftrightarrow> length (queue q) = kSendQueueCapacity \<and> qHead q < kSendQueueCapacity \<and>
     qCount q \<le> kSendQueueCapacity \<and> qTail q = (qHead q + qCount q) mod kSendQueueCapacity"

text \<open>The entries between head and tail, oldest first.\<close>

definition ring_contents :: "send_ring \<Rightarrow> byte list list" where
  "ring_contents q = map (\<lambda>i. queue q ! ((qHead q + i) mod kSendQueueCapacity)) [0..<qCount q]"

lemma length_ring_contents [simp]: "length (ring_contents q) = qCount q"
  by (simp add: ring_contents_def)

lemma mod_add_neq:
  assumes "i < n" and "n < (k :: nat)"
  shows "(h + i) mod k \<noteq> (h + n) mod k"
proof
  assume "(h + i) mod k = (h + n) mod k"
  then have "k dvd (h + n) - (h + i)" using mod_eq_dvd_iff_nat [of "h + i" "h + n" k] assms(1) by simp
  then have "k dvd n - i" by simp
  then show False using assms nat_dvd_not_less [of "n - i" k] by simp
qed

lemma EnqueueLocked_contents:
  assumes "ring_wf q" and "fst (EnqueueLocked d q)"
  shows "ring_contents (snd (EnqueueLocked d q)) = ring_contents q @ [d]"
proof -
  have c: "qCount q < kSendQueueCapacity" and e: "snd (EnqueueLocked d q) = q\<lparr>queue := (queue q)[qTail q := d],
      qTail := (qTail q + 1) mod kSendQueueCapacity, qCount := qCount q + 1\<rparr>"
    using assms(2) by (auto simp: EnqueueLocked_def split: if_splits)
  have t: "qTail q = (qHead q + qCount q) mod kSendQueueCapacity" "qTail q < length (queue q)"
    using assms(1) by (auto simp: ring_wf_def kSendQueueCapacity_def)
  have "(queue q)[qTail q := d] ! ((qHead q + i) mod kSendQueueCapacity) =
      queue q ! ((qHead q + i) mod kSendQueueCapacity)" if "i < qCount q" for i
    using mod_add_neq [OF that c, of "qHead q"] t(1) by (metis nth_list_update_neq)
  then show ?thesis using t unfolding e ring_contents_def by simp
qed

lemma DequeueLocked_contents:
  assumes "DequeueLocked q = Some (x, q')" and "ring_wf q"
  shows "ring_contents q = x # ring_contents q'"
proof -
  from assms have c: "0 < qCount q" and x: "x = queue q ! qHead q"
    and q': "q' = q\<lparr>qHead := (qHead q + 1) mod kSendQueueCapacity, qCount := qCount q - 1\<rparr>"
    by (auto simp: DequeueLocked_def split: if_splits)
  obtain n where n: "qCount q = Suc n" using c by (cases "qCount q") auto
  have "[0..<Suc n] = 0 # map Suc [0..<n]" by (simp only: map_Suc_upt upt_conv_Cons zero_less_Suc)
  moreover have "((qHead q + 1) mod kSendQueueCapacity + i) mod kSendQueueCapacity =
      (qHead q + Suc i) mod kSendQueueCapacity" for i by (simp add: mod_add_left_eq)
  ultimately show ?thesis
    using assms(2) n unfolding ring_contents_def q' x by (simp add: ring_wf_def o_def del: upt_Suc)
qed

lemma ring_wf_Enqueue: "ring_wf q \<Longrightarrow> ring_wf (snd (EnqueueLocked d q))"
  by (auto simp: EnqueueLocked_def ring_wf_def mod_Suc_eq)

lemma ring_wf_Dequeue:
  assumes "ring_wf q" and "DequeueLocked q = Some (x, q')"
  shows "ring_wf q'"
proof -
  from assms have c: "0 < qCount q"
    and q': "q' = q\<lparr>qHead := (qHead q + 1) mod kSendQueueCapacity, qCount := qCount q - 1\<rparr>"
    by (auto simp: DequeueLocked_def split: if_splits)
  have "((qHead q + 1) mod kSendQueueCapacity + (qCount q - 1)) mod kSendQueueCapacity =
      (qHead q + 1 + (qCount q - 1)) mod kSendQueueCapacity" by (rule mod_add_left_eq)
  also have "qHead q + 1 + (qCount q - 1) = qHead q + qCount q" using c by simp
  finally have "((qHead q + 1) mod kSendQueueCapacity + (qCount q - 1)) mod kSendQueueCapacity =
      (qHead q + qCount q) mod kSendQueueCapacity" .
  then show ?thesis using assms(1) c by (auto simp: q' ring_wf_def kSendQueueCapacity_def)
qed

interpretation sq: bounded_fifo ring_wf ring_contents EnqueueLocked DequeueLocked
    "\<lambda>d. length d \<le> kSendQueueEntryMaxSize" kSendQueueCapacity
proof
  fix q :: send_ring and x q'
  assume wf: "ring_wf q"
  show "ring_wf (snd (EnqueueLocked x q))" using wf by (rule ring_wf_Enqueue)
  show "fst (EnqueueLocked x q) \<longleftrightarrow>
      length (ring_contents q) < kSendQueueCapacity \<and> length x \<le> kSendQueueEntryMaxSize"
    by (simp add: EnqueueLocked_def)
  show "fst (EnqueueLocked x q) \<Longrightarrow> ring_contents (snd (EnqueueLocked x q)) = ring_contents q @ [x]"
    using wf by (rule EnqueueLocked_contents)
  show "\<not> fst (EnqueueLocked x q) \<Longrightarrow> snd (EnqueueLocked x q) = q"
    by (auto simp: EnqueueLocked_def split: if_splits)
  show "DequeueLocked q = None \<longleftrightarrow> ring_contents q = []"
    using length_ring_contents [of q] by (auto simp: DequeueLocked_def simp del: length_ring_contents)
  assume d: "DequeueLocked q = Some (x, q')"
  show "ring_wf q'" using wf d by (rule ring_wf_Dequeue)
  show "ring_contents q = x # ring_contents q'" using d wf by (rule DequeueLocked_contents)
qed

lemma ring_wf_init: "ring_wf send_ring_init"
  by (simp add: ring_wf_def send_ring_init_def kSendQueueCapacity_def)

lemma ring_contents_init: "ring_contents send_ring_init = []"
  by (simp add: ring_contents_def send_ring_init_def)

text \<open>The queue driven by any interleaving of producers and the send worker.\<close>

fun run_queue :: "byte list q_op list \<Rightarrow> send_ring \<Rightarrow> byte list list \<times> byte list list \<times> send_ring" where
  "run_queue [] q = ([], [], q)"
| "run_queue (Enq x # ops) q =
     (case EnqueueLocked x q of (ok, q1) \<Rightarrow>
        (case run_queue ops q1 of (ins, outs, q2) \<Rightarrow> ((if ok then x # ins else ins), outs, q2)))"
| "run_queue (Deq # ops) q =
     (case DequeueLocked q of
        None \<Rightarrow> run_queue ops q
      | Some (x, q1) \<Rightarrow> (case run_queue ops q1 of (ins, outs, q2) \<Rightarrow> (ins, x # outs, q2)))"

lemma run_queue_run: "run_queue ops q = sq.run ops q"
  by (induction ops q rule: run_queue.induct) (auto split: option.splits prod.splits)

text \<open>C11: whatever the producers and the send worker do, packets leave the queue in the order they were
  accepted, none lost and none repeated: those accepted are those removed followed by those still
  queued.\<close>

theorem send_queue_fifo:
  assumes "run_queue ops send_ring_init = (accepted, sent, q)"
  shows "accepted = sent @ ring_contents q \<and> length (ring_contents q) \<le> kSendQueueCapacity"
proof -
  have "ring_wf q \<and> ring_contents send_ring_init @ accepted = sent @ ring_contents q"
    using sq.run_fifo [OF ring_wf_init] assms by (simp add: run_queue_run)
  then show ?thesis by (simp add: ring_contents_init ring_wf_def)
qed

theorem send_queue_fifo_witness:
  "fst (snd (run_queue [Enq [1], Enq [2], Deq] send_ring_init)) = [[1]]"
proof -
  have r: "fst (run_queue [Enq [1], Enq [2], Deq] send_ring_init) = [[1], [2]]"
      "length (fst (snd (run_queue [Enq [1], Enq [2], Deq] send_ring_init))) = 1"
    by (simp_all add: EnqueueLocked_def DequeueLocked_def send_ring_init_def kSendQueueCapacity_def
        kSendQueueEntryMaxSize_def)
  obtain a s q where e: "run_queue [Enq [1], Enq [2], Deq] send_ring_init = (a, s, q)"
    by (rule prod_cases3)
  from send_queue_fifo [OF e] r e show ?thesis by (cases s) auto
qed

text \<open>A packet is refused exactly when 1024 packets are waiting or it is longer than 512 bytes, and
  a refusal leaves the queue unchanged.\<close>

theorem EnqueueLocked_refuses:
  assumes "ring_wf q"
  shows "(\<not> fst (EnqueueLocked d q) \<longleftrightarrow>
            length (ring_contents q) = kSendQueueCapacity \<or> length d > kSendQueueEntryMaxSize)
       \<and> (\<not> fst (EnqueueLocked d q) \<longrightarrow> snd (EnqueueLocked d q) = q)"
proof -
  have "length (ring_contents q) \<le> kSendQueueCapacity" using assms by (simp add: ring_wf_def)
  then show ?thesis using sq.enq_ok [OF assms, of d] sq.enq_refused [OF assms, of d] by auto
qed

theorem EnqueueLocked_refuses_witness:
  "fst (EnqueueLocked [1] send_ring_init)"
  using EnqueueLocked_refuses [OF ring_wf_init, of "[1]"]
  by (simp add: ring_contents_init kSendQueueCapacity_def kSendQueueEntryMaxSize_def)

end
