(* ===== verification/OscRouter.thy ===== *)
theory OscRouter
  imports OscWire RouteTable SendQueue
begin

text \<open>
  The OSC router module, \<open>modules/oscrouter/src/driver/OscRouter.cpp\<close>, \<open>UdpSender.cpp\<close> and
  \<open>RouterPublishApi.cpp\<close>: its request handlers, the in-process publish call, one iteration of the
  send worker and the frame reader of the publish pipe. Answers of the socket API, the clock and the
  pipe are arguments. Log output is left out.
\<close>

section \<open>The UDP sender\<close>

record udp_sender =
  sock_open :: bool
  target :: "cstring \<times> u16"
  wsaInit :: bool

definition UdpSender_Close :: "udp_sender \<Rightarrow> udp_sender" where
  "UdpSender_Close u = u\<lparr>sock_open := False\<rparr>"

text \<open>The answers of \<open>WSAStartup\<close>, \<open>socket\<close> and \<open>inet_pton\<close>.\<close>

record open_answers =
  wsa_ok :: bool
  socket_ok :: bool
  pton_ok :: bool

definition UdpSender_Open :: "open_answers \<Rightarrow> cstring \<Rightarrow> u16 \<Rightarrow> udp_sender \<Rightarrow> bool \<times> udp_sender" where
  "UdpSender_Open ans host port u =
     (let u = UdpSender_Close u in
      if \<not> wsaInit u \<and> \<not> wsa_ok ans then (False, u)
      else let u = u\<lparr>wsaInit := True\<rparr> in
           if \<not> socket_ok ans then (False, u)
           else let u = u\<lparr>sock_open := True, target := (host, port)\<rparr>
                in if \<not> pton_ok ans then (False, UdpSender_Close u) else (True, u))"

text \<open>\<open>Send\<close>: \<open>answer\<close> is what \<open>sendto\<close> returns (-1 for \<open>SOCKET_ERROR\<close>).\<close>

definition UdpSender_Send :: "int \<Rightarrow> udp_sender \<Rightarrow> int" where
  "UdpSender_Send answer u = (if \<not> sock_open u then -1 else answer)"

section \<open>The router\<close>

record osc_router =
  sendHost :: cstring
  sendPort :: u16
  pendingSendPort :: u16
  routeTable :: route_table
  sender :: udp_sender
  ring :: send_ring
  droppedCount :: u64
  packetsSent :: u64
  bytesSent :: u64
  stop :: bool
  statsShmem :: osc_shmem
  shmemReady :: bool

definition OscRouter_init :: osc_router where
  "OscRouter_init = \<lparr>sendHost = bytes ''127.0.0.1'', sendPort = 9000, pendingSendPort = 0,
     routeTable = RouteTable_init,
     sender = \<lparr>sock_open = False, target = ([], 0), wsaInit = False\<rparr>,
     ring = send_ring_init, droppedCount = 0, packetsSent = 0, bytesSent = 0, stop = False,
     statsShmem = shm_empty, shmemReady = False\<rparr>"

definition OscRouter_Init ::
  "bool \<Rightarrow> osc_data option \<Rightarrow> open_answers \<Rightarrow> osc_router \<Rightarrow> osc_router" where
  "OscRouter_Init file_ok view ans r =
     (let (created, shm) = OSC_Create file_ok view (statsShmem r);
          r = r\<lparr>statsShmem := shm\<rparr>;
          r = (if created then r\<lparr>shmemReady := True\<rparr> else r);
          (opened, u) = UdpSender_Open ans (sendHost r) (sendPort r) (sender r);
          r = r\<lparr>sender := u\<rparr>
      in r\<lparr>stop := False\<rparr>)"

definition OscRouter_Shutdown :: "osc_router \<Rightarrow> osc_router" where
  "OscRouter_Shutdown r =
     r\<lparr>stop := True, sender := UdpSender_Close (sender r), statsShmem := shm_Close (statsShmem r)\<rparr>"

definition SetSendEndpointForTesting :: "cstring option \<Rightarrow> u16 \<Rightarrow> open_answers \<Rightarrow> osc_router \<Rightarrow> osc_router" where
  "SetSendEndpointForTesting host port ans r =
     (let r = (case host of Some h \<Rightarrow> if h \<noteq> [] then r\<lparr>sendHost := h\<rparr> else r | None \<Rightarrow> r);
          r = (if port \<noteq> 0 then r\<lparr>sendPort := port\<rparr> else r)
      in if sock_open (sender r)
         then r\<lparr>sender := snd (UdpSender_Open ans (sendHost r) (sendPort r) (sender r))\<rparr>
         else r)"

text \<open>\<open>BuildAndEnqueue\<close>; \<open>args\<close> is \<open>None\<close> for a null pointer.\<close>

definition router_packet :: "cstring \<Rightarrow> cstring \<Rightarrow> byte list option \<Rightarrow> osc_packet" where
  "router_packet address typetag args =
     (let pkt = OscPacket_Begin address typetag (OscPacket_init kSendQueueEntryMaxSize)
      in case args of
           Some a \<Rightarrow> if length a > 0 then OscPacket_WriteRawArgs a pkt else pkt
         | None \<Rightarrow> pkt)"

definition BuildAndEnqueue :: "cstring \<Rightarrow> cstring \<Rightarrow> byte list option \<Rightarrow> osc_router \<Rightarrow> bool \<times> osc_router" where
  "BuildAndEnqueue address typetag args r =
     (let pkt = router_packet address typetag args
      in if \<not> pk_ok pkt then (False, r)
         else let (queued, q) = EnqueueLocked (pk_buf pkt) (ring r);
                  r = r\<lparr>ring := q\<rparr>
              in if \<not> queued
                 then let r = r\<lparr>droppedCount := droppedCount r + 1,
                                routeTable := BumpDropCount address (routeTable r)\<rparr>
                      in (False, if shmemReady r then r\<lparr>statsShmem := OSC_AddDropped (statsShmem r)\<rparr> else r)
                 else (True, r))"

definition OscRouter_PublishOsc ::
  "cstring \<Rightarrow> cstring \<Rightarrow> byte list option \<Rightarrow> osc_router \<Rightarrow> bool \<times> osc_router" where
  "OscRouter_PublishOsc address typetag args r =
     (if stop r then (False, r) else BuildAndEnqueue address typetag args r)"

text \<open>\<open>RouterPublishApi.cpp\<close>: through the registered router, if there is one.\<close>

definition PublishOsc ::
  "cstring \<Rightarrow> cstring \<Rightarrow> byte list option \<Rightarrow> osc_router option \<Rightarrow> bool \<times> osc_router option" where
  "PublishOsc address typetag args router =
     (case router of
        None \<Rightarrow> (False, None)
      | Some r \<Rightarrow> (case OscRouter_PublishOsc address typetag args r of (ok, r') \<Rightarrow> (ok, Some r')))"

section \<open>Requests\<close>

text \<open>\<open>snprintf(label, 32, "sub-%u", id)\<close>.\<close>

fun dec_digits :: "nat \<Rightarrow> cstring" where
  "dec_digits n = (if n < 10 then [48 + of_nat n] else dec_digits (n div 10) @ [48 + of_nat (n mod 10)])"

declare dec_digits.simps [simp del]

definition sub_label :: "u32 \<Rightarrow> cstring" where
  "sub_label i = take 31 (bytes ''sub-'' @ dec_digits (unat i))"

definition HandleSubscribe :: "osc_route_subscribe \<Rightarrow> osc_router \<Rightarrow> response \<times> osc_router" where
  "HandleSubscribe req r =
     (let (ok, t) = Subscribe (sub_subscriber_id req) (sub_pattern req)
                      (sub_label (sub_subscriber_id req)) (routeTable r)
      in (if ok then ResponseSuccess else ResponseInvalid, r\<lparr>routeTable := t\<rparr>))"

definition HandleUnsubscribe :: "u32 \<Rightarrow> osc_router \<Rightarrow> response \<times> osc_router" where
  "HandleUnsubscribe i r = (ResponseSuccess, r\<lparr>routeTable := Unsubscribe i (routeTable r)\<rparr>)"

text \<open>
  \<open>HandlePublish\<close>: the address and type tag are copied with a terminating NUL; \<open>arg_len\<close> bytes are
  read from \<open>arg_bytes\<close>, a 32-byte array at the end of the payload. \<open>beyond\<close> is the memory after it.
\<close>

definition HandlePublish :: "byte list \<Rightarrow> osc_publish \<Rightarrow> osc_router \<Rightarrow> response \<times> osc_router" where
  "HandlePublish beyond req r =
     (let address = cstr_of (pub_address req @ [0]);
          typetag = cstr_of (pub_typetag req @ [0]);
          args = take (unat (pub_arg_len req)) (pub_arg_bytes req @ beyond);
          (ok, r) = BuildAndEnqueue address typetag (Some args) r
      in (if ok then ResponseSuccess else ResponseInvalid, r))"

definition HandleGetStats :: "osc_router \<Rightarrow> response \<times> osc_router" where
  "HandleGetStats r =
     (case OSC_ReadGlobalStats (statsShmem r) of
        Some st \<Rightarrow> (ResponseOscRouterStats st, r)
      | None \<Rightarrow> (ResponseOscRouterStats \<lparr>os_packets_sent = 0, os_bytes_sent = 0, os_packets_dropped = 0,
                    os_active_routes = ActiveCount (routeTable r)\<rparr>, r))"

definition HandleSetConfig :: "u16 \<Rightarrow> osc_router \<Rightarrow> response \<times> osc_router" where
  "HandleSetConfig send_port r =
     (if send_port = 0 then (ResponseInvalid, r)
      else (ResponseSuccess, r\<lparr>pendingSendPort := send_port\<rparr>))"

text \<open>\<open>HandleRequest\<close>; \<open>None\<close> is \<open>return false\<close> (the response is left as it was).\<close>

definition OscRouter_HandleRequest ::
  "byte list \<Rightarrow> request \<Rightarrow> osc_router \<Rightarrow> response option \<times> osc_router" where
  "OscRouter_HandleRequest beyond req r =
     (case req of
        RequestOscRouteSubscribe p \<Rightarrow> apfst Some (HandleSubscribe p r)
      | RequestOscRouteUnsubscribe i \<Rightarrow> apfst Some (HandleUnsubscribe i r)
      | RequestOscPublish p \<Rightarrow> apfst Some (HandlePublish beyond p r)
      | RequestOscGetStats \<Rightarrow> apfst Some (HandleGetStats r)
      | RequestSetOscRouterConfig port \<Rightarrow> apfst Some (HandleSetConfig port r)
      | _ \<Rightarrow> (None, r))"

section \<open>The send worker\<close>

text \<open>What one iteration of \<open>SendWorkerMain\<close> learns from outside: the answers when it re-opens the
  socket, the result of \<open>sendto\<close>, the counter value, whether the statistics are due, and the stack
  content \<open>PublishToShmem\<close> copies for inactive routes.\<close>

record worker_env =
  we_open :: open_answers
  we_sent :: int
  we_qpc :: u64
  we_stats_due :: bool
  we_junk :: "nat \<Rightarrow> u64 \<times> u64 \<times> u64"

definition worker_reopen :: "worker_env \<Rightarrow> osc_router \<Rightarrow> osc_router" where
  "worker_reopen env r =
     (let newPort = pendingSendPort r;
          r = r\<lparr>pendingSendPort := 0\<rparr>
      in if newPort \<noteq> 0 \<and> newPort \<noteq> sendPort r
         then let r = r\<lparr>sender := UdpSender_Close (sender r)\<rparr>;
                  (opened, u) = UdpSender_Open (we_open env) (sendHost r) newPort (sender r);
                  r = r\<lparr>sender := u\<rparr>
              in if opened then r\<lparr>sendPort := newPort\<rparr> else r
         else r)"

definition worker_send :: "worker_env \<Rightarrow> byte list \<Rightarrow> osc_router \<Rightarrow> osc_router" where
  "worker_send env entry r =
     (if sock_open (sender r) \<and> length entry > 0
      then let sent = UdpSender_Send (we_sent env) (sender r)
           in if sent > 0
              then let r = r\<lparr>packetsSent := packetsSent r + 1, bytesSent := bytesSent r + of_int sent\<rparr>;
                       r = (if shmemReady r then r\<lparr>statsShmem := OSC_AddSent (of_int sent) (statsShmem r)\<rparr> else r)
                   in case OscParseMessage entry of
                        Some m \<Rightarrow> r\<lparr>routeTable := fst (Dispatch (om_address m) (we_qpc env) (routeTable r))\<rparr>
                      | None \<Rightarrow> r
              else r
      else r)"

definition worker_stats :: "worker_env \<Rightarrow> osc_router \<Rightarrow> osc_router" where
  "worker_stats env r =
     (if we_stats_due env \<and> shmemReady r
      then r\<lparr>statsShmem := PublishToShmem (we_junk env) (routeTable r) (statsShmem r)\<rparr> else r)"

text \<open>One iteration: the packet taken from the queue, if any, and the router afterwards.\<close>

definition SendWorker_iteration :: "worker_env \<Rightarrow> osc_router \<Rightarrow> byte list option \<times> osc_router" where
  "SendWorker_iteration env r =
     (let r = worker_reopen env r
      in case DequeueLocked (ring r) of
           None \<Rightarrow> (None, worker_stats env r)
         | Some (entry, q) \<Rightarrow> (Some entry, worker_stats env (worker_send env entry (r\<lparr>ring := q\<rparr>))))"

section \<open>The publish pipe\<close>

definition from_le32 :: "byte list \<Rightarrow> u32" where
  "from_le32 b =
     ucast (b ! 0) OR push_bit 8 (ucast (b ! 1)) OR push_bit 16 (ucast (b ! 2)) OR
     push_bit 24 (ucast (b ! 3))"

text \<open>The read loop of one client, on the bytes it wrote before it disconnected: the frames accepted.\<close>

function pub_frames :: "byte list \<Rightarrow> byte list list" where
  "pub_frames d =
     (if length d < 32 then []
      else let d1 = drop 32 d in
           if length d1 < 4 then []
           else let frameLen = unat (from_le32 (take 4 d1)); d2 = drop 4 d1 in
                if frameLen = 0 \<or> frameLen > kSendQueueEntryMaxSize then []
                else if length d2 < frameLen then []
                else take frameLen d2 # pub_frames (drop frameLen d2))"
  by pat_completeness auto
termination by (relation "measure length") auto

declare pub_frames.simps [simp del]

definition pub_enqueue :: "byte list \<Rightarrow> osc_router \<Rightarrow> osc_router" where
  "pub_enqueue frame r =
     (let (ok, q) = EnqueueLocked frame (ring r);
          r = r\<lparr>ring := q\<rparr>
      in if \<not> ok
         then let r = r\<lparr>droppedCount := droppedCount r + 1\<rparr>
              in if shmemReady r then r\<lparr>statsShmem := OSC_AddDropped (statsShmem r)\<rparr> else r
         else r)"

definition pub_client :: "byte list \<Rightarrow> osc_router \<Rightarrow> osc_router" where
  "pub_client d r = fold pub_enqueue (pub_frames d) r"

section \<open>Invariant\<close>

definition router_wf :: "osc_router \<Rightarrow> bool" where
  "router_wf r \<longleftrightarrow> ring_wf (ring r) \<and> rt_wf (routeTable r) \<and>
     (pData (statsShmem r) \<noteq> None \<longrightarrow> osc_wf (statsShmem r))"

lemma stats_shmem_wf:
  "(pData s \<noteq> None \<longrightarrow> osc_wf s) \<Longrightarrow> pData (OSC_AddDropped s) \<noteq> None \<longrightarrow> osc_wf (OSC_AddDropped s)"
  "(pData s \<noteq> None \<longrightarrow> osc_wf s) \<Longrightarrow> pData (OSC_AddSent n s) \<noteq> None \<longrightarrow> osc_wf (OSC_AddSent n s)"
  by (auto simp: OSC_AddDropped_def OSC_AddSent_def osc_wf_def split: option.splits)

lemma rt_wf_counters: "rt_wf t \<Longrightarrow> rt_wf (BumpDropCount a t)" "rt_wf t \<Longrightarrow> rt_wf (fst (Dispatch a q t))"
  by (simp_all add: BumpDropCount_def Dispatch_def rt_wf_map)

lemma OSC_WriteRoute_None [simp]: "pData s = None \<Longrightarrow> OSC_WriteRoute i x s = s"
  by (simp add: OSC_WriteRoute_def)

lemma PublishToShmem_None: "pData s = None \<Longrightarrow> PublishToShmem j t s = s"
proof -
  assume "pData s = None"
  then have "fold (\<lambda>(i, r). OSC_WriteRoute (of_nat i) r) ws s = s" for ws
    by (induction ws) (auto split: prod.splits)
  then show ?thesis by (simp add: PublishToShmem_def)
qed

lemma PublishToShmem_wf:
  assumes "pData s \<noteq> None \<longrightarrow> osc_wf s"
  shows "pData (PublishToShmem j t s) \<noteq> None \<longrightarrow> osc_wf (PublishToShmem j t s)"
proof (cases "pData s")
  case None
  then show ?thesis by (simp add: PublishToShmem_None)
next
  case (Some d)
  then have "osc_wf s" using assms by simp
  then show ?thesis unfolding PublishToShmem_def by (simp add: osc.wf_writes [simplified])
qed

lemma BuildAndEnqueue_wf: "router_wf r \<Longrightarrow> router_wf (snd (BuildAndEnqueue a t args r))"
  using ring_wf_Enqueue [of "ring r" "pk_buf (router_packet a t args)"]
    stats_shmem_wf(1) [of "statsShmem r"] rt_wf_counters(1)
  by (auto simp: BuildAndEnqueue_def router_wf_def Let_def split: prod.splits)

lemma HandleRequest_wf: "router_wf r \<Longrightarrow> router_wf (snd (OscRouter_HandleRequest beyond req r))"
proof (cases req)
  case (RequestOscRouteSubscribe p)
  assume "router_wf r"
  then show ?thesis using rt.wf_ins [of "routeTable r" "sub_subscriber_id p" "(sub_pattern p, sub_label (sub_subscriber_id p))"]
      RequestOscRouteSubscribe
    by (auto simp: OscRouter_HandleRequest_def HandleSubscribe_def router_wf_def split: prod.splits)
next
  case (RequestOscRouteUnsubscribe i)
  assume "router_wf r"
  then show ?thesis using RequestOscRouteUnsubscribe
    by (simp add: OscRouter_HandleRequest_def HandleUnsubscribe_def router_wf_def rt_wf_Unsubscribe)
next
  case (RequestOscPublish p)
  assume "router_wf r"
  then show ?thesis using RequestOscPublish BuildAndEnqueue_wf [of r]
    by (auto simp: OscRouter_HandleRequest_def HandlePublish_def Let_def split: prod.splits) (metis snd_conv)
qed (auto simp: OscRouter_HandleRequest_def HandleGetStats_def HandleSetConfig_def router_wf_def split: option.splits)

lemma worker_reopen_keeps [simp]:
  "ring (worker_reopen env r) = ring r" "routeTable (worker_reopen env r) = routeTable r"
  "statsShmem (worker_reopen env r) = statsShmem r" "shmemReady (worker_reopen env r) = shmemReady r"
  by (simp_all add: worker_reopen_def Let_def split: prod.splits)

lemma worker_send_wf: "router_wf r \<Longrightarrow> router_wf (worker_send env e r)"
  using stats_shmem_wf(2) [of "statsShmem r"] rt_wf_counters(2)
  by (auto simp: worker_send_def router_wf_def Let_def split: option.splits)

lemma worker_stats_wf: "router_wf r \<Longrightarrow> router_wf (worker_stats env r)"
  using PublishToShmem_wf [of "statsShmem r"] by (auto simp: worker_stats_def router_wf_def)

lemma SendWorker_wf:
  assumes "router_wf r"
  shows "router_wf (snd (SendWorker_iteration env r))"
proof -
  have r: "router_wf (worker_reopen env r)" using assms by (simp add: router_wf_def)
  moreover have "router_wf ((worker_reopen env r)\<lparr>ring := q\<rparr>)"
    if "DequeueLocked (ring r) = Some (e, q)" for e q
    using r that ring_wf_Dequeue by (auto simp: router_wf_def)
  ultimately show ?thesis
    by (auto simp: SendWorker_iteration_def Let_def worker_stats_wf worker_send_wf split: option.splits)
qed

lemma pub_client_wf: "router_wf r \<Longrightarrow> router_wf (pub_client d r)"
proof -
  have step: "router_wf r \<Longrightarrow> router_wf (pub_enqueue f r)" for f r
    using ring_wf_Enqueue [of "ring r" f] stats_shmem_wf(1) [of "statsShmem r"]
    by (auto simp: pub_enqueue_def router_wf_def Let_def split: prod.splits)
  have "router_wf r \<Longrightarrow> router_wf (fold pub_enqueue fs r)" for fs r
    by (induction fs arbitrary: r) (simp_all add: step)
  then show "router_wf r \<Longrightarrow> router_wf (pub_client d r)" by (simp add: pub_client_def)
qed

text \<open>Everything that can happen to a running router, in any order.\<close>

datatype router_event =
    EvRequest "byte list" request
  | EvPublish cstring cstring "byte list option"
  | EvWorker worker_env
  | EvPubClient "byte list"

definition router_step :: "router_event \<Rightarrow> osc_router \<Rightarrow> osc_router" where
  "router_step ev r =
     (case ev of
        EvRequest beyond req \<Rightarrow> snd (OscRouter_HandleRequest beyond req r)
      | EvPublish a t args \<Rightarrow> snd (OscRouter_PublishOsc a t args r)
      | EvWorker env \<Rightarrow> snd (SendWorker_iteration env r)
      | EvPubClient d \<Rightarrow> pub_client d r)"

lemma router_step_wf: "router_wf r \<Longrightarrow> router_wf (router_step ev r)"
  by (cases ev) (simp_all add: router_step_def HandleRequest_wf OscRouter_PublishOsc_def BuildAndEnqueue_wf
      SendWorker_wf pub_client_wf)

lemma router_wf_init: "router_wf OscRouter_init"
  by (simp add: router_wf_def OscRouter_init_def ring_wf_init rt_wf_init shm_empty_def)


section \<open>Publishing\<close>

lemma WriteStr_len:
  "length (pk_buf p) \<le> pk_cap p \<Longrightarrow> length (pk_buf (OscPacket_WriteStr s p)) \<le> pk_cap p"
  by (auto simp: OscPacket_WriteStr_def OscPacket_pad_def AppendByte_pow OscPacket_Append_def)

lemma router_packet_WriteRawArgs:
  "router_packet a t args =
     OscPacket_WriteRawArgs (case args of Some x \<Rightarrow> x | None \<Rightarrow> [])
       (OscPacket_Begin a t (OscPacket_init kSendQueueEntryMaxSize))"
proof -
  let ?p = "OscPacket_Begin a t (OscPacket_init kSendQueueEntryMaxSize)"
  have cap: "pk_cap ?p = kSendQueueEntryMaxSize"
    by (simp add: OscPacket_Begin_def OscPacket_init_def)
  have "pk_ok ?p \<Longrightarrow> length (pk_buf ?p) \<le> kSendQueueEntryMaxSize"
    using WriteStr_len [of "OscPacket_WriteStr a (OscPacket_init kSendQueueEntryMaxSize)" t]
      WriteStr_len [of "OscPacket_init kSendQueueEntryMaxSize" a]
    by (simp add: OscPacket_Begin_def OscPacket_init_def)
  then have "OscPacket_WriteRawArgs [] ?p = ?p"
    using cap by (auto simp: OscPacket_WriteRawArgs_def OscPacket_Append_def)
  then show ?thesis by (auto simp: router_packet_def Let_def split: option.splits)
qed

lemma router_packet_parse:
  assumes "is_cstr a" and "is_cstr t" and "pk_ok (router_packet a t args)"
  shows "OscParseMessage (pk_buf (router_packet a t args)) =
      Some \<lparr>om_address = a, om_typetag = t, om_args = (case args of Some x \<Rightarrow> x | None \<Rightarrow> [])\<rparr>"
    and "length (pk_buf (router_packet a t args)) \<le> kSendQueueEntryMaxSize"
proof -
  have n: "kSendQueueEntryMaxSize + 4 < 2 ^ 32" by (simp add: kSendQueueEntryMaxSize_def)
  note b = packet_bytes [OF n router_packet_WriteRawArgs assms(3)]
  show "OscParseMessage (pk_buf (router_packet a t args)) =
      Some \<lparr>om_address = a, om_typetag = t, om_args = (case args of Some x \<Rightarrow> x | None \<Rightarrow> [])\<rparr>"
    using b(1) OscParseMessage_enc [OF assms(1,2) b(3,4)] by simp
  show "length (pk_buf (router_packet a t args)) \<le> kSendQueueEntryMaxSize" by (rule b(2))
qed

lemma BuildAndEnqueue_outcome:
  assumes "router_wf r" and "is_cstr a" and "is_cstr t" and "BuildAndEnqueue a t args r = (ok, r')"
  shows "(ok \<longleftrightarrow> pk_ok (router_packet a t args) \<and> length (ring_contents (ring r)) < kSendQueueCapacity)
    \<and> (ok \<longrightarrow> (\<exists>pkt. ring_contents (ring r') = ring_contents (ring r) @ [pkt] \<and>
           OscParseMessage pkt = Some \<lparr>om_address = a, om_typetag = t,
             om_args = (case args of Some x \<Rightarrow> x | None \<Rightarrow> [])\<rparr>))
    \<and> (\<not> ok \<and> \<not> pk_ok (router_packet a t args) \<longrightarrow> r' = r)
    \<and> (\<not> ok \<and> pk_ok (router_packet a t args) \<longrightarrow>
           ring r' = ring r \<and> droppedCount r' = droppedCount r + 1 \<and>
           routeTable r' = BumpDropCount a (routeTable r))"
proof (cases "pk_ok (router_packet a t args)")
  case False
  then show ?thesis using assms by (auto simp: BuildAndEnqueue_def)
next
  case True
  let ?d = "pk_buf (router_packet a t args)"
  have wf: "ring_wf (ring r)" using assms(1) by (simp add: router_wf_def)
  note p = router_packet_parse [OF assms(2,3) True]
  have ok: "fst (EnqueueLocked ?d (ring r)) \<longleftrightarrow> length (ring_contents (ring r)) < kSendQueueCapacity"
    using sq.enq_ok [OF wf] p(2) by simp
  show ?thesis
  proof (cases "fst (EnqueueLocked ?d (ring r))")
    case queued: True
    then have "ok" "ring r' = snd (EnqueueLocked ?d (ring r))"
      using True assms(4) by (auto simp: BuildAndEnqueue_def Let_def split: prod.splits)
    then show ?thesis using True ok queued p(1) sq.contents_enq [OF wf queued] by auto
  next
    case full: False
    then have "\<not> ok" "ring r' = ring r" "droppedCount r' = droppedCount r + 1"
        "routeTable r' = BumpDropCount a (routeTable r)"
      using True assms(4) sq.enq_refused [OF wf full]
      by (auto simp: BuildAndEnqueue_def Let_def split: prod.splits if_splits)
    then show ?thesis using True ok full by simp
  qed
qed

text \<open>A publication on a running router succeeds exactly when the packet fits 512 bytes and the queue
  is not full; then the queue ends with a packet that parses back to the address, type tag and
  arguments given. A packet that is too long changes nothing; a full queue is counted as one drop, in
  total and on the matching routes, and keeps the queue.\<close>

theorem PublishOsc_outcome:
  assumes "router_wf r" and "\<not> stop r" and "is_cstr a" and "is_cstr t"
    and "OscRouter_PublishOsc a t args r = (ok, r')"
  shows "(ok \<longleftrightarrow> pk_ok (router_packet a t args) \<and> length (ring_contents (ring r)) < kSendQueueCapacity)
    \<and> (ok \<longrightarrow> (\<exists>pkt. ring_contents (ring r') = ring_contents (ring r) @ [pkt] \<and>
           OscParseMessage pkt = Some \<lparr>om_address = a, om_typetag = t,
             om_args = (case args of Some x \<Rightarrow> x | None \<Rightarrow> [])\<rparr>))
    \<and> (\<not> ok \<and> \<not> pk_ok (router_packet a t args) \<longrightarrow> r' = r)
    \<and> (\<not> ok \<and> pk_ok (router_packet a t args) \<longrightarrow>
           ring r' = ring r \<and> droppedCount r' = droppedCount r + 1 \<and>
           routeTable r' = BumpDropCount a (routeTable r))"
  using BuildAndEnqueue_outcome [OF assms(1,3,4)] assms(2,5) by (simp add: OscRouter_PublishOsc_def)

theorem PublishOsc_outcome_witness:
  "fst (OscRouter_PublishOsc [47, 106] [44, 102] (Some [63, 64, 0, 0]) OscRouter_init)"
proof -
  have "pk_ok (router_packet [47, 106] [44, 102] (Some [63, 64, 0, 0]))"
    by (simp add: router_packet_def OscPacket_WriteRawArgs_def OscPacket_Begin_def OscPacket_WriteStr_def
        OscPacket_init_def OscPacket_pad_def OscPacket_Append_def OscPacket_AppendByte_def OscPad4_def
        kSendQueueEntryMaxSize_def)
  moreover have "\<not> stop OscRouter_init" "length (ring_contents (ring OscRouter_init)) < kSendQueueCapacity"
    by (simp_all add: OscRouter_init_def send_ring_init_def kSendQueueCapacity_def)
  moreover obtain ok r' where e: "OscRouter_PublishOsc [47, 106] [44, 102] (Some [63, 64, 0, 0])
      OscRouter_init = (ok, r')" by (rule prod.exhaust)
  ultimately show ?thesis using PublishOsc_outcome [OF router_wf_init _ _ _ e] by simp
qed

section \<open>Sending\<close>

lemma worker_keeps [simp]:
  "sender (worker_stats env r) = sender r" "sender (worker_send env e r) = sender r"
  "sendPort (worker_stats env r) = sendPort r" "sendPort (worker_send env e r) = sendPort r"
  "pendingSendPort (worker_stats env r) = pendingSendPort r"
  "pendingSendPort (worker_send env e r) = pendingSendPort r"
  by (simp_all add: worker_stats_def worker_send_def Let_def split: option.split)

lemma SendWorker_keeps:
  assumes "SendWorker_iteration env r = (taken, r')"
  shows "sender r' = sender (worker_reopen env r)" and "sendPort r' = sendPort (worker_reopen env r)"
    and "pendingSendPort r' = pendingSendPort (worker_reopen env r)"
  using assms by (auto simp: SendWorker_iteration_def Let_def split: option.splits)

definition good_open :: open_answers where
  "good_open = \<lparr>wsa_ok = True, socket_ok = True, pton_ok = True\<rparr>"

definition demo_env :: worker_env where
  "demo_env = \<lparr>we_open = good_open, we_sent = 8, we_qpc = 5, we_stats_due = False, we_junk = (\<lambda>_. (0, 0, 0))\<rparr>"

definition demo_router :: osc_router where
  "demo_router = OscRouter_init\<lparr>
     sender := \<lparr>sock_open = True, target = ([], 9000), wsaInit = True\<rparr>,
     ring := snd (EnqueueLocked [47, 97, 0, 0, 44, 102, 0, 0] send_ring_init)\<rparr>"

lemma demo_router_wf: "router_wf demo_router"
  using router_wf_init by (simp add: router_wf_def demo_router_def ring_wf_Enqueue ring_wf_init)

lemma demo_router_ring: "ring_contents (ring demo_router) = [[47, 97, 0, 0, 44, 102, 0, 0]]"
  using sq.contents_enq [OF ring_wf_init, of "[47, 97, 0, 0, 44, 102, 0, 0]"] sq.enq_ok [OF ring_wf_init]
  by (simp add: demo_router_def ring_contents_init kSendQueueCapacity_def kSendQueueEntryMaxSize_def)

text \<open>When the send worker sends the oldest packet and it parses as a message, the packet is removed,
  the totals grow by one packet and the bytes sent, and the match counters of exactly the routes
  whose pattern matches its address go up.\<close>

theorem SendWorker_sends:
  assumes "router_wf r" and "ring_contents (ring r) = e # rest" and "e \<noteq> []"
    and "pendingSendPort r = 0" and "sock_open (sender r)" and "0 < we_sent env"
    and "OscParseMessage e = Some m" and "SendWorker_iteration env r = (taken, r')"
  shows "taken = Some e \<and> ring_contents (ring r') = rest
    \<and> packetsSent r' = packetsSent r + 1 \<and> bytesSent r' = bytesSent r + of_int (we_sent env)
    \<and> routes (routeTable r') i =
        map_option (\<lambda>x. if PatternMatchImpl (re_pattern x) (om_address m)
          then x\<lparr>match_count := match_count x + 1, last_match_tick := we_qpc env\<rparr> else x)
          (routes (routeTable r) i)"
proof -
  have wf: "ring_wf (ring r)" "rt_wf (routeTable r)" using assms(1) by (simp_all add: router_wf_def)
  have re: "worker_reopen env r = r" using assms(4) by (simp add: worker_reopen_def)
  obtain q where q: "DequeueLocked (ring r) = Some (e, q)" "ring_contents q = rest"
  proof -
    have "DequeueLocked (ring r) \<noteq> None" using sq.deq_None [OF wf(1)] assms(2) by simp
    then obtain x q where d: "DequeueLocked (ring r) = Some (x, q)" by auto
    with sq.contents_deq [OF wf(1) d] assms(2) show thesis using that by simp
  qed
  have r': "taken = Some e" "r' = worker_stats env (worker_send env e (r\<lparr>ring := q\<rparr>))"
    using assms(8) re q(1) by (simp_all add: SendWorker_iteration_def)
  have "routeTable r' = fst (Dispatch (om_address m) (we_qpc env) (routeTable r))"
      "ring r' = q" "packetsSent r' = packetsSent r + 1" "bytesSent r' = bytesSent r + of_int (we_sent env)"
    using assms(3,5,6,7) by (auto simp: r'(2) worker_stats_def worker_send_def UdpSender_Send_def Let_def)
  then show ?thesis using r'(1) q(2) Dispatch_routes [OF wf(2)] by simp
qed

theorem SendWorker_sends_witness:
  "packetsSent (snd (SendWorker_iteration demo_env demo_router)) = 1"
proof -
  obtain taken r' where w: "SendWorker_iteration demo_env demo_router = (taken, r')" by (rule prod.exhaust)
  have "OscParseMessage [47, 97, 0, 0, 44, 102, 0, 0] =
      Some \<lparr>om_address = [47, 97], om_typetag = [44, 102], om_args = []\<rparr>"
    using OscParseMessage_enc [of "[47, 97]" "[44, 102]" "[]"] by (simp add: osc_str_def OscPad4_def)
  moreover have "pendingSendPort demo_router = 0" "sock_open (sender demo_router)" "0 < we_sent demo_env"
      "packetsSent demo_router = 0"
    by (simp_all add: demo_router_def OscRouter_init_def demo_env_def)
  ultimately show ?thesis
    using SendWorker_sends [OF demo_router_wf demo_router_ring _ _ _ _ _ w] w by simp
qed

section \<open>The send port\<close>

text \<open>Once the socket is closed (the open at start-up failed, or a re-open did), pushing the configured
  port again is answered with success but never retried: whatever the socket API would answer, the
  next iteration of the send worker leaves the socket closed.\<close>

theorem closed_socket_not_reopened:
  assumes "\<not> sock_open (sender r)" and "sendPort r \<noteq> 0"
    and "HandleSetConfig (sendPort r) r = (resp, r1)" and "SendWorker_iteration env r1 = (taken, r2)"
  shows "resp = ResponseSuccess \<and> \<not> sock_open (sender r2) \<and> sendPort r2 = sendPort r"
proof -
  have r1: "resp = ResponseSuccess" "r1 = r\<lparr>pendingSendPort := sendPort r\<rparr>"
    using assms(2,3) by (simp_all add: HandleSetConfig_def)
  then have "worker_reopen env r1 = r\<lparr>pendingSendPort := 0\<rparr>" by (simp add: worker_reopen_def)
  then show ?thesis using SendWorker_keeps [OF assms(4)] assms(1) r1(1) by simp
qed

theorem closed_socket_not_reopened_witness:
  "\<not> sock_open (sender (snd (SendWorker_iteration demo_env (snd (HandleSetConfig 9000 OscRouter_init)))))"
proof -
  have i: "\<not> sock_open (sender OscRouter_init)" "sendPort OscRouter_init = 9000"
    by (simp_all add: OscRouter_init_def)
  obtain resp r1 where c: "HandleSetConfig (sendPort OscRouter_init) OscRouter_init = (resp, r1)"
    by (rule prod.exhaust)
  obtain taken r2 where w: "SendWorker_iteration demo_env r1 = (taken, r2)" by (rule prod.exhaust)
  have "sendPort OscRouter_init \<noteq> 0" using i by simp
  from closed_socket_not_reopened [OF i(1) this c w] show ?thesis using c w i by simp
qed

text \<open>A pending port that differs from the current one is taken by the next iteration: if the socket
  API answers well, the socket is open on it and it becomes the send port.\<close>

theorem new_port_opened:
  assumes "p \<noteq> 0" and "p \<noteq> sendPort r" and "HandleSetConfig p r = (resp, r1)"
    and "wsa_ok (we_open env)" and "socket_ok (we_open env)" and "pton_ok (we_open env)"
    and "SendWorker_iteration env r1 = (taken, r2)"
  shows "sock_open (sender r2) \<and> target (sender r2) = (sendHost r, p) \<and> sendPort r2 = p
    \<and> pendingSendPort r2 = 0"
proof -
  have r1: "r1 = r\<lparr>pendingSendPort := p\<rparr>" using assms(1,3) by (simp add: HandleSetConfig_def)
  let ?w = "worker_reopen env r1"
  have "sock_open (sender ?w) \<and> target (sender ?w) = (sendHost r, p) \<and> sendPort ?w = p \<and> pendingSendPort ?w = 0"
    using assms(1,2,4-6) by (auto simp: r1 worker_reopen_def UdpSender_Open_def UdpSender_Close_def Let_def)
  then show ?thesis using SendWorker_keeps [OF assms(7)] by simp
qed

theorem new_port_opened_witness:
  "sendPort (snd (SendWorker_iteration demo_env (snd (HandleSetConfig 9001 OscRouter_init)))) = 9001"
proof -
  have p: "(9001 :: u16) \<noteq> 0" "9001 \<noteq> sendPort OscRouter_init" by (simp_all add: OscRouter_init_def)
  have o: "wsa_ok (we_open demo_env)" "socket_ok (we_open demo_env)" "pton_ok (we_open demo_env)"
    by (simp_all add: demo_env_def good_open_def)
  obtain resp r1 where c: "HandleSetConfig 9001 OscRouter_init = (resp, r1)" by (rule prod.exhaust)
  obtain taken r2 where w: "SendWorker_iteration demo_env r1 = (taken, r2)" by (rule prod.exhaust)
  from new_port_opened [OF p c o w] show ?thesis using c w by simp
qed

section \<open>The publish pipe\<close>

definition le32 :: "u32 \<Rightarrow> byte list" where
  "le32 v = [ucast v, ucast (drop_bit 8 v), ucast (drop_bit 16 v), ucast (drop_bit 24 v)]"

lemma from_le32_le32 [simp]: "from_le32 (le32 v) = v"
proof (rule bit_word_eqI)
  fix n assume "n < LENGTH(32)"
  then consider "n < 8" | "8 \<le> n" "n < 16" | "16 \<le> n" "n < 24" | "24 \<le> n" "n < 32"
    by fastforce
  then show "bit (from_le32 (le32 v)) n = bit v n"
    by cases (auto simp: from_le32_def le32_def bit_simps)
qed

lemma length_le32 [simp]: "length (le32 v) = 4"
  by (simp add: le32_def)

text \<open>What a sidecar writes for one frame: its 32-byte name, the length, the packet.\<close>

definition enc_frame :: "byte list \<Rightarrow> byte list \<Rightarrow> byte list" where
  "enc_frame source frame = source @ le32 (of_nat (length frame)) @ frame"

definition frame_ok :: "byte list \<times> byte list \<Rightarrow> bool" where
  "frame_ok sf \<longleftrightarrow> length (fst sf) = 32 \<and> 0 < length (snd sf) \<and> length (snd sf) \<le> kSendQueueEntryMaxSize"

lemma pub_frames_frame:
  assumes "frame_ok (src, f)"
  shows "pub_frames (enc_frame src f @ d) = f # pub_frames d"
proof -
  have "unat (of_nat (length f) :: u32) = length f"
    using assms by (simp add: frame_ok_def kSendQueueEntryMaxSize_def unat_of_nat)
  then show ?thesis using assms
    by (subst pub_frames.simps) (auto simp: enc_frame_def frame_ok_def Let_def)
qed

text \<open>The pipe reader recovers exactly the frames a client wrote, in order, up to the first frame
  with a length of zero or above 512, where it stops.\<close>

theorem pub_frames_roundtrip:
  assumes "\<forall>sf \<in> set fs. frame_ok sf" and "length src = 32"
    and "n = 0 \<or> n > kSendQueueEntryMaxSize" and "n < 2 ^ 32"
  shows "pub_frames (concat (map (\<lambda>(s, f). enc_frame s f) fs)) = map snd fs
    \<and> pub_frames (concat (map (\<lambda>(s, f). enc_frame s f) fs) @ src @ le32 (of_nat n) @ junk) = map snd fs"
proof -
  have app: "pub_frames (concat (map (\<lambda>(s, f). enc_frame s f) fs) @ d) = map snd fs @ pub_frames d" for d
    using assms(1) by (induction fs) (auto simp: pub_frames_frame)
  have "unat (of_nat n :: u32) = n" using assms(4) by (simp add: unat_of_nat)
  then have "pub_frames (src @ le32 (of_nat n) @ junk) = []"
    using assms(2,3) by (subst pub_frames.simps) (auto simp: Let_def)
  moreover have "pub_frames [] = []" by (subst pub_frames.simps) simp
  ultimately show ?thesis using app [of "[]"] app [of "src @ le32 (of_nat n) @ junk"] by simp
qed

theorem pub_frames_roundtrip_witness:
  "pub_frames (enc_frame (replicate 32 65) [1, 2, 3, 4] @ replicate 32 65 @ le32 0) = [[1, 2, 3, 4]]"
  using pub_frames_roundtrip [of "[(replicate 32 65, [1, 2, 3, 4])]" "replicate 32 65" 0 "[]"]
  by (simp add: frame_ok_def kSendQueueEntryMaxSize_def)

section \<open>Overlay publications\<close>

text \<open>The argument length of an overlay publication is not checked against the 32-byte argument array:
  above 32, the packet queued carries bytes of the memory behind the array.\<close>

theorem HandlePublish_reads_beyond:
  assumes "router_wf r" and "length (pub_arg_bytes req) = 32" and "32 < unat (pub_arg_len req)"
    and "HandlePublish beyond req r = (ResponseSuccess, r')"
  shows "\<exists>pkt m. ring_contents (ring r') = ring_contents (ring r) @ [pkt] \<and> OscParseMessage pkt = Some m
    \<and> om_args m = pub_arg_bytes req @ take (unat (pub_arg_len req) - 32) beyond"
proof -
  let ?args = "take (unat (pub_arg_len req)) (pub_arg_bytes req @ beyond)"
  have "BuildAndEnqueue (cstr_of (pub_address req @ [0])) (cstr_of (pub_typetag req @ [0])) (Some ?args) r
      = (True, r')"
    using assms(4) by (auto simp: HandlePublish_def Let_def split: prod.splits if_splits)
  then show ?thesis
    using BuildAndEnqueue_outcome [OF assms(1) is_cstr_of is_cstr_of] assms(2,3) by fastforce
qed

definition demo_publish :: osc_publish where
  "demo_publish = \<lparr>pub_address = bytes ''/a'', pub_typetag = bytes '',f'', pub_arg_len = 34,
     pub_arg_bytes = replicate 32 0\<rparr>"

theorem HandlePublish_reads_beyond_witness:
  "\<exists>r' pkt m. HandlePublish [7, 8, 9] demo_publish OscRouter_init = (ResponseSuccess, r') \<and>
     ring_contents (ring r') = [pkt] \<and> OscParseMessage pkt = Some m \<and> om_args m = replicate 32 0 @ [7, 8]"
proof -
  obtain resp r' where h: "HandlePublish [7, 8, 9] demo_publish OscRouter_init = (resp, r')"
    by (rule prod.exhaust)
  have "pk_ok (router_packet (bytes ''/a'') (bytes '',f'') (Some (replicate 32 0 @ [7, 8])))"
    by (simp add: router_packet_def OscPacket_WriteRawArgs_def OscPacket_Begin_def OscPacket_WriteStr_def
        OscPacket_init_def OscPacket_pad_def OscPacket_Append_def OscPacket_AppendByte_def OscPad4_def
        kSendQueueEntryMaxSize_def bytes_def Let_def)
  moreover have "length (ring_contents (ring OscRouter_init)) < kSendQueueCapacity"
    by (simp add: OscRouter_init_def send_ring_init_def kSendQueueCapacity_def)
  ultimately have "fst (BuildAndEnqueue (bytes ''/a'') (bytes '',f'') (Some (replicate 32 0 @ [7, 8])) OscRouter_init)"
    using BuildAndEnqueue_outcome [OF router_wf_init, of "bytes ''/a''" "bytes '',f''"
        "Some (replicate 32 0 @ [7, 8])" "fst X" "snd X" for X, OF _ _ prod.collapse [symmetric]]
    by (simp add: bytes_def)
  moreover have "cstr_of (bytes ''/a'' @ [0]) = bytes ''/a''" "cstr_of (bytes '',f'' @ [0]) = bytes '',f''"
    by (simp_all add: bytes_def cstr_of_def)
  ultimately have "resp = ResponseSuccess"
    using h by (auto simp: HandlePublish_def demo_publish_def Let_def split: prod.splits)
  with h have h: "HandlePublish [7, 8, 9] demo_publish OscRouter_init = (ResponseSuccess, r')" by simp
  have "ring_contents (ring OscRouter_init) = []" by (simp add: OscRouter_init_def ring_contents_init)
  then show ?thesis using HandlePublish_reads_beyond [OF router_wf_init _ _ h] h
    by (fastforce simp: demo_publish_def)
qed

end
