(* ===== verification/HostSupervisor.thy ===== *)
theory HostSupervisor
  imports Prelude
begin

text \<open>
  The supervisor of the sidecar processes, \<open>core/src/common/HostSupervisorBase.cpp\<close>: start, stop,
  restart, spawn with attach-first, the monitor thread with its backoff and circuit breaker, and the
  clean-up of wedged hosts. The answers of Windows are arguments; the calls of the subclass hooks
  \<open>OnHostReady\<close> and \<open>OnHostExited\<close> and the processes terminated are recorded in order. The monitor
  thread and the thread that calls \<open>Start\<close>, \<open>Stop\<close> and \<open>Restart\<close> are interleaved: each step is one
  section under \<open>process_mutex_\<close> or one atomic load or store.
\<close>

section \<open>State\<close>

datatype host_hook = OnHostReady | OnHostExited

record supervisor =
  host_exe_path :: cstring
  stop_requested :: bool
  running :: bool
  process_handle :: "nat option"
  attached_to_existing :: bool
  consecutive_fast_exits :: nat
  halted :: bool
  last_exit_code :: u32
  hooks :: "host_hook list"
  terminated :: "nat list"

definition kFastExitThresholdMs :: int where "kFastExitThresholdMs = 2000"
definition kCircuitBreakerThreshold :: nat where "kCircuitBreakerThreshold = 5"
definition kBackoffStartMs :: nat where "kBackoffStartMs = 1000"
definition kBackoffMaxMs :: nat where "kBackoffMaxMs = 30000"

definition supervisor_init :: "cstring \<Rightarrow> supervisor" where
  "supervisor_init path = \<lparr>host_exe_path = path, stop_requested = False, running = False,
     process_handle = None, attached_to_existing = False, consecutive_fast_exits = 0, halted = False,
     last_exit_code = 0, hooks = [], terminated = []\<rparr>"

section \<open>Spawning and killing\<close>

text \<open>What \<open>Spawn\<close> learns from Windows: whether the tracked process is still alive, whether the control
  pipe answers, the singleton mutex (\<open>None\<close> when the host has none), whether the path converts, and
  the process that \<open>CreateProcessW\<close> started, if any.\<close>

record spawn_env =
  se_alive :: bool
  se_can_connect :: bool
  se_mutex_held :: "bool option"
  se_path_ok :: bool
  se_created :: "nat option"

definition Spawn :: "spawn_env \<Rightarrow> supervisor \<Rightarrow> bool \<times> supervisor" where
  "Spawn e s =
     (if process_handle s \<noteq> None \<and> se_alive e then (True, s)
      else if se_can_connect e \<and> (se_mutex_held e = None \<or> se_mutex_held e = Some True)
      then (True, s\<lparr>attached_to_existing := True, running := True, hooks := hooks s @ [OnHostReady]\<rparr>)
      else if se_path_ok e
      then case se_created e of
             None \<Rightarrow> (False, s)
           | Some p \<Rightarrow> (True, s\<lparr>process_handle := Some p, attached_to_existing := False, running := True,
                               hooks := hooks s @ [OnHostReady]\<rparr>)
      else (False, s))"

definition Kill :: "supervisor \<Rightarrow> supervisor" where
  "Kill s =
     (case process_handle s of
        None \<Rightarrow> s
      | Some h \<Rightarrow> s\<lparr>terminated := (if attached_to_existing s then terminated s else terminated s @ [h]),
                    process_handle := None, attached_to_existing := False, running := False\<rparr>)"

definition IsCleanSingletonExit :: "u32 \<Rightarrow> bool" where
  "IsCleanSingletonExit code \<longleftrightarrow> code = 3 \<or> code = 4"

section \<open>The monitor thread\<close>

text \<open>Where the monitor thread is in \<open>MonitorLoop\<close>: not started or joined, at the loop's test, at the
  locked read of the handle, on the branch without a handle, after the loss of an attached host (and
  the sleep), in the wait for a process begun at a time, at the locked take of the handle, after it,
  at the exit count, after the sleep that follows an exit, before \<open>Spawn\<close>, and finished.\<close>

datatype monitor_pc =
    M_none | M_loop | M_read | M_idle | M_lost | M_slept_lost | M_wait int | M_waited int bool
  | M_take int | M_killed | M_exited int u32 | M_count int u32 | M_slept | M_spawn | M_done

text \<open>Where the calling thread is: outside, in \<open>Start\<close> after the reset, in \<open>Stop\<close> after the request, after
  \<open>Kill\<close> and after the join, in \<open>Restart\<close> after the reset, after \<open>Kill\<close>, and before its \<open>Spawn\<close>.\<close>

datatype client_pc =
    C_idle | C_start | C_stop_kill | C_stop_join | C_stop_reset | C_restart_kill | C_restart_check
  | C_restart_spawn

record supervised =
  sup :: supervisor
  backoff_ms :: nat
  mon :: monitor_pc
  cli :: client_pc

text \<open>What Windows answers to a step: the time, whether the control pipe answers, whether the wait was
  signalled (or timed out), the exit code read, and what a spawn finds.\<close>

record monitor_env =
  me_now :: int
  me_can_connect :: bool
  me_signalled :: bool
  me_exit_code :: u32
  me_spawn :: spawn_env

definition wait_timeout_ms :: "nat \<Rightarrow> nat" where
  "wait_timeout_ms backoff = (if backoff > 1000 then backoff else 1000)"

definition next_backoff :: "bool \<Rightarrow> nat \<Rightarrow> nat" where
  "next_backoff ok b = (if ok then kBackoffStartMs else min (b * 2) kBackoffMaxMs)"

definition note_exit :: "u32 \<Rightarrow> int \<Rightarrow> supervisor \<Rightarrow> supervisor" where
  "note_exit code uptime_ms s =
     (let s = s\<lparr>last_exit_code := code\<rparr>
      in if \<not> IsCleanSingletonExit code
         then let s = (if uptime_ms < kFastExitThresholdMs
                       then s\<lparr>consecutive_fast_exits := consecutive_fast_exits s + 1\<rparr>
                       else s\<lparr>consecutive_fast_exits := 0\<rparr>)
              in if consecutive_fast_exits s \<ge> kCircuitBreakerThreshold then s\<lparr>halted := True\<rparr> else s
         else s)"

definition hook :: "host_hook \<Rightarrow> supervisor \<Rightarrow> supervisor" where
  "hook h s = s\<lparr>hooks := hooks s @ [h]\<rparr>"

fun monitor_step :: "monitor_env \<Rightarrow> supervised \<Rightarrow> supervised" where
  "monitor_step e w =
     (let s = sup w in
      case mon w of
        M_none \<Rightarrow> w
      | M_done \<Rightarrow> w
      | M_loop \<Rightarrow> w\<lparr>mon := (if stop_requested s then M_done else M_read)\<rparr>
      | M_read \<Rightarrow>
          if halted s then w\<lparr>mon := M_loop\<rparr>
          else if process_handle s = None then w\<lparr>mon := M_idle\<rparr>
          else w\<lparr>mon := M_wait (me_now e), sup := hook OnHostReady s\<rparr>
      | M_idle \<Rightarrow>
          if attached_to_existing s
          then if \<not> me_can_connect e then w\<lparr>mon := M_lost, sup := s\<lparr>running := False\<rparr>\<rparr>
               else w\<lparr>mon := M_loop, sup := hook OnHostReady s\<rparr>
          else w\<lparr>mon := M_loop\<rparr>
      | M_lost \<Rightarrow> w\<lparr>mon := M_slept_lost, sup := hook OnHostExited (s\<lparr>attached_to_existing := False\<rparr>)\<rparr>
      | M_slept_lost \<Rightarrow> w\<lparr>mon := (if stop_requested s then M_loop else M_spawn)\<rparr>
      | M_wait t \<Rightarrow> w\<lparr>mon := M_waited t (me_signalled e)\<rparr>
      | M_waited t signalled \<Rightarrow>
          w\<lparr>mon := (if stop_requested s then M_done else if signalled then M_take t else M_loop)\<rparr>
      | M_take t \<Rightarrow>
          if process_handle s \<noteq> None
          then w\<lparr>mon := M_exited t (me_exit_code e), sup := s\<lparr>process_handle := None\<rparr>\<rparr>
          else w\<lparr>mon := M_killed\<rparr>
      | M_killed \<Rightarrow> w\<lparr>mon := M_loop, sup := s\<lparr>running := False\<rparr>\<rparr>
      | M_exited t code \<Rightarrow>
          w\<lparr>mon := M_count (me_now e - t) code, sup := hook OnHostExited (s\<lparr>running := False\<rparr>)\<rparr>
      | M_count uptime_ms code \<Rightarrow>
          (let s' = note_exit code uptime_ms s
           in w\<lparr>mon := (if \<not> IsCleanSingletonExit code \<and> halted s' then M_loop else M_slept), sup := s'\<rparr>)
      | M_slept \<Rightarrow> w\<lparr>mon := (if stop_requested s then M_done else M_spawn)\<rparr>
      | M_spawn \<Rightarrow>
          (case Spawn (me_spawn e) s of (ok, s') \<Rightarrow>
             w\<lparr>mon := M_loop, sup := s', backoff_ms := next_backoff ok (backoff_ms w)\<rparr>))"

section \<open>The calling thread\<close>

text \<open>\<open>Start\<close> on a joined monitor, \<open>Stop\<close> and \<open>Restart\<close>; a call in progress advances with
  \<open>client_step\<close>. The join waits for the monitor: until it has finished, the step changes nothing.\<close>

definition Start :: "supervised \<Rightarrow> supervised" where
  "Start w =
     (if host_exe_path (sup w) = [] then w
      else w\<lparr>sup := (sup w)\<lparr>stop_requested := False, halted := False, consecutive_fast_exits := 0,
                            attached_to_existing := False\<rparr>, cli := C_start\<rparr>)"

definition Stop :: "supervised \<Rightarrow> supervised" where
  "Stop w = w\<lparr>sup := (sup w)\<lparr>stop_requested := True\<rparr>, cli := C_stop_kill\<rparr>"

definition Restart :: "supervised \<Rightarrow> supervised" where
  "Restart w =
     w\<lparr>sup := hook OnHostExited ((sup w)\<lparr>halted := False, consecutive_fast_exits := 0\<rparr>),
       cli := C_restart_kill\<rparr>"

fun client_step :: "spawn_env \<Rightarrow> supervised \<Rightarrow> supervised" where
  "client_step e w =
     (let s = sup w in
      case cli w of
        C_idle \<Rightarrow> w
      | C_start \<Rightarrow>
          (case Spawn e s of (ok, s') \<Rightarrow>
             if ok then w\<lparr>sup := s', backoff_ms := kBackoffStartMs, mon := M_loop, cli := C_idle\<rparr>
             else w\<lparr>sup := s', cli := C_idle\<rparr>)
      | C_stop_kill \<Rightarrow> w\<lparr>sup := Kill s, cli := C_stop_join\<rparr>
      | C_stop_join \<Rightarrow>
          if mon w = M_done \<or> mon w = M_none then w\<lparr>mon := M_none, cli := C_stop_reset\<rparr> else w
      | C_stop_reset \<Rightarrow> w\<lparr>sup := s\<lparr>halted := False, consecutive_fast_exits := 0\<rparr>, cli := C_idle\<rparr>
      | C_restart_kill \<Rightarrow> w\<lparr>sup := Kill s, cli := C_restart_check\<rparr>
      | C_restart_check \<Rightarrow> w\<lparr>cli := (if stop_requested s then C_idle else C_restart_spawn)\<rparr>
      | C_restart_spawn \<Rightarrow> w\<lparr>sup := snd (Spawn e s), cli := C_idle\<rparr>)"

section \<open>Interleavings\<close>

datatype sup_event = Mon monitor_env | Cli spawn_env | CallStart | CallStop | CallRestart

definition sup_event_step :: "sup_event \<Rightarrow> supervised \<Rightarrow> supervised" where
  "sup_event_step ev w =
     (case ev of
        Mon e \<Rightarrow> monitor_step e w
      | Cli e \<Rightarrow> client_step e w
      | CallStart \<Rightarrow> if cli w = C_idle \<and> mon w = M_none then Start w else w
      | CallStop \<Rightarrow> if cli w = C_idle then Stop w else w
      | CallRestart \<Rightarrow> if cli w = C_idle then Restart w else w)"

definition sup_run :: "sup_event list \<Rightarrow> supervised \<Rightarrow> supervised" where
  "sup_run evs w = fold sup_event_step evs w"

definition supervised_init :: "cstring \<Rightarrow> supervised" where
  "supervised_init path = \<lparr>sup = supervisor_init path, backoff_ms = kBackoffStartMs, mon = M_none, cli = C_idle\<rparr>"

section \<open>Clean-up of wedged hosts\<close>

definition lower_byte :: "byte \<Rightarrow> byte" where
  "lower_byte c = (if 65 \<le> c \<and> c \<le> 90 then c - 65 + 97 else c)"

definition ExtractImageName :: "cstring \<Rightarrow> cstring" where
  "ExtractImageName full_path =
     map lower_byte (rev (takeWhile (\<lambda>c. c \<noteq> 92 \<and> c \<noteq> 47) (rev full_path)))"

text \<open>\<open>LowerAscii\<close> of a wide string: characters from 128 on are dropped.\<close>

definition LowerAscii :: "u16 list \<Rightarrow> cstring" where
  "LowerAscii w = map (\<lambda>c. lower_byte (ucast c)) (filter (\<lambda>c. c < 128) w)"

record proc_entry =
  pe_pid :: nat
  pe_name :: "u16 list"
  pe_open_ok :: bool
  pe_terminate_ok :: bool

text \<open>The processes terminated; the count the code returns is their number. \<open>mutex\<close> is \<open>None\<close> when the
  host has no singleton mutex; \<open>procs\<close> is the snapshot, \<open>None\<close> when it fails.\<close>

definition CleanupStaleHostIfWedged ::
  "bool option \<Rightarrow> bool \<Rightarrow> proc_entry list option \<Rightarrow> nat \<Rightarrow> supervisor \<Rightarrow> proc_entry list" where
  "CleanupStaleHostIfWedged mutex can_connect procs self s =
     (case mutex of
        None \<Rightarrow> []
      | Some held \<Rightarrow>
          if \<not> held then []
          else if can_connect then []
          else let image_lc = ExtractImageName (host_exe_path s)
               in if image_lc = [] then []
                  else case procs of
                         None \<Rightarrow> []
                       | Some ps \<Rightarrow> filter (\<lambda>p. LowerAscii (pe_name p) = image_lc \<and> pe_pid p \<noteq> self
                                              \<and> pe_open_ok p \<and> pe_terminate_ok p) ps)"

section \<open>Invariant\<close>

text \<open>The backoff stays within its bounds; the breaker is open exactly when the counter has reached its
  threshold, and then the monitor is at the top of its loop, finished or not running.\<close>

definition sup_inv :: "supervised \<Rightarrow> bool" where
  "sup_inv w \<longleftrightarrow>
     kBackoffStartMs \<le> backoff_ms w \<and> backoff_ms w \<le> kBackoffMaxMs \<and>
     (halted (sup w) \<longleftrightarrow> consecutive_fast_exits (sup w) = kCircuitBreakerThreshold) \<and>
     consecutive_fast_exits (sup w) \<le> kCircuitBreakerThreshold \<and>
     (halted (sup w) \<longrightarrow> mon w \<in> {M_none, M_loop, M_read, M_done})"

section \<open>The circuit breaker\<close>

lemmas sup_consts = kBackoffStartMs_def kBackoffMaxMs_def kCircuitBreakerThreshold_def kFastExitThresholdMs_def

lemma Spawn_counters [simp]:
  "halted (snd (Spawn e s)) = halted s"
  "consecutive_fast_exits (snd (Spawn e s)) = consecutive_fast_exits s"
  "stop_requested (snd (Spawn e s)) = stop_requested s"
  by (auto simp: Spawn_def split: option.splits)

lemma Kill_counters [simp]:
  "halted (Kill s) = halted s" "consecutive_fast_exits (Kill s) = consecutive_fast_exits s"
  "stop_requested (Kill s) = stop_requested s" "process_handle (Kill s) = None"
  by (auto simp: Kill_def split: option.splits)

lemma hook_fields [simp]:
  "halted (hook h s) = halted s" "consecutive_fast_exits (hook h s) = consecutive_fast_exits s"
  "stop_requested (hook h s) = stop_requested s" "process_handle (hook h s) = process_handle s"
  "attached_to_existing (hook h s) = attached_to_existing s"
  by (simp_all add: hook_def)

lemma next_backoff_bounds:
  assumes "kBackoffStartMs \<le> b" "b \<le> kBackoffMaxMs"
  shows "kBackoffStartMs \<le> next_backoff ok b \<and> next_backoff ok b \<le> kBackoffMaxMs"
  using assms by (auto simp: next_backoff_def sup_consts)

lemma note_exit_counter:
  assumes "consecutive_fast_exits s < kCircuitBreakerThreshold" "\<not> halted s"
  shows "(halted (note_exit c u s) \<longleftrightarrow> consecutive_fast_exits (note_exit c u s) = kCircuitBreakerThreshold) \<and>
         consecutive_fast_exits (note_exit c u s) \<le> kCircuitBreakerThreshold \<and>
         (halted (note_exit c u s) \<longrightarrow> \<not> IsCleanSingletonExit c)"
  using assms by (auto simp: note_exit_def Let_def sup_consts)

lemma monitor_step_inv: "sup_inv w \<Longrightarrow> sup_inv (monitor_step e w)"
  using next_backoff_bounds [of "backoff_ms w" "fst (Spawn (me_spawn e) (sup w))"]
    note_exit_counter [of "sup w"]
  by (cases "mon w") (auto simp: sup_inv_def Let_def case_prod_beta)

lemma client_step_inv:
  assumes "sup_inv w"
  shows "sup_inv (client_step e w)"
proof (cases "cli w")
  case C_start
  then show ?thesis using assms
    by (auto simp: sup_inv_def Let_def case_prod_beta sup_consts)
qed (use assms in \<open>auto simp: sup_inv_def Let_def kCircuitBreakerThreshold_def\<close>)

lemma call_inv:
  assumes "sup_inv w"
  shows "mon w = M_none \<Longrightarrow> sup_inv (Start w)" "sup_inv (Stop w)" "sup_inv (Restart w)"
  using assms by (auto simp: sup_inv_def Start_def Stop_def Restart_def kCircuitBreakerThreshold_def)

lemma sup_event_step_inv: "sup_inv w \<Longrightarrow> sup_inv (sup_event_step ev w)"
  by (cases ev) (simp_all add: sup_event_step_def monitor_step_inv client_step_inv call_inv
    del: monitor_step.simps client_step.simps)

lemma sup_run_inv: "sup_inv w \<Longrightarrow> sup_inv (sup_run evs w)"
  unfolding sup_run_def by (induction evs arbitrary: w) (simp_all add: sup_event_step_inv)

lemma supervised_init_inv: "sup_inv (supervised_init path)"
  by (simp add: sup_inv_def supervised_init_def supervisor_init_def sup_consts)

lemma supervisor_invariant_aux: "sup_inv (sup_run evs (supervised_init path))"
  by (rule sup_run_inv) (rule supervised_init_inv)

text \<open>C21: Under every interleaving of the monitor thread with \<open>Start\<close>, \<open>Stop\<close> and \<open>Restart\<close>, and whatever
  Windows answers, the backoff stays between one and thirty seconds, the breaker is open exactly when
  the fast exit counter has reached its threshold, and the monitor is then away from every spawn.\<close>

theorem supervisor_invariant: "sup_inv (sup_run evs (supervised_init path))"
  by (rule supervisor_invariant_aux)

lemma monitor_step_halted:
  assumes "sup_inv w" "halted (sup w)"
  shows "sup (monitor_step e w) = sup w"
  using assms by (auto simp: sup_inv_def Let_def)

lemma sup_run_Cons: "sup_run (ev # evs) w = sup_run evs (sup_event_step ev w)"
  by (simp add: sup_run_def)

lemma sup_run_append: "sup_run (xs @ ys) w = sup_run ys (sup_run xs w)"
  by (simp add: sup_run_def)

lemma sup_run_Nil [simp]: "sup_run [] w = w"
  by (simp add: sup_run_def)

text \<open>A tripped breaker holds: once the supervisor is halted the monitor thread, for however long it
  runs, starts nothing, terminates nothing and calls no hook, until a caller intervenes.\<close>

theorem breaker_holds:
  assumes "halted (sup (sup_run evs (supervised_init path)))"
  shows "sup (sup_run (evs @ map Mon ms) (supervised_init path)) = sup (sup_run evs (supervised_init path))"
proof -
  have "sup_inv w \<Longrightarrow> halted (sup w) \<Longrightarrow> sup (sup_run (map Mon ms) w) = sup w" for w
  proof (induction ms arbitrary: w)
    case (Cons m ms)
    have "sup (sup_run (map Mon ms) (monitor_step m w)) = sup (monitor_step m w)"
      using Cons.prems by (intro Cons.IH monitor_step_inv) (simp_all only: monitor_step_halted)
    then show ?case
      using Cons.prems
      by (simp add: sup_run_Cons sup_event_step_def monitor_step_halted del: monitor_step.simps)
  qed simp
  then show ?thesis
    using assms by (simp add: sup_run_append supervisor_invariant_aux)
qed

section \<open>Lives of the host\<close>

text \<open>A host that lives for \<open>k\<close> turns of the monitor and then exits within a turn: each turn begins at a
  time and waits, the last wait is signalled, the handle is taken, the exit is counted at a later time
  and a new process is created.\<close>

definition idle_env :: monitor_env where
  "idle_env = \<lparr>me_now = 0, me_can_connect = False, me_signalled = False, me_exit_code = 0,
     me_spawn = \<lparr>se_alive = False, se_can_connect = False, se_mutex_held = None, se_path_ok = True,
                 se_created = None\<rparr>\<rparr>"

definition timeout_turn :: "int \<Rightarrow> monitor_env list" where
  "timeout_turn t = [idle_env, idle_env\<lparr>me_now := t\<rparr>, idle_env, idle_env]"

definition exit_turn :: "int \<Rightarrow> int \<Rightarrow> u32 \<Rightarrow> monitor_env list" where
  "exit_turn t t' code =
     [idle_env, idle_env\<lparr>me_now := t\<rparr>, idle_env\<lparr>me_signalled := True\<rparr>, idle_env,
      idle_env\<lparr>me_exit_code := code\<rparr>, idle_env\<lparr>me_now := t'\<rparr>, idle_env]"

definition respawn_turn :: "nat \<Rightarrow> monitor_env list" where
  "respawn_turn p = [idle_env, idle_env\<lparr>me_spawn := (me_spawn idle_env)\<lparr>se_created := Some p\<rparr>\<rparr>]"

definition host_life :: "int list \<times> int \<times> int \<times> u32 \<times> nat \<Rightarrow> monitor_env list" where
  "host_life l = (case l of (ts, t, t', code, p) \<Rightarrow>
     concat (map timeout_turn ts) @ exit_turn t t' code @ respawn_turn p)"

definition mon_run :: "monitor_env list \<Rightarrow> supervised \<Rightarrow> supervised" where
  "mon_run ms w = fold monitor_step ms w"

lemma mon_run_sup_run: "mon_run ms w = sup_run (map Mon ms) w"
  by (induction ms arbitrary: w)
    (simp_all add: mon_run_def sup_run_def sup_event_step_def del: monitor_step.simps)

lemma mon_run_append: "mon_run (xs @ ys) w = mon_run ys (mon_run xs w)"
  by (simp add: mon_run_def)

text \<open>The monitor tracks a live process and is at the top of its loop.\<close>

definition tracking :: "supervised \<Rightarrow> bool" where
  "tracking w \<longleftrightarrow> mon w = M_loop \<and> \<not> stop_requested (sup w) \<and> \<not> halted (sup w) \<and> process_handle (sup w) \<noteq> None"

lemma timeout_turn_run:
  assumes "tracking w"
  shows "tracking (mon_run (timeout_turn t) w) \<and>
         consecutive_fast_exits (sup (mon_run (timeout_turn t) w)) = consecutive_fast_exits (sup w)"
  using assms by (simp add: tracking_def timeout_turn_def mon_run_def idle_env_def Let_def)

lemma timeout_turns_run:
  assumes "tracking w"
  shows "tracking (mon_run (concat (map timeout_turn ts)) w) \<and>
         consecutive_fast_exits (sup (mon_run (concat (map timeout_turn ts)) w)) = consecutive_fast_exits (sup w)"
  using assms
proof (induction ts arbitrary: w)
  case (Cons t ts)
  then show ?case using timeout_turn_run [of w t] by (simp add: mon_run_append)
qed (simp add: mon_run_def)

text \<open>The monitor's step at each place of its loop.\<close>

lemma monitor_at:
  "mon w = M_loop \<Longrightarrow> monitor_step e w = w\<lparr>mon := (if stop_requested (sup w) then M_done else M_read)\<rparr>"
  "mon w = M_read \<Longrightarrow> halted (sup w) \<Longrightarrow> monitor_step e w = w\<lparr>mon := M_loop\<rparr>"
  "mon w = M_read \<Longrightarrow> \<not> halted (sup w) \<Longrightarrow> process_handle (sup w) \<noteq> None \<Longrightarrow>
   monitor_step e w = w\<lparr>mon := M_wait (me_now e), sup := hook OnHostReady (sup w)\<rparr>"
  "mon w = M_wait t \<Longrightarrow> monitor_step e w = w\<lparr>mon := M_waited t (me_signalled e)\<rparr>"
  "mon w = M_waited t b \<Longrightarrow> monitor_step e w =
   w\<lparr>mon := (if stop_requested (sup w) then M_done else if b then M_take t else M_loop)\<rparr>"
  "mon w = M_take t \<Longrightarrow> process_handle (sup w) \<noteq> None \<Longrightarrow>
   monitor_step e w = w\<lparr>mon := M_exited t (me_exit_code e), sup := (sup w)\<lparr>process_handle := None\<rparr>\<rparr>"
  "mon w = M_exited t code \<Longrightarrow> monitor_step e w =
   w\<lparr>mon := M_count (me_now e - t) code, sup := hook OnHostExited ((sup w)\<lparr>running := False\<rparr>)\<rparr>"
  "mon w = M_count u code \<Longrightarrow> monitor_step e w =
   w\<lparr>mon := (if \<not> IsCleanSingletonExit code \<and> halted (note_exit code u (sup w)) then M_loop else M_slept),
     sup := note_exit code u (sup w)\<rparr>"
  "mon w = M_slept \<Longrightarrow> monitor_step e w = w\<lparr>mon := (if stop_requested (sup w) then M_done else M_spawn)\<rparr>"
  "mon w = M_spawn \<Longrightarrow> monitor_step e w =
   w\<lparr>mon := M_loop, sup := snd (Spawn (me_spawn e) (sup w)),
     backoff_ms := next_backoff (fst (Spawn (me_spawn e) (sup w))) (backoff_ms w)\<rparr>"
  by (auto simp: Let_def case_prod_beta)

lemma exit_turn_run:
  assumes "tracking w"
  shows "mon_run (exit_turn t t' code) w =
         (let s = note_exit code (t' - t)
                    (hook OnHostExited ((hook OnHostReady (sup w))\<lparr>process_handle := None, running := False\<rparr>))
          in w\<lparr>mon := (if \<not> IsCleanSingletonExit code \<and> halted s then M_loop else M_slept), sup := s\<rparr>)"
  using assms by (simp add: monitor_at tracking_def exit_turn_def mon_run_def idle_env_def del: monitor_step.simps)

lemma respawn_turn_slept:
  assumes "mon w = M_slept" "\<not> stop_requested (sup w)" "\<not> halted (sup w)" "process_handle (sup w) = None"
  shows "tracking (mon_run (respawn_turn p) w) \<and>
         consecutive_fast_exits (sup (mon_run (respawn_turn p) w)) = consecutive_fast_exits (sup w)"
  using assms by (simp add: monitor_at tracking_def respawn_turn_def mon_run_def idle_env_def Spawn_def del: monitor_step.simps)

lemma respawn_turn_halted:
  assumes "mon w = M_loop" "\<not> stop_requested (sup w)" "halted (sup w)"
  shows "sup (mon_run (respawn_turn p) w) = sup w"
  using assms by (simp add: monitor_at respawn_turn_def mon_run_def idle_env_def del: monitor_step.simps)

lemma note_exit_fast:
  assumes "u < kFastExitThresholdMs" "\<not> IsCleanSingletonExit code"
  shows "consecutive_fast_exits (note_exit code u s) = consecutive_fast_exits s + 1"
    and "halted (note_exit code u s) \<longleftrightarrow> halted s \<or> consecutive_fast_exits s + 1 \<ge> kCircuitBreakerThreshold"
    and "stop_requested (note_exit code u s) = stop_requested s"
    and "process_handle (note_exit code u s) = process_handle s"
  using assms by (auto simp: note_exit_def Let_def)

lemma exit_respawn_run:
  assumes "tracking w" "t' - t < kFastExitThresholdMs" "\<not> IsCleanSingletonExit code"
    and "consecutive_fast_exits (sup w) < kCircuitBreakerThreshold"
  shows "let w' = mon_run (exit_turn t t' code @ respawn_turn p) w in
         consecutive_fast_exits (sup w') = consecutive_fast_exits (sup w) + 1 \<and>
         (if consecutive_fast_exits (sup w) + 1 = kCircuitBreakerThreshold
          then halted (sup w') \<and> process_handle (sup w') = None else tracking w')"
proof (cases "consecutive_fast_exits (sup w) + 1 = kCircuitBreakerThreshold")
  case True
  with assms show ?thesis
    by (simp add: mon_run_append exit_turn_run respawn_turn_halted note_exit_fast Let_def tracking_def)
next
  case False
  with assms show ?thesis
    using respawn_turn_slept [of "mon_run (exit_turn t t' code) w" p]
    by (simp add: mon_run_append exit_turn_run note_exit_fast Let_def tracking_def)
qed

lemma host_life_run:
  assumes "tracking w" "t' - t < kFastExitThresholdMs" "\<not> IsCleanSingletonExit code"
    and "consecutive_fast_exits (sup w) < kCircuitBreakerThreshold"
  shows "let w' = mon_run (host_life (ts, t, t', code, p)) w in
         consecutive_fast_exits (sup w') = consecutive_fast_exits (sup w) + 1 \<and>
         (if consecutive_fast_exits (sup w) + 1 = kCircuitBreakerThreshold
          then halted (sup w') \<and> process_handle (sup w') = None else tracking w')"
  using assms timeout_turns_run [of w ts]
    exit_respawn_run [of "mon_run (concat (map timeout_turn ts)) w" t' t code p]
  by (simp add: host_life_def mon_run_append)

text \<open>The exits of a list of lives are all counted as fast.\<close>

definition fast_life :: "int list \<times> int \<times> int \<times> u32 \<times> nat \<Rightarrow> bool" where
  "fast_life l = (case l of (ts, t, t', code, p) \<Rightarrow>
     t' - t < kFastExitThresholdMs \<and> \<not> IsCleanSingletonExit code)"

lemma host_lives_run:
  assumes "tracking w" "list_all fast_life ls" "ls \<noteq> []"
    and "consecutive_fast_exits (sup w) + length ls = kCircuitBreakerThreshold"
  shows "halted (sup (mon_run (concat (map host_life ls)) w)) \<and>
         process_handle (sup (mon_run (concat (map host_life ls)) w)) = None"
  using assms
proof (induction ls arbitrary: w)
  case (Cons l ls)
  obtain ts t t' code p where l: "l = (ts, t, t', code, p)" by (cases l)
  show ?case
    using Cons host_life_run [of w t' t code ts p]
    by (cases ls) (auto simp: l fast_life_def mon_run_append Let_def mon_run_def split: if_splits)
qed simp

text \<open>Five exits halt the supervisor, however long the hosts lived: the time a host was up is measured
  from the beginning of the monitor's last turn and not from the spawn, and with the initial backoff a
  turn waits one second, less than the two seconds that would reset the counter. Exits with the codes
  of a clean singleton exit are not counted.\<close>

theorem five_exits_halt:
  assumes "tracking w" "consecutive_fast_exits (sup w) = 0" "length ls = 5" "list_all fast_life ls"
  shows "halted (sup (mon_run (concat (map host_life ls)) w)) \<and>
         process_handle (sup (mon_run (concat (map host_life ls)) w)) = None"
  using assms by (intro host_lives_run) (auto simp: kCircuitBreakerThreshold_def)

text \<open>A supervisor that has started process 7.\<close>

definition started :: supervised where
  "started = sup_run [CallStart, Cli \<lparr>se_alive = False, se_can_connect = False, se_mutex_held = None,
                                   se_path_ok = True, se_created = Some 7\<rparr>] (supervised_init [104])"

lemmas sup_run_eval = sup_run_def sup_event_step_def supervised_init_def supervisor_init_def
  Start_def Stop_def Restart_def Spawn_def Kill_def hook_def

lemma started_tracking: "tracking started" "consecutive_fast_exits (sup started) = 0"
  by (simp_all add: started_def tracking_def sup_run_eval)

theorem five_exits_halt_witness:
  "halted (sup (mon_run (concat (map host_life (replicate 5 ([0, 1000, 2000], 3000, 3500, 1, 8)))) started))"
  using five_exits_halt [of started "replicate 5 ([0, 1000, 2000], 3000, 3500, 1, 8)"]
  by (simp add: started_tracking list_all_iff fast_life_def IsCleanSingletonExit_def kFastExitThresholdMs_def)

lemma started_halts:
  "\<exists>evs. halted (sup (sup_run evs (supervised_init [104])))"
proof -
  let ?ls = "replicate 5 ([0, 1000, 2000], 3000, 3500, 1, 8)"
  have "halted (sup (mon_run (concat (map host_life ?ls)) started))"
    by (intro conjunct1 [OF host_lives_run] started_tracking)
      (simp_all add: started_tracking list_all_iff fast_life_def IsCleanSingletonExit_def sup_consts)
  then show ?thesis
    unfolding mon_run_sup_run started_def sup_run_append [symmetric] by blast
qed

theorem breaker_holds_witness:
  "\<exists>evs. halted (sup (sup_run evs (supervised_init [104]))) \<and>
     sup (sup_run (evs @ map Mon (replicate 100 idle_env)) (supervised_init [104])) =
     sup (sup_run evs (supervised_init [104]))"
  using started_halts breaker_holds [of _ "[104]" "replicate 100 idle_env"] by blast

section \<open>Stopping\<close>

text \<open>How many steps the monitor needs to finish once a stop is requested.\<close>

fun stop_distance :: "monitor_pc \<Rightarrow> nat" where
  "stop_distance M_read = 5"
| "stop_distance M_idle = 4"
| "stop_distance (M_take t) = 4"
| "stop_distance M_lost = 3"
| "stop_distance (M_exited t c) = 3"
| "stop_distance M_slept_lost = 2"
| "stop_distance (M_wait t) = 2"
| "stop_distance M_killed = 2"
| "stop_distance (M_count u c) = 2"
| "stop_distance M_spawn = 2"
| "stop_distance M_loop = 1"
| "stop_distance (M_waited t b) = 1"
| "stop_distance M_slept = 1"
| "stop_distance M_done = 0"
| "stop_distance M_none = 0"

lemma note_exit_stop [simp]: "stop_requested (note_exit c u s) = stop_requested s"
  by (simp add: note_exit_def Let_def)

lemma monitor_step_stop [simp]: "stop_requested (sup (monitor_step e w)) = stop_requested (sup w)"
  by (cases "mon w") (auto simp: Let_def case_prod_beta)

lemma client_step_stop [simp]: "stop_requested (sup (client_step e w)) = stop_requested (sup w)"
  by (cases "cli w") (auto simp: Let_def case_prod_beta)

lemma monitor_step_distance:
  assumes "stop_requested (sup w)"
  shows "stop_distance (mon (monitor_step e w)) \<le> stop_distance (mon w) - 1"
  using assms by (cases "mon w") (auto simp: Let_def case_prod_beta)

lemma client_step_distance:
  assumes "cli w \<noteq> C_start"
  shows "stop_distance (mon (client_step e w)) \<le> stop_distance (mon w)"
  using assms by (cases "cli w") (auto simp: Let_def)

lemma client_step_not_start: "cli w \<noteq> C_start \<Longrightarrow> cli (client_step e w) \<noteq> C_start"
  by (cases "cli w") (auto simp: Let_def)

definition mon_events :: "sup_event list \<Rightarrow> nat" where
  "mon_events evs = length (filter (\<lambda>ev. \<exists>e. ev = Mon e) evs)"

lemma monitor_step_cli [simp]: "cli (monitor_step e w) = cli w"
  by (cases "mon w") (auto simp: Let_def case_prod_beta)

lemma stop_event_step:
  assumes "stop_requested (sup w)" "cli w \<noteq> C_start" "ev \<noteq> CallStart"
  shows "stop_requested (sup (sup_event_step ev w)) \<and> cli (sup_event_step ev w) \<noteq> C_start \<and>
         stop_distance (mon (sup_event_step ev w)) \<le> stop_distance (mon w) - mon_events [ev]"
  using assms monitor_step_distance [of w]
  by (cases ev)
    (auto simp: sup_event_step_def mon_events_def client_step_distance
       client_step_not_start Stop_def Restart_def simp del: monitor_step.simps client_step.simps)

lemma stop_run:
  assumes "stop_requested (sup w)" "cli w \<noteq> C_start" "CallStart \<notin> set evs"
  shows "stop_distance (mon (sup_run evs w)) \<le> stop_distance (mon w) - mon_events evs"
  using assms
proof (induction evs arbitrary: w)
  case (Cons ev evs)
  have st: "stop_requested (sup (sup_event_step ev w)) \<and> cli (sup_event_step ev w) \<noteq> C_start \<and>
         stop_distance (mon (sup_event_step ev w)) \<le> stop_distance (mon w) - mon_events [ev]"
    using Cons.prems by (intro stop_event_step) auto
  have "stop_distance (mon (sup_run evs (sup_event_step ev w)))
        \<le> stop_distance (mon (sup_event_step ev w)) - mon_events evs"
    using Cons.prems st by (intro Cons.IH) auto
  moreover have "mon_events (ev # evs) = mon_events [ev] + mon_events evs"
    by (simp add: mon_events_def)
  ultimately show ?case using st unfolding sup_run_Cons by linarith
qed (simp add: mon_events_def)

lemma stop_distance_le: "stop_distance pc \<le> 5"
  by (cases pc) auto

lemma stop_distance_0: "stop_distance pc = 0 \<longleftrightarrow> pc = M_done \<or> pc = M_none"
  by (cases pc) auto

text \<open>C22: A stop is never blocked by the monitor: once it is requested, the monitor thread finishes within
  five of its own steps, wherever it was in its loop and however the steps of the caller fall between
  them, so that the join in \<open>Stop\<close> returns.\<close>

theorem Stop_terminates:
  assumes "cli w = C_idle" "CallStart \<notin> set evs" "mon_events evs \<ge> 5"
  shows "mon (sup_run (CallStop # evs) w) \<in> {M_done, M_none}"
proof -
  have "stop_distance (mon (sup_run evs (Stop w))) \<le> stop_distance (mon (Stop w)) - mon_events evs"
    using assms by (intro stop_run) (simp_all add: Stop_def)
  then have "stop_distance (mon (sup_run evs (Stop w))) = 0"
    using assms stop_distance_le [of "mon (Stop w)"] by linarith
  then show ?thesis
    using assms by (auto simp: sup_run_Cons sup_event_step_def stop_distance_0)
qed

theorem Stop_terminates_witness:
  "mon (sup_run (CallStop # map Mon (replicate 5 idle_env)) started) \<in> {M_done, M_none}"
proof -
  have "cli started = C_idle" by (simp add: started_def sup_run_eval)
  then show ?thesis
    using Stop_terminates [of started "map Mon (replicate 5 idle_env)"] by (auto simp: mon_events_def)
qed

text \<open>The state of a stop in progress in which no spawn can follow.\<close>

definition stopping :: "supervised \<Rightarrow> bool" where
  "stopping w \<longleftrightarrow> stop_requested (sup w) \<and> mon w \<noteq> M_spawn \<and>
     cli w \<in> {C_stop_kill, C_stop_join, C_stop_reset, C_idle} \<and>
     (cli w \<noteq> C_stop_kill \<longrightarrow> process_handle (sup w) = None) \<and>
     (cli w \<in> {C_stop_reset, C_idle} \<longrightarrow> mon w = M_none) \<and>
     (cli w = C_idle \<longrightarrow> \<not> halted (sup w))"

lemma note_exit_handle [simp]: "process_handle (note_exit c u s) = process_handle s"
  by (simp add: note_exit_def Let_def)

lemma stopping_mon: "stopping w \<Longrightarrow> stopping (monitor_step e w)"
  by (cases "mon w") (auto simp: stopping_def Let_def)

lemma stopping_cli: "stopping w \<Longrightarrow> stopping (client_step e w)"
  by (cases "cli w") (auto simp: stopping_def Let_def)

text \<open>A stop that finds the monitor outside the window between its last test of the stop flag and its
  spawn ends, however the two threads interleave, with no process tracked, the monitor joined and the
  breaker closed.\<close>

theorem Stop_clears_host:
  assumes "cli w = C_idle" "mon w \<noteq> M_spawn" "CallStart \<notin> set evs" "CallStop \<notin> set evs" "CallRestart \<notin> set evs"
    and "cli (sup_run (CallStop # evs) w) = C_idle"
  shows "process_handle (sup (sup_run (CallStop # evs) w)) = None \<and> mon (sup_run (CallStop # evs) w) = M_none \<and>
         \<not> halted (sup (sup_run (CallStop # evs) w))"
proof -
  have "stopping v \<Longrightarrow> stopping (sup_run evs v)" for v
    using assms(3-5)
  proof (induction evs arbitrary: v)
    case (Cons ev evs)
    have "stopping (sup_event_step ev v)"
      using Cons.prems by (cases ev) (auto simp: sup_event_step_def stopping_mon stopping_cli
          simp del: monitor_step.simps client_step.simps)
    then show ?case using Cons by (simp add: sup_run_Cons)
  qed simp
  moreover have "stopping (Stop w)" using assms by (simp add: stopping_def Stop_def)
  ultimately have "stopping (sup_run (CallStop # evs) w)"
    using assms(1) by (simp add: sup_run_Cons sup_event_step_def)
  then show ?thesis using assms(6) by (simp add: stopping_def)
qed

definition stop_events :: "sup_event list" where
  "stop_events = map Mon (replicate 2 idle_env) @ map Cli (replicate 3 (me_spawn idle_env))"

theorem Stop_clears_host_witness:
  "process_handle (sup (sup_run (CallStop # stop_events) started)) = None"
proof -
  have "cli started = C_idle" "mon started \<noteq> M_spawn" "cli (sup_run (CallStop # stop_events) started) = C_idle"
    by (simp_all add: started_def sup_run_eval stop_events_def idle_env_def eval_nat_numeral)
  then show ?thesis
    using Stop_clears_host [of started stop_events] by (auto simp: stop_events_def)
qed

text \<open>In the window between the monitor's test of the stop flag and its spawn a stop misses the host:
  there is an interleaving in which \<open>Stop\<close> has returned, the monitor is joined, and a process that
  nothing watches is running.\<close>

theorem Stop_misses_spawn:
  "\<exists>evs p. CallStop \<in> set evs \<and> cli (sup_run evs started) = C_idle \<and> mon (sup_run evs started) = M_none \<and>
     process_handle (sup (sup_run evs started)) = Some p \<and> running (sup (sup_run evs started)) \<and>
     p \<notin> set (terminated (sup (sup_run evs started)))"
proof -
  let ?c = "Cli (me_spawn idle_env)"
  let ?evs = "map Mon (exit_turn 0 10 1) @ [Mon idle_env, CallStop, ?c, Mon (last (respawn_turn 8)), Mon idle_env, ?c, ?c]"
  have "cli (sup_run ?evs started) = C_idle \<and> mon (sup_run ?evs started) = M_none \<and>
     process_handle (sup (sup_run ?evs started)) = Some 8 \<and> running (sup (sup_run ?evs started)) \<and>
     8 \<notin> set (terminated (sup (sup_run ?evs started)))"
    by (simp add: started_def sup_run_eval exit_turn_def respawn_turn_def idle_env_def note_exit_def
        IsCleanSingletonExit_def sup_consts)
  then show ?thesis by (intro exI [of _ ?evs] exI [of _ 8]) simp
qed

text \<open>A respawn that fails is never tried again: with no process, no attached host and no stop, the
  monitor changes nothing however long it runs, although its backoff was doubled for a next attempt.\<close>

theorem failed_spawn_stuck:
  assumes "mon w \<in> {M_loop, M_read, M_idle}" "process_handle (sup w) = None" "\<not> attached_to_existing (sup w)"
  shows "sup (sup_run (map Mon ms) w) = sup w"
proof -
  have "mon w \<in> {M_loop, M_read, M_idle, M_done} \<Longrightarrow> process_handle (sup w) = None \<Longrightarrow>
        \<not> attached_to_existing (sup w) \<Longrightarrow> sup (sup_run (map Mon ms) w) = sup w" for w
  proof (induction ms arbitrary: w)
    case (Cons m ms)
    have "sup (monitor_step m w) = sup w \<and> mon (monitor_step m w) \<in> {M_loop, M_read, M_idle, M_done}"
      using Cons.prems by (auto simp: Let_def)
    then show ?case
      using Cons.prems Cons.IH [of "monitor_step m w"]
      by (simp add: sup_run_Cons sup_event_step_def del: monitor_step.simps)
  qed simp
  then show ?thesis using assms by blast
qed

theorem failed_spawn_stuck_witness:
  "let w = sup_run (map Mon (exit_turn 0 10 1 @ [idle_env, idle_env])) started in
   process_handle (sup w) = None \<and> sup (sup_run (map Mon (replicate 50 idle_env)) w) = sup w"
proof -
  let ?w = "sup_run (map Mon (exit_turn 0 10 1 @ [idle_env, idle_env])) started"
  have "mon ?w \<in> {M_loop, M_read, M_idle}" "process_handle (sup ?w) = None" "\<not> attached_to_existing (sup ?w)"
    by (simp_all add: started_def sup_run_eval exit_turn_def idle_env_def note_exit_def
        IsCleanSingletonExit_def sup_consts)
  then show ?thesis using failed_spawn_stuck [of ?w "replicate 50 idle_env"] by (simp add: Let_def)
qed

section \<open>Termination of hosts\<close>

text \<open>The clean-up before a spawn terminates only processes of the host's own image other than the
  driver itself, and only when the singleton mutex is held by a host that does not answer its pipe.\<close>

theorem CleanupStaleHostIfWedged_safe:
  assumes "p \<in> set (CleanupStaleHostIfWedged mutex can_connect procs self s)"
  shows "mutex = Some True \<and> \<not> can_connect \<and> pe_pid p \<noteq> self \<and>
         LowerAscii (pe_name p) = ExtractImageName (host_exe_path s) \<and> (\<exists>ps. procs = Some ps \<and> p \<in> set ps)"
  using assms
  by (auto simp: CleanupStaleHostIfWedged_def Let_def split: option.splits if_splits)

theorem CleanupStaleHostIfWedged_safe_witness:
  "let p = \<lparr>pe_pid = 5, pe_name = [72, 46, 101], pe_open_ok = True, pe_terminate_ok = True\<rparr> in
   p \<in> set (CleanupStaleHostIfWedged (Some True) False (Some [p]) 4 (supervisor_init [67, 92, 104, 46, 69])) \<and>
   pe_pid p \<noteq> 4"
  using CleanupStaleHostIfWedged_safe [of _ "Some True" False "Some [\<lparr>pe_pid = 5, pe_name = [72, 46, 101], pe_open_ok = True, pe_terminate_ok = True\<rparr>]" 4 "supervisor_init [67, 92, 104, 46, 69]"]
  by (simp add: CleanupStaleHostIfWedged_def ExtractImageName_def LowerAscii_def lower_byte_def supervisor_init_def)

text \<open>An undisturbed \<open>Restart\<close> of a supervisor that tracks its own process terminates that process and
  starts a new one; of a supervisor attached to a host that answers it terminates nothing and attaches
  to the same host again.\<close>

theorem Restart_outcome:
  assumes "cli w = C_idle" "\<not> stop_requested (sup w)"
  shows "(process_handle (sup w) = Some h \<and> \<not> attached_to_existing (sup w) \<and> \<not> se_can_connect e \<and>
          se_path_ok e \<and> se_created e = Some p \<longrightarrow>
          terminated (sup (sup_run [CallRestart, Cli e, Cli e, Cli e] w)) = terminated (sup w) @ [h] \<and>
          process_handle (sup (sup_run [CallRestart, Cli e, Cli e, Cli e] w)) = Some p) \<and>
         (process_handle (sup w) = None \<and> se_can_connect e \<and> se_mutex_held e \<noteq> Some False \<longrightarrow>
          terminated (sup (sup_run [CallRestart, Cli e, Cli e, Cli e] w)) = terminated (sup w) \<and>
          attached_to_existing (sup (sup_run [CallRestart, Cli e, Cli e, Cli e] w)))"
  using assms by (cases "se_mutex_held e") (auto simp: sup_run_eval Let_def)

theorem Restart_outcome_witness:
  "terminated (sup (sup_run [CallRestart, Cli ((me_spawn idle_env)\<lparr>se_created := Some 9\<rparr>),
     Cli ((me_spawn idle_env)\<lparr>se_created := Some 9\<rparr>), Cli ((me_spawn idle_env)\<lparr>se_created := Some 9\<rparr>)] started)) = [7]"
proof -
  have "cli started = C_idle" "\<not> stop_requested (sup started)" "process_handle (sup started) = Some 7"
    "\<not> attached_to_existing (sup started)" "terminated (sup started) = []"
    by (simp_all add: started_def sup_run_eval)
  then show ?thesis
    using Restart_outcome [of started 7 "(me_spawn idle_env)\<lparr>se_created := Some 9\<rparr>" 9]
    by (simp add: idle_env_def)
qed

end
