(* ===== verification/IpcServer.thy ===== *)
theory IpcServer
  imports OscRouter Phantom HostSupervisor "HOL-Library.Sublist"
begin

text \<open>
  The driver's IPC: the feature flags (\<open>core/src/driver/FeatureFlags.cpp\<close>), the activation of the
  modules and the routing of a request to them (\<open>ServerTrackedDeviceProvider.cpp\<close>), the request tables
  of the modules, and the named-pipe server that reads requests and writes responses
  (\<open>core/src/driver/IPCServer.cpp\<close>). The OSC router and the phantom module are their own models; of the
  other modules the calls they make, in order, with the payload as received. The answers of Windows to
  the pipe calls are arguments.
\<close>

section \<open>Features and modules\<close>

definition kFeatureCalibration :: u32 where "kFeatureCalibration = 1"
definition kFeatureSmoothing :: u32 where "kFeatureSmoothing = 2"
definition kFeatureInputHealth :: u32 where "kFeatureInputHealth = 4"
definition kFeatureFaceTracking :: u32 where "kFeatureFaceTracking = 8"
definition kFeatureOscRouter :: u32 where "kFeatureOscRouter = 16"
definition kFeatureCaptions :: u32 where "kFeatureCaptions = 32"
definition kFeaturePhantom :: u32 where "kFeaturePhantom = 64"

datatype module_id = OscRouterM | CalibrationM | SmoothingM | InputHealthM | FacetrackingM | CaptionsM | PhantomM

fun FeatureMask :: "module_id \<Rightarrow> u32" where
  "FeatureMask OscRouterM = kFeatureOscRouter"
| "FeatureMask CalibrationM = kFeatureCalibration"
| "FeatureMask SmoothingM = kFeatureSmoothing"
| "FeatureMask InputHealthM = kFeatureInputHealth"
| "FeatureMask FacetrackingM = kFeatureFaceTracking"
| "FeatureMask CaptionsM = kFeatureCaptions"
| "FeatureMask PhantomM = kFeaturePhantom"

lemmas feature_defs = kFeatureCalibration_def kFeatureSmoothing_def kFeatureInputHealth_def
  kFeatureFaceTracking_def kFeatureOscRouter_def kFeatureCaptions_def kFeaturePhantom_def

text \<open>\<open>dir_ok\<close>: the resources directory was found; \<open>exists\<close>: the flag files in it.\<close>

definition flag_if :: "bool \<Rightarrow> u32 \<Rightarrow> u32 \<Rightarrow> u32" where
  "flag_if b f flags = (if b then flags OR f else flags)"

definition DetectFeatureFlags :: "bool \<Rightarrow> (string \<Rightarrow> bool) \<Rightarrow> u32" where
  "DetectFeatureFlags dir_ok exists =
     (if \<not> dir_ok then 0
      else let capOn = exists ''enable_captions.flag'' \<or> exists ''enable_translator.flag''
           in flag_if (exists ''enable_phantom.flag'') kFeaturePhantom
              (flag_if capOn kFeatureCaptions
              (flag_if (exists ''enable_oscrouter.flag'') kFeatureOscRouter
              (flag_if (exists ''enable_facetracking.flag'') kFeatureFaceTracking
              (flag_if (exists ''enable_inputhealth.flag'') kFeatureInputHealth
              (flag_if (exists ''enable_smoothing.flag'') kFeatureSmoothing
              (flag_if (exists ''enable_calibration.flag'') kFeatureCalibration 0)))))))"

text \<open>The calls the request tables make.\<close>

datatype driver_call =
    SetDeviceTransform "byte list"
  | HandleApplyRandomOffset
  | HandleSetAlignmentSpeedParams "byte list"
  | SetTrackingSystemFallback "byte list"
  | SetHeadMountConfig "byte list"
  | SetFingerSmoothingConfig "byte list"
  | SetDevicePrediction "byte list"
  | SetInputHealthConfig "byte list"
  | ApplyResetRequest "byte list"
  | SetInputHealthCompensation "byte list"
  | SetFaceConfig "byte list"
  | ResetFaceCalibration "byte list"
  | SetActiveModuleUuid "byte list"
  | RestartFaceHost
  | SetHostConfigCommand "byte list"
  | RestartCaptionsHost

record driver =
  activeModules :: "module_id list"
  router :: osc_router
  phantom :: phantom_module
  captions_config :: "byte list"
  captions_sup :: "supervisor option"
  face_sup :: bool
  calls :: "driver_call list"

definition call :: "driver_call \<Rightarrow> driver \<Rightarrow> driver" where
  "call c d = d\<lparr>calls := calls d @ [c]\<rparr>"

text \<open>What the handlers read from outside the request: the bytes behind the argument field of an OSC
  publish, the reading of doubles, and the text of the last exit.\<close>

record handler_env =
  he_beyond :: "byte list"
  he_dbl :: "u64 \<Rightarrow> real"
  he_exit_text :: cstring

section \<open>The request tables\<close>

definition Calibration_HandleRequest :: "request \<Rightarrow> driver \<Rightarrow> response option \<times> driver" where
  "Calibration_HandleRequest req d =
     (case req of
        RequestSetDeviceTransform b \<Rightarrow> (Some ResponseSuccess, call (SetDeviceTransform b) d)
      | RequestDebugOffset \<Rightarrow> (Some ResponseSuccess, call HandleApplyRandomOffset d)
      | RequestSetAlignmentSpeedParams b \<Rightarrow> (Some ResponseSuccess, call (HandleSetAlignmentSpeedParams b) d)
      | RequestSetTrackingSystemFallback b \<Rightarrow> (Some ResponseSuccess, call (SetTrackingSystemFallback b) d)
      | RequestSetHeadMountConfig b \<Rightarrow> (Some ResponseSuccess, call (SetHeadMountConfig b) d)
      | _ \<Rightarrow> (None, d))"

definition Smoothing_HandleRequest :: "request \<Rightarrow> driver \<Rightarrow> response option \<times> driver" where
  "Smoothing_HandleRequest req d =
     (case req of
        RequestSetFingerSmoothing b \<Rightarrow> (Some ResponseSuccess, call (SetFingerSmoothingConfig b) d)
      | RequestSetDevicePrediction b \<Rightarrow> (Some ResponseSuccess, call (SetDevicePrediction b) d)
      | _ \<Rightarrow> (None, d))"

definition InputHealth_HandleRequest :: "request \<Rightarrow> driver \<Rightarrow> response option \<times> driver" where
  "InputHealth_HandleRequest req d =
     (case req of
        RequestSetInputHealthConfig b \<Rightarrow> (Some ResponseSuccess, call (SetInputHealthConfig b) d)
      | RequestResetInputHealthStats b \<Rightarrow> (Some ResponseSuccess, call (ApplyResetRequest b) d)
      | RequestSetInputHealthCompensation b \<Rightarrow> (Some ResponseSuccess, call (SetInputHealthCompensation b) d)
      | _ \<Rightarrow> (None, d))"

definition Facetracking_HandleRequest :: "request \<Rightarrow> driver \<Rightarrow> response option \<times> driver" where
  "Facetracking_HandleRequest req d =
     (case req of
        RequestSetFaceTrackingConfig b \<Rightarrow>
          (Some ResponseSuccess,
           (if face_sup d then call (SetActiveModuleUuid b) else id) (call (SetFaceConfig b) d))
      | RequestSetFaceCalibrationCommand b \<Rightarrow> (Some ResponseSuccess, call (ResetFaceCalibration b) d)
      | RequestSetFaceActiveModule b \<Rightarrow>
          (Some ResponseSuccess, (if face_sup d then call (SetActiveModuleUuid b) else id) d)
      | RequestFaceHostRestart \<Rightarrow> (Some ResponseSuccess, (if face_sup d then call RestartFaceHost else id) d)
      | _ \<Rightarrow> (None, d))"

definition Captions_HandleRequest :: "handler_env \<Rightarrow> request \<Rightarrow> driver \<Rightarrow> response option \<times> driver" where
  "Captions_HandleRequest e req d =
     (case req of
        RequestSetCaptionsConfig b \<Rightarrow>
          (Some ResponseSuccess,
           (if captions_sup d \<noteq> None then call (SetHostConfigCommand b) else id) (d\<lparr>captions_config := b\<rparr>))
      | RequestCaptionsRestartHost \<Rightarrow>
          (Some ResponseSuccess,
           if captions_sup d \<noteq> None
           then call (SetHostConfigCommand (captions_config d)) (call RestartCaptionsHost d) else d)
      | RequestCaptionsGetSupervisorStatus \<Rightarrow>
          (Some (case captions_sup d of
                   Some s \<Rightarrow> ResponseCaptionsSupervisorStatus (if halted s then 1 else 0) (last_exit_code s)
                               (take 127 (cstr_of (he_exit_text e)))
                 | None \<Rightarrow> ResponseCaptionsSupervisorStatus 0 0 []), d)
      | _ \<Rightarrow> (None, d))"

definition Module_HandleRequest :: "handler_env \<Rightarrow> module_id \<Rightarrow> request \<Rightarrow> driver \<Rightarrow> response option \<times> driver" where
  "Module_HandleRequest e m req d =
     (case m of
        OscRouterM \<Rightarrow> (case OscRouter_HandleRequest (he_beyond e) req (router d) of (r, x) \<Rightarrow> (r, d\<lparr>router := x\<rparr>))
      | CalibrationM \<Rightarrow> Calibration_HandleRequest req d
      | SmoothingM \<Rightarrow> Smoothing_HandleRequest req d
      | InputHealthM \<Rightarrow> InputHealth_HandleRequest req d
      | FacetrackingM \<Rightarrow> Facetracking_HandleRequest req d
      | CaptionsM \<Rightarrow> Captions_HandleRequest e req d
      | PhantomM \<Rightarrow> (case Phantom_HandleRequest (he_dbl e) req (phantom d) of (r, x) \<Rightarrow> (r, d\<lparr>phantom := x\<rparr>)))"

section \<open>Routing\<close>

text \<open>The loop over the active modules.\<close>

fun route_request :: "handler_env \<Rightarrow> u32 \<Rightarrow> request \<Rightarrow> module_id list \<Rightarrow> driver \<Rightarrow> response option \<times> driver" where
  "route_request e featureMask req [] d = (None, d)"
| "route_request e featureMask req (m # ms) d =
     (if FeatureMask m AND featureMask = 0 then route_request e featureMask req ms d
      else case Module_HandleRequest e m req d of
             (Some r, d') \<Rightarrow> (Some r, d')
           | (None, d') \<Rightarrow> route_request e featureMask req ms d')"

definition HandleIpcRequest :: "handler_env \<Rightarrow> u32 \<Rightarrow> request \<Rightarrow> driver \<Rightarrow> response option \<times> driver" where
  "HandleIpcRequest e featureMask req d =
     (if req = RequestHandshake then (Some (ResponseHandshake Version), d)
      else route_request e featureMask req (activeModules d) d)"

definition IPCServer_HandleRequest :: "handler_env \<Rightarrow> u32 \<Rightarrow> request \<Rightarrow> driver \<Rightarrow> response \<times> driver" where
  "IPCServer_HandleRequest e featureMask req d =
     (case HandleIpcRequest e featureMask req d of
        (Some r, d') \<Rightarrow> (r, d')
      | (None, d') \<Rightarrow> (ResponseInvalid, d'))"

text \<open>The modules in the order \<open>Init\<close> activates them; \<open>init_ok\<close> is the result of a module's \<open>Init\<close>.\<close>

definition module_order :: "module_id list" where
  "module_order = [OscRouterM, CalibrationM, SmoothingM, InputHealthM, FacetrackingM, CaptionsM, PhantomM]"

definition activateModule :: "u32 \<Rightarrow> (module_id \<Rightarrow> bool) \<Rightarrow> module_id \<Rightarrow> driver \<Rightarrow> driver" where
  "activateModule featureFlags init_ok m d =
     (if featureFlags AND FeatureMask m = 0 then d
      else if \<not> init_ok m then d
      else d\<lparr>activeModules := activeModules d @ [m]\<rparr>)"

definition Init_modules :: "u32 \<Rightarrow> (module_id \<Rightarrow> bool) \<Rightarrow> driver \<Rightarrow> driver" where
  "Init_modules featureFlags init_ok d =
     fold (activateModule featureFlags init_ok) module_order (d\<lparr>activeModules := []\<rparr>)"

section \<open>The pipe server\<close>

text \<open>An instance is waiting for its read or its write to complete.\<close>

datatype io_phase = Reading | Writing

record pipe_inst =
  pi_handle :: "nat option"
  pi_phase :: io_phase
  pi_response :: response

record ipc_server =
  srv_mask :: u32
  srv_running :: bool
  srv_stop :: bool
  srv_pipes :: "nat \<rightharpoonup> pipe_inst"
  connectEvent_open :: bool
  connectPending :: bool
  nextPipe :: "nat option"
  srv_driver :: driver
  dispatched :: "(nat \<times> handler_env \<times> request) list"
  written :: "(nat \<times> response) list"

text \<open>What \<open>CreateAndConnectInstance\<close> finds: the pipe handle created, if any, and how the connect ended.\<close>

datatype connect_answer = IoPending | PipeConnected bool | ConnectOther

definition CreateAndConnectInstance :: "nat option \<Rightarrow> connect_answer \<Rightarrow> bool \<times> nat option" where
  "CreateAndConnectInstance created ans =
     (case created of
        None \<Rightarrow> (False, None)
      | Some h \<Rightarrow>
          (case ans of
             IoPending \<Rightarrow> (True, Some h)
           | PipeConnected event_set \<Rightarrow> (False, if event_set then Some h else None)
           | ConnectOther \<Rightarrow> (False, None)))"

definition CreatePipeInstance :: "nat \<Rightarrow> nat option \<Rightarrow> ipc_server \<Rightarrow> ipc_server" where
  "CreatePipeInstance i h v =
     v\<lparr>srv_pipes := (srv_pipes v)(i \<mapsto> \<lparr>pi_handle = h, pi_phase = Writing, pi_response = ResponseInvalid\<rparr>)\<rparr>"

definition ClosePipeInstance :: "nat \<Rightarrow> ipc_server \<Rightarrow> ipc_server" where
  "ClosePipeInstance i v = v\<lparr>srv_pipes := (srv_pipes v)(i := None)\<rparr>"

definition CompletedWriteCallback :: "nat \<Rightarrow> nat \<Rightarrow> nat \<Rightarrow> bool \<Rightarrow> nat \<Rightarrow> ipc_server \<Rightarrow> ipc_server" where
  "CompletedWriteCallback response_size err bytesWritten read_ok i v =
     (case srv_pipes v i of
        None \<Rightarrow> v
      | Some p \<Rightarrow>
          if err = 0 \<and> bytesWritten = response_size \<and> read_ok
          then v\<lparr>srv_pipes := (srv_pipes v)(i \<mapsto> p\<lparr>pi_phase := Reading\<rparr>)\<rparr>
          else ClosePipeInstance i v)"

definition CompletedReadCallback ::
  "nat \<Rightarrow> handler_env \<Rightarrow> nat \<Rightarrow> nat \<Rightarrow> request \<Rightarrow> bool \<Rightarrow> nat \<Rightarrow> ipc_server \<Rightarrow> ipc_server" where
  "CompletedReadCallback request_size e err bytesRead req write_ok i v =
     (case srv_pipes v i of
        None \<Rightarrow> v
      | Some p \<Rightarrow>
          if err = 0 \<and> bytesRead = request_size
          then case IPCServer_HandleRequest e (srv_mask v) req (srv_driver v) of
                 (resp, d') \<Rightarrow>
                   let v = v\<lparr>srv_driver := d', dispatched := dispatched v @ [(i, e, req)]\<rparr>
                   in if write_ok
                      then v\<lparr>srv_pipes := (srv_pipes v)(i \<mapsto> p\<lparr>pi_phase := Writing, pi_response := resp\<rparr>),
                             written := written v @ [(i, resp)]\<rparr>
                      else ClosePipeInstance i v
          else ClosePipeInstance i v)"

text \<open>The guard that runs when the server thread exits.\<close>

definition ThreadGuard :: "ipc_server \<Rightarrow> ipc_server" where
  "ThreadGuard v = v\<lparr>srv_pipes := Map.empty, srv_running := False, connectEvent_open := False\<rparr>"

text \<open>The thread's start: the event, if it is created, and the first pipe.\<close>

definition RunThread_start :: "bool \<Rightarrow> nat option \<Rightarrow> connect_answer \<Rightarrow> ipc_server \<Rightarrow> ipc_server" where
  "RunThread_start event_ok created ans v =
     (let v = v\<lparr>srv_running := True\<rparr>
      in if \<not> event_ok then ThreadGuard v
         else case CreateAndConnectInstance created ans of
                (pending, h) \<Rightarrow> v\<lparr>connectEvent_open := True, connectPending := pending, nextPipe := h\<rparr>)"

text \<open>One return of the wait in the loop: the event (with the result of the overlapped connect, the
  identity of the new instance, whether its first read starts, and the next pipe), a completion routine
  that ran inside the wait, or a failure.\<close>

datatype ipc_event =
    EvConnect bool nat bool "nat option" connect_answer
  | EvRead handler_env nat nat request bool nat
  | EvWrite nat nat bool nat
  | EvWaitFailed
  | EvStop

definition RunThread_turn :: "nat \<Rightarrow> nat \<Rightarrow> ipc_event \<Rightarrow> ipc_server \<Rightarrow> ipc_server" where
  "RunThread_turn rq rs ev v =
     (if \<not> srv_running v then v
      else case ev of
        EvStop \<Rightarrow> ThreadGuard (v\<lparr>srv_stop := True\<rparr>)
      | EvWaitFailed \<Rightarrow> ThreadGuard v
      | EvRead e err n req write_ok i \<Rightarrow> CompletedReadCallback rq e err n req write_ok i v
      | EvWrite err n read_ok i \<Rightarrow> CompletedWriteCallback rs err n read_ok i v
      | EvConnect overlapped_ok i read_ok created ans \<Rightarrow>
          if connectPending v \<and> \<not> overlapped_ok then ThreadGuard (v\<lparr>nextPipe := None\<rparr>)
          else let v = CreatePipeInstance i (nextPipe v) v;
                   v = CompletedWriteCallback rs 0 rs read_ok i v
               in case CreateAndConnectInstance created ans of
                    (pending, h) \<Rightarrow> v\<lparr>connectPending := pending, nextPipe := h\<rparr>)"

section \<open>Routing is by feature\<close>

lemma FeatureMask_disjoint: "FeatureMask m AND FeatureMask n = 0 \<longleftrightarrow> m \<noteq> n"
  by (cases m; cases n) (simp_all add: feature_defs)

lemma FeatureMask_nonzero [simp]: "FeatureMask m \<noteq> 0"
  by (cases m) (simp_all add: feature_defs)

lemma Module_unclaimed: "fst (Module_HandleRequest e m req d) = None \<Longrightarrow> snd (Module_HandleRequest e m req d) = d"
  by (cases m; cases req)
    (auto simp: Module_HandleRequest_def OscRouter_HandleRequest_def Calibration_HandleRequest_def
      Smoothing_HandleRequest_def InputHealth_HandleRequest_def Facetracking_HandleRequest_def
      Captions_HandleRequest_def Phantom_HandleRequest_def case_prod_beta)

lemma route_unclaimed:
  assumes "\<forall>m \<in> set ms. FeatureMask m AND f = 0 \<or> fst (Module_HandleRequest e m req d) = None"
  shows "route_request e f req ms d = (None, d)"
  using assms
proof (induction ms)
  case (Cons m ms)
  then show ?case using Module_unclaimed [of e m req d]
    by (cases "Module_HandleRequest e m req d") auto
qed simp

lemma route_to_module:
  "route_request e (FeatureMask m) req ms d =
     (if m \<in> set ms then
        case Module_HandleRequest e m req d of (Some r, d') \<Rightarrow> (Some r, d') | (None, d') \<Rightarrow> (None, d)
      else (None, d))"
proof (induction ms)
  case (Cons n ms)
  show ?case
  proof (cases "n = m")
    case True
    show ?thesis
    proof (cases "fst (Module_HandleRequest e m req d)")
      case None
      then have "route_request e (FeatureMask m) req ms d = (None, d)"
        by (intro route_unclaimed) (auto simp: FeatureMask_disjoint)
      then show ?thesis using None True Module_unclaimed [OF None]
        by (cases "Module_HandleRequest e m req d") (auto simp: FeatureMask_disjoint)
    next
      case (Some r)
      then show ?thesis using True
        by (cases "Module_HandleRequest e m req d") (auto simp: FeatureMask_disjoint)
    qed
  next
    case False
    then have "FeatureMask n AND FeatureMask m = 0" by (simp add: FeatureMask_disjoint)
    with Cons False show ?thesis by auto
  qed
qed simp

text \<open>C19: A pipe reaches only its own feature: on the pipe of a module every request but the handshake is
  answered by that module's table alone when it is active, and otherwise with \<open>ResponseInvalid\<close> and no
  change of the driver; the handshake is answered with the protocol version on every pipe.\<close>

theorem IPC_routes_to_feature:
  "IPCServer_HandleRequest e (FeatureMask m) req d =
     (if req = RequestHandshake then (ResponseHandshake Version, d)
      else if m \<in> set (activeModules d)
      then (case Module_HandleRequest e m req d of (Some r, d') \<Rightarrow> (r, d') | (None, d') \<Rightarrow> (ResponseInvalid, d))
      else (ResponseInvalid, d))"
  by (simp add: IPCServer_HandleRequest_def HandleIpcRequest_def route_to_module split: option.splits prod.splits)

text \<open>Which module a request belongs to.\<close>

fun owner :: "request \<Rightarrow> module_id option" where
  "owner (RequestSetDeviceTransform b) = Some CalibrationM"
| "owner (RequestSetAlignmentSpeedParams b) = Some CalibrationM"
| "owner RequestDebugOffset = Some CalibrationM"
| "owner (RequestSetTrackingSystemFallback b) = Some CalibrationM"
| "owner (RequestSetHeadMountConfig b) = Some CalibrationM"
| "owner (RequestSetFingerSmoothing b) = Some SmoothingM"
| "owner (RequestSetDevicePrediction b) = Some SmoothingM"
| "owner (RequestSetInputHealthConfig b) = Some InputHealthM"
| "owner (RequestResetInputHealthStats b) = Some InputHealthM"
| "owner (RequestSetInputHealthCompensation b) = Some InputHealthM"
| "owner (RequestSetFaceTrackingConfig b) = Some FacetrackingM"
| "owner (RequestSetFaceCalibrationCommand b) = Some FacetrackingM"
| "owner (RequestSetFaceActiveModule b) = Some FacetrackingM"
| "owner RequestFaceHostRestart = Some FacetrackingM"
| "owner (RequestOscRouteSubscribe p) = Some OscRouterM"
| "owner (RequestOscRouteUnsubscribe i) = Some OscRouterM"
| "owner (RequestOscPublish p) = Some OscRouterM"
| "owner RequestOscGetStats = Some OscRouterM"
| "owner (RequestSetOscRouterConfig p) = Some OscRouterM"
| "owner (RequestSetCaptionsConfig b) = Some CaptionsM"
| "owner RequestCaptionsRestartHost = Some CaptionsM"
| "owner RequestCaptionsGetSupervisorStatus = Some CaptionsM"
| "owner (RequestSetPhantomConfig c) = Some PhantomM"
| "owner (RequestSetPhantomDeviceOptIn x) = Some PhantomM"
| "owner (RequestSetPhantomDeviceRole x) = Some PhantomM"
| "owner (RequestSetPhantomTrackerOffset x) = Some PhantomM"
| "owner (RequestSetPhantomVirtualEnabled x) = Some PhantomM"
| "owner r = None"

lemma Module_claims: "fst (Module_HandleRequest e m req d) \<noteq> None \<longleftrightarrow> owner req = Some m"
  by (cases m; cases req)
    (auto simp: Module_HandleRequest_def OscRouter_HandleRequest_def Calibration_HandleRequest_def
      Smoothing_HandleRequest_def InputHealth_HandleRequest_def Facetracking_HandleRequest_def
      Captions_HandleRequest_def Phantom_HandleRequest_def case_prod_beta)

text \<open>No request is claimed by two modules, and a request that no active module on the pipe owns is
  answered with \<open>ResponseInvalid\<close> and changes nothing, whatever the mask of the pipe.\<close>

theorem IPC_unowned_invalid:
  assumes "req \<noteq> RequestHandshake"
    and "\<forall>m \<in> set (activeModules d). owner req = Some m \<longrightarrow> FeatureMask m AND f = 0"
  shows "IPCServer_HandleRequest e f req d = (ResponseInvalid, d)"
proof -
  have "route_request e f req (activeModules d) d = (None, d)"
    using assms(2) Module_claims by (intro route_unclaimed) blast
  then show ?thesis using assms(1) by (simp add: IPCServer_HandleRequest_def HandleIpcRequest_def)
qed

section \<open>Activation\<close>

text \<open>The flag file of a module; the captions module has an older name too.\<close>

fun flag_present :: "(string \<Rightarrow> bool) \<Rightarrow> module_id \<Rightarrow> bool" where
  "flag_present ex OscRouterM = ex ''enable_oscrouter.flag''"
| "flag_present ex CalibrationM = ex ''enable_calibration.flag''"
| "flag_present ex SmoothingM = ex ''enable_smoothing.flag''"
| "flag_present ex InputHealthM = ex ''enable_inputhealth.flag''"
| "flag_present ex FacetrackingM = ex ''enable_facetracking.flag''"
| "flag_present ex CaptionsM = (ex ''enable_captions.flag'' \<or> ex ''enable_translator.flag'')"
| "flag_present ex PhantomM = ex ''enable_phantom.flag''"

lemma flag_if_and: "flag_if b f x AND m = (if b then (x AND m) OR (f AND m) else x AND m)"
  by (simp add: flag_if_def bit.conj_disj_distrib2)

lemma flags_module:
  "DetectFeatureFlags ok ex AND FeatureMask m = 0 \<longleftrightarrow> \<not> (ok \<and> flag_present ex m)"
  by (cases m) (simp_all add: DetectFeatureFlags_def Let_def flag_if_and feature_defs)

lemma activate_fold:
  "activeModules (fold (activateModule f ok) ms d) =
     activeModules d @ filter (\<lambda>m. f AND FeatureMask m \<noteq> 0 \<and> ok m) ms"
  by (induction ms arbitrary: d) (simp_all add: activateModule_def)

text \<open>The driver runs exactly the modules whose flag file is installed and whose initialisation
  succeeds, the OSC router before all others, and none when its resources cannot be found.\<close>

theorem Init_activates_installed:
  "activeModules (Init_modules (DetectFeatureFlags dir_ok ex) init_ok d) =
     filter (\<lambda>m. dir_ok \<and> flag_present ex m \<and> init_ok m) module_order"
  by (simp add: Init_modules_def activate_fold flags_module)

definition demo_env :: handler_env where
  "demo_env = \<lparr>he_beyond = [], he_dbl = (\<lambda>_. 0), he_exit_text = []\<rparr>"

definition demo_driver :: driver where
  "demo_driver = \<lparr>activeModules = [CalibrationM], router = OscRouter_init, phantom = PhantomModule_init,
     captions_config = [], captions_sup = None, face_sup = False, calls = []\<rparr>"

theorem IPC_unowned_invalid_witness:
  "IPCServer_HandleRequest demo_env kFeatureCalibration RequestOscGetStats demo_driver = (ResponseInvalid, demo_driver)"
  using IPC_unowned_invalid [of RequestOscGetStats demo_driver kFeatureCalibration demo_env]
  by (simp add: demo_driver_def)

section \<open>The server's runs\<close>

definition server_init :: "u32 \<Rightarrow> driver \<Rightarrow> ipc_server" where
  "server_init fm d = \<lparr>srv_mask = fm, srv_running = False, srv_stop = False, srv_pipes = Map.empty,
     connectEvent_open = False, connectPending = False, nextPipe = None, srv_driver = d, dispatched = [], written = []\<rparr>"

definition ipc_run :: "nat \<Rightarrow> nat \<Rightarrow> ipc_event list \<Rightarrow> ipc_server \<Rightarrow> ipc_server" where
  "ipc_run rq rs evs v = fold (RunThread_turn rq rs) evs v"

text \<open>The answers to a sequence of requests given one after the other, and the driver afterwards.\<close>

fun replay :: "u32 \<Rightarrow> (nat \<times> handler_env \<times> request) list \<Rightarrow> driver \<Rightarrow> (nat \<times> response) list \<times> driver" where
  "replay f [] d = ([], d)"
| "replay f ((i, e, req) # xs) d =
     (case IPCServer_HandleRequest e f req d of (r, d') \<Rightarrow>
        (case replay f xs d' of (rs, d'') \<Rightarrow> ((i, r) # rs, d'')))"

lemma replay_append:
  "replay f (xs @ ys) d =
     (case replay f xs d of (rs, d') \<Rightarrow> (case replay f ys d' of (rs', d'') \<Rightarrow> (rs @ rs', d'')))"
  by (induction xs arbitrary: d) (auto split: prod.splits)

definition srv_inv :: "u32 \<Rightarrow> driver \<Rightarrow> ipc_server \<Rightarrow> bool" where
  "srv_inv f d v \<longleftrightarrow> srv_mask v = f \<and> srv_driver v = snd (replay f (dispatched v) d) \<and>
     subseq (written v) (fst (replay f (dispatched v) d)) \<and>
     (\<not> srv_running v \<longrightarrow> srv_pipes v = Map.empty \<and> \<not> connectEvent_open v)"

lemma srv_inv_same:
  assumes "srv_inv f d v" "srv_mask v' = srv_mask v" "srv_driver v' = srv_driver v" "dispatched v' = dispatched v"
    and "written v' = written v" "\<not> srv_running v' \<longrightarrow> srv_pipes v' = Map.empty \<and> \<not> connectEvent_open v'"
  shows "srv_inv f d v'"
  using assms by (simp add: srv_inv_def)

lemma Completed_running [simp]:
  "srv_running (CompletedReadCallback rq e err n req ok i v) = srv_running v"
  "srv_running (CompletedWriteCallback rs err n ok i v) = srv_running v"
  by (auto simp: CompletedReadCallback_def CompletedWriteCallback_def ClosePipeInstance_def Let_def
      split: option.splits prod.splits)

lemma CompletedWrite_fields [simp]:
  "srv_mask (CompletedWriteCallback rs err n ok i v) = srv_mask v"
  "srv_driver (CompletedWriteCallback rs err n ok i v) = srv_driver v"
  "dispatched (CompletedWriteCallback rs err n ok i v) = dispatched v"
  "written (CompletedWriteCallback rs err n ok i v) = written v"
  by (auto simp: CompletedWriteCallback_def ClosePipeInstance_def split: option.splits)

lemma CompletedRead_inv:
  assumes "srv_inv f d v" "srv_running v"
  shows "srv_inv f d (CompletedReadCallback rq e err n req ok i v)"
  using assms
  by (auto simp: CompletedReadCallback_def ClosePipeInstance_def srv_inv_def replay_append Let_def
      intro: list_emb_append_mono subseq_rev_drop_many split: option.splits prod.splits)

lemma RunThread_turn_inv:
  assumes "srv_inv f d v"
  shows "srv_inv f d (RunThread_turn rq rs ev v)"
proof (cases "srv_running v")
  case True
  show ?thesis
  proof (cases ev)
    case (EvRead e err n req ok i)
    then show ?thesis using assms True by (simp add: RunThread_turn_def CompletedRead_inv)
  next
    case (EvConnect o i rok c a)
    then show ?thesis using assms True
      by (auto simp: RunThread_turn_def ThreadGuard_def CreatePipeInstance_def Let_def
          intro: srv_inv_same split: prod.splits)
  qed (use assms True in \<open>auto simp: RunThread_turn_def ThreadGuard_def intro: srv_inv_same\<close>)
qed (simp add: RunThread_turn_def assms)

lemma ipc_run_inv: "srv_inv f d v \<Longrightarrow> srv_inv f d (ipc_run rq rs evs v)"
  unfolding ipc_run_def by (induction evs arbitrary: v) (simp_all add: RunThread_turn_inv)

lemma server_start_inv: "srv_inv f d (RunThread_start ok c a (server_init f d))"
  by (auto simp: srv_inv_def RunThread_start_def server_init_def ThreadGuard_def Let_def split: prod.splits)


text \<open>C18: An incomplete or failed read is never dispatched: it closes the instance it came from, and the
  driver, the other instances and everything written stay as they were; a complete one on an instance
  that is open is dispatched, once.\<close>

theorem CompletedRead_dispatches_complete:
  assumes "srv_pipes v i = Some p"
  shows "let v' = CompletedReadCallback rq e err n req ok i v in
     (err = 0 \<and> n = rq \<longrightarrow> dispatched v' = dispatched v @ [(i, e, req)] \<and>
        (ok \<longrightarrow> written v' = written v @ [(i, fst (IPCServer_HandleRequest e (srv_mask v) req (srv_driver v)))])) \<and>
     (\<not> (err = 0 \<and> n = rq) \<longrightarrow> v' = ClosePipeInstance i v) \<and> (\<not> ok \<longrightarrow> srv_pipes v' i = None) \<and>
     (\<forall>j. j \<noteq> i \<longrightarrow> srv_pipes v' j = srv_pipes v j)"
  using assms
  by (auto simp: CompletedReadCallback_def ClosePipeInstance_def Let_def split: prod.splits)

theorem CompletedRead_dispatches_complete_witness:
  "dispatched (CompletedReadCallback 8 demo_env 0 5 RequestDebugOffset True 1
     ((server_init kFeatureCalibration demo_driver)\<lparr>srv_pipes := [1 \<mapsto> \<lparr>pi_handle = Some 3, pi_phase = Reading, pi_response = ResponseInvalid\<rparr>]\<rparr>)) = []"
  using CompletedRead_dispatches_complete
    [of "(server_init kFeatureCalibration demo_driver)\<lparr>srv_pipes := [1 \<mapsto> \<lparr>pi_handle = Some 3, pi_phase = Reading, pi_response = ResponseInvalid\<rparr>]\<rparr>" 1 _ 8 demo_env 0 5 RequestDebugOffset True]
  by (simp add: Let_def ClosePipeInstance_def server_init_def)

end
