(* ===== verification/IpcClient.thy ===== *)
theory IpcClient
  imports IpcServer
begin

text \<open>
  The overlay side of the IPC (\<open>core/src/overlay/IpcClientBase.cpp\<close>): connecting with a version
  handshake, sending a request and waiting for its response, and the single reconnect after a broken
  pipe. The answers of Windows are an argument: functions of the history of the calls made so far.
\<close>

section \<open>The client\<close>

datatype wire_event = EvOpen | EvOpenFailed | EvMode | EvWrite request | EvReceive | EvClose | EvAccept | EvReopenShmem

datatype write_answer = WriteOk | WriteShort nat | WriteError u32

datatype drain_end = DrainOk | DrainError u32

datatype read_answer = ReadOk response u32 | ReadShort nat | ReadError u32 | ReadMoreData nat drain_end

record win_pipe =
  wp_open :: "wire_event list \<Rightarrow> u32 option"
  wp_mode :: "wire_event list \<Rightarrow> u32 option"
  wp_write :: "wire_event list \<Rightarrow> write_answer"
  wp_read :: "wire_event list \<Rightarrow> read_answer"

datatype ipc_error = NotConnected | PipeUnavailable u32 | PipeModeFailed u32 | VersionMismatch u32
  | BrokenPipe u32 | WriteFailed u32 | WriteTruncated nat | ReadFailed u32 | SizeMismatch nat
  | OversizedResponse | ReconnectFailed ipc_error | OutOfFuel

datatype mismatch_state = Matching | OverlayNewer | DriverNewer

text \<open>\<open>cl_log\<close> is the history of calls, the newest first.\<close>

record ipc_client =
  cl_pipe :: bool
  cl_pipeName :: string
  cl_generation :: u64
  cl_reconnecting :: bool
  cl_mismatch :: mismatch_state
  cl_driverVersion :: u32
  cl_log :: "wire_event list"

definition logged :: "wire_event \<Rightarrow> ipc_client \<Rightarrow> ipc_client" where
  "logged ev c = c\<lparr>cl_log := ev # cl_log c\<rparr>"

definition IsBrokenPipeError :: "u32 \<Rightarrow> bool" where
  "IsBrokenPipeError code \<longleftrightarrow> code = 109 \<or> code = 233 \<or> code = 232"

definition Client_Close :: "ipc_client \<Rightarrow> ipc_client" where
  "Client_Close c = (if cl_pipe c then logged EvClose (c\<lparr>cl_pipe := False\<rparr>) else c)"

definition Client_Send :: "win_pipe \<Rightarrow> request \<Rightarrow> ipc_client \<Rightarrow> ipc_error option \<times> ipc_client" where
  "Client_Send os req c =
     (if \<not> cl_pipe c then (Some NotConnected, c)
      else case wp_write os (cl_log c) of
        WriteError err \<Rightarrow>
          (Some (if IsBrokenPipeError err then BrokenPipe err else WriteFailed err), Client_Close c)
      | WriteShort n \<Rightarrow> (Some (WriteTruncated n), Client_Close c)
      | WriteOk \<Rightarrow> (None, logged (EvWrite req) c))"

text \<open>The drain loop: \<open>n\<close> chunks that report more data, then the last answer.\<close>

fun drain :: "nat \<Rightarrow> drain_end \<Rightarrow> ipc_client \<Rightarrow> ipc_error option \<times> ipc_client" where
  "drain (Suc n) d c = drain n d (logged EvReceive c)"
| "drain 0 d c =
     (case d of
        DrainOk \<Rightarrow> (None, logged EvReceive c)
      | DrainError err \<Rightarrow> if IsBrokenPipeError err then (Some (BrokenPipe err), Client_Close c)
                         else (None, logged EvReceive c))"

definition Client_Receive :: "win_pipe \<Rightarrow> ipc_client \<Rightarrow> (ipc_error + response \<times> u32) \<times> ipc_client" where
  "Client_Receive os c =
     (if \<not> cl_pipe c then (Inl NotConnected, c)
      else case wp_read os (cl_log c) of
        ReadMoreData n d \<Rightarrow>
          (case drain n d (logged EvReceive c) of
             (Some err, c) \<Rightarrow> (Inl err, c)
           | (None, c) \<Rightarrow> (Inl OversizedResponse, c))
      | ReadError err \<Rightarrow>
          (Inl (if IsBrokenPipeError err then BrokenPipe err else ReadFailed err), Client_Close c)
      | ReadShort n \<Rightarrow> (Inl (SizeMismatch n), Client_Close c)
      | ReadOk resp v \<Rightarrow> (Inr (resp, v), logged EvReceive c))"

definition exchange :: "win_pipe \<Rightarrow> request \<Rightarrow> ipc_client \<Rightarrow> (ipc_error + response \<times> u32) \<times> ipc_client" where
  "exchange os req c =
     (case Client_Send os req c of
        (Some err, c) \<Rightarrow> (Inl err, c)
      | (None, c) \<Rightarrow> Client_Receive os c)"

definition open_pipe :: "win_pipe \<Rightarrow> string \<Rightarrow> ipc_client \<Rightarrow> ipc_error option \<times> ipc_client" where
  "open_pipe os name c =
     (let c = (Client_Close c)\<lparr>cl_pipeName := name\<rparr>
      in case wp_open os (cl_log c) of
           Some err \<Rightarrow> (Some (PipeUnavailable err), logged EvOpenFailed c)
         | None \<Rightarrow>
             let c = logged EvOpen (c\<lparr>cl_pipe := True\<rparr>)
             in case wp_mode os (cl_log c) of
                  Some err \<Rightarrow> (Some (PipeModeFailed err), Client_Close c)
                | None \<Rightarrow> (None, logged EvMode c))"

definition check_handshake :: "response \<times> u32 \<Rightarrow> ipc_client \<Rightarrow> ipc_error option \<times> ipc_client" where
  "check_handshake r c =
     (let v = (case fst r of ResponseHandshake v \<Rightarrow> v | _ \<Rightarrow> snd r)
      in if (case fst r of ResponseHandshake _ \<Rightarrow> False | _ \<Rightarrow> True) \<or> v \<noteq> Version
         then (Some (VersionMismatch v), Client_Close (c\<lparr>cl_driverVersion := v,
                 cl_mismatch := (if v < Version then OverlayNewer else DriverNewer)\<rparr>))
         else (None, logged EvAccept (c\<lparr>cl_mismatch := Matching, cl_generation := cl_generation c + 1\<rparr>)))"

text \<open>
  The two halves of \<open>SendBlocking\<close>, over the function that connects: opening the pipe if it is closed,
  and the exchange with its single reconnect after a broken pipe.
\<close>

definition ensure_open ::
    "(string \<Rightarrow> ipc_client \<Rightarrow> ipc_error option \<times> ipc_client) \<Rightarrow> ipc_client \<Rightarrow> ipc_error option \<times> ipc_client" where
  "ensure_open connect c =
     (if \<not> cl_pipe c
      then if cl_pipeName c = [] then (Some NotConnected, c) else connect (cl_pipeName c) c
      else (None, c))"

definition reconnect_and_resend ::
    "(string \<Rightarrow> ipc_client \<Rightarrow> ipc_error option \<times> ipc_client) \<Rightarrow> win_pipe \<Rightarrow> request \<Rightarrow> ipc_client
     \<Rightarrow> (ipc_error + response \<times> u32) \<times> ipc_client" where
  "reconnect_and_resend connect os req c =
     (case connect (cl_pipeName c) ((Client_Close c)\<lparr>cl_reconnecting := True\<rparr>) of
        (Some err, c) \<Rightarrow> (Inl (ReconnectFailed err), c\<lparr>cl_reconnecting := False\<rparr>)
      | (None, c) \<Rightarrow> exchange os req (logged EvReopenShmem (c\<lparr>cl_reconnecting := False\<rparr>)))"

definition exchange_retrying ::
    "(string \<Rightarrow> ipc_client \<Rightarrow> ipc_error option \<times> ipc_client) \<Rightarrow> win_pipe \<Rightarrow> request \<Rightarrow> ipc_client
     \<Rightarrow> (ipc_error + response \<times> u32) \<times> ipc_client" where
  "exchange_retrying connect os req c =
     (case exchange os req c of
        (Inl (BrokenPipe code), c) \<Rightarrow>
          if cl_reconnecting c \<or> cl_pipeName c = [] then (Inl (BrokenPipe code), c)
          else reconnect_and_resend connect os req c
      | (r, c) \<Rightarrow> (r, c))"

text \<open>
  \<open>Connect\<close> and \<open>SendBlocking\<close> call each other; the first argument bounds the depth of these calls.
\<close>

fun Connect :: "nat \<Rightarrow> win_pipe \<Rightarrow> string \<Rightarrow> ipc_client \<Rightarrow> ipc_error option \<times> ipc_client"
  and SendBlocking :: "nat \<Rightarrow> win_pipe \<Rightarrow> request \<Rightarrow> ipc_client \<Rightarrow> (ipc_error + response \<times> u32) \<times> ipc_client" where
  "Connect 0 os name c = (Some OutOfFuel, Client_Close c)"
| "Connect (Suc n) os name c =
     (case open_pipe os name c of
        (Some err, c) \<Rightarrow> (Some err, c)
      | (None, c) \<Rightarrow>
          (case SendBlocking n os RequestHandshake c of
             (Inl err, c) \<Rightarrow> (Some err, c)
           | (Inr resp, c) \<Rightarrow> check_handshake resp c))"
| "SendBlocking 0 os req c = (Inl OutOfFuel, Client_Close c)"
| "SendBlocking (Suc n) os req c =
     (case ensure_open (\<lambda>name c. Connect n os name c) c of
        (Some err, c) \<Rightarrow> (Inl err, c)
      | (None, c) \<Rightarrow> exchange_retrying (\<lambda>name c. Connect n os name c) os req c)"

text \<open>Five calls are the deepest nesting: a request, a connect, its handshake, a reconnect, its handshake.\<close>

definition ipc_depth :: nat where "ipc_depth = 5"

definition fresh_client :: ipc_client where
  "fresh_client = \<lparr>cl_pipe = False, cl_pipeName = [], cl_generation = 0, cl_reconnecting = False,
     cl_mismatch = Matching, cl_driverVersion = 0, cl_log = []\<rparr>"

section \<open>One exchange\<close>

lemma logged_fields [simp]:
  "cl_pipe (logged ev c) = cl_pipe c" "cl_pipeName (logged ev c) = cl_pipeName c"
  "cl_reconnecting (logged ev c) = cl_reconnecting c" "cl_log (logged ev c) = ev # cl_log c"
  "cl_mismatch (logged ev c) = cl_mismatch c"
  by (simp_all add: logged_def)

lemma Client_Close_fields [simp]:
  "\<not> cl_pipe (Client_Close c)" "cl_pipeName (Client_Close c) = cl_pipeName c"
  "cl_reconnecting (Client_Close c) = cl_reconnecting c"
  "cl_log (Client_Close c) = (if cl_pipe c then EvClose # cl_log c else cl_log c)"
  by (simp_all add: Client_Close_def)

definition no_oversize :: "win_pipe \<Rightarrow> bool" where
  "no_oversize os \<longleftrightarrow> (\<forall>l n d. wp_read os l \<noteq> ReadMoreData n d)"

fun fuel_error :: "ipc_error \<Rightarrow> bool" where
  "fuel_error OutOfFuel = True"
| "fuel_error (ReconnectFailed e) = fuel_error e"
| "fuel_error _ = False"

lemma drain_cases:
  assumes "drain n d c = (r, c')"
  shows "cl_pipeName c' = cl_pipeName c" "cl_reconnecting c' = cl_reconnecting c"
    "r = Some e \<Longrightarrow> \<not> fuel_error e \<and> \<not> cl_pipe c'"
    "\<exists>evs. set evs \<subseteq> {EvReceive, EvClose} \<and> cl_log c' = evs @ cl_log c"
  using assms
proof (induction n d c rule: drain.induct)
  case (1 n d c)
  {
    case 1 then show ?case using "1.IH"(1) by simp
  next
    case 2 then show ?case using "1.IH"(2) by simp
  next
    case 3 then show ?case using "1.IH"(3) by simp
  next
    case 4
    then obtain evs where "set evs \<subseteq> {EvReceive, EvClose}" "cl_log c' = evs @ EvReceive # cl_log c"
      using "1.IH"(4) by auto
    then show ?case by (intro exI [of _ "evs @ [EvReceive]"]) simp
  }
next
  case (2 d c)
  {
    case 1 then show ?case by (auto split: drain_end.splits if_splits)
  next
    case 2 then show ?case by (auto split: drain_end.splits if_splits)
  next
    case 3 then show ?case by (auto split: drain_end.splits if_splits)
  next
    case 4
    then have "cl_log c' \<in> {cl_log c, EvReceive # cl_log c, EvClose # cl_log c}"
      by (auto split: drain_end.splits if_splits)
    then show ?case by (auto intro: exI [of _ "[]"] exI [of _ "[EvReceive]"] exI [of _ "[EvClose]"])
  }
qed

definition quiet_events :: "wire_event list \<Rightarrow> bool" where
  "quiet_events evs \<longleftrightarrow> set evs \<subseteq> {EvReceive, EvClose}"

lemma quiet_log:
  "cl_log d \<in> {cl_log c, EvReceive # cl_log c, EvClose # cl_log c} \<Longrightarrow>
     \<exists>evs. quiet_events evs \<and> cl_log d = evs @ cl_log c"
  by (auto simp: quiet_events_def intro: exI [of _ "[]"] exI [of _ "[EvReceive]"] exI [of _ "[EvClose]"])

lemma Client_Receive_keeps:
  assumes "Client_Receive os c = (r, c')"
  shows "cl_pipeName c' = cl_pipeName c \<and> cl_reconnecting c' = cl_reconnecting c"
  using assms drain_cases(1,2)
  by (fastforce simp: Client_Receive_def split: if_splits read_answer.splits prod.splits option.splits)

lemma Client_Receive_error:
  assumes "Client_Receive os c = (Inl e, c')"
  shows "\<not> fuel_error e \<and> (no_oversize os \<longrightarrow> \<not> cl_pipe c')"
  using assms drain_cases(3)
  by (fastforce simp: Client_Receive_def no_oversize_def split: if_splits read_answer.splits prod.splits option.splits)

lemma Client_Receive_ok:
  assumes "Client_Receive os c = (Inr x, c')"
  shows "cl_pipe c' \<and> cl_log c' = EvReceive # cl_log c"
  using assms
  by (auto simp: Client_Receive_def split: if_splits read_answer.splits prod.splits option.splits)

lemma Client_Receive_log:
  assumes "Client_Receive os c = (r, c')"
  shows "\<exists>evs. quiet_events evs \<and> cl_log c' = evs @ cl_log c"
proof (cases "cl_pipe c \<and> (\<exists>n d. wp_read os (cl_log c) = ReadMoreData n d)")
  case True
  then obtain n d where rd: "wp_read os (cl_log c) = ReadMoreData n d" and p: "cl_pipe c" by blast
  obtain q c1 where dr: "drain n d (logged EvReceive c) = (q, c1)" by fastforce
  have "c' = c1"
    using assms by (auto simp: Client_Receive_def rd p dr split: option.splits)
  moreover obtain evs where "set evs \<subseteq> {EvReceive, EvClose}" "cl_log c1 = evs @ cl_log (logged EvReceive c)"
    using drain_cases(4) [OF dr] by blast
  ultimately show ?thesis
    by (intro exI [of _ "evs @ [EvReceive]"]) (simp add: quiet_events_def)
next
  case False
  then show ?thesis
    using assms by (intro quiet_log) (auto simp: Client_Receive_def split: if_splits read_answer.splits)
qed

text \<open>One exchange: at most one write of the request, then reads and perhaps a close.\<close>

lemma exchange_keeps:
  assumes "exchange os req c = (r, c')"
  shows "cl_pipeName c' = cl_pipeName c \<and> cl_reconnecting c' = cl_reconnecting c"
  using assms Client_Receive_keeps
  by (fastforce simp: exchange_def Client_Send_def split: if_splits write_answer.splits)

lemma exchange_error:
  assumes "exchange os req c = (Inl e, c')"
  shows "\<not> fuel_error e \<and> (no_oversize os \<longrightarrow> \<not> cl_pipe c')"
  using assms Client_Receive_error
  by (fastforce simp: exchange_def Client_Send_def split: if_splits write_answer.splits)

lemma exchange_ok:
  assumes "exchange os req c = (Inr x, c')"
  shows "cl_pipe c \<and> cl_pipe c' \<and> cl_log c' = EvReceive # EvWrite req # cl_log c"
  using assms Client_Receive_ok
  by (fastforce simp: exchange_def Client_Send_def split: if_splits write_answer.splits)

lemma exchange_log:
  assumes "exchange os req c = (r, c')"
  shows "\<exists>evs. quiet_events evs \<and>
    (cl_log c' = evs @ cl_log c \<or> (cl_pipe c \<and> cl_log c' = evs @ EvWrite req # cl_log c))"
proof (cases "cl_pipe c \<and> wp_write os (cl_log c) = WriteOk")
  case True
  then have "Client_Receive os (logged (EvWrite req) c) = (r, c')"
    using assms by (simp add: exchange_def Client_Send_def)
  from Client_Receive_log [OF this] True show ?thesis by auto
next
  case False
  then have "cl_log c' \<in> {cl_log c, EvReceive # cl_log c, EvClose # cl_log c}"
    using assms by (auto simp: exchange_def Client_Send_def split: if_splits write_answer.splits)
  from quiet_log [OF this] show ?thesis by blast
qed

section \<open>What is on the wire\<close>

text \<open>The connection is verified if its handshake has been accepted since it was opened.\<close>

fun verified :: "wire_event list \<Rightarrow> bool" where
  "verified [] = False"
| "verified (ev # l) =
     (case ev of EvOpen \<Rightarrow> False | EvOpenFailed \<Rightarrow> False | EvClose \<Rightarrow> False | EvAccept \<Rightarrow> True | _ \<Rightarrow> verified l)"

fun safe_log :: "wire_event list \<Rightarrow> bool" where
  "safe_log [] = True"
| "safe_log (ev # l) \<longleftrightarrow> (case ev of EvWrite r \<Rightarrow> r = RequestHandshake \<or> verified l | _ \<Rightarrow> True) \<and> safe_log l"

definition times_written :: "request \<Rightarrow> wire_event list \<Rightarrow> nat" where
  "times_written req l = length (filter (\<lambda>ev. ev = EvWrite req) l)"

lemma times_written_simps [simp]:
  "times_written req [] = 0"
  "times_written req (ev # l) = (if ev = EvWrite req then 1 else 0) + times_written req l"
  by (simp_all add: times_written_def)

lemma quiet_append:
  assumes "quiet_events evs"
  shows "safe_log (evs @ l) = safe_log l" "times_written req (evs @ l) = times_written req l"
  using assms by (induction evs) (auto simp: quiet_events_def)

definition connect_post :: "ipc_error option \<times> ipc_client \<Rightarrow> bool" where
  "connect_post rc \<longleftrightarrow> safe_log (cl_log (snd rc))
     \<and> (if fst rc = None then cl_pipe (snd rc) \<and> verified (cl_log (snd rc)) else \<not> cl_pipe (snd rc))"

definition send_post :: "request \<Rightarrow> (ipc_error + response \<times> u32) \<times> ipc_client \<Rightarrow> bool" where
  "send_post req rc \<longleftrightarrow> safe_log (cl_log (snd rc))
     \<and> (case fst rc of Inl _ \<Rightarrow> \<not> cl_pipe (snd rc)
         | Inr _ \<Rightarrow> cl_pipe (snd rc) \<and> (req \<noteq> RequestHandshake \<longrightarrow> verified (cl_log (snd rc))))"

definition send_pre :: "request \<Rightarrow> ipc_client \<Rightarrow> bool" where
  "send_pre req c \<longleftrightarrow> safe_log (cl_log c) \<and> (cl_pipe c \<longrightarrow> verified (cl_log c) \<or> req = RequestHandshake)"

lemma open_pipe_post:
  assumes "safe_log (cl_log c)" and "open_pipe os name c = (r, c')"
  shows "safe_log (cl_log c') \<and> (r = None \<longrightarrow> cl_pipe c') \<and> (r \<noteq> None \<longrightarrow> \<not> cl_pipe c')"
  using assms by (auto simp: open_pipe_def Let_def split: option.splits)

lemma check_handshake_post:
  assumes "safe_log (cl_log c)" and "cl_pipe c"
  shows "connect_post (check_handshake resp c)"
  using assms by (simp add: check_handshake_def Let_def connect_post_def)

lemma exchange_post:
  assumes "no_oversize os" and "send_pre req c"
  shows "send_post req (exchange os req c)"
proof -
  obtain r c' where ex: "exchange os req c = (r, c')" by fastforce
  obtain evs where evs: "quiet_events evs"
    and "cl_log c' = evs @ cl_log c \<or> (cl_pipe c \<and> cl_log c' = evs @ EvWrite req # cl_log c)"
    using exchange_log [OF ex] by blast
  then have "safe_log (cl_log c')"
    using assms(2) by (auto simp: send_pre_def quiet_append)
  then show ?thesis
    using exchange_error [of os req c _ c'] exchange_ok [of os req c _ c'] assms
    by (auto simp: ex send_post_def send_pre_def split: sum.splits)
qed

lemma exchange_retrying_cases:
  obtains (final) r d where "exchange os req c = (r, d)" "exchange_retrying conn os req c = (r, d)"
  | (retry) code d where "exchange os req c = (Inl (BrokenPipe code), d)" "\<not> cl_reconnecting d"
      "exchange_retrying conn os req c = reconnect_and_resend conn os req d"
proof -
  obtain r d where ex: "exchange os req c = (r, d)" by fastforce
  show thesis
  proof (cases "\<exists>code. r = Inl (BrokenPipe code) \<and> \<not> (cl_reconnecting d \<or> cl_pipeName d = [])")
    case True
    then obtain code where "r = Inl (BrokenPipe code)" "\<not> cl_reconnecting d" "cl_pipeName d \<noteq> []" by auto
    then show thesis using ex by (intro retry [of code d]) (simp_all add: exchange_retrying_def)
  next
    case False
    then have "exchange_retrying conn os req c = (r, d)"
      by (auto simp: exchange_retrying_def ex split: sum.splits ipc_error.splits)
    then show thesis by (rule final [OF ex])
  qed
qed

lemma reconnect_post:
  assumes os: "no_oversize os" and conn: "\<And>name c. safe_log (cl_log c) \<Longrightarrow> connect_post (conn name c)"
    and "safe_log (cl_log c)"
  shows "send_post req (reconnect_and_resend conn os req c)"
proof -
  obtain q f where cq: "conn (cl_pipeName c) ((Client_Close c)\<lparr>cl_reconnecting := True\<rparr>) = (q, f)"
    by fastforce
  have "connect_post (q, f)"
    using conn [of "(Client_Close c)\<lparr>cl_reconnecting := True\<rparr>" "cl_pipeName c"] assms(3) by (simp add: cq)
  then show ?thesis
    using exchange_post [OF os, of req "logged EvReopenShmem (f\<lparr>cl_reconnecting := False\<rparr>)"]
    by (cases q) (simp_all add: reconnect_and_resend_def cq connect_post_def send_post_def send_pre_def)
qed

lemma retrying_post:
  assumes os: "no_oversize os" and conn: "\<And>name c. safe_log (cl_log c) \<Longrightarrow> connect_post (conn name c)"
    and pre: "send_pre req c"
  shows "send_post req (exchange_retrying conn os req c)"
proof (cases rule: exchange_retrying_cases [where os = os and req = req and c = c and conn = conn])
  case (final r d)
  then show ?thesis using exchange_post [OF os pre] by simp
next
  case (retry code d)
  then have "safe_log (cl_log d)" using exchange_post [OF os pre] by (simp add: send_post_def)
  then show ?thesis using reconnect_post [OF os conn] retry by simp
qed

lemma session_step:
  assumes os: "no_oversize os"
    and conn: "\<And>name c. safe_log (cl_log c) \<Longrightarrow> connect_post (Connect n os name c)"
    and pre: "send_pre req c"
  shows "send_post req (SendBlocking (Suc n) os req c)"
proof (cases "cl_pipe c \<or> cl_pipeName c = []")
  case True
  then show ?thesis
    using retrying_post [OF os conn pre] pre
    by (cases "cl_pipe c") (simp_all add: ensure_open_def send_post_def send_pre_def)
next
  case False
  obtain q f where cq: "Connect n os (cl_pipeName c) c = (q, f)" by fastforce
  have "connect_post (q, f)" using conn [of c "cl_pipeName c"] pre by (simp add: cq send_pre_def)
  then show ?thesis
    using False retrying_post [OF os conn, where req = req and c = f]
    by (cases q) (simp_all add: ensure_open_def cq connect_post_def send_post_def send_pre_def)
qed

lemma connect_step:
  assumes "no_oversize os"
    and "\<And>c. send_pre RequestHandshake c \<Longrightarrow> send_post RequestHandshake (SendBlocking n os RequestHandshake c)"
    and "safe_log (cl_log c)"
  shows "connect_post (Connect (Suc n) os name c)"
proof -
  obtain q d where op: "open_pipe os name c = (q, d)" by fastforce
  note post = open_pipe_post [OF assms(3) op]
  show ?thesis
  proof (cases q)
    case None
    obtain r f where sb: "SendBlocking n os RequestHandshake d = (r, f)" by fastforce
    have "send_post RequestHandshake (r, f)"
      using assms(2) [of d] post by (simp add: sb send_pre_def)
    then show ?thesis
      using check_handshake_post [of f]
      by (cases r) (simp_all add: op None sb send_post_def connect_post_def)
  qed (use post in \<open>simp add: op connect_post_def\<close>)
qed

lemma session_invariant:
  assumes "no_oversize os"
  shows "safe_log (cl_log c) \<longrightarrow> connect_post (Connect n os name c)"
    and "send_pre req c \<longrightarrow> send_post req (SendBlocking n os req c)"
proof (induction n arbitrary: name req c)
  case 0
  { case 1 show ?case by (simp add: connect_post_def) }
  { case 2 show ?case by (simp add: send_post_def send_pre_def) }
next
  case (Suc n)
  { case 1 show ?case using connect_step [OF assms, of n c name] Suc.IH(2) by blast }
  { case 2 show ?case using session_step [OF assms, of n req c] Suc.IH(1) by blast }
qed

fun ipc_calls :: "win_pipe \<Rightarrow> request list \<Rightarrow> ipc_client \<Rightarrow> ipc_client" where
  "ipc_calls os [] c = c"
| "ipc_calls os (r # rs) c = ipc_calls os rs (snd (SendBlocking ipc_depth os r c))"

lemma ipc_calls_inv:
  assumes "no_oversize os"
  shows "\<lbrakk>safe_log (cl_log c); cl_pipe c \<longrightarrow> verified (cl_log c); RequestHandshake \<notin> set rs\<rbrakk> \<Longrightarrow>
     safe_log (cl_log (ipc_calls os rs c))
     \<and> (cl_pipe (ipc_calls os rs c) \<longrightarrow> verified (cl_log (ipc_calls os rs c)))"
proof (induction rs arbitrary: c)
  case (Cons r rs)
  have "send_post r (SendBlocking ipc_depth os r c)"
    using session_invariant(2) [OF assms] Cons.prems by (simp add: send_pre_def)
  then show ?case
    using Cons.IH [of "snd (SendBlocking ipc_depth os r c)"] Cons.prems
    by (auto simp: send_post_def split: sum.splits)
qed simp



section \<open>Depth\<close>

definition send_need :: "ipc_client \<Rightarrow> nat" where
  "send_need c = (if cl_pipe c then if cl_reconnecting c then 1 else 3
                  else if cl_reconnecting c then 3 else 5)"

definition connect_need :: "ipc_client \<Rightarrow> nat" where
  "connect_need c = (if cl_reconnecting c then 2 else 4)"

lemma open_pipe_keeps:
  assumes "open_pipe os name c = (r, c')"
  shows "cl_reconnecting c' = cl_reconnecting c" "r = Some e \<Longrightarrow> \<not> fuel_error e" "r = None \<Longrightarrow> cl_pipe c'"
  using assms by (auto simp: open_pipe_def Let_def split: option.splits)

lemma check_handshake_error: "check_handshake resp c = (Some e, c') \<Longrightarrow> \<not> fuel_error e"
  by (auto simp: check_handshake_def Let_def split: if_splits)

lemma retrying_depth:
  assumes conn: "\<And>name d e d'. cl_reconnecting d \<Longrightarrow> conn name d = (Some e, d') \<Longrightarrow> \<not> fuel_error e"
    and "exchange_retrying conn os req c = (Inl e, c')"
  shows "\<not> fuel_error e"
proof (cases rule: exchange_retrying_cases [where os = os and req = req and c = c and conn = conn])
  case (final r d)
  then show ?thesis using exchange_error [of os req c e] assms(2) by simp
next
  case (retry code d)
  let ?g = "(Client_Close d)\<lparr>cl_reconnecting := True\<rparr>"
  obtain q h where cn: "conn (cl_pipeName d) ?g = (q, h)" by fastforce
  show ?thesis
    using assms(2) retry(3) conn [of ?g "cl_pipeName d"] exchange_error [of os req _ e c']
    by (cases q) (auto simp: reconnect_and_resend_def cn)
qed

lemma exchange_retrying_reconnecting:
  "cl_reconnecting c \<Longrightarrow> exchange_retrying conn os req c = exchange os req c"
  using exchange_keeps [of os req c]
  by (auto simp: exchange_retrying_def split: prod.splits sum.splits ipc_error.splits)

lemma connect_depth:
  assumes "\<And>d. send_need d \<le> n \<Longrightarrow> SendBlocking n os RequestHandshake d = (Inl e, c') \<Longrightarrow> \<not> fuel_error e"
    and "connect_need c \<le> Suc n" and "Connect (Suc n) os name c = (Some e, c')"
  shows "\<not> fuel_error e"
proof -
  obtain q d where op: "open_pipe os name c = (q, d)" by fastforce
  show ?thesis
  proof (cases q)
    case None
    obtain r f where sb: "SendBlocking n os RequestHandshake d = (r, f)" by fastforce
    have "send_need d \<le> n"
      using assms(2) open_pipe_keeps(1,3) [OF op] None by (simp add: send_need_def connect_need_def split: if_splits)
    then show ?thesis
      using assms(1) [of d] assms(3) check_handshake_error [of _ f e c'] by (cases r) (auto simp: op None sb)
  next
    case (Some x)
    then show ?thesis using assms(3) open_pipe_keeps(2) [OF op] by (simp add: op)
  qed
qed

lemma send_depth:
  assumes IH: "\<And>name d e d'. connect_need d \<le> n \<Longrightarrow> Connect n os name d = (Some e, d') \<Longrightarrow> \<not> fuel_error e"
    and "send_need c \<le> Suc n" and "SendBlocking (Suc n) os req c = (Inl e, c')"
  shows "\<not> fuel_error e"
proof (cases "cl_pipe c \<and> cl_reconnecting c")
  case True
  then show ?thesis
    using assms(3) exchange_error [of os req c e c'] by (simp add: ensure_open_def exchange_retrying_reconnecting)
next
  case False
  then have n: "2 \<le> n" and cn: "\<not> cl_pipe c \<Longrightarrow> connect_need c \<le> n"
    using assms(2) by (auto simp: send_need_def connect_need_def split: if_splits)
  have conn: "cl_reconnecting d \<Longrightarrow> Connect n os name d = (Some e, d') \<Longrightarrow> \<not> fuel_error e" for name d e d'
    using IH [of d] n by (simp add: connect_need_def)
  obtain q d where en: "ensure_open (\<lambda>name c. Connect n os name c) c = (q, d)" by fastforce
  show ?thesis
  proof (cases q)
    case None
    then show ?thesis using assms(3) retrying_depth [where conn = "\<lambda>name c. Connect n os name c" and os = os and req = req and c = d and e = e and c' = c', OF conn] en by simp
  next
    case (Some x)
    then show ?thesis
      using assms(3) en cn IH [of c "cl_pipeName c"] by (auto simp: ensure_open_def split: if_splits)
  qed
qed

lemma depth_enough:
  "connect_need c \<le> n \<Longrightarrow> Connect n os name c = (Some e, c') \<Longrightarrow> \<not> fuel_error e"
  "send_need c \<le> n \<Longrightarrow> SendBlocking n os req c = (Inl e, c') \<Longrightarrow> \<not> fuel_error e"
proof (induction n arbitrary: name req c e c')
  case 0
  { case 1 then show ?case by (simp add: connect_need_def split: if_splits) }
  { case 2 then show ?case by (simp add: send_need_def split: if_splits) }
next
  case (Suc n)
  { case 1 then show ?case using connect_depth [of n os e c' c name] Suc.IH(2) by blast }
  { case 2 then show ?case using send_depth [of n os c req e c'] Suc.IH(1) by blast }
qed

section \<open>How often a request is written\<close>

lemma exchange_writes:
  "times_written req (cl_log (snd (exchange os r c))) \<le> times_written req (cl_log c) + (if r = req then 1 else 0)"
  "fst (exchange os r c) = Inr x \<Longrightarrow>
     times_written r (cl_log (snd (exchange os r c))) = times_written r (cl_log c) + 1"
proof -
  obtain q d where ex: "exchange os r c = (q, d)" by fastforce
  obtain evs where "quiet_events evs"
    "cl_log d = evs @ cl_log c \<or> cl_log d = evs @ EvWrite r # cl_log c"
    using exchange_log [OF ex] by blast
  then show "times_written req (cl_log (snd (exchange os r c))) \<le> times_written req (cl_log c) + (if r = req then 1 else 0)"
    by (auto simp: ex quiet_append)
  show "fst (exchange os r c) = Inr x \<Longrightarrow>
     times_written r (cl_log (snd (exchange os r c))) = times_written r (cl_log c) + 1"
    using exchange_ok [of os r c x d] by (simp add: ex)
qed

lemma open_pipe_writes: "times_written req (cl_log (snd (open_pipe os name c))) = times_written req (cl_log c)"
  by (simp add: open_pipe_def Let_def split: option.splits)

lemma check_handshake_writes: "times_written req (cl_log (snd (check_handshake resp c))) = times_written req (cl_log c)"
  by (simp add: check_handshake_def Let_def)

lemma retrying_writes:
  assumes conn: "\<And>name c. times_written req (cl_log (snd (conn name c))) \<le> times_written req (cl_log c)"
  shows "times_written req (cl_log (snd (exchange_retrying conn os r c))) \<le> times_written req (cl_log c) + (if r = req then 2 else 0)"
proof (cases rule: exchange_retrying_cases [where os = os and req = r and c = c and conn = conn])
  case (final q d)
  then show ?thesis using exchange_writes(1) [of req os r c] by auto
next
  case (retry code d)
  let ?g = "(Client_Close d)\<lparr>cl_reconnecting := True\<rparr>"
  obtain q f where cq: "conn (cl_pipeName d) ?g = (q, f)" by fastforce
  have d: "times_written req (cl_log d) \<le> times_written req (cl_log c) + (if r = req then 1 else 0)"
    using exchange_writes(1) [of req os r c] retry(1) by simp
  have f: "times_written req (cl_log f) \<le> times_written req (cl_log d)"
    using conn [of "cl_pipeName d" ?g] by (simp add: cq split: if_splits)
  have "times_written req (cl_log (snd (reconnect_and_resend conn os r d))) \<le> times_written req (cl_log f) + (if r = req then 1 else 0)"
    using exchange_writes(1) [of req os r "logged EvReopenShmem (f\<lparr>cl_reconnecting := False\<rparr>)"]
    by (auto simp: reconnect_and_resend_def cq split: option.splits if_splits)
  with d f retry(3) show ?thesis by auto
qed

lemma send_writes_step:
  assumes conn: "\<And>name c. times_written req (cl_log (snd (Connect n os name c))) \<le> times_written req (cl_log c)"
  shows "times_written req (cl_log (snd (SendBlocking (Suc n) os r c))) \<le> times_written req (cl_log c) + (if r = req then 2 else 0)"
proof -
  obtain q d where en: "ensure_open (\<lambda>name c. Connect n os name c) c = (q, d)" by fastforce
  have "times_written req (cl_log d) \<le> times_written req (cl_log c)"
    using en conn [of "cl_pipeName c" c] by (auto simp: ensure_open_def split: if_splits)
  then show ?thesis
    using retrying_writes [where conn = "\<lambda>name c. Connect n os name c" and os = os and r = r and c = d, OF conn]
    by (cases q) (auto simp: en)
qed

lemma session_writes:
  assumes "req \<noteq> RequestHandshake"
  shows "times_written req (cl_log (snd (Connect n os name c))) \<le> times_written req (cl_log c)"
    and "times_written req (cl_log (snd (SendBlocking n os r c))) \<le> times_written req (cl_log c) + (if r = req then 2 else 0)"
proof (induction n arbitrary: name r c)
  case 0
  { case 1 show ?case by simp }
  { case 2 show ?case by simp }
next
  case (Suc n)
  {
    case 1
    obtain q d where op: "open_pipe os name c = (q, d)" by fastforce
    obtain w f where sb: "SendBlocking n os RequestHandshake d = (w, f)" by fastforce
    show ?case
      using open_pipe_writes [of req os name c] Suc.IH(2) [of RequestHandshake d] assms
        check_handshake_writes [of req _ f]
      by (cases q; cases w) (auto simp: op sb)
  }
  { case 2 show ?case by (rule send_writes_step [OF Suc.IH(1)]) }
qed

text \<open>C20: A call always returns. However the pipe behaves, a blocking send finishes within five nested
  calls, with a response or with one of the errors of the code, and the request itself is written at
  most twice.
\<close>

theorem blocking_send_returns:
  assumes "req \<noteq> RequestHandshake"
  shows "(case fst (SendBlocking ipc_depth os req c) of Inl e \<Rightarrow> \<not> fuel_error e | Inr r \<Rightarrow> True)
    \<and> times_written req (cl_log (snd (SendBlocking ipc_depth os req c))) \<le> times_written req (cl_log c) + 2"
proof -
  obtain r d where sb: "SendBlocking ipc_depth os req c = (r, d)" by fastforce
  have "send_need c \<le> ipc_depth" by (simp add: send_need_def ipc_depth_def)
  then have "case r of Inl e \<Rightarrow> \<not> fuel_error e | Inr r \<Rightarrow> True"
    using depth_enough(2) [of c ipc_depth os req] sb by (auto split: sum.splits)
  then show ?thesis
    using session_writes(2) [OF assms, of ipc_depth os req c] by (simp add: sb)
qed

section \<open>Concrete pipes\<close>

text \<open>A healthy pipe to a driver of the same protocol version.\<close>

definition healthy_pipe :: win_pipe where
  "healthy_pipe = \<lparr>wp_open = (\<lambda>l. None), wp_mode = (\<lambda>l. None), wp_write = (\<lambda>l. WriteOk),
     wp_read = (\<lambda>l. if hd l = EvWrite RequestHandshake then ReadOk (ResponseHandshake Version) Version
                    else ReadOk ResponseSuccess 0)\<rparr>"


theorem blocking_send_returns_witness:
  "times_written RequestDebugOffset (cl_log (snd (SendBlocking ipc_depth healthy_pipe RequestDebugOffset
     (fresh_client\<lparr>cl_pipeName := ''p''\<rparr>)))) \<le> 2"
  using blocking_send_returns [of RequestDebugOffset healthy_pipe "fresh_client\<lparr>cl_pipeName := ''p''\<rparr>"]
  by (simp add: fresh_client_def)

text \<open>
  An oversized answer to the handshake, which is what a driver with a larger response structure
  sends, leaves the pipe open and the mismatch state untouched: \<open>Connect\<close> fails, but the client counts
  as connected, and the next request is written without a handshake.
\<close>

definition newer_driver_pipe :: win_pipe where
  "newer_driver_pipe = \<lparr>wp_open = (\<lambda>l. None), wp_mode = (\<lambda>l. None), wp_write = (\<lambda>l. WriteOk),
     wp_read = (\<lambda>l. ReadMoreData 0 DrainOk)\<rparr>"

lemma oversized_handshake_stays_open:
  assumes "Connect (Suc (Suc n)) newer_driver_pipe name fresh_client = (r, c)"
  shows "r = Some OversizedResponse \<and> cl_pipe c \<and> cl_mismatch c = Matching \<and> \<not> verified (cl_log c)
    \<and> EvWrite RequestDebugOffset \<in> set (cl_log (snd (SendBlocking (Suc n) newer_driver_pipe RequestDebugOffset c)))"
  using assms
  by (auto simp: newer_driver_pipe_def fresh_client_def open_pipe_def ensure_open_def exchange_retrying_def
      exchange_def Client_Send_def Client_Receive_def Client_Close_def logged_def)

end
