(* ===== verification/CalContext.thy ===== *)
theory CalContext
  imports Kinematics
begin

text \<open>
  The state of the calibration overlay (\<open>modules/calibration/src/overlay/Calibration.h\<close>) as far as its
  decision logic reads or writes it: the calibration state machine, the head-mount configuration, the
  rigidity detector, the geometry-shift and warm-restart fields, and the profile snapshots. Affine
  transforms belong to the Eigen package and are a type parameter \<open>'p\<close>; doubles are exact reals.
\<close>

section \<open>Enumerations\<close>

datatype CalibrationState = CalNone | CalBegin | CalRotation | CalTranslation | CalEditing
  | CalContinuous | CalContinuousStandby

datatype HeadMountMode = HmOff | HmAutoPaired | HmCorroborate | HmDriverSynth

datatype HeadMountSampleSource = SrcUnknown | SrcPhysicalTracker | SrcHeadProxy

datatype LockMode = LockOFF | LockON | LockAUTO

datatype ValidationOutcome = Inconclusive | Settled | Failed

text \<open>The modes are ordered by their numeric values: a higher mode includes the lower ones.\<close>

fun mode_num :: "HeadMountMode \<Rightarrow> nat" where
  "mode_num HmOff = 0"
| "mode_num HmAutoPaired = 1"
| "mode_num HmCorroborate = 2"
| "mode_num HmDriverSynth = 3"

lemma mode_num_inj: "mode_num a = mode_num b \<longleftrightarrow> a = b"
  by (cases a; cases b) simp_all

instantiation HeadMountMode :: linorder
begin

definition less_eq_HeadMountMode :: "HeadMountMode \<Rightarrow> HeadMountMode \<Rightarrow> bool" where
  "less_eq_HeadMountMode a b \<longleftrightarrow> mode_num a \<le> mode_num b"

definition less_HeadMountMode :: "HeadMountMode \<Rightarrow> HeadMountMode \<Rightarrow> bool" where
  "less_HeadMountMode a b \<longleftrightarrow> mode_num a < mode_num b"

instance
  by standard (auto simp: less_eq_HeadMountMode_def less_HeadMountMode_def mode_num_inj)

end

lemmas mode_order = less_eq_HeadMountMode_def less_HeadMountMode_def

section \<open>Records\<close>

record StandbyDevice =
  sd_trackingSystem :: string
  sd_model :: string
  sd_serial :: string

record 'p HeadMountConfig =
  hm_mode :: HeadMountMode
  hm_trackerSerial :: string
  hm_trackerModel :: string
  hm_trackerTrackingSystem :: string
  hm_headFromTracker :: 'p
  hm_hideTracker :: bool
  hm_offsetCalibrated :: bool
  hm_deviceID :: int

record HeadMountSourceFingerprint =
  fp_source :: HeadMountSampleSource
  fp_mode :: HeadMountMode
  fp_offsetVersion :: u32
  fp_deviceID :: int
  fp_targetSerial :: string
  fp_targetTrackingSystem :: string

record 'p ProfileSnapshot =
  ps_captured :: bool
  ps_enabled :: bool
  ps_validProfile :: bool
  ps_referenceTrackingSystem :: string
  ps_targetTrackingSystem :: string
  ps_referenceStandby :: StandbyDevice
  ps_targetStandby :: StandbyDevice
  ps_calibratedRotation :: vec3
  ps_calibratedTranslation :: vec3
  ps_calibratedScale :: real
  ps_refToTargetPose :: 'p
  ps_relativePosCalibrated :: bool

record 'p AdditionalCalibration =
  ex_targetTrackingSystem :: string
  ex_calibratedRotation :: vec3
  ex_calibratedTranslation :: vec3
  ex_calibratedScale :: real
  ex_lockMode :: int
  ex_history :: "'p list"
  ex_locked :: bool
  ex_hasPending :: bool
  ex_pendingTo :: bool
  ex_firstSeen :: real
  ex_heldWarned :: bool
  ex_lockRelativePosition :: bool
  ex_valid :: bool
  ex_enabled :: bool
  ex_recentErrorsMm :: "real list"

record 'p CalibrationContext =
  cal_state :: CalibrationState
  referenceID :: int
  targetID :: int
  targetStandby :: StandbyDevice
  referenceStandby :: StandbyDevice
  calibratedRotation :: vec3
  calibratedTranslation :: vec3
  calibratedScale :: real
  referenceTrackingSystem :: string
  targetTrackingSystem :: string
  cal_enabled :: bool
  validProfile :: bool
  quashTargetInContinuous :: bool
  headMount :: "'p HeadMountConfig"
  headMountOffsetVersion :: u32
  wantedUpdateInterval :: real
  hasAppliedCalibrationResult :: bool
  lockRelativePositionMode :: LockMode
  lockRelativePosition :: bool
  autoLockHistory :: "'p list"
  autoLockEffectivelyLocked :: bool
  autoLockMadHistory :: "(real \<times> real) list"
  autoLockMadFloor :: real
  autoLockLastFlipTime :: real
  autoLockHasPendingFlip :: bool
  autoLockPendingFlipTo :: bool
  autoLockPendingFlipFirstSeen :: real
  autoLockGateHeldWarned :: bool
  geometryShiftGraceUntil :: real
  geometryShiftCooldownUntil :: real
  lastUserPresent :: bool
  userAwaySince :: real
  warmRestartGraceSamples :: int
  warmRestartTickId :: int
  hmdLastKnownPosWhenAway :: vec3
  hmdLastKnownPosValid :: bool
  warmRestartMadAtSnap :: real
  warmRestartValidationState :: ValidationOutcome
  postSnapErrorSumMm :: real
  postSnapErrorSampleCount :: int
  warmRestartLastConsumedErrTs :: real
  warmRestartSnapTime :: real
  autoLockMadFloorTs :: real
  additionalCalibrations :: "'p AdditionalCalibration list"
  refToTargetPose :: 'p
  relativePosCalibrated :: bool
  continuousStartSnapshot :: "'p ProfileSnapshot"
  lastAcceptedContinuousSnapshot :: "'p ProfileSnapshot"
  headMountSourceFingerprintValid :: bool
  headMountLastSource :: HeadMountSourceFingerprint
  headMountNeedsFreshRelativePose :: bool
  headMountLastSourceResetTime :: real
  pairedMotionPosSeeded :: bool
  pairedMotionMismatchCount :: int
  pairedMotionPrevRefPos :: vec3
  pairedMotionPrevTgtPos :: vec3
  continuousCalibrationOffset :: vec3
  calibrationPaused :: bool
  recalibrateOnMovement :: bool

text \<open>
  What the code uses of Eigen: the relative pose \<open>ref.inverse() * target\<close>, the translation part,
  the angle between the rotation parts of two poses, and the identity.
\<close>

record 'p eigen =
  eg_relative :: "'p \<Rightarrow> 'p \<Rightarrow> 'p"
  eg_translation :: "'p \<Rightarrow> vec3"
  eg_angularDistance :: "'p \<Rightarrow> 'p \<Rightarrow> real"
  eg_identity :: 'p

text \<open>The values the default member initialisers give a fresh context; fields without one are zero.\<close>

definition empty_device :: StandbyDevice where
  "empty_device = \<lparr>sd_trackingSystem = [], sd_model = [], sd_serial = []\<rparr>"

definition empty_head_mount :: "'p eigen \<Rightarrow> 'p HeadMountConfig" where
  "empty_head_mount e = \<lparr>hm_mode = HmOff, hm_trackerSerial = [], hm_trackerModel = [],
     hm_trackerTrackingSystem = [], hm_headFromTracker = eg_identity e, hm_hideTracker = True,
     hm_offsetCalibrated = False, hm_deviceID = - 1\<rparr>"

definition empty_snapshot :: "'p eigen \<Rightarrow> 'p ProfileSnapshot" where
  "empty_snapshot e = \<lparr>ps_captured = False, ps_enabled = False, ps_validProfile = False,
     ps_referenceTrackingSystem = [], ps_targetTrackingSystem = [], ps_referenceStandby = empty_device,
     ps_targetStandby = empty_device, ps_calibratedRotation = vzero, ps_calibratedTranslation = vzero,
     ps_calibratedScale = 1, ps_refToTargetPose = eg_identity e, ps_relativePosCalibrated = False\<rparr>"

definition no_fingerprint :: HeadMountSourceFingerprint where
  "no_fingerprint = \<lparr>fp_source = SrcUnknown, fp_mode = HmOff, fp_offsetVersion = 0, fp_deviceID = - 2,
     fp_targetSerial = [], fp_targetTrackingSystem = []\<rparr>"

definition new_extra :: "'p AdditionalCalibration" where
  "new_extra = \<lparr>ex_targetTrackingSystem = [], ex_calibratedRotation = vzero, ex_calibratedTranslation = vzero,
     ex_calibratedScale = 1, ex_lockMode = 2, ex_history = [], ex_locked = False, ex_hasPending = False,
     ex_pendingTo = False, ex_firstSeen = 0, ex_heldWarned = False, ex_lockRelativePosition = False,
     ex_valid = False, ex_enabled = True, ex_recentErrorsMm = []\<rparr>"

definition new_context :: "'p eigen \<Rightarrow> 'p CalibrationContext" where
  "new_context e = \<lparr>cal_state = CalNone, referenceID = - 1, targetID = - 1,
     targetStandby = empty_device, referenceStandby = empty_device, calibratedRotation = vzero,
     calibratedTranslation = vzero, calibratedScale = 0, referenceTrackingSystem = [],
     targetTrackingSystem = [], cal_enabled = False, validProfile = False,
     quashTargetInContinuous = True, headMount = empty_head_mount e, headMountOffsetVersion = 0,
     wantedUpdateInterval = 1, hasAppliedCalibrationResult = False,
     lockRelativePositionMode = LockAUTO, lockRelativePosition = False, autoLockHistory = [],
     autoLockEffectivelyLocked = False, autoLockMadHistory = [], autoLockMadFloor = 0,
     autoLockLastFlipTime = 0, autoLockHasPendingFlip = False, autoLockPendingFlipTo = False,
     autoLockPendingFlipFirstSeen = 0, autoLockGateHeldWarned = False, geometryShiftGraceUntil = 0,
     geometryShiftCooldownUntil = 0, lastUserPresent = True, userAwaySince = 0,
     warmRestartGraceSamples = 0, warmRestartTickId = 0, hmdLastKnownPosWhenAway = vzero,
     hmdLastKnownPosValid = False, warmRestartMadAtSnap = 0, warmRestartValidationState = Inconclusive,
     postSnapErrorSumMm = 0, postSnapErrorSampleCount = 0, warmRestartLastConsumedErrTs = 0,
     warmRestartSnapTime = 0, autoLockMadFloorTs = 0, additionalCalibrations = [],
     refToTargetPose = eg_identity e, relativePosCalibrated = False,
     continuousStartSnapshot = empty_snapshot e, lastAcceptedContinuousSnapshot = empty_snapshot e,
     headMountSourceFingerprintValid = False, headMountLastSource = no_fingerprint,
     headMountNeedsFreshRelativePose = False, headMountLastSourceResetTime = - (10 ^ 9),
     pairedMotionPosSeeded = False, pairedMotionMismatchCount = 0, pairedMotionPrevRefPos = vzero,
     pairedMotionPrevTgtPos = vzero, continuousCalibrationOffset = vzero, calibrationPaused = False,
     recalibrateOnMovement = True\<rparr>"

section \<open>Order statistics\<close>

text \<open>
  \<open>std::nth_element\<close> at position \<open>k\<close> and \<open>std::sort\<close> followed by an index both give the element
  that stands at position \<open>k\<close> of the sorted sequence.
\<close>

definition nth_smallest :: "nat \<Rightarrow> real list \<Rightarrow> real" where
  "nth_smallest k xs = sort xs ! k"

definition median_of :: "real list \<Rightarrow> real" where
  "median_of xs = nth_smallest (length xs div 2) xs"

lemma length_filter_sort: "length (filter P (sort xs)) = length (filter P (xs :: real list))"
  by (simp add: filter_sort)

lemma nth_smallest_le:
  assumes "k < length xs" and "k < length (filter (\<lambda>x. x \<le> b) xs)"
  shows "nth_smallest k xs \<le> b"
proof (rule ccontr)
  let ?s = "sort xs"
  assume "\<not> nth_smallest k xs \<le> b"
  then have above: "b < ?s ! i" if "k \<le> i" "i < length ?s" for i
    using that sorted_nth_mono [OF sorted_sort, of k i xs]
    by (simp add: nth_smallest_def)
  have "{i. i < length ?s \<and> ?s ! i \<le> b} \<subseteq> {..<k}"
    using above by (force simp: not_less [symmetric])
  then have "card {i. i < length ?s \<and> ?s ! i \<le> b} \<le> k"
    by (metis card_lessThan card_mono finite_lessThan)
  then have "length (filter (\<lambda>x. x \<le> b) ?s) \<le> k"
    by (simp add: length_filter_conv_card)
  then show False
    using assms(2) by (simp add: length_filter_sort)
qed

lemma nth_smallest_ge:
  assumes "k < length xs" and "length xs - k \<le> length (filter (\<lambda>x. b \<le> x) xs)"
  shows "b \<le> nth_smallest k xs"
proof (rule ccontr)
  let ?s = "sort xs"
  assume "\<not> b \<le> nth_smallest k xs"
  then have below: "?s ! i < b" if "i \<le> k" for i
    using that assms(1) sorted_nth_mono [OF sorted_sort, of i k xs]
    by (force simp: nth_smallest_def)
  have "{i. i < length ?s \<and> b \<le> ?s ! i} \<subseteq> {k<..<length ?s}"
    using below by (force simp: not_less [symmetric])
  then have "card {i. i < length ?s \<and> b \<le> ?s ! i} \<le> length xs - Suc k"
    by (metis card_greaterThanLessThan card_mono finite_greaterThanLessThan length_sort)
  then have "length (filter (\<lambda>x. b \<le> x) ?s) \<le> length xs - Suc k"
    by (simp add: length_filter_conv_card)
  then show False
    using assms by (simp add: length_filter_sort)
qed

lemma nth_smallest_in: "k < length xs \<Longrightarrow> nth_smallest k xs \<in> set xs"
  unfolding nth_smallest_def by (metis length_sort nth_mem set_sort)

lemma median_of_in: "xs \<noteq> [] \<Longrightarrow> median_of xs \<in> set xs"
  unfolding median_of_def by (rule nth_smallest_in) simp

text \<open>A strict majority of the sequence bounds its median from either side.\<close>

lemma median_of_le:
  assumes "length xs div 2 < length (filter (\<lambda>x. x \<le> b) xs)"
  shows "median_of xs \<le> b"
  unfolding median_of_def
  by (rule nth_smallest_le) (use assms length_filter_le [of "\<lambda>x. x \<le> b" xs] in linarith)+

lemma median_of_ge:
  assumes "length xs div 2 < length (filter (\<lambda>x. b \<le> x) xs)"
  shows "b \<le> median_of xs"
  unfolding median_of_def
  by (rule nth_smallest_ge) (use assms length_filter_le [of "\<lambda>x. b \<le> x" xs] in linarith)+

end
