(* ===== verification/AutoLock.thy ===== *)
theory AutoLock
  imports CalContext
begin

text \<open>
  The AUTO mode of \<open>Lock relative position\<close>: the hysteresis and commit-gate helpers of
  \<open>AutoLockHysteresis.h\<close>, the speed source of \<open>SnapSuppression.h\<close>, and the detector itself
  (\<open>UpdateAutoLockDetector\<close>, \<open>CommitPendingAutoLockFlipIfStationary\<close> and \<open>ResolveLockMode\<close> in
  \<open>Calibration.cpp\<close>) for the primary pair and for the additional pairs.
\<close>

section \<open>Thresholds and pure helpers\<close>

definition kHistoryMax :: nat where "kHistoryMax = 20"
definition kSamplesNeeded :: nat where "kSamplesNeeded = 20"
definition kEnterTranslM :: real where "kEnterTranslM = 3 / 1000"
definition kLeaveTranslM :: real where "kLeaveTranslM = 15 / 1000"
definition kEnterRotRad :: real where "kEnterRotRad = 7 / 10 * pi / 180"
definition kLeaveRotRad :: real where "kLeaveRotRad = 15 / 10 * pi / 180"
definition kStationaryHmdMps :: real where "kStationaryHmdMps = 5 / 100"
definition kAutoLockGateHeldWarnSeconds :: real where "kAutoLockGateHeldWarnSeconds = 2"
definition kAutoLockUnlockMaxWaitSeconds :: real where "kAutoLockUnlockMaxWaitSeconds = 5"
definition kPanicTranslM :: real where "kPanicTranslM = 40 / 1000"
definition kPanicRotRad :: real where "kPanicRotRad = 5 * pi / 180"
definition kSettledMinHoldSec :: real where "kSettledMinHoldSec = 3"

lemmas lock_thresholds = kHistoryMax_def kSamplesNeeded_def kEnterTranslM_def kLeaveTranslM_def
  kEnterRotRad_def kLeaveRotRad_def kStationaryHmdMps_def kAutoLockUnlockMaxWaitSeconds_def
  kPanicTranslM_def kPanicRotRad_def

definition EnterThresholdFor :: "real \<Rightarrow> real" where
  "EnterThresholdFor madFloor =
     (let kCeil = kLeaveTranslM - 1 / 1000;
          v = 2 * madFloor;
          v = (if v < kEnterTranslM then kEnterTranslM else v)
      in if v > kCeil then kCeil else v)"

definition IsPanicLevelDeviation :: "real \<Rightarrow> real \<Rightarrow> bool" where
  "IsPanicLevelDeviation transl rot \<longleftrightarrow> kPanicTranslM \<le> transl \<or> kPanicRotRad \<le> rot"

definition VerdictWithHysteresis :: "real \<Rightarrow> real \<Rightarrow> bool \<Rightarrow> real \<Rightarrow> bool" where
  "VerdictWithHysteresis transl rot prevLocked enterTranslM =
     (if prevLocked then transl < kLeaveTranslM \<and> rot < kLeaveRotRad
      else transl < enterTranslM \<and> rot < kEnterRotRad)"

definition IsSettled :: "bool \<Rightarrow> real \<Rightarrow> real \<Rightarrow> real \<Rightarrow> bool" where
  "IsSettled currentlyLocked translMad madFloor secsSinceLastFlip =
     (if \<not> currentlyLocked then False
      else if secsSinceLastFlip < kSettledMinHoldSec then False
      else translMad < EnterThresholdFor madFloor)"

definition HmdIsStationary :: "real \<Rightarrow> bool" where
  "HmdIsStationary hmdSpeedMps \<longleftrightarrow> hmdSpeedMps < kStationaryHmdMps"

datatype commit_mode = ModeHeld | ModeUnlockTimeout | ModeStationaryGate | ModeUnknown

definition EvaluateCommitGate :: "bool \<Rightarrow> real \<Rightarrow> real \<Rightarrow> bool \<times> commit_mode" where
  "EvaluateCommitGate pendingFlipTo hmdSpeedMps pendingHeldSec =
     (let stationary = HmdIsStationary hmdSpeedMps;
          unlockTimeoutFired = (\<not> pendingFlipTo \<and> kAutoLockUnlockMaxWaitSeconds \<le> pendingHeldSec)
      in if \<not> stationary \<and> \<not> unlockTimeoutFired then (False, ModeHeld)
         else if unlockTimeoutFired then (True, ModeUnlockTimeout)
         else if stationary then (True, ModeStationaryGate)
         else (True, ModeUnknown))"

definition vnorm :: "vec3 \<Rightarrow> real" where
  "vnorm v = sqrt (vnorm2 v)"

definition vsub :: "vec3 \<Rightarrow> vec3 \<Rightarrow> vec3" where
  "vsub = vmap2 (-)"

definition RobustTranslDeviation :: "'p eigen \<Rightarrow> 'p list \<Rightarrow> real" where
  "RobustTranslDeviation e history =
     (if history = [] then 0
      else let ts = map (eg_translation e) history;
               median = \<lparr>vx = median_of (map vx ts), vy = median_of (map vy ts), vz = median_of (map vz ts)\<rparr>;
               devs = map (\<lambda>t. vnorm (vsub t median)) ts
           in median_of devs * (14826 / 10000))"

definition RobustRotDeviation :: "'p eigen \<Rightarrow> 'p list \<Rightarrow> real" where
  "RobustRotDeviation e history =
     (if history = [] then 0
      else let medianQ = history ! (length history div 2);
               devs = map (eg_angularDistance e medianQ) history
           in median_of devs * (14826 / 10000))"

text \<open>\<open>SnapSuppression.h\<close>. A negative tracker reading means that the tracker is unavailable.\<close>

definition EffectiveSpeedMps :: "HeadMountMode \<Rightarrow> real \<Rightarrow> real \<Rightarrow> real" where
  "EffectiveSpeedMps mode hmdSpeedMps trackerSpeedMps =
     (if mode < HmCorroborate then hmdSpeedMps
      else if trackerSpeedMps < 0 then hmdSpeedMps
      else max hmdSpeedMps trackerSpeedMps)"

definition IsJumpClassifiedAsSnap :: "HeadMountMode \<Rightarrow> real \<Rightarrow> real \<Rightarrow> bool" where
  "IsJumpClassifiedAsSnap mode hmdDeltaM trackerDeltaM =
     (if mode < HmCorroborate then False
      else if trackerDeltaM < 0 then False
      else 30 / 100 \<le> hmdDeltaM \<and> trackerDeltaM < 2 / 100)"

definition ShouldUseTrackerDisplacement :: "HeadMountMode \<Rightarrow> real \<Rightarrow> bool" where
  "ShouldUseTrackerDisplacement mode trackerDeltaM =
     (if mode < HmCorroborate then False else 0 \<le> trackerDeltaM)"

definition ComputeHmdSpeedMps :: "(int \<Rightarrow> driver_pose) \<Rightarrow> real" where
  "ComputeHmdSpeedMps devicePoses = vnorm (vecVelocity (devicePoses 0))"

definition ComputeEffectiveSpeedMps :: "(int \<Rightarrow> driver_pose) \<Rightarrow> 'p HeadMountConfig \<Rightarrow> real" where
  "ComputeEffectiveSpeedMps devicePoses hm =
     (let hmdSpeed = ComputeHmdSpeedMps devicePoses;
          tp = devicePoses (hm_deviceID hm);
          trackerSpeed =
            (if HmCorroborate \<le> hm_mode hm \<and> 0 \<le> hm_deviceID hm \<and> hm_deviceID hm < 64
                \<and> poseIsValid tp \<and> dp_result tp = TrackingResult_Running_OK
             then vnorm (vecVelocity tp) else - 1)
      in EffectiveSpeedMps (hm_mode hm) hmdSpeed trackerSpeed)"

section \<open>The detector of the primary pair\<close>

definition HasContinuousTargetIdentity :: "'p CalibrationContext \<Rightarrow> bool" where
  "HasContinuousTargetIdentity ctx \<longleftrightarrow>
     sd_serial (targetStandby ctx) \<noteq> [] \<and> sd_trackingSystem (targetStandby ctx) \<noteq> []"

definition HeadMountMatchesContinuousTarget :: "'p CalibrationContext \<Rightarrow> bool" where
  "HeadMountMatchesContinuousTarget ctx \<longleftrightarrow>
     HasContinuousTargetIdentity ctx
     \<and> hm_trackerSerial (headMount ctx) = sd_serial (targetStandby ctx)
     \<and> hm_trackerTrackingSystem (headMount ctx) = sd_trackingSystem (targetStandby ctx)"

definition ResolveLockMode :: "'p CalibrationContext \<Rightarrow> 'p CalibrationContext" where
  "ResolveLockMode ctx = ctx\<lparr>lockRelativePosition :=
     (case lockRelativePositionMode ctx of
        LockOFF \<Rightarrow> False | LockON \<Rightarrow> True | LockAUTO \<Rightarrow> autoLockEffectivelyLocked ctx)\<rparr>"

definition keep_last :: "nat \<Rightarrow> 'a list \<Rightarrow> 'a list" where
  "keep_last n xs = drop (length xs - n) xs"

definition calibratedHeadMountTarget :: "'p CalibrationContext \<Rightarrow> bool" where
  "calibratedHeadMountTarget ctx \<longleftrightarrow>
     cal_state ctx = CalContinuous \<and> HmAutoPaired \<le> hm_mode (headMount ctx)
     \<and> hm_offsetCalibrated (headMount ctx) \<and> HeadMountMatchesContinuousTarget ctx"

definition force_head_mount :: "real \<Rightarrow> 'p CalibrationContext \<Rightarrow> 'p CalibrationContext" where
  "force_head_mount now ctx =
     (let prev = autoLockEffectivelyLocked ctx;
          ctx = ctx\<lparr>autoLockEffectivelyLocked := True, autoLockHasPendingFlip := False,
                    autoLockPendingFlipFirstSeen := 0, autoLockGateHeldWarned := False\<rparr>
      in if \<not> prev then ResolveLockMode (ctx\<lparr>autoLockLastFlipTime := now\<rparr>) else ctx)"

text \<open>The rolling floor: readings of the last 60 s, the smallest one with its time.\<close>

fun floor_entry :: "real \<times> real \<Rightarrow> (real \<times> real) list \<Rightarrow> real \<times> real" where
  "floor_entry f [] = f"
| "floor_entry f (p # ps) = floor_entry (if snd p < snd f then p else f) ps"

definition update_mad_floor :: "real \<Rightarrow> real \<Rightarrow> 'p CalibrationContext \<Rightarrow> 'p CalibrationContext" where
  "update_mad_floor now translStdDev ctx =
     (let h = dropWhile (\<lambda>p. 60 < now - fst p) (autoLockMadHistory ctx @ [(now, translStdDev)]);
          f = floor_entry (hd h) h
      in ctx\<lparr>autoLockMadHistory := h, autoLockMadFloor := snd f, autoLockMadFloorTs := fst f\<rparr>)"

definition queue_verdict :: "bool \<Rightarrow> 'p CalibrationContext \<Rightarrow> 'p CalibrationContext" where
  "queue_verdict verdict ctx =
     (if verdict \<noteq> autoLockEffectivelyLocked ctx
      then ctx\<lparr>autoLockHasPendingFlip := True, autoLockPendingFlipTo := verdict\<rparr>
      else if autoLockHasPendingFlip ctx then ctx\<lparr>autoLockHasPendingFlip := False\<rparr>
      else ctx)"

definition UpdateAutoLockDetector ::
    "'p eigen \<Rightarrow> real \<Rightarrow> 'p \<Rightarrow> 'p \<Rightarrow> 'p CalibrationContext \<Rightarrow> 'p CalibrationContext" where
  "UpdateAutoLockDetector e now refWorld targetWorld ctx =
     (let rel = eg_relative e refWorld targetWorld;
          ctx = ctx\<lparr>autoLockHistory := keep_last kHistoryMax (autoLockHistory ctx @ [rel])\<rparr>;
          hmt = calibratedHeadMountTarget ctx;
          ctx = (if hmt then force_head_mount now ctx else ctx)
      in if length (autoLockHistory ctx) < kSamplesNeeded
         then (if hmt then ctx else ctx\<lparr>autoLockEffectivelyLocked := False\<rparr>)
                \<lparr>autoLockHasPendingFlip := False\<rparr>
         else let transl = RobustTranslDeviation e (autoLockHistory ctx);
                  rot = RobustRotDeviation e (autoLockHistory ctx);
                  ctx = update_mad_floor now transl ctx
              in if \<not> hmt \<and> autoLockEffectivelyLocked ctx \<and> IsPanicLevelDeviation transl rot
                 then ResolveLockMode (ctx\<lparr>autoLockEffectivelyLocked := False,
                        autoLockHasPendingFlip := False, autoLockPendingFlipFirstSeen := 0,
                        autoLockGateHeldWarned := False, autoLockLastFlipTime := now\<rparr>)
                 else if hmt then ctx
                 else queue_verdict (VerdictWithHysteresis transl rot (autoLockEffectivelyLocked ctx)
                        (EnterThresholdFor (autoLockMadFloor ctx))) ctx)"

definition CommitPendingAutoLockFlipIfStationary ::
    "real \<Rightarrow> real \<Rightarrow> 'p CalibrationContext \<Rightarrow> bool \<times> 'p CalibrationContext" where
  "CommitPendingAutoLockFlipIfStationary hmdSpeedMps now ctx =
     (if \<not> autoLockHasPendingFlip ctx
      then (False, ctx\<lparr>autoLockPendingFlipFirstSeen := 0, autoLockGateHeldWarned := False\<rparr>)
      else let ctx = (if autoLockPendingFlipFirstSeen ctx \<le> 0
                      then ctx\<lparr>autoLockPendingFlipFirstSeen := now, autoLockGateHeldWarned := False\<rparr>
                      else ctx);
               heldSec = now - autoLockPendingFlipFirstSeen ctx;
               gate = EvaluateCommitGate (autoLockPendingFlipTo ctx) hmdSpeedMps heldSec
           in if \<not> fst gate
              then (False, if \<not> autoLockGateHeldWarned ctx \<and> kAutoLockGateHeldWarnSeconds \<le> heldSec
                           then ctx\<lparr>autoLockGateHeldWarned := True\<rparr> else ctx)
              else (True, ctx\<lparr>autoLockEffectivelyLocked := autoLockPendingFlipTo ctx,
                      autoLockHasPendingFlip := False, autoLockPendingFlipFirstSeen := 0,
                      autoLockGateHeldWarned := False, autoLockLastFlipTime := now\<rparr>))"

text \<open>
  One continuous-mode tick as far as the detector is concerned: \<open>CalibrationTick\<close> commits first
  (and resolves on a commit) and \<open>CollectSample\<close> then feeds the fresh sample.
\<close>

record 'p lock_input =
  li_speed :: real
  li_now :: real
  li_sampleTime :: real
  li_ref :: 'p
  li_target :: 'p

definition commit_part :: "real \<Rightarrow> real \<Rightarrow> 'p CalibrationContext \<Rightarrow> 'p CalibrationContext" where
  "commit_part speed now ctx =
     (let r = CommitPendingAutoLockFlipIfStationary speed now ctx
      in if fst r then ResolveLockMode (snd r) else snd r)"

definition lock_tick :: "'p eigen \<Rightarrow> 'p lock_input \<Rightarrow> 'p CalibrationContext \<Rightarrow> 'p CalibrationContext" where
  "lock_tick e i ctx =
     UpdateAutoLockDetector e (li_sampleTime i) (li_ref i) (li_target i)
       (commit_part (li_speed i) (li_now i) ctx)"

section \<open>The detector of an additional pair\<close>

definition extra_push :: "'p \<Rightarrow> 'p AdditionalCalibration \<Rightarrow> 'p AdditionalCalibration" where
  "extra_push rel x = x\<lparr>ex_history := keep_last kHistoryMax (ex_history x @ [rel])\<rparr>"

definition extra_queue :: "bool \<Rightarrow> 'p AdditionalCalibration \<Rightarrow> 'p AdditionalCalibration" where
  "extra_queue verdict x =
     (if verdict \<noteq> ex_locked x then x\<lparr>ex_hasPending := True, ex_pendingTo := verdict\<rparr>
      else if ex_hasPending x then x\<lparr>ex_hasPending := False\<rparr> else x)"

definition extra_commit :: "real \<Rightarrow> real \<Rightarrow> 'p AdditionalCalibration \<Rightarrow> 'p AdditionalCalibration" where
  "extra_commit speed time x =
     (if ex_hasPending x
      then let x = (if ex_firstSeen x \<le> 0 then x\<lparr>ex_firstSeen := time, ex_heldWarned := False\<rparr> else x);
               gate = EvaluateCommitGate (ex_pendingTo x) speed (time - ex_firstSeen x)
           in if fst gate
              then x\<lparr>ex_locked := ex_pendingTo x, ex_hasPending := False,
                     ex_firstSeen := 0, ex_heldWarned := False\<rparr>
              else x
      else x\<lparr>ex_firstSeen := 0, ex_heldWarned := False\<rparr>)"

definition extra_resolve :: "'p AdditionalCalibration \<Rightarrow> 'p AdditionalCalibration" where
  "extra_resolve x = x\<lparr>ex_lockRelativePosition :=
     (if ex_lockMode x = 0 then False else if ex_lockMode x = 1 then True else ex_locked x)\<rparr>"

definition extra_tick ::
    "'p eigen \<Rightarrow> 'p lock_input \<Rightarrow> 'p AdditionalCalibration \<Rightarrow> 'p AdditionalCalibration" where
  "extra_tick e i x =
     (let x = extra_push (eg_relative e (li_ref i) (li_target i)) x;
          x = (if length (ex_history x) < kSamplesNeeded
               then x\<lparr>ex_locked := False, ex_hasPending := False\<rparr>
               else let transl = RobustTranslDeviation e (ex_history x);
                        rot = RobustRotDeviation e (ex_history x)
                    in if ex_locked x \<and> IsPanicLevelDeviation transl rot
                       then x\<lparr>ex_locked := False, ex_hasPending := False,
                              ex_firstSeen := 0, ex_heldWarned := False\<rparr>
                       else extra_commit (li_speed i) (li_now i)
                              (extra_queue (VerdictWithHysteresis transl rot (ex_locked x) kEnterTranslM) x))
      in extra_resolve x)"

section \<open>Hysteresis\<close>

lemma EnterThresholdFor_bounds:
  "kEnterTranslM \<le> EnterThresholdFor f \<and> EnterThresholdFor f \<le> kLeaveTranslM - 1 / 1000"
  by (simp add: EnterThresholdFor_def Let_def kEnterTranslM_def kLeaveTranslM_def)

lemma enter_below_leave: "EnterThresholdFor f < kLeaveTranslM" "kEnterRotRad < kLeaveRotRad"
  using EnterThresholdFor_bounds [of f] pi_gt_zero
  by (simp_all add: kEnterRotRad_def kLeaveRotRad_def)

lemma kEnter_below_leave: "kEnterTranslM < kLeaveTranslM"
  by (simp add: kEnterTranslM_def kLeaveTranslM_def)

lemma panic_is_broken:
  assumes "IsPanicLevelDeviation t r"
  shows "kLeaveTranslM \<le> t \<or> kLeaveRotRad \<le> r"
proof -
  have "kLeaveTranslM \<le> kPanicTranslM" "kLeaveRotRad \<le> kPanicRotRad"
    using pi_gt_zero by (simp_all add: lock_thresholds)
  then show ?thesis
    using assms by (auto simp: IsPanicLevelDeviation_def)
qed

text \<open>
  A window is \<open>broken\<close> when a locked pair would be released on it: then no enter threshold the
  code can use accepts it either.
\<close>

definition window_broken :: "'p eigen \<Rightarrow> 'p list \<Rightarrow> bool" where
  "window_broken e h \<longleftrightarrow>
     kLeaveTranslM \<le> RobustTranslDeviation e h \<or> kLeaveRotRad \<le> RobustRotDeviation e h"

lemma broken_verdict:
  assumes "window_broken e h" and "enter \<le> kLeaveTranslM"
  shows "\<not> VerdictWithHysteresis (RobustTranslDeviation e h) (RobustRotDeviation e h) prev enter"
  using assms enter_below_leave(2) by (auto simp: VerdictWithHysteresis_def window_broken_def)

lemma intact_verdict:
  assumes "\<not> window_broken e h"
  shows "VerdictWithHysteresis (RobustTranslDeviation e h) (RobustRotDeviation e h) True enter"
    and "\<not> IsPanicLevelDeviation (RobustTranslDeviation e h) (RobustRotDeviation e h)"
  using assms panic_is_broken [of "RobustTranslDeviation e h" "RobustRotDeviation e h"]
  by (auto simp: VerdictWithHysteresis_def window_broken_def)

section \<open>What a tick does\<close>

lemma length_keep_last [simp]: "length (keep_last n xs) = min n (length xs)"
  by (simp add: keep_last_def)

abbreviation pushed :: "'p eigen \<Rightarrow> 'p lock_input \<Rightarrow> 'p list \<Rightarrow> 'p list" where
  "pushed e i h \<equiv> keep_last kHistoryMax (h @ [eg_relative e (li_ref i) (li_target i)])"

lemma ResolveLockMode_fields [simp]:
  "autoLockEffectivelyLocked (ResolveLockMode c) = autoLockEffectivelyLocked c"
  "autoLockHasPendingFlip (ResolveLockMode c) = autoLockHasPendingFlip c"
  "autoLockPendingFlipTo (ResolveLockMode c) = autoLockPendingFlipTo c"
  "autoLockPendingFlipFirstSeen (ResolveLockMode c) = autoLockPendingFlipFirstSeen c"
  "autoLockHistory (ResolveLockMode c) = autoLockHistory c"
  "calibratedHeadMountTarget (ResolveLockMode c) = calibratedHeadMountTarget c"
  by (simp_all add: ResolveLockMode_def calibratedHeadMountTarget_def
      HeadMountMatchesContinuousTarget_def HasContinuousTargetIdentity_def)

lemma update_mad_floor_fields [simp]:
  "autoLockEffectivelyLocked (update_mad_floor n d c) = autoLockEffectivelyLocked c"
  "autoLockHasPendingFlip (update_mad_floor n d c) = autoLockHasPendingFlip c"
  "autoLockPendingFlipTo (update_mad_floor n d c) = autoLockPendingFlipTo c"
  "autoLockPendingFlipFirstSeen (update_mad_floor n d c) = autoLockPendingFlipFirstSeen c"
  "autoLockHistory (update_mad_floor n d c) = autoLockHistory c"
  "calibratedHeadMountTarget (update_mad_floor n d c) = calibratedHeadMountTarget c"
  by (simp_all add: update_mad_floor_def Let_def calibratedHeadMountTarget_def
      HeadMountMatchesContinuousTarget_def HasContinuousTargetIdentity_def)

lemma commit_part_fields [simp]:
  "autoLockHistory (commit_part s n c) = autoLockHistory c"
  "calibratedHeadMountTarget (commit_part s n c) = calibratedHeadMountTarget c"
  by (simp_all add: commit_part_def CommitPendingAutoLockFlipIfStationary_def Let_def
      calibratedHeadMountTarget_def HeadMountMatchesContinuousTarget_def
      HasContinuousTargetIdentity_def ResolveLockMode_def)

lemma EvaluateCommitGate_fst:
  "fst (EvaluateCommitGate tgt v held) \<longleftrightarrow>
     HmdIsStationary v \<or> (\<not> tgt \<and> kAutoLockUnlockMaxWaitSeconds \<le> held)"
  by (simp add: EvaluateCommitGate_def Let_def)

definition first_seen_at :: "real \<Rightarrow> 'p CalibrationContext \<Rightarrow> real" where
  "first_seen_at now ctx =
     (if autoLockPendingFlipFirstSeen ctx \<le> 0 then now else autoLockPendingFlipFirstSeen ctx)"

definition gate_opens :: "real \<Rightarrow> real \<Rightarrow> 'p CalibrationContext \<Rightarrow> bool" where
  "gate_opens speed now ctx \<longleftrightarrow> HmdIsStationary speed
     \<or> (\<not> autoLockPendingFlipTo ctx \<and> kAutoLockUnlockMaxWaitSeconds \<le> now - first_seen_at now ctx)"

lemma commit_part_locked:
  "autoLockEffectivelyLocked (commit_part v n c) =
     (if autoLockHasPendingFlip c \<and> gate_opens v n c then autoLockPendingFlipTo c
      else autoLockEffectivelyLocked c)"
  by (simp add: commit_part_def CommitPendingAutoLockFlipIfStationary_def Let_def
      EvaluateCommitGate_fst gate_opens_def first_seen_at_def)

lemma commit_part_pending:
  "autoLockHasPendingFlip (commit_part v n c) \<longleftrightarrow> autoLockHasPendingFlip c \<and> \<not> gate_opens v n c"
  by (simp add: commit_part_def CommitPendingAutoLockFlipIfStationary_def Let_def
      EvaluateCommitGate_fst gate_opens_def first_seen_at_def)

lemma commit_part_target [simp]:
  "autoLockPendingFlipTo (commit_part v n c) = autoLockPendingFlipTo c"
  by (simp add: commit_part_def CommitPendingAutoLockFlipIfStationary_def Let_def)

lemma commit_part_firstSeen:
  "autoLockPendingFlipFirstSeen (commit_part v n c) =
     (if autoLockHasPendingFlip c \<and> \<not> gate_opens v n c then first_seen_at n c else 0)"
  by (simp add: commit_part_def CommitPendingAutoLockFlipIfStationary_def Let_def
      EvaluateCommitGate_fst gate_opens_def first_seen_at_def)

lemma head_mount_push [simp]:
  "calibratedHeadMountTarget (c\<lparr>autoLockHistory := h\<rparr>) = calibratedHeadMountTarget c"
  by (simp add: calibratedHeadMountTarget_def HeadMountMatchesContinuousTarget_def
      HasContinuousTargetIdentity_def)

lemma UpdateAutoLockDetector_history:
  "autoLockHistory (UpdateAutoLockDetector e n r t c) =
     keep_last kHistoryMax (autoLockHistory c @ [eg_relative e r t])"
  by (simp add: UpdateAutoLockDetector_def Let_def force_head_mount_def queue_verdict_def)

lemma UpdateAutoLockDetector_head_mount:
  "calibratedHeadMountTarget (UpdateAutoLockDetector e n r t c) = calibratedHeadMountTarget c"
  by (simp add: UpdateAutoLockDetector_def Let_def force_head_mount_def queue_verdict_def
      calibratedHeadMountTarget_def HeadMountMatchesContinuousTarget_def
      HasContinuousTargetIdentity_def ResolveLockMode_def update_mad_floor_def)

text \<open>The detector without a calibrated head mount, by its window.\<close>

lemma UpdateAutoLockDetector_short:
  assumes "\<not> calibratedHeadMountTarget c" "Suc (length (autoLockHistory c)) < 20"
  shows "\<not> autoLockEffectivelyLocked (UpdateAutoLockDetector e n r t c)"
    and "\<not> autoLockHasPendingFlip (UpdateAutoLockDetector e n r t c)"
  using assms by (simp_all add: UpdateAutoLockDetector_def Let_def kSamplesNeeded_def kHistoryMax_def)

lemma UpdateAutoLockDetector_broken:
  fixes n :: real
  assumes "\<not> calibratedHeadMountTarget c" "19 \<le> length (autoLockHistory c)"
    and "window_broken e (keep_last kHistoryMax (autoLockHistory c @ [eg_relative e r t]))"
  defines "c' \<equiv> UpdateAutoLockDetector e n r t c"
  shows "autoLockHasPendingFlip c' \<longrightarrow> \<not> autoLockPendingFlipTo c' \<and> autoLockEffectivelyLocked c
           \<and> autoLockPendingFlipFirstSeen c' = autoLockPendingFlipFirstSeen c"
    and "autoLockEffectivelyLocked c' \<longleftrightarrow> autoLockHasPendingFlip c'"
  using assms(1,2) broken_verdict [OF assms(3), of "EnterThresholdFor f" for f]
    enter_below_leave(1) [THEN less_imp_le]
  unfolding c'_def
  by (auto simp: UpdateAutoLockDetector_def Let_def kSamplesNeeded_def kHistoryMax_def queue_verdict_def)

lemma UpdateAutoLockDetector_intact:
  assumes "\<not> calibratedHeadMountTarget c" "19 \<le> length (autoLockHistory c)"
    and "autoLockEffectivelyLocked c"
    and "\<not> window_broken e (keep_last kHistoryMax (autoLockHistory c @ [eg_relative e r t]))"
  shows "autoLockEffectivelyLocked (UpdateAutoLockDetector e n r t c)
    \<and> \<not> autoLockHasPendingFlip (UpdateAutoLockDetector e n r t c)"
  using assms(1-3) intact_verdict [OF assms(4)]
  by (simp add: UpdateAutoLockDetector_def Let_def kSamplesNeeded_def kHistoryMax_def queue_verdict_def)

section \<open>The contract of a detector\<close>

text \<open>
  What the code relies on of a rigidity detector: a queued flip always changes the lock, the head
  mount neither starts nor stops forcing the lock inside a tick, and without it the lock is only
  gained on a tick whose speed is below the stationary threshold.
\<close>

locale lock_detector =
  fixes locked :: "'s \<Rightarrow> bool"
    and pending :: "'s \<Rightarrow> bool"
    and target :: "'s \<Rightarrow> bool"
    and forced :: "'s \<Rightarrow> bool"
    and tick :: "'p lock_input \<Rightarrow> 's \<Rightarrow> 's"
  assumes forced_kept: "forced (tick i s) = forced s"
    and queue_kept: "(pending s \<longrightarrow> target s \<noteq> locked s) \<Longrightarrow>
          pending (tick i s) \<longrightarrow> target (tick i s) \<noteq> locked (tick i s)"
    and gained_still: "\<lbrakk>\<not> forced s; \<not> locked s; locked (tick i s)\<rbrakk> \<Longrightarrow> HmdIsStationary (li_speed i)"
begin

lemma run_queue:
  "(pending s \<longrightarrow> target s \<noteq> locked s) \<Longrightarrow>
     pending (fold tick is s) \<longrightarrow> target (fold tick is s) \<noteq> locked (fold tick is s)"
  by (induction "is" arbitrary: s) (use queue_kept in auto)

lemma run_gained:
  "\<lbrakk>\<not> forced s; \<not> locked s; locked (fold tick is s)\<rbrakk> \<Longrightarrow> \<exists>i\<in>set is. HmdIsStationary (li_speed i)"
proof (induction "is" arbitrary: s)
  case (Cons i "is")
  then show ?case
    using gained_still [of s i] forced_kept [of i s] by (cases "locked (tick i s)") auto
qed simp

end

lemma commit_part_queue:
  "(autoLockHasPendingFlip c \<longrightarrow> autoLockPendingFlipTo c \<noteq> autoLockEffectivelyLocked c) \<Longrightarrow>
   autoLockHasPendingFlip (commit_part v n c) \<longrightarrow>
     autoLockPendingFlipTo (commit_part v n c) \<noteq> autoLockEffectivelyLocked (commit_part v n c)"
  by (simp add: commit_part_pending commit_part_locked)

lemma UpdateAutoLockDetector_queue:
  "(autoLockHasPendingFlip c \<longrightarrow> autoLockPendingFlipTo c \<noteq> autoLockEffectivelyLocked c) \<Longrightarrow>
   autoLockHasPendingFlip (UpdateAutoLockDetector e n r t c) \<longrightarrow>
     autoLockPendingFlipTo (UpdateAutoLockDetector e n r t c)
       \<noteq> autoLockEffectivelyLocked (UpdateAutoLockDetector e n r t c)"
  by (simp add: UpdateAutoLockDetector_def Let_def force_head_mount_def queue_verdict_def)

lemma UpdateAutoLockDetector_gained:
  "\<lbrakk>\<not> calibratedHeadMountTarget c; autoLockEffectivelyLocked (UpdateAutoLockDetector e n r t c)\<rbrakk>
     \<Longrightarrow> autoLockEffectivelyLocked c"
  by (auto simp: UpdateAutoLockDetector_def Let_def queue_verdict_def split: if_splits)

interpretation primary: lock_detector autoLockEffectivelyLocked autoLockHasPendingFlip
  autoLockPendingFlipTo calibratedHeadMountTarget "lock_tick e" for e :: "'p eigen"
proof (unfold_locales, goal_cases)
  case (1 i s)
  then show ?case by (simp add: lock_tick_def UpdateAutoLockDetector_head_mount)
next
  case (2 s i)
  then show ?case
    unfolding lock_tick_def by (rule UpdateAutoLockDetector_queue [OF commit_part_queue])
next
  case (3 s i)
  then have "autoLockEffectivelyLocked (commit_part (li_speed i) (li_now i) s)"
    unfolding lock_tick_def by (rule_tac UpdateAutoLockDetector_gained) auto
  with 3 show ?case
    by (auto simp: commit_part_locked gate_opens_def split: if_splits)
qed

lemma extra_commit_queued:
  "ex_hasPending (extra_commit v n (extra_queue b x)) \<Longrightarrow>
   ex_pendingTo (extra_commit v n (extra_queue b x)) = (\<not> ex_locked (extra_commit v n (extra_queue b x)))"
  by (simp add: extra_commit_def extra_queue_def Let_def split: if_splits)

lemma extra_commit_gained:
  "\<lbrakk>\<not> ex_locked x; ex_locked (extra_commit v n x)\<rbrakk> \<Longrightarrow> HmdIsStationary v"
  by (auto simp: extra_commit_def Let_def EvaluateCommitGate_fst split: if_splits)

lemma extra_resolve_fields [simp]:
  "ex_locked (extra_resolve x) = ex_locked x"
  "ex_hasPending (extra_resolve x) = ex_hasPending x"
  "ex_pendingTo (extra_resolve x) = ex_pendingTo x"
  by (simp_all add: extra_resolve_def)

lemma extra_fields [simp]:
  "ex_locked (extra_push r x) = ex_locked x"
  "ex_locked (extra_queue b x) = ex_locked x"
  by (simp_all add: extra_push_def extra_queue_def)

interpretation extra: lock_detector ex_locked ex_hasPending ex_pendingTo "\<lambda>_. False"
  "extra_tick e" for e :: "'p eigen"
proof (unfold_locales, goal_cases)
  case (2 s i)
  show ?case
    by (simp add: extra_tick_def Let_def extra_commit_queued)
next
  case (3 s i)
  then show ?case
    by (auto simp: extra_tick_def Let_def dest!: extra_commit_gained [rotated] split: if_splits)
qed simp


section \<open>A broken pair is released\<close>

text \<open>Along a run every window the detector sees is broken.\<close>

fun all_broken :: "'p eigen \<Rightarrow> 'p list \<Rightarrow> 'p lock_input list \<Rightarrow> bool" where
  "all_broken e h [] = True"
| "all_broken e h (i # is) \<longleftrightarrow> window_broken e (pushed e i h) \<and> all_broken e (pushed e i h) is"

definition releasing :: "real \<Rightarrow> 'p CalibrationContext \<Rightarrow> bool" where
  "releasing t c \<longleftrightarrow>
     (if autoLockEffectivelyLocked c
      then autoLockHasPendingFlip c \<and> \<not> autoLockPendingFlipTo c
           \<and> 0 < autoLockPendingFlipFirstSeen c \<and> autoLockPendingFlipFirstSeen c \<le> t
      else \<not> autoLockHasPendingFlip c)"

lemma lock_tick_history: "autoLockHistory (lock_tick e i c) = pushed e i (autoLockHistory c)"
  by (simp add: lock_tick_def UpdateAutoLockDetector_history)

lemma broken_tick:
  assumes hm: "\<not> calibratedHeadMountTarget c" and br: "window_broken e (pushed e i (autoLockHistory c))"
  defines "c' \<equiv> lock_tick e i c" and "b \<equiv> commit_part (li_speed i) (li_now i) c"
  shows "autoLockEffectivelyLocked c' \<longleftrightarrow> autoLockHasPendingFlip c'"
    and "autoLockHasPendingFlip c' \<longrightarrow> \<not> autoLockPendingFlipTo c' \<and> autoLockEffectivelyLocked b
           \<and> autoLockPendingFlipFirstSeen c' = autoLockPendingFlipFirstSeen b"
proof -
  have hm': "\<not> calibratedHeadMountTarget b" and h: "autoLockHistory b = autoLockHistory c"
    using hm by (simp_all add: b_def)
  have "(autoLockEffectivelyLocked c' \<longleftrightarrow> autoLockHasPendingFlip c') \<and>
    (autoLockHasPendingFlip c' \<longrightarrow> \<not> autoLockPendingFlipTo c' \<and> autoLockEffectivelyLocked b
           \<and> autoLockPendingFlipFirstSeen c' = autoLockPendingFlipFirstSeen b)"
  proof (cases "19 \<le> length (autoLockHistory c)")
    case True
    then show ?thesis
      using UpdateAutoLockDetector_broken [OF hm', of e "li_ref i" "li_target i" "li_sampleTime i"] br
      by (simp add: c'_def lock_tick_def h b_def)
  next
    case False
    then show ?thesis
      using UpdateAutoLockDetector_short [OF hm', of e "li_sampleTime i" "li_ref i" "li_target i"]
      by (simp add: c'_def lock_tick_def h b_def)
  qed
  then show "autoLockEffectivelyLocked c' \<longleftrightarrow> autoLockHasPendingFlip c'"
    and "autoLockHasPendingFlip c' \<longrightarrow> \<not> autoLockPendingFlipTo c' \<and> autoLockEffectivelyLocked b
           \<and> autoLockPendingFlipFirstSeen c' = autoLockPendingFlipFirstSeen b" by blast+
qed

lemma releasing_tick:
  assumes hm: "\<not> calibratedHeadMountTarget c" and br: "window_broken e (pushed e i (autoLockHistory c))"
    and r: "releasing t c"
  shows "releasing t (lock_tick e i c)"
    and "t + 5 \<le> li_now i \<Longrightarrow> \<not> autoLockEffectivelyLocked (lock_tick e i c)"
proof -
  let ?b = "commit_part (li_speed i) (li_now i) c"
  note bt = broken_tick [OF hm br]
  have b: "autoLockEffectivelyLocked ?b \<Longrightarrow> autoLockEffectivelyLocked c
      \<and> autoLockPendingFlipFirstSeen ?b = autoLockPendingFlipFirstSeen c"
    using r by (cases "autoLockEffectivelyLocked c"; cases "gate_opens (li_speed i) (li_now i) c")
      (simp_all add: releasing_def commit_part_locked commit_part_firstSeen first_seen_at_def)
  show "releasing t (lock_tick e i c)"
  proof (cases "autoLockHasPendingFlip (lock_tick e i c)")
    case True
    with bt b r show ?thesis unfolding releasing_def by metis
  qed (use bt in \<open>simp add: releasing_def\<close>)
  assume "t + 5 \<le> li_now i"
  then have "\<not> autoLockEffectivelyLocked ?b"
    using r by (auto simp: releasing_def commit_part_locked gate_opens_def first_seen_at_def
        kAutoLockUnlockMaxWaitSeconds_def split: if_splits)
  then show "\<not> autoLockEffectivelyLocked (lock_tick e i c)"
    using bt by blast
qed

lemma releasing_run:
  "\<lbrakk>\<not> calibratedHeadMountTarget c; all_broken e (autoLockHistory c) is; releasing t c;
    is \<noteq> []; t + 5 \<le> li_now (last is)\<rbrakk> \<Longrightarrow> \<not> autoLockEffectivelyLocked (fold (lock_tick e) is c)"
proof (induction "is" arbitrary: c)
  case (Cons i "is")
  then show ?case
    using releasing_tick [of c e i t] primary.forced_kept [of e i c]
    by (cases "is") (simp_all add: lock_tick_history)
qed simp


section \<open>Robustness of the deviation\<close>

lemma vnorm_box:
  assumes "\<bar>vx a - vx b\<bar> \<le> d" "\<bar>vy a - vy b\<bar> \<le> d" "\<bar>vz a - vz b\<bar> \<le> d"
  shows "vnorm (vsub a b) \<le> sqrt 3 * d"
proof -
  have d: "0 \<le> d" using assms(1) by linarith
  have sq: "x * x \<le> d * d" if "\<bar>x\<bar> \<le> d" for x :: real
    using that d by (metis abs_ge_zero abs_mult_self_eq mult_mono)
  have "vnorm2 (vsub a b) \<le> 3 * (d * d)"
    using sq [OF assms(1)] sq [OF assms(2)] sq [OF assms(3)]
    by (simp add: vnorm2_def vsub_def vmap2_def)
  then have "vnorm (vsub a b) \<le> sqrt (3 * (d * d))"
    unfolding vnorm_def by (rule real_sqrt_le_mono)
  also have "\<dots> = sqrt 3 * d"
    using d by (simp add: real_sqrt_mult)
  finally show ?thesis .
qed

definition in_box :: "vec3 \<Rightarrow> real \<Rightarrow> vec3 \<Rightarrow> bool" where
  "in_box c r v \<longleftrightarrow> \<bar>vx v - vx c\<bar> \<le> r \<and> \<bar>vy v - vy c\<bar> \<le> r \<and> \<bar>vz v - vz c\<bar> \<le> r"

lemma majority_mono:
  assumes "n < length (filter P xs)" and "\<And>x. x \<in> set xs \<Longrightarrow> P x \<Longrightarrow> Q (f x)"
  shows "n < length (filter Q (map f xs))"
proof -
  have "length (filter P xs) \<le> length (filter (\<lambda>x. Q (f x)) xs)"
    using assms(2) by (induction xs) auto
  then show ?thesis
    using assms(1) by (simp add: filter_map o_def)
qed

lemma median_coordinate:
  assumes "length ts div 2 < length (filter (in_box c r) ts)"
    and "\<And>t. in_box c r t \<Longrightarrow> \<bar>f t - f c\<bar> \<le> r"
  shows "\<bar>median_of (map f ts) - f c\<bar> \<le> r"
proof -
  have "median_of (map f ts) \<le> f c + r" "f c - r \<le> median_of (map f ts)"
    unfolding abs_le_iff
    by (intro median_of_le median_of_ge; unfold length_map; rule majority_mono [OF assms(1)];
        use assms(2) in \<open>force simp: abs_le_iff\<close>)+
  then show ?thesis by (simp add: abs_le_iff)
qed

lemma RobustTranslDeviation_majority:
  assumes "length h div 2 < length (filter (\<lambda>p. in_box c r (eg_translation e p)) h)"
  shows "RobustTranslDeviation e h \<le> sqrt 3 * (2 * r) * (14826 / 10000)"
proof -
  define ts where "ts = map (eg_translation e) h"
  define m where "m = \<lparr>vx = median_of (map vx ts), vy = median_of (map vy ts), vz = median_of (map vz ts)\<rparr>"
  have maj: "length ts div 2 < length (filter (in_box c r) ts)"
    using assms by (simp add: ts_def filter_map o_def)
  have m: "\<bar>vx m - vx c\<bar> \<le> r" "\<bar>vy m - vy c\<bar> \<le> r" "\<bar>vz m - vz c\<bar> \<le> r"
    using median_coordinate [OF maj] by (simp_all add: m_def in_box_def)
  have "median_of (map (\<lambda>t. vnorm (vsub t m)) ts) \<le> sqrt 3 * (2 * r)"
  proof (intro median_of_le, unfold length_map, rule majority_mono [OF maj])
    fix t assume "in_box c r t"
    then show "vnorm (vsub t m) \<le> sqrt 3 * (2 * r)"
      using m by (intro vnorm_box) (auto simp: in_box_def)
  qed
  moreover have "h \<noteq> []" using assms by auto
  ultimately show ?thesis
    by (simp add: RobustTranslDeviation_def Let_def m_def ts_def mult.commute mult.left_commute)
qed

lemma RobustRotDeviation_majority:
  defines "d e h \<equiv> eg_angularDistance e (h ! (length h div 2))"
  shows "length h div 2 < length (filter (\<lambda>p. d e h p \<le> b) h) \<Longrightarrow>
           RobustRotDeviation e h \<le> b * (14826 / 10000)"
    and "length h div 2 < length (filter (\<lambda>p. b \<le> d e h p) h) \<Longrightarrow>
           b * (14826 / 10000) \<le> RobustRotDeviation e h"
  using median_of_le [of "map (d e h) h" b] median_of_ge [of "map (d e h) h" b]
  by (auto simp: RobustRotDeviation_def Let_def d_def filter_map o_def)

text \<open>Outliers do not release a locked pair. If a strict majority of the twenty samples of the window
  lie within 2.9 mm of a common point on every axis and within 0.01 rad of the middle sample, then
  the update keeps the lock and queues no flip, however far away the remaining samples are.
\<close>

theorem outliers_keep_lock:
  assumes "\<not> calibratedHeadMountTarget ctx" and "autoLockEffectivelyLocked ctx"
    and "h = keep_last kHistoryMax (autoLockHistory ctx @ [eg_relative e ref target])"
    and "length h = kSamplesNeeded"
    and "kSamplesNeeded div 2 < length (filter (\<lambda>p. in_box c (29 / 10000) (eg_translation e p)) h)"
    and "kSamplesNeeded div 2 < length (filter (\<lambda>p. eg_angularDistance e (h ! (kSamplesNeeded div 2)) p \<le> 1 / 100) h)"
  shows "autoLockEffectivelyLocked (UpdateAutoLockDetector e now ref target ctx)
    \<and> \<not> autoLockHasPendingFlip (UpdateAutoLockDetector e now ref target ctx)"
proof -
  have "sqrt 3 < sqrt ((174 / 100)\<^sup>2)"
    by (subst real_sqrt_less_iff) (simp add: power2_eq_square)
  then have "sqrt 3 * (2 * (29 / 10000)) * (14826 / 10000) < kLeaveTranslM"
    by (simp add: kLeaveTranslM_def)
  then have t: "RobustTranslDeviation e h < kLeaveTranslM"
    using RobustTranslDeviation_majority [of h c "29 / 10000" e] assms(4,5) by simp
  have "1 / 100 * (14826 / 10000) < kLeaveRotRad"
    using pi_ge_two by (simp add: kLeaveRotRad_def)
  then have r: "RobustRotDeviation e h < kLeaveRotRad"
    using RobustRotDeviation_majority(1) [of h e "1 / 100"] assms(4,6) by simp
  have "19 \<le> length (autoLockHistory ctx)"
    using assms(3,4) by (auto simp: kHistoryMax_def kSamplesNeeded_def)
  with t r show ?thesis
    using UpdateAutoLockDetector_intact [of ctx e ref target now] assms(1-3)
    by (simp add: window_broken_def)
qed

text \<open>
  The rotation deviation is taken from the middle sample of the window, not from a median. When that
  one sample is off by more than 1/12 rad (4.8 degrees) from a majority of the others, the pair is
  released at once, although all other samples may agree.
\<close>

theorem middle_sample_unlocks:
  assumes "\<not> calibratedHeadMountTarget ctx" and "autoLockEffectivelyLocked ctx"
    and "h = keep_last kHistoryMax (autoLockHistory ctx @ [eg_relative e ref target])"
    and "length h = kSamplesNeeded"
    and "kSamplesNeeded div 2 < length (filter (\<lambda>p. 1 / 12 \<le> eg_angularDistance e (h ! (kSamplesNeeded div 2)) p) h)"
  shows "\<not> autoLockEffectivelyLocked (UpdateAutoLockDetector e now ref target ctx)"
proof -
  have "kPanicRotRad \<le> 1 / 12 * (14826 / 10000)"
    using pi_less_4 by (simp add: kPanicRotRad_def)
  then have "IsPanicLevelDeviation (RobustTranslDeviation e h) (RobustRotDeviation e h)"
    using RobustRotDeviation_majority(2) [of h "1 / 12" e] assms(4,5)
    by (simp add: IsPanicLevelDeviation_def)
  moreover have "19 \<le> length (autoLockHistory ctx)"
    using assms(3,4) by (auto simp: kHistoryMax_def kSamplesNeeded_def)
  ultimately show ?thesis
    using assms(1-3)
    by (simp add: UpdateAutoLockDetector_def Let_def kHistoryMax_def kSamplesNeeded_def)
qed

section \<open>Concrete runs\<close>

text \<open>Poses on a line that turn about one axis: position and angle.\<close>

definition line_eigen :: "(real \<times> real) eigen" where
  "line_eigen = \<lparr>eg_relative = (\<lambda>a b. (fst b - fst a, snd b - snd a)),
     eg_translation = (\<lambda>p. \<lparr>vx = fst p, vy = 0, vz = 0\<rparr>),
     eg_angularDistance = (\<lambda>a b. \<bar>snd a - snd b\<bar>), eg_identity = (0, 0)\<rparr>"

definition locked_context :: "(real \<times> real) list \<Rightarrow> (real \<times> real) CalibrationContext" where
  "locked_context h = (new_context line_eigen)\<lparr>cal_state := CalContinuous, autoLockHistory := h,
     autoLockEffectivelyLocked := True\<rparr>"

definition still_input :: "real \<Rightarrow> real \<Rightarrow> (real \<times> real) \<Rightarrow> (real \<times> real) lock_input" where
  "still_input v t p = \<lparr>li_speed = v, li_now = t, li_sampleTime = t, li_ref = (0, 0), li_target = p\<rparr>"

lemma locked_context_simps [simp]:
  "autoLockHistory (locked_context h) = h"
  "autoLockEffectivelyLocked (locked_context h)"
  "\<not> calibratedHeadMountTarget (locked_context h)"
  "\<not> calibratedHeadMountTarget (new_context line_eigen)"
  "\<not> autoLockEffectivelyLocked (new_context line_eigen)"
  "\<not> autoLockHasPendingFlip (new_context line_eigen)"
  "autoLockPendingFlipFirstSeen (locked_context h) = 0"
  by (simp_all add: locked_context_def new_context_def calibratedHeadMountTarget_def
      empty_head_mount_def mode_order)


theorem outliers_keep_lock_witness:
  "autoLockEffectivelyLocked (UpdateAutoLockDetector line_eigen 0 (0, 0) (5, 1)
     (locked_context (replicate 8 (5, 1) @ replicate 11 (0, 0))))"
proof -
  let ?h = "replicate 8 (5, 1) @ replicate 11 (0, 0) @ [(5, 1)] :: (real \<times> real) list"
  show ?thesis
    using outliers_keep_lock [of "locked_context (replicate 8 (5, 1) @ replicate 11 (0, 0))" ?h
        line_eigen "(0, 0)" "(5, 1)" vzero 0]
    by (simp add: line_eigen_def kHistoryMax_def kSamplesNeeded_def keep_last_def in_box_def vzero_def
        nth_append)
qed

theorem middle_sample_unlocks_witness:
  "\<not> autoLockEffectivelyLocked (UpdateAutoLockDetector line_eigen 0 (0, 0) (0, 0)
     (locked_context (replicate 10 (0, 0) @ (0, 1 / 10) # replicate 8 (0, 0))))"
proof -
  let ?h = "replicate 10 (0, 0) @ (0, 1 / 10) # (0, 0) # replicate 8 (0, 0) :: (real \<times> real) list"
  show ?thesis
    using middle_sample_unlocks [of "locked_context (replicate 10 (0, 0) @ (0, 1 / 10) # replicate 8 (0, 0))" ?h
        line_eigen "(0, 0)" "(0, 0)" 0]
    by (simp add: line_eigen_def kHistoryMax_def kSamplesNeeded_def keep_last_def nth_append
        replicate_append_same)
qed

text \<open>A window whose middle sample is turned away from a majority of the others is broken.\<close>

lemma middle_broken:
  assumes "length h div 2 < length (filter (\<lambda>p. 1 / 12 \<le> eg_angularDistance e (h ! (length h div 2)) p) h)"
  shows "window_broken e h"
proof -
  have "kLeaveRotRad \<le> 1 / 12 * (14826 / 10000)"
    using pi_less_4 by (simp add: kLeaveRotRad_def)
  then show ?thesis
    using RobustRotDeviation_majority(2) [OF assms] by (simp add: window_broken_def)
qed


end
