(* ===== verification/Liveness.thy ===== *)
theory Liveness
  imports AutoLock
begin

text \<open>
  The tracker-liveness detector (\<open>TrackerLiveness.h\<close>), the position hash it watches
  (\<open>CalibrationDevicePoseUtils.cpp\<close>) and the anchor gate of \<open>CalibrationTick\<close>, which runs one detector
  per anchor and decides whether a continuous tick may collect samples.
\<close>

section \<open>The position hash\<close>

text \<open>The arguments are the bit patterns of the three doubles.\<close>

definition HashPositionLow64 :: "u64 \<Rightarrow> u64 \<Rightarrow> u64 \<Rightarrow> u64" where
  "HashPositionLow64 h0 h1 h2 = h0 XOR (h1 * 0x9E3779B97F4A7C15) XOR (h2 * 0xC2B2AE3D27D4EB4F)"

lemma odd_multiplier_cancel:
  fixes c d x y :: u64
  assumes "c * d = 1"
  shows "x * c = y * c \<longleftrightarrow> x = y"
proof
  assume "x * c = y * c"
  then have "x * (c * d) = y * (c * d)" by (simp only: mult.assoc [symmetric])
  then show "x = y" by (simp add: assms)
qed simp

lemma xor_cancel:
  fixes x y z :: u64
  shows "x XOR z = y XOR z \<longleftrightarrow> x = y" and "z XOR x = z XOR y \<longleftrightarrow> x = y"
proof -
  have *: "(w XOR z) XOR z = w" for w by (simp add: xor.assoc)
  show "x XOR z = y XOR z \<longleftrightarrow> x = y" by (metis *)
  then show "z XOR x = z XOR y \<longleftrightarrow> x = y" by (simp add: xor.commute)
qed

lemma hash_multipliers:
  "(0x9E3779B97F4A7C15 :: u64) * 17428512612931826493 = 1"
  "(0xC2B2AE3D27D4EB4F :: u64) * 839798700976720815 = 1"
  by simp_all

section \<open>The detector\<close>

definition kFrozenPoseThresholdSec :: real where "kFrozenPoseThresholdSec = 8"
definition kHmdMovedThresholdMps :: real where "kHmdMovedThresholdMps = 2 / 100"
definition kReconnectDebounceSec :: real where "kReconnectDebounceSec = 2"

record TrackerLivenessState =
  poseHashSinceSec :: real
  lastPoseHash :: u64
  offlineSinceSec :: real
  reconnectSinceSec :: real
  hmdMovedDuringFreeze :: bool

record TrackerLivenessInputs =
  in_posHash :: u64
  in_connected :: bool
  in_hmdSpeedMps :: real
  in_now :: real

definition IsOffline :: "TrackerLivenessState \<Rightarrow> bool" where
  "IsOffline s \<longleftrightarrow> 0 \<le> offlineSinceSec s"

definition Liveness_Reset :: TrackerLivenessState where
  "Liveness_Reset = \<lparr>poseHashSinceSec = - 1, lastPoseHash = 0, offlineSinceSec = - 1,
     reconnectSinceSec = - 1, hmdMovedDuringFreeze = False\<rparr>"

text \<open>The branch in which the hash has changed.\<close>

definition hash_changed :: "TrackerLivenessState \<Rightarrow> TrackerLivenessInputs \<Rightarrow> TrackerLivenessState" where
  "hash_changed s i =
     (let s = s\<lparr>lastPoseHash := in_posHash i, poseHashSinceSec := in_now i, hmdMovedDuringFreeze := False\<rparr>
      in if IsOffline s
         then if reconnectSinceSec s < 0 then s\<lparr>reconnectSinceSec := in_now i\<rparr>
              else if kReconnectDebounceSec \<le> in_now i - reconnectSinceSec s then Liveness_Reset
              else s
         else s)"

definition hash_unchanged :: "TrackerLivenessState \<Rightarrow> TrackerLivenessInputs \<Rightarrow> bool \<times> TrackerLivenessState" where
  "hash_unchanged s i =
     (let s = (if 0 \<le> reconnectSinceSec s then s\<lparr>reconnectSinceSec := - 1\<rparr> else s);
          s = (if kHmdMovedThresholdMps \<le> in_hmdSpeedMps i then s\<lparr>hmdMovedDuringFreeze := True\<rparr> else s)
      in if IsOffline s then (False, s)
         else if poseHashSinceSec s < 0 then (False, s\<lparr>poseHashSinceSec := in_now i\<rparr>)
         else if kFrozenPoseThresholdSec \<le> in_now i - poseHashSinceSec s \<and> hmdMovedDuringFreeze s
         then (True, s\<lparr>offlineSinceSec := in_now i, reconnectSinceSec := - 1\<rparr>)
         else (False, s))"

definition TickTrackerLiveness ::
    "TrackerLivenessState \<Rightarrow> TrackerLivenessInputs \<Rightarrow> bool \<times> TrackerLivenessState" where
  "TickTrackerLiveness s i =
     (if \<not> in_connected i
      then if \<not> IsOffline s then (True, s\<lparr>offlineSinceSec := in_now i, reconnectSinceSec := - 1\<rparr>)
           else (False, s)
      else if in_posHash i \<noteq> lastPoseHash s then (False, hash_changed s i)
      else hash_unchanged s i)"

definition liveness_run :: "TrackerLivenessInputs list \<Rightarrow> TrackerLivenessState \<Rightarrow> TrackerLivenessState" where
  "liveness_run is s = fold (\<lambda>i s. snd (TickTrackerLiveness s i)) is s"

section \<open>The anchor gate of a continuous tick\<close>

record anchor_state =
  g_refLiveness :: TrackerLivenessState
  g_tgtLiveness :: TrackerLivenessState
  g_refWasOffline :: bool
  g_tgtWasOffline :: bool

datatype gate_decision = SkipTick | RestartContinuous | CollectSamples

text \<open>One anchor: an unassigned device and the headset itself are left to other detectors.\<close>

definition tickOne :: "int \<Rightarrow> TrackerLivenessInputs \<Rightarrow> TrackerLivenessState \<Rightarrow> TrackerLivenessState" where
  "tickOne devId i s = (if devId < 0 \<or> devId = 0 then s else snd (TickTrackerLiveness s i))"

definition anchor_reset :: anchor_state where
  "anchor_reset = \<lparr>g_refLiveness = Liveness_Reset, g_tgtLiveness = Liveness_Reset,
     g_refWasOffline = False, g_tgtWasOffline = False\<rparr>"

definition anchor_gate ::
    "'p CalibrationContext \<Rightarrow> TrackerLivenessInputs \<Rightarrow> TrackerLivenessInputs \<Rightarrow> anchor_state
     \<Rightarrow> gate_decision \<times> anchor_state" where
  "anchor_gate ctx refIn tgtIn g =
     (let ref = tickOne (referenceID ctx) refIn (g_refLiveness g);
          refOfflineNow = IsOffline ref;
          tgt = (if quashTargetInContinuous ctx then Liveness_Reset
                 else tickOne (targetID ctx) tgtIn (g_tgtLiveness g));
          tgtOfflineNow = (\<not> quashTargetInContinuous ctx \<and> IsOffline tgt);
          refReturned = (g_refWasOffline g \<and> \<not> refOfflineNow);
          tgtReturned = (g_tgtWasOffline g \<and> \<not> tgtOfflineNow);
          g = \<lparr>g_refLiveness = ref, g_tgtLiveness = tgt,
               g_refWasOffline = refOfflineNow, g_tgtWasOffline = tgtOfflineNow\<rparr>
      in if refOfflineNow \<or> tgtOfflineNow then (SkipTick, g)
         else if refReturned \<or> tgtReturned
         then if lockRelativePosition ctx \<and> relativePosCalibrated ctx then (CollectSamples, anchor_reset)
              else (RestartContinuous, anchor_reset)
         else (CollectSamples, g))"

lemmas liveness_simps = TickTrackerLiveness_def hash_changed_def hash_unchanged_def
  IsOffline_def Liveness_Reset_def kReconnectDebounceSec_def Let_def

section \<open>Properties\<close>

text \<open>
  The hash sees every movement along one axis: two positions whose bit patterns differ in exactly
  one coordinate have different hashes.
\<close>

theorem HashPositionLow64_detects:
  "(HashPositionLow64 x b c = HashPositionLow64 y b c \<longleftrightarrow> x = y)
   \<and> (HashPositionLow64 a x c = HashPositionLow64 a y c \<longleftrightarrow> x = y)
   \<and> (HashPositionLow64 a b x = HashPositionLow64 a b y \<longleftrightarrow> x = y)"
  by (simp only: HashPositionLow64_def xor_cancel odd_multiplier_cancel [OF hash_multipliers(1)]
      odd_multiplier_cancel [OF hash_multipliers(2)])

text \<open>The detector reports a loss exactly once: on every tick at a non-negative time the returned
  flag is set if and only if the tracker was online before and is offline afterwards.
\<close>

theorem offline_edge:
  assumes "0 \<le> in_now i"
  shows "fst (TickTrackerLiveness s i) \<longleftrightarrow> \<not> IsOffline s \<and> IsOffline (snd (TickTrackerLiveness s i))"
  using assms by (auto simp: liveness_simps)

theorem offline_edge_witness:
  "fst (TickTrackerLiveness Liveness_Reset
     \<lparr>in_posHash = 1, in_connected = False, in_hmdSpeedMps = 0, in_now = 3\<rparr>)"
  using offline_edge [of "\<lparr>in_posHash = 1, in_connected = False, in_hmdSpeedMps = 0, in_now = 3\<rparr>" Liveness_Reset]
  by (simp add: TickTrackerLiveness_def IsOffline_def Liveness_Reset_def)

section \<open>Alarms are justified\<close>

definition frozen_stretch :: "TrackerLivenessInputs list \<Rightarrow> u64 \<Rightarrow> real \<Rightarrow> bool \<Rightarrow> bool" where
  "frozen_stretch suf h since moved \<longleftrightarrow> suf \<noteq> [] \<and> 0 \<le> since
     \<and> list_all (\<lambda>j. in_connected j \<and> in_posHash j = h) suf \<and> in_now (hd suf) = since
     \<and> (moved \<longrightarrow> list_ex (\<lambda>j. kHmdMovedThresholdMps \<le> in_hmdSpeedMps j) suf)"

definition watched :: "TrackerLivenessInputs list \<Rightarrow> TrackerLivenessState \<Rightarrow> bool" where
  "watched is s \<longleftrightarrow> IsOffline s
     \<or> (poseHashSinceSec s < 0 \<and> \<not> hmdMovedDuringFreeze s)
     \<or> (\<exists>pre suf. is = pre @ suf
          \<and> frozen_stretch suf (lastPoseHash s) (poseHashSinceSec s) (hmdMovedDuringFreeze s))"

lemma frozen_stretch_one:
  "in_connected i \<Longrightarrow> 0 \<le> in_now i \<Longrightarrow> (m \<longrightarrow> kHmdMovedThresholdMps \<le> in_hmdSpeedMps i) \<Longrightarrow>
     frozen_stretch [i] (in_posHash i) (in_now i) m"
  by (simp add: frozen_stretch_def)

lemma frozen_stretch_snoc:
  "\<lbrakk>frozen_stretch suf h t m; in_connected i; in_posHash i = h;
    m' \<longrightarrow> m \<or> kHmdMovedThresholdMps \<le> in_hmdSpeedMps i\<rbrakk> \<Longrightarrow> frozen_stretch (suf @ [i]) h t m'"
  by (auto simp: frozen_stretch_def)

lemma watched_one:
  "\<lbrakk>in_connected i; 0 \<le> in_now i; lastPoseHash s = in_posHash i; poseHashSinceSec s = in_now i;
    hmdMovedDuringFreeze s \<longrightarrow> kHmdMovedThresholdMps \<le> in_hmdSpeedMps i\<rbrakk> \<Longrightarrow> watched (is @ [i]) s"
  using frozen_stretch_one [of i "hmdMovedDuringFreeze s"] unfolding watched_def by metis

lemma hash_changed_watched:
  assumes "in_connected i" and "0 \<le> in_now i"
  shows "watched (is @ [i]) (hash_changed s i)"
proof (cases "IsOffline (hash_changed s i)")
  case False
  then have "hash_changed s i = Liveness_Reset \<or>
      (lastPoseHash (hash_changed s i) = in_posHash i \<and> poseHashSinceSec (hash_changed s i) = in_now i
       \<and> \<not> hmdMovedDuringFreeze (hash_changed s i))"
    by (auto simp: hash_changed_def Let_def)
  then show ?thesis
    using assms watched_one [of i "hash_changed s i" "is"] by (auto simp: watched_def Liveness_Reset_def)
qed (simp add: watched_def)

lemma hash_unchanged_fields:
  "lastPoseHash (snd (hash_unchanged s i)) = lastPoseHash s"
  "\<not> IsOffline s \<Longrightarrow> poseHashSinceSec (snd (hash_unchanged s i)) =
     (if poseHashSinceSec s < 0 then in_now i else poseHashSinceSec s)"
  "hmdMovedDuringFreeze (snd (hash_unchanged s i)) \<longleftrightarrow>
     hmdMovedDuringFreeze s \<or> kHmdMovedThresholdMps \<le> in_hmdSpeedMps i"
  by (simp_all add: hash_unchanged_def Let_def IsOffline_def)

lemma hash_unchanged_watched:
  assumes "in_connected i" and "0 \<le> in_now i" and "in_posHash i = lastPoseHash s" and "watched is s"
  shows "watched (is @ [i]) (snd (hash_unchanged s i))"
proof (cases "IsOffline s")
  case True
  then have "IsOffline (snd (hash_unchanged s i))"
    by (simp add: hash_unchanged_def Let_def IsOffline_def)
  then show ?thesis by (simp add: watched_def)
next
  case online: False
  show ?thesis
  proof (cases "poseHashSinceSec s < 0 \<and> \<not> hmdMovedDuringFreeze s")
    case True
    then show ?thesis
      using assms(1-3) online by (intro watched_one) (simp_all add: hash_unchanged_fields)
  next
    case False
    with assms(4) online obtain pre suf where "is = pre @ suf"
      and st: "frozen_stretch suf (lastPoseHash s) (poseHashSinceSec s) (hmdMovedDuringFreeze s)"
      by (auto simp: watched_def)
    moreover have "frozen_stretch (suf @ [i]) (lastPoseHash s) (poseHashSinceSec s)
        (hmdMovedDuringFreeze (snd (hash_unchanged s i)))"
      by (rule frozen_stretch_snoc [OF st assms(1,3)]) (simp add: hash_unchanged_fields)
    moreover have "poseHashSinceSec (snd (hash_unchanged s i)) = poseHashSinceSec s"
      using st online by (simp add: hash_unchanged_fields frozen_stretch_def)
    ultimately show ?thesis
      unfolding watched_def hash_unchanged_fields(1) by (metis append_assoc)
  qed
qed

lemma watched_tick:
  assumes "0 \<le> in_now i" and "watched is s"
  shows "watched (is @ [i]) (snd (TickTrackerLiveness s i))"
proof (cases "in_connected i")
  case True
  then show ?thesis
    using assms hash_changed_watched [of i "is" s] hash_unchanged_watched [of i s "is"]
    by (simp add: TickTrackerLiveness_def)
qed (use assms in \<open>simp add: TickTrackerLiveness_def watched_def IsOffline_def\<close>)

lemma watched_run: "\<forall>i\<in>set is. 0 \<le> in_now i \<Longrightarrow> watched is (liveness_run is Liveness_Reset)"
proof (induction "is" rule: rev_induct)
  case Nil
  then show ?case by (simp add: liveness_run_def watched_def Liveness_Reset_def)
next
  case (snoc i "is")
  then show ?case using watched_tick [of i "is" "liveness_run is Liveness_Reset"]
    by (simp add: liveness_run_def)
qed

text \<open>C37: A freeze alarm is never raised without cause. When the detector, started fresh and ticked at
  non-negative times, reports the loss of a device that still claims to be connected, then the trace
  ends in a stretch of ticks that all carry the same position hash, that began at least eight
  seconds ago, and during which the headset moved at 0.02 m/s or more.
\<close>

theorem freeze_alarm_justified:
  assumes "\<forall>j\<in>set is. 0 \<le> in_now j" and "in_connected i"
    and "fst (TickTrackerLiveness (liveness_run is Liveness_Reset) i)"
  shows "\<exists>pre suf. is = pre @ suf \<and> suf \<noteq> []
     \<and> list_all (\<lambda>j. in_connected j \<and> in_posHash j = in_posHash i) suf
     \<and> 8 \<le> in_now i - in_now (hd suf)
     \<and> list_ex (\<lambda>j. 2 / 100 \<le> in_hmdSpeedMps j) (suf @ [i])"
proof -
  let ?s = "liveness_run is Liveness_Reset"
  have fire: "fst (hash_unchanged ?s i)" and same: "in_posHash i = lastPoseHash ?s"
    using assms(2,3) by (auto simp: TickTrackerLiveness_def split: if_splits)
  then have "\<not> IsOffline ?s" "0 \<le> poseHashSinceSec ?s"
    and "8 \<le> in_now i - poseHashSinceSec ?s"
    and moved: "hmdMovedDuringFreeze ?s \<or> 2 / 100 \<le> in_hmdSpeedMps i"
    by (auto simp: hash_unchanged_def Let_def IsOffline_def kFrozenPoseThresholdSec_def
        kHmdMovedThresholdMps_def split: if_splits)
  moreover from this obtain pre suf where "is = pre @ suf"
    and "frozen_stretch suf (lastPoseHash ?s) (poseHashSinceSec ?s) (hmdMovedDuringFreeze ?s)"
    using watched_run [OF assms(1)] by (auto simp: watched_def)
  ultimately show ?thesis
    using same by (intro exI [of _ pre] exI [of _ suf]) (auto simp: frozen_stretch_def kHmdMovedThresholdMps_def)
qed


definition probe :: "u64 \<Rightarrow> real \<Rightarrow> real \<Rightarrow> TrackerLivenessInputs" where
  "probe h v t = \<lparr>in_posHash = h, in_connected = True, in_hmdSpeedMps = v, in_now = t\<rparr>"

theorem freeze_alarm_justified_witness:
  "\<exists>pre suf. [probe 7 0 1, probe 7 1 2] = pre @ suf \<and> suf \<noteq> []
     \<and> list_all (\<lambda>j. in_connected j \<and> in_posHash j = in_posHash (probe 7 0 9)) suf
     \<and> 8 \<le> in_now (probe 7 0 9) - in_now (hd suf)
     \<and> list_ex (\<lambda>j. 2 / 100 \<le> in_hmdSpeedMps j) (suf @ [probe 7 0 9])"
  by (rule freeze_alarm_justified)
    (simp_all add: probe_def liveness_run_def TickTrackerLiveness_def hash_changed_def hash_unchanged_def
      IsOffline_def Liveness_Reset_def kFrozenPoseThresholdSec_def kHmdMovedThresholdMps_def Let_def)

section \<open>Losses are detected\<close>

lemma hash_unchanged_offline:
  "IsOffline (snd (hash_unchanged s i)) \<longleftrightarrow> IsOffline s \<or>
     (0 \<le> in_now i \<and> 0 \<le> poseHashSinceSec s \<and> 8 \<le> in_now i - poseHashSinceSec s
      \<and> (hmdMovedDuringFreeze s \<or> kHmdMovedThresholdMps \<le> in_hmdSpeedMps i))"
  by (simp add: hash_unchanged_def Let_def IsOffline_def kFrozenPoseThresholdSec_def)

lemma frozen_tick:
  assumes "in_connected i" "in_posHash i = lastPoseHash s" "0 \<le> in_now i"
    and "IsOffline s \<or> (0 \<le> poseHashSinceSec s \<and> poseHashSinceSec s \<le> t)"
  defines "s' \<equiv> snd (TickTrackerLiveness s i)"
  shows "lastPoseHash s' = lastPoseHash s"
    and "IsOffline s' \<or> (0 \<le> poseHashSinceSec s' \<and> poseHashSinceSec s' \<le> t)"
    and "hmdMovedDuringFreeze s' \<longleftrightarrow> hmdMovedDuringFreeze s \<or> kHmdMovedThresholdMps \<le> in_hmdSpeedMps i"
    and "hmdMovedDuringFreeze s' \<Longrightarrow> t + 8 \<le> in_now i \<Longrightarrow> IsOffline s'"
proof -
  have s': "s' = snd (hash_unchanged s i)"
    using assms(1,2) by (simp add: s'_def TickTrackerLiveness_def)
  show "lastPoseHash s' = lastPoseHash s"
    and "hmdMovedDuringFreeze s' \<longleftrightarrow> hmdMovedDuringFreeze s \<or> kHmdMovedThresholdMps \<le> in_hmdSpeedMps i"
    by (simp_all add: s' hash_unchanged_fields)
  show "IsOffline s' \<or> (0 \<le> poseHashSinceSec s' \<and> poseHashSinceSec s' \<le> t)"
    using assms(4) by (cases "IsOffline s") (simp_all add: s' hash_unchanged_offline hash_unchanged_fields)
  show "hmdMovedDuringFreeze s' \<Longrightarrow> t + 8 \<le> in_now i \<Longrightarrow> IsOffline s'"
    using assms(3,4) by (auto simp: s' hash_unchanged_offline hash_unchanged_fields)
qed

lemma frozen_run:
  "\<lbrakk>\<forall>i\<in>set is. in_connected i \<and> in_posHash i = lastPoseHash s \<and> 0 \<le> in_now i;
    IsOffline s \<or> (0 \<le> poseHashSinceSec s \<and> poseHashSinceSec s \<le> t); is \<noteq> [];
    hmdMovedDuringFreeze s \<or> (\<exists>i\<in>set is. kHmdMovedThresholdMps \<le> in_hmdSpeedMps i);
    t + 8 \<le> in_now (last is)\<rbrakk> \<Longrightarrow> IsOffline (liveness_run is s)"
proof (induction "is" arbitrary: s)
  case (Cons i "is")
  let ?s' = "snd (TickTrackerLiveness s i)"
  have i: "in_connected i" "in_posHash i = lastPoseHash s" "0 \<le> in_now i"
    using Cons.prems(1) by auto
  note ft = frozen_tick [OF i Cons.prems(2)]
  show ?case
  proof (cases "is = []")
    case True
    then show ?thesis using ft(3,4) Cons.prems(4,5) by (simp add: liveness_run_def)
  next
    case False
    have "IsOffline (liveness_run is ?s')"
      by (rule Cons.IH [OF _ ft(2) False]) (use Cons.prems(1,4,5) ft(1,3) False in auto)
    then show ?thesis by (simp add: liveness_run_def)
  qed
qed simp

text \<open>A silently lost tracker is detected. If a device keeps claiming to be connected but its position
  hash stays what it was, and the headset moves at 0.02 m/s or more on some tick of the stretch, the
  device is offline as soon as the stretch has lasted eight seconds.
\<close>

theorem frozen_tracker_detected:
  assumes "\<forall>i\<in>set is. in_connected i \<and> in_posHash i = lastPoseHash s \<and> 0 \<le> in_now i"
    and "0 \<le> poseHashSinceSec s" and "is \<noteq> []"
    and "\<exists>i\<in>set is. 2 / 100 \<le> in_hmdSpeedMps i"
    and "poseHashSinceSec s + 8 \<le> in_now (last is)"
  shows "IsOffline (liveness_run is s)"
  using frozen_run [of "is" s "poseHashSinceSec s"] assms by (auto simp: kHmdMovedThresholdMps_def)

theorem frozen_tracker_detected_witness:
  "IsOffline (liveness_run [probe 7 1 2, probe 7 0 9] (Liveness_Reset\<lparr>lastPoseHash := 7, poseHashSinceSec := 1\<rparr>))"
  by (rule frozen_tracker_detected) (simp_all add: probe_def Liveness_Reset_def)

text \<open>
  A device that never disconnects and a headset that never moves raise no alarm, whatever the trace.
\<close>

theorem still_user_no_alarm:
  assumes "\<forall>i\<in>set is. 0 \<le> in_now i \<and> in_connected i \<and> in_hmdSpeedMps i < 2 / 100"
  shows "\<not> IsOffline (liveness_run is Liveness_Reset)"
proof -
  have tick: "\<not> IsOffline (snd (TickTrackerLiveness s i)) \<and> \<not> hmdMovedDuringFreeze (snd (TickTrackerLiveness s i))"
    if "in_connected i" "in_hmdSpeedMps i < 2 / 100" "\<not> IsOffline s" "\<not> hmdMovedDuringFreeze s" for s i
    using that by (auto simp: TickTrackerLiveness_def hash_changed_def hash_unchanged_def Let_def
        IsOffline_def kHmdMovedThresholdMps_def)
  have "\<not> IsOffline (liveness_run is s)" if "\<not> IsOffline s" "\<not> hmdMovedDuringFreeze s" for s
    using assms that by (induction "is" arbitrary: s) (simp_all add: liveness_run_def tick)
  then show ?thesis by (simp add: IsOffline_def Liveness_Reset_def)
qed

text \<open>
  An explicit disconnect does not restart the reconnect debounce: a device that was seen to move
  once while offline, then was disconnected for any length of time, is online again with its first
  changed pose once two seconds have passed since that first movement.
\<close>

lemma debounce_survives_disconnect:
  assumes "IsOffline s" and "0 \<le> reconnectSinceSec s" and "\<forall>i\<in>set gap. \<not> in_connected i"
    and "in_connected i" and "in_posHash i \<noteq> lastPoseHash s" and "reconnectSinceSec s + 2 \<le> in_now i"
  shows "liveness_run (gap @ [i]) s = Liveness_Reset"
proof -
  have "liveness_run gap s = s"
    using assms(1,3) by (induction gap) (simp_all add: liveness_run_def TickTrackerLiveness_def)
  then show ?thesis
    using assms by (simp add: liveness_run_def TickTrackerLiveness_def hash_changed_def
        kReconnectDebounceSec_def IsOffline_def)
qed

section \<open>The anchor gate\<close>

text \<open>A continuous tick collects samples only while both anchors are alive: whenever the gate lets the
  tick go on, neither detector of the new state is offline and no stale offline edge is left behind;
  and when an anchor has come back, samples collected before are discarded unless the locked
  relative pose is calibrated.
\<close>

theorem anchor_gate_outcome:
  "case anchor_gate ctx refIn tgtIn g of
     (CollectSamples, g') \<Rightarrow> \<not> IsOffline (g_refLiveness g') \<and> \<not> IsOffline (g_tgtLiveness g')
        \<and> \<not> g_refWasOffline g' \<and> \<not> g_tgtWasOffline g'
        \<and> ((\<not> g_refWasOffline g \<and> \<not> g_tgtWasOffline g)
            \<or> (lockRelativePosition ctx \<and> relativePosCalibrated ctx))
   | (RestartContinuous, g') \<Rightarrow> g' = anchor_reset \<and> (g_refWasOffline g \<or> g_tgtWasOffline g)
   | (SkipTick, g') \<Rightarrow> (IsOffline (g_refLiveness g') \<and> g_refWasOffline g')
        \<or> (IsOffline (g_tgtLiveness g') \<and> g_tgtWasOffline g' \<and> \<not> quashTargetInContinuous ctx)"
  by (auto simp: anchor_gate_def Let_def anchor_reset_def Liveness_Reset_def IsOffline_def)

end
