(* ===== verification/GeometryShift.thy ===== *)
theory GeometryShift
  imports AutoLock
begin

text \<open>
  The geometry-shift watchdog of the calibration overlay: the spike and CUSUM rules of
  \<open>GeometryShiftDetector.h\<close>, the common-mode check of \<open>CommonModeCoherence.h\<close>, the reject reasons of
  \<open>CalibrationRejectReason.h\<close>, and the block of \<open>CalibrationTick\<close> that votes, suppresses and fires. The
  runtime wedge detector, the stuck-loop watchdog and the table of legal state transitions are here
  too.
\<close>

section \<open>Spikes and cooldown\<close>

definition kSpikeRatio :: real where "kSpikeRatio = 5"
definition kMedianFloor :: real where "kMedianFloor = 1 / 10 ^ 9"
definition kMinSustainedSpikes :: int where "kMinSustainedSpikes = 3"
definition kPostFireCooldownSeconds :: real where "kPostFireCooldownSeconds = 30"

definition IsCurrentErrorSpike :: "real \<Rightarrow> real \<Rightarrow> bool" where
  "IsCurrentErrorSpike currentError rollingMedian \<longleftrightarrow>
     kMedianFloor < rollingMedian \<and> kSpikeRatio * rollingMedian < currentError"

definition ShouldFireGeometryShiftRecovery :: "int \<Rightarrow> bool" where
  "ShouldFireGeometryShiftRecovery sustainedSpikes \<longleftrightarrow> kMinSustainedSpikes \<le> sustainedSpikes"

definition ShouldSuppressForCooldown :: "real \<Rightarrow> real \<Rightarrow> bool" where
  "ShouldSuppressForCooldown now cooldownUntil \<longleftrightarrow> now < cooldownUntil"

section \<open>CUSUM\<close>

definition kCusumDriftMm :: real where "kCusumDriftMm = 5 / 10"
definition kCusumThreshold :: real where "kCusumThreshold = 5"
definition kCusumMinExcursionMm :: real where "kCusumMinExcursionMm = 5"

record CusumState =
  cusum_S :: real
  sustainedAboveThreshold :: int

definition Cusum_Reset :: CusumState where
  "Cusum_Reset = \<lparr>cusum_S = 0, sustainedAboveThreshold = 0\<rparr>"

text \<open>The result is the new state and, when the trigger fires, the sum and the counter at that moment.\<close>

definition UpdateCusumGeometryShift ::
    "CusumState \<Rightarrow> real \<Rightarrow> real \<Rightarrow> real \<Rightarrow> real \<Rightarrow> CusumState \<times> (real \<times> int) option" where
  "UpdateCusumGeometryShift st currentErrorMm baselineMm driftMm threshold =
     (let minExcursionMm = (if threshold < kCusumMinExcursionMm then threshold else kCusumMinExcursionMm)
      in if currentErrorMm - baselineMm < minExcursionMm then (Cusum_Reset, None)
         else let s = cusum_S st + ((currentErrorMm - baselineMm) - driftMm);
                  s = (if s < 0 then 0 else s);
                  n = sustainedAboveThreshold st + 1
              in if threshold < s
                 then if kMinSustainedSpikes \<le> n then (Cusum_Reset, Some (s, n))
                      else (\<lparr>cusum_S = s, sustainedAboveThreshold = n\<rparr>, None)
                 else (\<lparr>cusum_S = s, sustainedAboveThreshold = 0\<rparr>, None))"

section \<open>Common-mode coherence\<close>

definition kSuppressThreshold :: real where "kSuppressThreshold = 70 / 100"
definition kMinExtrasForCoherence :: int where "kMinExtrasForCoherence = 1"

definition ComputeCoherenceScore :: "real \<Rightarrow> real list \<Rightarrow> real" where
  "ComputeCoherenceScore primaryRatio extraRatios =
     (if extraRatios = [] then 0
      else if \<not> 0 < primaryRatio then 0
      else let score = median_of extraRatios / primaryRatio;
               score = (if score < 0 then 0 else score)
           in if 1 < score then 1 else score)"

definition ShouldSuppressFire :: "real \<Rightarrow> int \<Rightarrow> bool" where
  "ShouldSuppressFire coherenceScore extrasCount \<longleftrightarrow>
     kMinExtrasForCoherence \<le> extrasCount \<and> kSuppressThreshold \<le> coherenceScore"

text \<open>The spike ratio of an additional pair, if it takes part in the vote.\<close>

definition extra_ratio :: "'p AdditionalCalibration \<Rightarrow> real option" where
  "extra_ratio x =
     (if \<not> ex_enabled x \<or> \<not> ex_valid x then None
      else if length (ex_recentErrorsMm x) < 5 then None
      else let xMedian = median_of (ex_recentErrorsMm x);
               xCurrent = last (ex_recentErrorsMm x)
           in if xMedian \<le> kMedianFloor then None else Some (xCurrent / xMedian))"

section \<open>Reject reasons\<close>

definition NeedsMoreRotation :: "string \<Rightarrow> bool" where
  "NeedsMoreRotation reason \<longleftrightarrow> reason = ''rotation_no_deltas'' \<or> reason = ''rotation_planar''"

definition NeedsMoreTranslation :: "string \<Rightarrow> bool" where
  "NeedsMoreTranslation reason \<longleftrightarrow> reason = ''translation_no_deltas''
     \<or> reason = ''translation_planar'' \<or> reason = ''axis_variance_low''"

definition IsMotionQualityGate :: "string \<Rightarrow> bool" where
  "IsMotionQualityGate reason \<longleftrightarrow> NeedsMoreRotation reason \<or> NeedsMoreTranslation reason"

section \<open>The block of the tick\<close>

record geom_state =
  g_geomShiftConsecutiveBadTicks :: int
  g_cusumState :: CusumState
  s_lastErrorTs :: real

record geom_input =
  gi_time :: real
  gi_errSeries :: "(real \<times> real) list"
  gi_calValid :: bool
  gi_rejectReason :: string

definition useCusumGeometryShift :: bool where "useCusumGeometryShift = False"

definition geom_clear :: "geom_state \<Rightarrow> geom_state" where
  "geom_clear g = g\<lparr>g_geomShiftConsecutiveBadTicks := 0, g_cusumState := Cusum_Reset\<rparr>"

definition window_median :: "(real \<times> real) list \<Rightarrow> real" where
  "window_median errSeries = median_of (map snd (keep_last (min 30 (length errSeries)) errSeries))"

definition window_current :: "(real \<times> real) list \<Rightarrow> real" where
  "window_current errSeries = snd (last errSeries)"

text \<open>The vote of the primary pair.\<close>

definition geom_vote :: "real \<Rightarrow> real \<Rightarrow> geom_state \<Rightarrow> bool \<times> geom_state" where
  "geom_vote current median g =
     (if useCusumGeometryShift
      then let r = UpdateCusumGeometryShift (g_cusumState g) current median kCusumDriftMm kCusumThreshold
           in (snd r \<noteq> None, g\<lparr>g_cusumState := fst r, g_geomShiftConsecutiveBadTicks := 0\<rparr>)
      else let n = (if IsCurrentErrorSpike current median then g_geomShiftConsecutiveBadTicks g + 1 else 0)
           in (ShouldFireGeometryShiftRecovery n,
               g\<lparr>g_geomShiftConsecutiveBadTicks := n, g_cusumState := Cusum_Reset\<rparr>))"

definition geom_coherence :: "real \<Rightarrow> 'p AdditionalCalibration list \<Rightarrow> bool" where
  "geom_coherence ratio extras =
     (let extraRatios = List.map_filter extra_ratio extras
      in ShouldSuppressFire (ComputeCoherenceScore ratio extraRatios) (int (length extraRatios)))"

definition geom_motion_quality :: "'p CalibrationContext \<Rightarrow> string \<Rightarrow> real \<Rightarrow> real \<Rightarrow> bool" where
  "geom_motion_quality ctx reason current median \<longleftrightarrow>
     cal_state ctx = CalContinuous \<and> \<not> ps_captured (lastAcceptedContinuousSnapshot ctx)
     \<and> IsMotionQualityGate reason \<and> \<not> IsCurrentErrorSpike current median"

definition geom_fire :: "real \<Rightarrow> 'p CalibrationContext \<Rightarrow> 'p CalibrationContext" where
  "geom_fire time ctx =
     (let ctx = (if 0 < warmRestartGraceSamples ctx then ctx\<lparr>warmRestartGraceSamples := 0\<rparr> else ctx)
      in ctx\<lparr>cal_state := CalContinuousStandby,
             geometryShiftCooldownUntil := time + kPostFireCooldownSeconds\<rparr>)"

text \<open>A fresh error sample: vote, then the three ways to suppress the vote, then the recovery.\<close>

definition geom_sample ::
    "geom_input \<Rightarrow> geom_state \<times> 'p CalibrationContext \<Rightarrow> bool \<times> geom_state \<times> 'p CalibrationContext" where
  "geom_sample i s =
     (let (g, ctx) = s;
          g = g\<lparr>s_lastErrorTs := fst (last (gi_errSeries i))\<rparr>;
          median = window_median (gi_errSeries i);
          current = window_current (gi_errSeries i);
          ratio = (if kMedianFloor < median then current / median else 0);
          (fire, g) = geom_vote current median g
      in if fire \<and> geom_coherence ratio (additionalCalibrations ctx) then (False, geom_clear g, ctx)
         else if fire \<and> ShouldSuppressForCooldown (gi_time i) (geometryShiftCooldownUntil ctx)
         then (False, geom_clear g, ctx)
         else if fire \<and> geom_motion_quality ctx (gi_rejectReason i) current median
         then (False, geom_clear g, ctx)
         else if fire then (True, geom_clear g, geom_fire (gi_time i) ctx)
         else (False, g, ctx))"

definition in_grace :: "real \<Rightarrow> 'p CalibrationContext \<Rightarrow> bool" where
  "in_grace time ctx \<longleftrightarrow> 0 < geometryShiftGraceUntil ctx \<and> time < geometryShiftGraceUntil ctx"

text \<open>The flag of the result says whether the recovery fired, in which case the solver is cleared.\<close>

definition GeometryShiftTick ::
    "geom_input \<Rightarrow> geom_state \<times> 'p CalibrationContext \<Rightarrow> bool \<times> geom_state \<times> 'p CalibrationContext" where
  "GeometryShiftTick i s =
     (if in_grace (gi_time i) (snd s) then (False, geom_clear (fst s), snd s)
      else if 5 \<le> length (gi_errSeries i) \<and> gi_calValid i
      then if s_lastErrorTs (fst s) < fst (last (gi_errSeries i)) then geom_sample i s
           else (False, s)
      else (False, geom_clear (fst s), snd s))"

section \<open>Wedge detector, watchdog, state table\<close>

definition kMaxPlausibleCalibrationMagnitudeCm :: real where "kMaxPlausibleCalibrationMagnitudeCm = 500"
definition kRuntimeWedgeDebounceSec :: real where "kRuntimeWedgeDebounceSec = 30"

definition ShouldFireRuntimeWedgeRecovery :: "real \<Rightarrow> real \<Rightarrow> real \<Rightarrow> bool \<times> real" where
  "ShouldFireRuntimeWedgeRecovery magnitudeCm now wedgeSince =
     (if magnitudeCm \<le> kMaxPlausibleCalibrationMagnitudeCm then (False, - 1)
      else if wedgeSince < 0 then (False, now)
      else if kRuntimeWedgeDebounceSec \<le> now - wedgeSince then (True, - 1)
      else (False, wedgeSince))"

definition kMaxConsecutiveRejections :: int where "kMaxConsecutiveRejections = 50"
definition kHealthyPriorErrorMaxMeters :: real where "kHealthyPriorErrorMaxMeters = 5 / 1000"

definition IsCalibrationHealthy :: "bool \<Rightarrow> real \<Rightarrow> bool" where
  "IsCalibrationHealthy isValid priorErrorMeters \<longleftrightarrow>
     isValid \<and> priorErrorMeters < kHealthyPriorErrorMaxMeters"

definition ShouldClearViaWatchdog :: "bool \<Rightarrow> int \<Rightarrow> real \<Rightarrow> bool" where
  "ShouldClearViaWatchdog isValid rejectionCount priorErrorMeters \<longleftrightarrow>
     isValid \<and> kMaxConsecutiveRejections \<le> rejectionCount \<and> \<not> IsCalibrationHealthy isValid priorErrorMeters"

fun IsLegalTransition :: "CalibrationState \<Rightarrow> CalibrationState \<Rightarrow> bool" where
  "IsLegalTransition from to =
     (if from = to then True
      else case from of
        CalNone \<Rightarrow> to \<in> {CalBegin, CalContinuous, CalContinuousStandby, CalEditing}
      | CalBegin \<Rightarrow> to \<in> {CalNone, CalRotation, CalContinuous}
      | CalRotation \<Rightarrow> to \<in> {CalNone, CalTranslation}
      | CalTranslation \<Rightarrow> to = CalNone
      | CalEditing \<Rightarrow> to = CalNone
      | CalContinuous \<Rightarrow> to \<in> {CalNone, CalBegin, CalContinuousStandby}
      | CalContinuousStandby \<Rightarrow> to \<in> {CalNone, CalBegin, CalContinuous})"

section \<open>Properties of the parts\<close>

lemma ComputeCoherenceScore_range: "0 \<le> ComputeCoherenceScore p xs \<and> ComputeCoherenceScore p xs \<le> 1"
  by (simp add: ComputeCoherenceScore_def Let_def)

lemma coherence_threshold:
  assumes "0 < p" and "xs \<noteq> []"
  shows "kSuppressThreshold \<le> ComputeCoherenceScore p xs \<longleftrightarrow> 70 / 100 * p \<le> median_of xs"
proof -
  have "70 / 100 \<le> median_of xs / p \<longleftrightarrow> 70 / 100 * p \<le> median_of xs"
    using assms(1) by (simp add: pos_le_divide_eq)
  then show ?thesis
    using assms by (auto simp: ComputeCoherenceScore_def Let_def kSuppressThreshold_def divide_less_0_iff)
qed

text \<open>
  The cumulative sum never fires on excursions below 5 mm, and from a fresh state it fires at the
  latest on the fourth of four consecutive excursions of 5 mm or more.
\<close>

fun cusum_fires :: "CusumState \<Rightarrow> real list \<Rightarrow> bool" where
  "cusum_fires st [] = False"
| "cusum_fires st (x # xs) \<longleftrightarrow>
     (case UpdateCusumGeometryShift st x 0 kCusumDriftMm kCusumThreshold of
        (st', r) \<Rightarrow> r \<noteq> None \<or> cusum_fires st' xs)"

lemma cusum_small: "\<forall>x\<in>set xs. x < 5 \<Longrightarrow> \<not> cusum_fires st xs"
  by (induction xs arbitrary: st)
    (simp_all add: UpdateCusumGeometryShift_def kCusumThreshold_def kCusumMinExcursionMm_def)

lemma cusum_four:
  assumes "5 \<le> a" "5 \<le> b" "5 \<le> c" "5 \<le> d"
  shows "cusum_fires Cusum_Reset [a, b, c, d]"
  using assms by (simp add: UpdateCusumGeometryShift_def Cusum_Reset_def kCusumThreshold_def
      kCusumMinExcursionMm_def kCusumDriftMm_def kMinSustainedSpikes_def Let_def)

text \<open>
  After a fire the wedge detector fires again while the magnitude never drops: the tick after a
  fire starts a new debounce.
\<close>

lemma wedge_refires:
  assumes "500 < m" "0 \<le> t1" "t1 + 30 \<le> t2" "0 \<le> w" "w + 30 \<le> t0"
  shows "fst (ShouldFireRuntimeWedgeRecovery m t0 w)
    \<and> fst (ShouldFireRuntimeWedgeRecovery m t2 (snd (ShouldFireRuntimeWedgeRecovery m t1
        (snd (ShouldFireRuntimeWedgeRecovery m t0 w)))))"
  using assms by (simp add: ShouldFireRuntimeWedgeRecovery_def kMaxPlausibleCalibrationMagnitudeCm_def
      kRuntimeWedgeDebounceSec_def)

text \<open>The bound of the healthy band itself is not healthy.\<close>

lemma watchdog_boundary:
  "ShouldClearViaWatchdog True n kHealthyPriorErrorMaxMeters \<longleftrightarrow> 50 \<le> n"
  by (simp add: ShouldClearViaWatchdog_def IsCalibrationHealthy_def kMaxConsecutiveRejections_def)

section \<open>Properties of the tick\<close>

lemma geom_vote_legacy:
  "geom_vote c m g =
     (let n = (if IsCurrentErrorSpike c m then g_geomShiftConsecutiveBadTicks g + 1 else 0)
      in (3 \<le> n, g\<lparr>g_geomShiftConsecutiveBadTicks := n, g_cusumState := Cusum_Reset\<rparr>))"
  by (simp add: geom_vote_def useCusumGeometryShift_def ShouldFireGeometryShiftRecovery_def
      kMinSustainedSpikes_def Let_def)

definition gi_spike :: "geom_input \<Rightarrow> bool" where
  "gi_spike i \<longleftrightarrow> IsCurrentErrorSpike (window_current (gi_errSeries i)) (window_median (gi_errSeries i))"

definition gi_ratio :: "geom_input \<Rightarrow> real" where
  "gi_ratio i = window_current (gi_errSeries i) / window_median (gi_errSeries i)"

text \<open>What a fire requires, and what it does.\<close>

lemma GeometryShiftTick_fire:
  assumes "GeometryShiftTick i (g, ctx) = (True, g', ctx')"
  shows "gi_spike i" and "2 \<le> g_geomShiftConsecutiveBadTicks g"
    and "s_lastErrorTs g < fst (last (gi_errSeries i))"
    and "geometryShiftCooldownUntil ctx \<le> gi_time i" and "\<not> in_grace (gi_time i) ctx"
    and "\<not> geom_coherence (gi_ratio i) (additionalCalibrations ctx)"
    and "ctx' = geom_fire (gi_time i) ctx"
  using assms
  by (auto simp: GeometryShiftTick_def geom_sample_def geom_vote_legacy Let_def gi_spike_def gi_ratio_def
      ShouldSuppressForCooldown_def IsCurrentErrorSpike_def split: if_splits)

lemma GeometryShiftTick_quiet:
  assumes "GeometryShiftTick i (g, ctx) = (False, g', ctx')"
  shows "ctx' = ctx"
  using assms by (auto simp: GeometryShiftTick_def geom_sample_def geom_vote_legacy Let_def split: if_splits)

text \<open>
  The suppression by motion quality is never the reason that a vote is dropped: with the spike rule
  in use a vote to fire implies a spike on the same sample, which the suppression excludes.
\<close>

lemma motion_quality_unreachable:
  "fst (geom_vote current median g) \<Longrightarrow> \<not> geom_motion_quality ctx reason current median"
  by (auto simp: geom_vote_legacy geom_motion_quality_def Let_def split: if_splits)

text \<open>The times at which the recovery fires along a run of ticks.\<close>

fun fire_times :: "geom_input list \<Rightarrow> geom_state \<times> 'p CalibrationContext \<Rightarrow> real list" where
  "fire_times [] s = []"
| "fire_times (i # is) s =
     (if fst (GeometryShiftTick i s) then [gi_time i] else []) @ fire_times is (snd (GeometryShiftTick i s))"

lemma geom_fire_cooldown [simp]:
  "geometryShiftCooldownUntil (geom_fire t c) = t + 30"
  "cal_state (geom_fire t c) = CalContinuousStandby"
  by (simp_all add: geom_fire_def kPostFireCooldownSeconds_def)

lemma fire_times_after:
  "\<forall>t\<in>set (fire_times is s). geometryShiftCooldownUntil (snd s) \<le> t"
proof (induction "is" arbitrary: s)
  case (Cons i "is")
  obtain g ctx where s: "s = (g, ctx)" by (cases s)
  obtain f g' ctx' where r: "GeometryShiftTick i (g, ctx) = (f, g', ctx')"
    using prod_cases3 by blast
  show ?case
  proof (cases f)
    case True
    with r have fire: "GeometryShiftTick i (g, ctx) = (True, g', ctx')" by simp
    show ?thesis
      using Cons.IH [of "(g', ctx')"] GeometryShiftTick_fire(4,7) [OF fire] by (auto simp: s fire)
  next
    case False
    with r have quiet: "GeometryShiftTick i (g, ctx) = (False, g', ctx')" by simp
    show ?thesis
      using Cons.IH [of "(g', ctx')"] GeometryShiftTick_quiet [OF quiet] by (auto simp: s quiet)
  qed
qed simp

text \<open>The recovery cannot storm: along any run of ticks any two fires are at least thirty seconds
  apart, whatever the error samples are.
\<close>

theorem fires_thirty_seconds_apart:
  "sorted_wrt (\<lambda>a b. a + 30 \<le> b) (fire_times is (g, ctx))"
proof (induction "is" arbitrary: g ctx)
  case (Cons i "is")
  obtain f g' ctx' where r: "GeometryShiftTick i (g, ctx) = (f, g', ctx')"
    using prod_cases3 by blast
  show ?case
  proof (cases f)
    case True
    with r have fire: "GeometryShiftTick i (g, ctx) = (True, g', ctx')" by simp
    show ?thesis
      using Cons.IH [of g' ctx'] fire_times_after [of "is" "(g', ctx')"] GeometryShiftTick_fire(7) [OF fire]
      by (simp add: fire)
  qed (use Cons.IH [of g' ctx'] r in simp)
qed simp

section \<open>A fire needs three spikes\<close>

fun geom_run :: "geom_input list \<Rightarrow> geom_state \<times> 'p CalibrationContext \<Rightarrow> geom_state \<times> 'p CalibrationContext" where
  "geom_run [] s = s"
| "geom_run (i # is) s = geom_run is (snd (GeometryShiftTick i s))"

lemma geom_run_snoc: "geom_run (is @ [i]) s = snd (GeometryShiftTick i (geom_run is s))"
  by (induction "is" arbitrary: s) simp_all

text \<open>
  Behind a count of \<open>n\<close> stand \<open>n\<close> ticks of the trace whose samples are spikes with strictly
  increasing time stamps, none newer than the last one consumed.
\<close>

definition gi_ts :: "geom_input \<Rightarrow> real" where
  "gi_ts i = fst (last (gi_errSeries i))"

definition counted :: "geom_input list \<Rightarrow> geom_state \<Rightarrow> bool" where
  "counted is g \<longleftrightarrow> (\<exists>js. set js \<subseteq> set is \<and> list_all gi_spike js \<and> sorted_wrt (<) (map gi_ts js)
     \<and> int (length js) = g_geomShiftConsecutiveBadTicks g \<and> (\<forall>j\<in>set js. gi_ts j \<le> s_lastErrorTs g))"

lemma counted_zero: "g_geomShiftConsecutiveBadTicks g = 0 \<Longrightarrow> counted is g"
  unfolding counted_def by (intro exI [of _ "[]"]) simp

lemma counted_weaken:
  "\<lbrakk>counted is g; g_geomShiftConsecutiveBadTicks g' = g_geomShiftConsecutiveBadTicks g;
    s_lastErrorTs g' = s_lastErrorTs g\<rbrakk> \<Longrightarrow> counted (is @ [i]) g'"
  by (auto simp: counted_def)

lemma counted_spike:
  assumes "counted is g" "gi_spike i" "s_lastErrorTs g < gi_ts i"
    "g_geomShiftConsecutiveBadTicks g' = g_geomShiftConsecutiveBadTicks g + 1" "s_lastErrorTs g' = gi_ts i"
  shows "counted (is @ [i]) g'"
proof -
  from assms(1) obtain js where js: "set js \<subseteq> set is" "list_all gi_spike js" "sorted_wrt (<) (map gi_ts js)"
    "int (length js) = g_geomShiftConsecutiveBadTicks g" "\<forall>j\<in>set js. gi_ts j \<le> s_lastErrorTs g"
    by (auto simp: counted_def)
  then show ?thesis
    unfolding counted_def using assms(2-5)
    by (intro exI [of _ "js @ [i]"]) (force simp: sorted_wrt_append)
qed

lemma geom_clear_zero [simp]: "g_geomShiftConsecutiveBadTicks (geom_clear g) = 0"
  by (simp add: geom_clear_def)

lemma counted_tick:
  assumes "counted is g"
  shows "counted (is @ [i]) (fst (snd (GeometryShiftTick i (g, ctx))))"
proof (cases "\<not> in_grace (gi_time i) ctx \<and> 5 \<le> length (gi_errSeries i) \<and> gi_calValid i
    \<and> s_lastErrorTs g < gi_ts i")
  case True
  let ?g = "fst (snd (geom_sample i (g, ctx)))"
  have "g_geomShiftConsecutiveBadTicks ?g = 0 \<or>
      (gi_spike i \<and> g_geomShiftConsecutiveBadTicks ?g = g_geomShiftConsecutiveBadTicks g + 1)"
    and "s_lastErrorTs ?g = gi_ts i \<or> g_geomShiftConsecutiveBadTicks ?g = 0"
    by (auto simp: geom_sample_def geom_vote_legacy Let_def gi_spike_def gi_ts_def geom_clear_def)
  then have "counted (is @ [i]) ?g"
    using True counted_spike [OF assms, of i ?g] counted_zero [of ?g] by blast
  with True show ?thesis by (simp add: GeometryShiftTick_def gi_ts_def)
next
  case False
  then have "GeometryShiftTick i (g, ctx) = (False, g, ctx) \<or>
      GeometryShiftTick i (g, ctx) = (False, geom_clear g, ctx)"
    by (auto simp: GeometryShiftTick_def gi_ts_def)
  then show ?thesis
    using counted_weaken [OF assms, of g i] counted_zero [of "geom_clear g"] by auto
qed

lemma counted_run:
  "g_geomShiftConsecutiveBadTicks g = 0 \<Longrightarrow> counted is (fst (geom_run is (g, ctx)))"
proof (induction "is" rule: rev_induct)
  case (snoc i "is")
  then show ?case
    using counted_tick [of "is" "fst (geom_run is (g, ctx))" i "snd (geom_run is (g, ctx))"]
    by (simp add: geom_run_snoc)
qed (simp add: counted_zero)

text \<open>C38: A recovery is never triggered by a transient. When the detector fires after any run that began
  with a cleared counter, then at least three error samples of the run, with strictly increasing time
  stamps and the firing one last, each exceeded five times the rolling median of its window; the
  overlay was in neither the start-up grace nor the cooldown, and the additional pairs did not show
  the same spike.
\<close>

theorem geometry_fire_sustained:
  assumes "g_geomShiftConsecutiveBadTicks g = 0"
    and "GeometryShiftTick i (geom_run is (g, ctx)) = (True, g', ctx')"
  shows "\<exists>js. 2 \<le> length js \<and> set js \<subseteq> set is \<and> list_all gi_spike (js @ [i])
      \<and> sorted_wrt (<) (map gi_ts (js @ [i]))
      \<and> \<not> in_grace (gi_time i) (snd (geom_run is (g, ctx)))
      \<and> geometryShiftCooldownUntil (snd (geom_run is (g, ctx))) \<le> gi_time i
      \<and> \<not> geom_coherence (gi_ratio i) (additionalCalibrations (snd (geom_run is (g, ctx))))"
proof -
  obtain h c where r: "geom_run is (g, ctx) = (h, c)" by (cases "geom_run is (g, ctx)")
  note f = GeometryShiftTick_fire [OF assms(2) [unfolded r]]
  obtain js where js: "set js \<subseteq> set is" "list_all gi_spike js" "sorted_wrt (<) (map gi_ts js)"
    "int (length js) = g_geomShiftConsecutiveBadTicks h" "\<forall>j\<in>set js. gi_ts j \<le> s_lastErrorTs h"
    using counted_run [OF assms(1), of "is" ctx] by (auto simp: counted_def r)
  moreover have "\<forall>j\<in>set js. gi_ts j < gi_ts i"
    using js(5) f(3) by (auto simp: gi_ts_def)
  moreover have "2 \<le> length js" using js(4) f(2) by linarith
  ultimately show ?thesis
    using f(1,4,5,6) by (intro exI [of _ js]) (simp add: r sorted_wrt_append)
qed

text \<open>
  The detector fires from whatever state the overlay is in: the state afterwards is the standby
  state, also when the table of legal transitions does not allow it.
\<close>

lemma fire_ignores_state:
  assumes "GeometryShiftTick i (g, ctx) = (True, g', ctx')"
  shows "cal_state ctx' = CalContinuousStandby
    \<and> (IsLegalTransition (cal_state ctx) (cal_state ctx') \<longleftrightarrow>
         cal_state ctx \<in> {CalNone, CalContinuous, CalContinuousStandby})"
  using GeometryShiftTick_fire(7) [OF assms] by (cases "cal_state ctx") simp_all

section \<open>Concrete runs\<close>

definition quiet_geom :: geom_state where
  "quiet_geom = \<lparr>g_geomShiftConsecutiveBadTicks = 0, g_cusumState = Cusum_Reset, s_lastErrorTs = 0\<rparr>"

definition spike_input :: "nat \<Rightarrow> geom_input" where
  "spike_input n = \<lparr>gi_time = 100, gi_errSeries = replicate 7 (0, 1) @ replicate n (real n, 9),
     gi_calValid = True, gi_rejectReason = []\<rparr>"

lemma median_spikes: "n < 5 \<Longrightarrow> median_of (map snd (replicate 7 (0, 1 :: real) @ replicate n (t, 9))) = 1"
proof (rule antisym)
  assume "n < 5"
  then show "median_of (map snd (replicate 7 (0, 1 :: real) @ replicate n (t, 9))) \<le> 1"
    "1 \<le> median_of (map snd (replicate 7 (0, 1 :: real) @ replicate n (t, 9)))"
    by (intro median_of_le median_of_ge; simp add: filter_map o_def)+
qed

lemma spike_input_simps:
  "0 < n \<Longrightarrow> n < 5 \<Longrightarrow> window_median (gi_errSeries (spike_input n)) = 1"
  "0 < n \<Longrightarrow> window_current (gi_errSeries (spike_input n)) = 9"
  "0 < n \<Longrightarrow> last (gi_errSeries (spike_input n)) = (real n, 9)"
  "gi_time (spike_input n) = 100" "gi_calValid (spike_input n)"
  "length (gi_errSeries (spike_input n)) = 7 + n"
  using median_spikes [of n "real n"]
  by (simp_all add: window_median_def window_current_def spike_input_def keep_last_def last_replicate)

theorem geometry_fire_sustained_witness:
  "\<exists>js. 2 \<le> length js \<and> set js \<subseteq> {spike_input 1, spike_input 2}
     \<and> list_all gi_spike (js @ [spike_input 3]) \<and> sorted_wrt (<) (map gi_ts (js @ [spike_input 3]))"
proof -
  let ?c = "new_context line_eigen"
  have c: "geometryShiftGraceUntil ?c = 0" "geometryShiftCooldownUntil ?c = 0"
    "additionalCalibrations ?c = []" "ps_captured (lastAcceptedContinuousSnapshot ?c) = False"
    by (simp_all add: new_context_def empty_snapshot_def)
  note tick = GeometryShiftTick_def geom_sample_def geom_vote_legacy geom_coherence_def
    geom_motion_quality_def ShouldSuppressFire_def kMinExtrasForCoherence_def map_filter_simps
    ShouldSuppressForCooldown_def IsCurrentErrorSpike_def kMedianFloor_def kSpikeRatio_def in_grace_def
  have run: "geom_run [spike_input 1, spike_input 2] (quiet_geom, ?c) =
      (\<lparr>g_geomShiftConsecutiveBadTicks = 2, g_cusumState = Cusum_Reset, s_lastErrorTs = 2\<rparr>, ?c)"
    by (simp add: tick spike_input_simps quiet_geom_def c Let_def)
  have "\<exists>g' ctx'. GeometryShiftTick (spike_input 3) (geom_run [spike_input 1, spike_input 2] (quiet_geom, ?c))
      = (True, g', ctx')"
    unfolding run by (simp add: tick spike_input_simps c Let_def)
  then obtain g' ctx' where fired: "GeometryShiftTick (spike_input 3)
      (geom_run [spike_input 1, spike_input 2] (quiet_geom, ?c)) = (True, g', ctx')" by blast
  have "g_geomShiftConsecutiveBadTicks quiet_geom = 0" by (simp add: quiet_geom_def)
  from geometry_fire_sustained [OF this fired] show ?thesis by auto
qed

end
