(* ===== verification/CalLifecycle.thy ===== *)
theory CalLifecycle
  imports GeometryShift
begin

text \<open>
  The life cycle of a calibration (\<open>Calibration.cpp\<close>, \<open>Calibration.h\<close>): device assignment
  (\<open>CalibrationPoseSampling.cpp\<close>, \<open>VRState.cpp\<close>), binding of the head-mounted tracker
  (\<open>HeadMountTargetBinding.h\<close>) and its source guard (\<open>HeadMountSourceGuard.h\<close>), profile snapshots, and the
  operations that start, cancel, end and recover a calibration. The solver object is seen through
  the calls made on it, which are part of the result.
\<close>

section \<open>Devices\<close>

record vr_device =
  dev_id :: int
  dev_isHmd :: bool
  dev_trackingSystem :: string
  dev_model :: string
  dev_serial :: string

definition dev_matches :: "string \<Rightarrow> string \<Rightarrow> string \<Rightarrow> vr_device \<Rightarrow> bool" where
  "dev_matches sys model serial d =
     (let matches = (if dev_model d = model then 1 else 0) + (if dev_serial d = serial then 1 else 0 :: nat)
      in dev_trackingSystem d = sys
         \<and> ((matches = 2 \<and> \<not> dev_isHmd d) \<or> (1 \<le> matches \<and> dev_isHmd d)))"

fun FindDevice :: "vr_device list \<Rightarrow> string \<Rightarrow> string \<Rightarrow> string \<Rightarrow> int" where
  "FindDevice [] sys model serial = - 1"
| "FindDevice (d # ds) sys model serial =
     (if dev_matches sys model serial d then dev_id d else FindDevice ds sys model serial)"

definition AssignTargets :: "vr_device list \<Rightarrow> 'p CalibrationContext \<Rightarrow> bool \<times> 'p CalibrationContext" where
  "AssignTargets devices ctx =
     (let rs = referenceStandby ctx; ts = targetStandby ctx; hm = headMount ctx;
          ctx = (if referenceID ctx < 0
                 then ctx\<lparr>referenceID := FindDevice devices (sd_trackingSystem rs) (sd_model rs) (sd_serial rs)\<rparr>
                 else ctx);
          ctx = (if targetID ctx < 0
                 then ctx\<lparr>targetID := FindDevice devices (sd_trackingSystem ts) (sd_model ts) (sd_serial ts)\<rparr>
                 else ctx);
          resolved = (if hm_trackerSerial hm \<noteq> []
                      then FindDevice devices (hm_trackerTrackingSystem hm) (hm_trackerModel hm) (hm_trackerSerial hm)
                      else - 1);
          ctx = ctx\<lparr>headMount := hm\<lparr>hm_deviceID := (if resolved < 0 then - 1 else resolved)\<rparr>\<rparr>
      in (0 \<le> referenceID ctx \<and> 0 \<le> targetID ctx, ctx))"

section \<open>The head-mounted tracker\<close>

definition NoteHeadMountOffsetChanged :: "'p CalibrationContext \<Rightarrow> 'p CalibrationContext" where
  "NoteHeadMountOffsetChanged ctx =
     (let v = headMountOffsetVersion ctx + 1
      in ctx\<lparr>headMountOffsetVersion := (if v = 0 then 1 else v)\<rparr>)"

definition BindHeadMountToContinuousTarget ::
    "'p eigen \<Rightarrow> 'p CalibrationContext \<Rightarrow> bool \<times> 'p CalibrationContext" where
  "BindHeadMountToContinuousTarget e ctx =
     (if \<not> HasContinuousTargetIdentity ctx then (False, ctx)
      else let hm = headMount ctx; t = targetStandby ctx;
               identityChanged = (hm_trackerSerial hm \<noteq> sd_serial t
                 \<or> hm_trackerTrackingSystem hm \<noteq> sd_trackingSystem t);
               targetDeviceId = (if 0 \<le> targetID ctx \<and> targetID ctx < 64 then targetID ctx else - 1);
               changed = (identityChanged \<or> hm_trackerModel hm \<noteq> sd_model t \<or> hm_deviceID hm \<noteq> targetDeviceId);
               hm = hm\<lparr>hm_trackerSerial := sd_serial t, hm_trackerModel := sd_model t,
                       hm_trackerTrackingSystem := sd_trackingSystem t, hm_deviceID := targetDeviceId\<rparr>
           in if identityChanged
              then (True, NoteHeadMountOffsetChanged (ctx\<lparr>headMount :=
                     hm\<lparr>hm_offsetCalibrated := False, hm_headFromTracker := eg_identity e\<rparr>\<rparr>))
              else (changed, ctx\<lparr>headMount := hm\<rparr>))"

definition SelectHeadMountSampleSource :: "HeadMountMode \<Rightarrow> bool \<Rightarrow> HeadMountSampleSource" where
  "SelectHeadMountSampleSource mode offsetCalibrated =
     (if HmAutoPaired \<le> mode \<and> offsetCalibrated then SrcHeadProxy else SrcPhysicalTracker)"

datatype source_decision = NoReset | InitialHeadProxy | SampleSourceChanged | ModeChanged
  | OffsetChanged | DeviceChanged | TargetIdentityChanged

definition EvaluateHeadMountSourceTransition ::
    "bool \<Rightarrow> HeadMountSourceFingerprint \<Rightarrow> HeadMountSourceFingerprint \<Rightarrow> bool \<Rightarrow> source_decision" where
  "EvaluateHeadMountSourceTransition previousValid previous current relPosCal =
     (if \<not> previousValid
      then if fp_source current = SrcHeadProxy \<and> relPosCal then InitialHeadProxy else NoReset
      else if fp_source previous \<noteq> fp_source current then SampleSourceChanged
      else if fp_mode previous \<noteq> fp_mode current then ModeChanged
      else if fp_offsetVersion previous \<noteq> fp_offsetVersion current then OffsetChanged
      else if fp_deviceID previous \<noteq> fp_deviceID current then DeviceChanged
      else if fp_targetSerial previous \<noteq> fp_targetSerial current
              \<or> fp_targetTrackingSystem previous \<noteq> fp_targetTrackingSystem current
      then TargetIdentityChanged
      else NoReset)"

datatype 'p solver_call = SolverClear | SolverSeed vec3 vec3 | SolverSetRelative 'p bool
  | SolverLockRelative bool

definition InContinuousFamily :: "CalibrationState \<Rightarrow> bool" where
  "InContinuousFamily s \<longleftrightarrow> s = CalContinuous \<or> s = CalContinuousStandby"

definition reset_paired_motion :: "'p CalibrationContext \<Rightarrow> 'p CalibrationContext" where
  "reset_paired_motion ctx = ctx\<lparr>pairedMotionPosSeeded := False, pairedMotionMismatchCount := 0,
     pairedMotionPrevRefPos := vzero, pairedMotionPrevTgtPos := vzero\<rparr>"

definition ClearHeadMountContinuousSourceState ::
    "'p eigen \<Rightarrow> real \<Rightarrow> 'p CalibrationContext \<Rightarrow> 'p solver_call list \<times> 'p CalibrationContext" where
  "ClearHeadMountContinuousSourceState e time ctx =
     (let ctx = (reset_paired_motion ctx)\<lparr>refToTargetPose := eg_identity e, relativePosCalibrated := False,
            autoLockHistory := [], autoLockEffectivelyLocked := False, autoLockHasPendingFlip := False,
            autoLockPendingFlipTo := False, autoLockPendingFlipFirstSeen := 0,
            autoLockGateHeldWarned := False, headMountNeedsFreshRelativePose := True,
            headMountLastSourceResetTime := time, lastAcceptedContinuousSnapshot := empty_snapshot e\<rparr>
      in ([SolverClear]
          @ (if validProfile ctx then [SolverSeed (calibratedRotation ctx) (calibratedTranslation ctx)] else [])
          @ [SolverSetRelative (refToTargetPose ctx) False, SolverLockRelative False], ctx))"

definition current_fingerprint :: "'p CalibrationContext \<Rightarrow> HeadMountSourceFingerprint" where
  "current_fingerprint ctx =
     \<lparr>fp_source = SelectHeadMountSampleSource (hm_mode (headMount ctx)) (hm_offsetCalibrated (headMount ctx)),
      fp_mode = hm_mode (headMount ctx), fp_offsetVersion = headMountOffsetVersion ctx,
      fp_deviceID = hm_deviceID (headMount ctx), fp_targetSerial = sd_serial (targetStandby ctx),
      fp_targetTrackingSystem = sd_trackingSystem (targetStandby ctx)\<rparr>"

definition TickHeadMountSourceTransitionGuard ::
    "'p eigen \<Rightarrow> real \<Rightarrow> 'p CalibrationContext \<Rightarrow> 'p solver_call list \<times> 'p CalibrationContext" where
  "TickHeadMountSourceTransitionGuard e time ctx =
     (if \<not> InContinuousFamily (cal_state ctx) then ([], ctx\<lparr>headMountSourceFingerprintValid := False\<rparr>)
      else let current = current_fingerprint ctx;
               decision = EvaluateHeadMountSourceTransition (headMountSourceFingerprintValid ctx)
                            (headMountLastSource ctx) current (relativePosCalibrated ctx);
               (calls, ctx) = (if decision \<noteq> NoReset then ClearHeadMountContinuousSourceState e time ctx
                               else ([], ctx))
           in (calls, ctx\<lparr>headMountSourceFingerprintValid := True, headMountLastSource := current\<rparr>))"

text \<open>The lock the solver is given on a continuous tick.\<close>

definition solver_lock :: "'p CalibrationContext \<Rightarrow> bool" where
  "solver_lock ctx \<longleftrightarrow> lockRelativePosition ctx
     \<and> \<not> (headMountNeedsFreshRelativePose ctx \<and> lockRelativePosition ctx \<and> \<not> relativePosCalibrated ctx)"

section \<open>Snapshots and clearing\<close>

definition CaptureProfileSnapshot :: "'p CalibrationContext \<Rightarrow> 'p ProfileSnapshot" where
  "CaptureProfileSnapshot ctx = \<lparr>ps_captured = True, ps_enabled = cal_enabled ctx,
     ps_validProfile = validProfile ctx, ps_referenceTrackingSystem = referenceTrackingSystem ctx,
     ps_targetTrackingSystem = targetTrackingSystem ctx, ps_referenceStandby = referenceStandby ctx,
     ps_targetStandby = targetStandby ctx, ps_calibratedRotation = calibratedRotation ctx,
     ps_calibratedTranslation = calibratedTranslation ctx, ps_calibratedScale = calibratedScale ctx,
     ps_refToTargetPose = refToTargetPose ctx, ps_relativePosCalibrated = relativePosCalibrated ctx\<rparr>"

definition RestoreProfileSnapshot :: "'p ProfileSnapshot \<Rightarrow> 'p CalibrationContext \<Rightarrow> 'p CalibrationContext" where
  "RestoreProfileSnapshot snap ctx =
     (if \<not> ps_captured snap then ctx
      else ctx\<lparr>cal_enabled := ps_enabled snap, validProfile := ps_validProfile snap,
             referenceTrackingSystem := ps_referenceTrackingSystem snap,
             targetTrackingSystem := ps_targetTrackingSystem snap,
             referenceStandby := ps_referenceStandby snap, targetStandby := ps_targetStandby snap,
             calibratedRotation := ps_calibratedRotation snap,
             calibratedTranslation := ps_calibratedTranslation snap,
             calibratedScale := ps_calibratedScale snap, refToTargetPose := ps_refToTargetPose snap,
             relativePosCalibrated := ps_relativePosCalibrated snap\<rparr>)"

definition ClearRuntimeCalibrationForRecovery :: "'p eigen \<Rightarrow> 'p CalibrationContext \<Rightarrow> 'p CalibrationContext" where
  "ClearRuntimeCalibrationForRecovery e ctx =
     ctx\<lparr>validProfile := False, refToTargetPose := eg_identity e, relativePosCalibrated := False,
         hasAppliedCalibrationResult := False, calibratedTranslation := vzero, calibratedRotation := vzero,
         lastAcceptedContinuousSnapshot := empty_snapshot e, headMountNeedsFreshRelativePose := False\<rparr>"

definition Context_Clear :: "'p eigen \<Rightarrow> 'p CalibrationContext \<Rightarrow> 'p CalibrationContext" where
  "Context_Clear e ctx =
     ctx\<lparr>calibratedRotation := vzero, calibratedTranslation := vzero, calibratedScale := 1,
         referenceTrackingSystem := [], targetTrackingSystem := [], cal_enabled := False,
         validProfile := False, refToTargetPose := eg_identity e, calibrationPaused := False,
         recalibrateOnMovement := True, lockRelativePosition := False, autoLockHistory := [],
         autoLockEffectivelyLocked := False, autoLockHasPendingFlip := False,
         autoLockPendingFlipTo := False, autoLockPendingFlipFirstSeen := 0,
         autoLockGateHeldWarned := False, autoLockMadHistory := [], autoLockMadFloor := 0,
         autoLockLastFlipTime := 0, geometryShiftGraceUntil := 0, geometryShiftCooldownUntil := 0,
         lastUserPresent := True, userAwaySince := 0, warmRestartGraceSamples := 0,
         warmRestartTickId := 0, hmdLastKnownPosWhenAway := vzero, hmdLastKnownPosValid := False,
         warmRestartMadAtSnap := 0, warmRestartValidationState := Inconclusive,
         postSnapErrorSumMm := 0, postSnapErrorSampleCount := 0, warmRestartLastConsumedErrTs := 0,
         warmRestartSnapTime := 0, autoLockMadFloorTs := 0, relativePosCalibrated := False,
         continuousCalibrationOffset := vzero, continuousStartSnapshot := empty_snapshot e,
         lastAcceptedContinuousSnapshot := empty_snapshot e, headMountSourceFingerprintValid := False,
         headMountLastSource := no_fingerprint\<lparr>fp_offsetVersion := headMountOffsetVersion ctx\<rparr>,
         headMountNeedsFreshRelativePose := False, headMountLastSourceResetTime := - (10 ^ 9)\<rparr>"

section \<open>Starting and ending\<close>

definition reset_extra_lock :: "'p AdditionalCalibration \<Rightarrow> 'p AdditionalCalibration" where
  "reset_extra_lock x = x\<lparr>ex_history := [], ex_locked := False, ex_hasPending := False,
     ex_pendingTo := False, ex_firstSeen := 0, ex_heldWarned := False\<rparr>"

definition StartCalibration ::
    "vr_device list \<Rightarrow> real \<Rightarrow> 'p CalibrationContext \<Rightarrow> 'p solver_call list \<times> 'p CalibrationContext" where
  "StartCalibration devices now ctx =
     (let ctx = snd (AssignTargets devices (ctx\<lparr>hasAppliedCalibrationResult := False\<rparr>));
          ctx = (reset_paired_motion ctx)\<lparr>cal_state := CalBegin, wantedUpdateInterval := 0,
                  additionalCalibrations := map reset_extra_lock (additionalCalibrations ctx),
                  geometryShiftGraceUntil := now + 3\<rparr>
      in ([SolverClear], ctx))"

definition StartContinuousCalibration ::
    "'p eigen \<Rightarrow> vr_device list \<Rightarrow> real \<Rightarrow> 'p CalibrationContext \<Rightarrow> 'p solver_call list \<times> 'p CalibrationContext" where
  "StartContinuousCalibration e devices now ctx =
     (let ctx = ctx\<lparr>hasAppliedCalibrationResult := False,
                   continuousStartSnapshot := CaptureProfileSnapshot ctx,
                   lastAcceptedContinuousSnapshot := empty_snapshot e\<rparr>;
          ctx = snd (AssignTargets devices ctx);
          ctx = (if hm_mode (headMount ctx) \<noteq> HmOff \<or> hm_trackerSerial (headMount ctx) \<noteq> []
                 then snd (BindHeadMountToContinuousTarget e ctx) else ctx);
          (calls, ctx) = StartCalibration devices now ctx;
          ctx = ctx\<lparr>cal_state := CalContinuous\<rparr>
      in (calls
          @ (if validProfile ctx then [SolverSeed (calibratedRotation ctx) (calibratedTranslation ctx)] else [])
          @ [SolverSetRelative (refToTargetPose ctx) (relativePosCalibrated ctx),
             SolverLockRelative (lockRelativePosition ctx)], ctx))"

definition CancelCalibration :: "'p CalibrationContext \<Rightarrow> 'p solver_call list \<times> 'p CalibrationContext" where
  "CancelCalibration ctx =
     (if cal_state ctx \<noteq> CalBegin \<and> cal_state ctx \<noteq> CalRotation \<and> cal_state ctx \<noteq> CalTranslation
      then ([], ctx)
      else ([SolverClear], (reset_paired_motion ctx)\<lparr>cal_state := CalNone, wantedUpdateInterval := 1\<rparr>))"

text \<open>The flag says whether the restored profile is saved and applied.\<close>

definition EndContinuousCalibration :: "'p eigen \<Rightarrow> 'p CalibrationContext \<Rightarrow> bool \<times> 'p CalibrationContext" where
  "EndContinuousCalibration e ctx =
     (let selected = (if ps_captured (lastAcceptedContinuousSnapshot ctx)
                      then lastAcceptedContinuousSnapshot ctx else continuousStartSnapshot ctx);
          ctx = ctx\<lparr>cal_state := CalNone, wantedUpdateInterval := 1\<rparr>;
          ctx = RestoreProfileSnapshot selected ctx
      in (ps_captured selected \<and> validProfile ctx,
          ctx\<lparr>continuousStartSnapshot := empty_snapshot e, lastAcceptedContinuousSnapshot := empty_snapshot e\<rparr>))"

text \<open>The next profile that is sent to the driver after a recovery is snapped, not blended.\<close>

definition RecoverFromWedgedCalibration ::
    "'p eigen \<Rightarrow> vr_device list \<Rightarrow> real \<Rightarrow> 'p CalibrationContext \<Rightarrow> 'p solver_call list \<times> 'p CalibrationContext" where
  "RecoverFromWedgedCalibration e devices now ctx =
     (let (calls, ctx) = StartContinuousCalibration e devices now (ClearRuntimeCalibrationForRecovery e ctx)
      in (SolverClear # calls, ctx))"

text \<open>A candidate the solver produced in continuous mode is taken over and remembered.\<close>

definition accept_candidate ::
    "vec3 \<Rightarrow> vec3 \<Rightarrow> 'p \<Rightarrow> bool \<Rightarrow> 'p CalibrationContext \<Rightarrow> 'p CalibrationContext" where
  "accept_candidate rot transCm rel relCalibrated ctx =
     (let inContinuousState = (cal_state ctx = CalContinuous);
          ctx = ctx\<lparr>calibratedRotation := rot, calibratedTranslation := transCm,
                   refToTargetPose := rel, relativePosCalibrated := relCalibrated\<rparr>;
          ctx = (if inContinuousState \<and> relativePosCalibrated ctx \<and> headMountNeedsFreshRelativePose ctx
                 then ctx\<lparr>headMountNeedsFreshRelativePose := False\<rparr> else ctx);
          ctx = ctx\<lparr>validProfile := True, hasAppliedCalibrationResult := True\<rparr>
      in if inContinuousState then ctx\<lparr>lastAcceptedContinuousSnapshot := CaptureProfileSnapshot ctx\<rparr> else ctx)"

text \<open>The standby branch of the tick.\<close>

definition standby_tick ::
    "'p eigen \<Rightarrow> vr_device list \<Rightarrow> real \<Rightarrow> 'p CalibrationContext \<Rightarrow> 'p solver_call list \<times> 'p CalibrationContext" where
  "standby_tick e devices now ctx =
     (if cal_state ctx \<noteq> CalContinuousStandby then ([], ctx)
      else let (ok, ctx) = AssignTargets devices ctx
           in if ok then StartContinuousCalibration e devices now ctx
              else ([], ctx\<lparr>wantedUpdateInterval := 5 / 10\<rparr>))"

section \<open>Devices\<close>

text \<open>What is found is an exact match of the three identity strings, except that for the headset the
  model or the serial may differ.\<close>

lemma FindDevice_found:
  "FindDevice ds sys model serial \<noteq> - 1 \<Longrightarrow>
     \<exists>d\<in>set ds. dev_id d = FindDevice ds sys model serial \<and> dev_trackingSystem d = sys
       \<and> (if dev_isHmd d then dev_model d = model \<or> dev_serial d = serial
           else dev_model d = model \<and> dev_serial d = serial)"
  by (induction ds) (auto simp: dev_matches_def Let_def split: if_splits)

text \<open>
  For a tracker the serial alone is not enough: a device with the right serial and tracking system
  whose model string differs is not found.
\<close>

lemma FindDevice_model_required:
  assumes "\<forall>d\<in>set ds. \<not> dev_isHmd d \<and> dev_model d \<noteq> model"
  shows "FindDevice ds sys model serial = - 1"
  using assms by (induction ds) (auto simp: dev_matches_def Let_def)

lemma NoteHeadMountOffsetChanged_version:
  "headMountOffsetVersion (NoteHeadMountOffsetChanged ctx) \<noteq> 0
   \<and> headMountOffsetVersion (NoteHeadMountOffsetChanged ctx) \<noteq> headMountOffsetVersion ctx"
proof -
  have "v + 1 = 0 \<Longrightarrow> v \<noteq> 1" for v :: u32 by auto
  then show ?thesis by (auto simp: NoteHeadMountOffsetChanged_def Let_def)
qed

lemma Bind_matches:
  "HasContinuousTargetIdentity ctx \<Longrightarrow>
     HeadMountMatchesContinuousTarget (snd (BindHeadMountToContinuousTarget e ctx))"
  by (simp add: BindHeadMountToContinuousTarget_def HeadMountMatchesContinuousTarget_def
      HasContinuousTargetIdentity_def NoteHeadMountOffsetChanged_def Let_def)

lemma Bind_again:
  "BindHeadMountToContinuousTarget e (snd (BindHeadMountToContinuousTarget e ctx)) =
     (False, snd (BindHeadMountToContinuousTarget e ctx))"
  by (simp add: BindHeadMountToContinuousTarget_def HasContinuousTargetIdentity_def
      NoteHeadMountOffsetChanged_def Let_def)

section \<open>The source guard\<close>

lemma transition_detects:
  "EvaluateHeadMountSourceTransition True p c r = NoReset \<longleftrightarrow> p = c"
  by (auto simp: EvaluateHeadMountSourceTransition_def intro: HeadMountSourceFingerprint.equality)

lemma clear_source_fields:
  "cal_state (snd (ClearHeadMountContinuousSourceState e t c)) = cal_state c"
  "current_fingerprint (snd (ClearHeadMountContinuousSourceState e t c)) = current_fingerprint c"
  by (simp_all add: ClearHeadMountContinuousSourceState_def Let_def current_fingerprint_def
      reset_paired_motion_def)

lemma current_fingerprint_bookkeeping [simp]:
  "current_fingerprint (c\<lparr>headMountSourceFingerprintValid := b, headMountLastSource := f\<rparr>) = current_fingerprint c"
  by (simp add: current_fingerprint_def)

text \<open>Samples of different sources are never mixed. When anything about the source of the
  continuous samples has changed since the last tick (the proxy or the physical tracker, the mode,
  the offset, the device, the identity of the target), the guard clears the solver, discards the
  relative pose, the rigidity history and the accepted snapshot, and leaves the solver unlocked;
  the next tick without a change does nothing.
\<close>

theorem source_guard_resets:
  assumes "InContinuousFamily (cal_state ctx)" and "headMountSourceFingerprintValid ctx"
    and "headMountLastSource ctx \<noteq> current_fingerprint ctx"
    and "TickHeadMountSourceTransitionGuard e t ctx = (calls, ctx')"
  shows "hd calls = SolverClear \<and> last calls = SolverLockRelative False
    \<and> \<not> relativePosCalibrated ctx' \<and> autoLockHistory ctx' = [] \<and> \<not> autoLockEffectivelyLocked ctx'
    \<and> \<not> autoLockHasPendingFlip ctx' \<and> \<not> ps_captured (lastAcceptedContinuousSnapshot ctx')
    \<and> \<not> solver_lock ctx' \<and> validProfile ctx' = validProfile ctx
    \<and> TickHeadMountSourceTransitionGuard e t' ctx' = ([], ctx')"
proof -
  have "EvaluateHeadMountSourceTransition True (headMountLastSource ctx) (current_fingerprint ctx)
      (relativePosCalibrated ctx) \<noteq> NoReset"
    using assms(3) by (simp add: transition_detects)
  then have c': "ctx' = (snd (ClearHeadMountContinuousSourceState e t ctx))
      \<lparr>headMountSourceFingerprintValid := True, headMountLastSource := current_fingerprint ctx\<rparr>"
    and calls: "calls = fst (ClearHeadMountContinuousSourceState e t ctx)"
    using assms(1,2,4) by (auto simp: TickHeadMountSourceTransitionGuard_def Let_def case_prod_beta)
  have "TickHeadMountSourceTransitionGuard e t' ctx' = ([], ctx')"
    using assms(1) transition_detects [of "current_fingerprint ctx" "current_fingerprint ctx"]
    by (simp add: TickHeadMountSourceTransitionGuard_def Let_def c' clear_source_fields)
  then show ?thesis
    by (simp add: c' calls ClearHeadMountContinuousSourceState_def Let_def empty_snapshot_def
        solver_lock_def reset_paired_motion_def)
qed

definition proxy_context :: "(real \<times> real) CalibrationContext" where
  "proxy_context = (new_context line_eigen)\<lparr>cal_state := CalContinuous, relativePosCalibrated := True,
     headMountSourceFingerprintValid := True\<rparr>"

theorem source_guard_resets_witness:
  "\<not> relativePosCalibrated (snd (TickHeadMountSourceTransitionGuard line_eigen 0 proxy_context))"
  using source_guard_resets [of proxy_context line_eigen 0
      "fst (TickHeadMountSourceTransitionGuard line_eigen 0 proxy_context)"
      "snd (TickHeadMountSourceTransitionGuard line_eigen 0 proxy_context)"]
  by (simp add: proxy_context_def new_context_def InContinuousFamily_def current_fingerprint_def
      no_fingerprint_def SelectHeadMountSampleSource_def empty_head_mount_def)

section \<open>Sessions\<close>

lemma snapshot_roundtrip: "CaptureProfileSnapshot (RestoreProfileSnapshot (CaptureProfileSnapshot c) d) = CaptureProfileSnapshot c"
  by (simp add: CaptureProfileSnapshot_def RestoreProfileSnapshot_def)

lemma AssignTargets_profile [simp]:
  "CaptureProfileSnapshot (snd (AssignTargets ds c)) = CaptureProfileSnapshot c"
  "continuousStartSnapshot (snd (AssignTargets ds c)) = continuousStartSnapshot c"
  "lastAcceptedContinuousSnapshot (snd (AssignTargets ds c)) = lastAcceptedContinuousSnapshot c"
  by (simp_all add: AssignTargets_def CaptureProfileSnapshot_def Let_def)

lemma Bind_profile [simp]:
  "CaptureProfileSnapshot (snd (BindHeadMountToContinuousTarget e c)) = CaptureProfileSnapshot c"
  "continuousStartSnapshot (snd (BindHeadMountToContinuousTarget e c)) = continuousStartSnapshot c"
  "lastAcceptedContinuousSnapshot (snd (BindHeadMountToContinuousTarget e c)) = lastAcceptedContinuousSnapshot c"
  by (simp_all add: BindHeadMountToContinuousTarget_def NoteHeadMountOffsetChanged_def
      CaptureProfileSnapshot_def Let_def)

lemma StartCalibration_profile [simp]:
  "CaptureProfileSnapshot (snd (StartCalibration ds now c)) = CaptureProfileSnapshot c"
  "continuousStartSnapshot (snd (StartCalibration ds now c)) = continuousStartSnapshot c"
  "lastAcceptedContinuousSnapshot (snd (StartCalibration ds now c)) = lastAcceptedContinuousSnapshot c"
proof -
  have "CaptureProfileSnapshot (snd (AssignTargets ds (c\<lparr>hasAppliedCalibrationResult := False\<rparr>))) = CaptureProfileSnapshot c"
    unfolding AssignTargets_profile by (simp add: CaptureProfileSnapshot_def)
  then show "CaptureProfileSnapshot (snd (StartCalibration ds now c)) = CaptureProfileSnapshot c"
    by (simp add: StartCalibration_def Let_def CaptureProfileSnapshot_def reset_paired_motion_def)
qed (simp_all add: StartCalibration_def Let_def reset_paired_motion_def)

lemma StartContinuous_profile:
  "CaptureProfileSnapshot (snd (StartContinuousCalibration e ds now c)) = CaptureProfileSnapshot c"
  "continuousStartSnapshot (snd (StartContinuousCalibration e ds now c)) = CaptureProfileSnapshot c"
  "lastAcceptedContinuousSnapshot (snd (StartContinuousCalibration e ds now c)) = empty_snapshot e"
  "cal_state (snd (StartContinuousCalibration e ds now c)) = CalContinuous"
proof -
  define c1 where "c1 = c\<lparr>hasAppliedCalibrationResult := False,
      continuousStartSnapshot := CaptureProfileSnapshot c, lastAcceptedContinuousSnapshot := empty_snapshot e\<rparr>"
  define c2 where "c2 = snd (AssignTargets ds c1)"
  define c3 where "c3 = (if hm_mode (headMount c2) \<noteq> HmOff \<or> hm_trackerSerial (headMount c2) \<noteq> []
    then snd (BindHeadMountToContinuousTarget e c2) else c2)"
  have start: "snd (StartContinuousCalibration e ds now c) =
      (snd (StartCalibration ds now c3))\<lparr>cal_state := CalContinuous\<rparr>"
    by (simp add: StartContinuousCalibration_def Let_def case_prod_beta c1_def c2_def c3_def)
  have "CaptureProfileSnapshot c1 = CaptureProfileSnapshot c"
    by (simp add: c1_def CaptureProfileSnapshot_def)
  then have p: "CaptureProfileSnapshot c3 = CaptureProfileSnapshot c"
    and a: "continuousStartSnapshot c3 = CaptureProfileSnapshot c"
    and b: "lastAcceptedContinuousSnapshot c3 = empty_snapshot e"
    by (simp_all add: c3_def c2_def) (simp_all add: c1_def)
  have "CaptureProfileSnapshot (d\<lparr>cal_state := s\<rparr>) = CaptureProfileSnapshot d" for d :: "'a CalibrationContext" and s
    by (simp add: CaptureProfileSnapshot_def)
  then show "CaptureProfileSnapshot (snd (StartContinuousCalibration e ds now c)) = CaptureProfileSnapshot c"
    by (simp add: start p)
  show "continuousStartSnapshot (snd (StartContinuousCalibration e ds now c)) = CaptureProfileSnapshot c"
    "lastAcceptedContinuousSnapshot (snd (StartContinuousCalibration e ds now c)) = empty_snapshot e"
    "cal_state (snd (StartContinuousCalibration e ds now c)) = CalContinuous"
    by (simp_all add: start a b)
qed

text \<open>The candidates accepted during a session, in order.\<close>

fun accept_all :: "(vec3 \<times> vec3 \<times> 'p \<times> bool) list \<Rightarrow> 'p CalibrationContext \<Rightarrow> 'p CalibrationContext" where
  "accept_all [] ctx = ctx"
| "accept_all ((rot, tr, rel, cal) # cs) ctx = accept_all cs (accept_candidate rot tr rel cal ctx)"

definition with_candidate :: "vec3 \<times> vec3 \<times> 'p \<times> bool \<Rightarrow> 'p ProfileSnapshot \<Rightarrow> 'p ProfileSnapshot" where
  "with_candidate c s = s\<lparr>ps_captured := True, ps_validProfile := True, ps_calibratedRotation := fst c,
     ps_calibratedTranslation := fst (snd c), ps_refToTargetPose := fst (snd (snd c)),
     ps_relativePosCalibrated := snd (snd (snd c))\<rparr>"

lemma accept_candidate_session:
  assumes "cal_state ctx = CalContinuous"
  shows "cal_state (accept_candidate r t p b ctx) = CalContinuous"
    and "lastAcceptedContinuousSnapshot (accept_candidate r t p b ctx) =
      with_candidate (r, t, p, b) (CaptureProfileSnapshot ctx)"
    and "CaptureProfileSnapshot (accept_candidate r t p b ctx) =
      with_candidate (r, t, p, b) (CaptureProfileSnapshot ctx)"
  using assms by (simp_all add: accept_candidate_def Let_def CaptureProfileSnapshot_def with_candidate_def)

lemma with_candidate_absorb [simp]: "with_candidate c (with_candidate d s) = with_candidate c s"
  by (simp add: with_candidate_def)

lemma accept_all_session:
  "\<lbrakk>cal_state ctx = CalContinuous; cs \<noteq> []\<rbrakk> \<Longrightarrow>
     lastAcceptedContinuousSnapshot (accept_all cs ctx) = with_candidate (last cs) (CaptureProfileSnapshot ctx)"
proof (induction cs arbitrary: ctx)
  case (Cons c cs)
  obtain r t p b where c: "c = (r, t, p, b)" by (cases c)
  show ?case
  proof (cases "cs = []")
    case True
    then show ?thesis using Cons.prems by (simp add: c accept_candidate_session)
  next
    case False
    then show ?thesis
      using Cons.IH [of "accept_candidate r t p b ctx"] Cons.prems
      by (simp add: c accept_candidate_session)
  qed
qed simp

lemma End_profile:
  assumes "s = (if ps_captured (lastAcceptedContinuousSnapshot ctx)
      then lastAcceptedContinuousSnapshot ctx else continuousStartSnapshot ctx)" and "ps_captured s"
  shows "CaptureProfileSnapshot (snd (EndContinuousCalibration e ctx)) = s"
    and "fst (EndContinuousCalibration e ctx) = ps_validProfile s"
    and "cal_state (snd (EndContinuousCalibration e ctx)) = CalNone"
  using assms by (simp_all add: EndContinuousCalibration_def Let_def CaptureProfileSnapshot_def RestoreProfileSnapshot_def)

text \<open>A whole session: start, the accepted candidates, end.\<close>

definition continuous_session ::
    "'p eigen \<Rightarrow> vr_device list \<Rightarrow> real \<Rightarrow> (vec3 \<times> vec3 \<times> 'p \<times> bool) list \<Rightarrow> 'p CalibrationContext
     \<Rightarrow> bool \<times> 'p CalibrationContext" where
  "continuous_session e ds now cs ctx =
     EndContinuousCalibration e (accept_all cs (snd (StartContinuousCalibration e ds now ctx)))"

definition earned_profile :: "(vec3 \<times> vec3 \<times> 'p \<times> bool) list \<Rightarrow> 'p CalibrationContext \<Rightarrow> 'p ProfileSnapshot" where
  "earned_profile cs ctx = (if cs = [] then CaptureProfileSnapshot ctx
                            else with_candidate (last cs) (CaptureProfileSnapshot ctx))"


text \<open>
  A recovery makes the cleared profile the entry of the new session: ending the session before the
  solver has produced a candidate leaves the overlay without a valid profile and saves nothing.
\<close>

lemma recovery_replaces_entry:
  "\<not> validProfile (snd (EndContinuousCalibration e (snd (RecoverFromWedgedCalibration e ds now ctx))))
   \<and> \<not> fst (EndContinuousCalibration e (snd (RecoverFromWedgedCalibration e ds now ctx)))"
proof -
  let ?c = "ClearRuntimeCalibrationForRecovery e ctx"
  have r: "snd (RecoverFromWedgedCalibration e ds now ctx) = snd (StartContinuousCalibration e ds now ?c)"
    by (simp add: RecoverFromWedgedCalibration_def Let_def case_prod_beta)
  have "ps_captured (CaptureProfileSnapshot ?c)" "\<not> ps_validProfile (CaptureProfileSnapshot ?c)"
    by (simp_all add: CaptureProfileSnapshot_def ClearRuntimeCalibrationForRecovery_def)
  then show ?thesis
    by (simp add: r EndContinuousCalibration_def Let_def StartContinuous_profile empty_snapshot_def
        RestoreProfileSnapshot_def)
qed

section \<open>Legal transitions\<close>

text \<open>
  Ending and cancelling are legal from every state; starting is legal exactly from the idle, the
  begin and the continuous states, and not while a one-shot calibration or an edit is under way.
\<close>

lemma lifecycle_transitions:
  "IsLegalTransition (cal_state c) (cal_state (snd (EndContinuousCalibration e c)))"
  "IsLegalTransition (cal_state c) (cal_state (snd (CancelCalibration c)))"
  "IsLegalTransition (cal_state c) (cal_state (snd (StartCalibration ds now c))) \<longleftrightarrow>
     cal_state c \<in> {CalNone, CalBegin, CalContinuous, CalContinuousStandby}"
  "IsLegalTransition (cal_state (snd (StartCalibration ds now c)))
     (cal_state (snd (StartContinuousCalibration e ds now c)))"
proof -
  have e: "cal_state (snd (EndContinuousCalibration e c)) = CalNone"
    by (simp add: EndContinuousCalibration_def Let_def RestoreProfileSnapshot_def)
  show "IsLegalTransition (cal_state c) (cal_state (snd (EndContinuousCalibration e c)))"
    unfolding e by (cases "cal_state c") simp_all
  show "IsLegalTransition (cal_state c) (cal_state (snd (CancelCalibration c)))"
    by (cases "cal_state c") (simp_all add: CancelCalibration_def)
  have s: "cal_state (snd (StartCalibration ds now c)) = CalBegin"
    by (simp add: StartCalibration_def Let_def)
  show "IsLegalTransition (cal_state c) (cal_state (snd (StartCalibration ds now c))) \<longleftrightarrow>
     cal_state c \<in> {CalNone, CalBegin, CalContinuous, CalContinuousStandby}"
    unfolding s by (cases "cal_state c") simp_all
  show "IsLegalTransition (cal_state (snd (StartCalibration ds now c)))
     (cal_state (snd (StartContinuousCalibration e ds now c)))"
    by (simp add: s StartContinuous_profile)
qed

end
