(* ===== verification/WarmRestart.thy ===== *)
theory WarmRestart
  imports CalLifecycle
begin

text \<open>
  Warm restart: the decisions of \<open>WarmRestart.h\<close>, the block of \<open>CalibrationTick\<close> that watches the
  user take the headset off and put it on again, and the block that validates the snapped profile
  during the grace window.
\<close>

section \<open>Decisions\<close>

definition kMinAwaySeconds :: real where "kMinAwaySeconds = 5"
definition kMaxAwaySeconds :: real where "kMaxAwaySeconds = 4 * 3600"
definition kPositionJumpFastPathM :: real where "kPositionJumpFastPathM = 30 / 100"
definition kColdStartGraceTicks :: int where "kColdStartGraceTicks = 100"
definition kValidatedSettledMadM :: real where "kValidatedSettledMadM = 8 / 1000"
definition kValidatedFailedMadM :: real where "kValidatedFailedMadM = 20 / 1000"
definition kAcceptBiasTransM :: real where "kAcceptBiasTransM = 5 / 1000"
definition kFailBiasTransM :: real where "kFailBiasTransM = 15 / 1000"
definition kValidationMinSamples :: int where "kValidationMinSamples = 20"
definition kGraceSamples :: int where "kGraceSamples = 100"

lemmas warm_constants = kMinAwaySeconds_def kMaxAwaySeconds_def kPositionJumpFastPathM_def
  kColdStartGraceTicks_def kValidatedSettledMadM_def kValidatedFailedMadM_def kAcceptBiasTransM_def
  kFailBiasTransM_def kValidationMinSamples_def kGraceSamples_def

record EngageInput =
  en_wasPresent :: bool
  en_nowPresent :: bool
  en_awayForSeconds :: real
  en_validProfile :: bool
  en_stateEligible :: bool
  en_awayPositionDeltaM :: real
  en_tickId :: int

definition ShouldEngage :: "EngageInput \<Rightarrow> bool" where
  "ShouldEngage i =
     (if en_wasPresent i \<or> \<not> en_nowPresent i then False
      else if \<not> en_validProfile i \<or> \<not> en_stateEligible i then False
      else if en_tickId i < kColdStartGraceTicks then False
      else kPositionJumpFastPathM \<le> en_awayPositionDeltaM i
           \<or> (kMinAwaySeconds \<le> en_awayForSeconds i \<and> en_awayForSeconds i \<le> kMaxAwaySeconds))"

record ValidationInputs =
  va_madFloorM :: real
  va_samplesSinceSnap :: int
  va_graceEndedThisTick :: bool
  va_meanBiasTransM :: real

definition EvaluateValidation :: "ValidationInputs \<Rightarrow> ValidationOutcome" where
  "EvaluateValidation i =
     (if kValidationMinSamples \<le> va_samplesSinceSnap i \<and> kFailBiasTransM < va_meanBiasTransM i then Failed
      else if va_graceEndedThisTick i \<and> kValidatedFailedMadM < va_madFloorM i then Failed
      else if kValidationMinSamples \<le> va_samplesSinceSnap i \<and> 0 < va_madFloorM i
              \<and> va_madFloorM i < kValidatedSettledMadM \<and> va_meanBiasTransM i \<le> kAcceptBiasTransM
      then Settled
      else Inconclusive)"

section \<open>Watching the user\<close>

datatype activity = ActUnknown | ActIdle | ActUserInteraction | ActUserInteractionTimeout
  | ActStandby | ActIdleTimeout

record presence_input =
  pi_time :: real
  pi_vrSystem :: "activity option"
  pi_hmdPos :: vec3
  pi_hmdPoseValid :: bool
  pi_errTs :: real
  pi_metricsNow :: real

definition pi_activity :: "presence_input \<Rightarrow> activity" where
  "pi_activity i = (case pi_vrSystem i of None \<Rightarrow> ActUserInteraction | Some a \<Rightarrow> a)"

definition pi_present :: "presence_input \<Rightarrow> bool" where
  "pi_present i \<longleftrightarrow> pi_activity i = ActUserInteraction \<or> pi_activity i = ActUserInteractionTimeout"

definition engage_input :: "presence_input \<Rightarrow> 'p CalibrationContext \<Rightarrow> EngageInput" where
  "engage_input i ctx = \<lparr>en_wasPresent = lastUserPresent ctx, en_nowPresent = pi_present i,
     en_awayForSeconds = (if 0 < userAwaySince ctx then pi_time i - userAwaySince ctx else 0),
     en_validProfile = validProfile ctx, en_stateEligible = InContinuousFamily (cal_state ctx),
     en_awayPositionDeltaM = (if hmdLastKnownPosValid ctx \<and> pi_hmdPoseValid i
        then vnorm (vsub (pi_hmdPos i) (hmdLastKnownPosWhenAway ctx)) else 0),
     en_tickId = warmRestartTickId ctx\<rparr>"

definition warm_snap :: "presence_input \<Rightarrow> 'p CalibrationContext \<Rightarrow> 'p CalibrationContext" where
  "warm_snap i ctx = ctx\<lparr>warmRestartGraceSamples := kGraceSamples,
     warmRestartMadAtSnap := autoLockMadFloor ctx, warmRestartValidationState := Inconclusive,
     postSnapErrorSumMm := 0, postSnapErrorSampleCount := 0,
     warmRestartLastConsumedErrTs := pi_errTs i, warmRestartSnapTime := pi_metricsNow i\<rparr>"

text \<open>The flag says whether the next profile is snapped to the driver.\<close>

definition presence_tick :: "presence_input \<Rightarrow> 'p CalibrationContext \<Rightarrow> bool \<times> 'p CalibrationContext" where
  "presence_tick i ctx =
     (if pi_activity i = ActUnknown then (False, ctx)
      else let ctx = ctx\<lparr>warmRestartTickId := warmRestartTickId ctx + 1\<rparr>;
               wasPresent = lastUserPresent ctx; nowPresent = pi_present i
           in if wasPresent \<and> \<not> nowPresent
              then let ctx = ctx\<lparr>userAwaySince := pi_time i\<rparr>;
                       ctx = (if pi_hmdPoseValid i
                              then ctx\<lparr>hmdLastKnownPosWhenAway := pi_hmdPos i, hmdLastKnownPosValid := True\<rparr>
                              else ctx)
                   in (False, ctx\<lparr>lastUserPresent := nowPresent\<rparr>)
              else if \<not> wasPresent \<and> nowPresent
              then let engaged = ShouldEngage (engage_input i ctx);
                       ctx = (if engaged then warm_snap i ctx else ctx)
                   in (engaged, ctx\<lparr>userAwaySince := 0, hmdLastKnownPosValid := False,
                                  lastUserPresent := nowPresent\<rparr>)
              else (False, ctx\<lparr>lastUserPresent := nowPresent\<rparr>))"

section \<open>Validating the snap\<close>

definition accumulate_bias :: "real \<times> real \<Rightarrow> 'p CalibrationContext \<Rightarrow> 'p CalibrationContext" where
  "accumulate_bias err ctx =
     (if warmRestartLastConsumedErrTs ctx < fst err
      then ctx\<lparr>postSnapErrorSumMm := postSnapErrorSumMm ctx + snd err,
              postSnapErrorSampleCount := postSnapErrorSampleCount ctx + 1,
              warmRestartLastConsumedErrTs := fst err\<rparr>
      else ctx)"

definition mean_bias :: "'p CalibrationContext \<Rightarrow> real" where
  "mean_bias ctx = (if 0 < postSnapErrorSampleCount ctx
     then postSnapErrorSumMm ctx / real_of_int (postSnapErrorSampleCount ctx) / 1000 else 0)"

text \<open>
  One solve during the grace window, with the latest entry of the error series. The flag says
  whether the recovery is run.
\<close>

definition validation_tick :: "real \<times> real \<Rightarrow> 'p CalibrationContext \<Rightarrow> bool \<times> 'p CalibrationContext" where
  "validation_tick err ctx =
     (if \<not> 0 < warmRestartGraceSamples ctx then (False, ctx)
      else let ctx = accumulate_bias err (ctx\<lparr>warmRestartGraceSamples := warmRestartGraceSamples ctx - 1\<rparr>);
               outcome = EvaluateValidation \<lparr>va_madFloorM = autoLockMadFloor ctx,
                 va_samplesSinceSnap = kGraceSamples - warmRestartGraceSamples ctx,
                 va_graceEndedThisTick = (warmRestartGraceSamples ctx = 0),
                 va_meanBiasTransM = mean_bias ctx\<rparr>
           in if outcome = Settled \<and> warmRestartValidationState ctx \<noteq> Settled
              then (False, ctx\<lparr>warmRestartValidationState := Settled, warmRestartGraceSamples := 0\<rparr>)
              else if outcome = Failed \<and> warmRestartValidationState ctx \<noteq> Failed
              then (True, ctx\<lparr>warmRestartValidationState := Failed, warmRestartGraceSamples := 0\<rparr>)
              else (False, ctx))"

definition validate_and_recover ::
    "'p eigen \<Rightarrow> vr_device list \<Rightarrow> real \<Rightarrow> real \<times> real \<Rightarrow> 'p CalibrationContext \<Rightarrow> 'p CalibrationContext" where
  "validate_and_recover e devices now err ctx =
     (let (failed, ctx) = validation_tick err ctx
      in if failed then snd (RecoverFromWedgedCalibration e devices now ctx) else ctx)"

section \<open>A snap follows a real break\<close>

text \<open>
  While the user is away the trace of ticks ends in the tick on which they left, after which no tick
  saw them.
\<close>

definition away_trace :: "presence_input list \<Rightarrow> presence_input \<Rightarrow> bool" where
  "away_trace is j \<longleftrightarrow> (\<exists>pre suf. is = pre @ j # suf \<and> list_all (\<lambda>k. \<not> pi_present k) (j # suf))"

definition presence_inv :: "presence_input list \<Rightarrow> 'p CalibrationContext \<Rightarrow> bool" where
  "presence_inv is ctx \<longleftrightarrow>
     (if lastUserPresent ctx then \<not> hmdLastKnownPosValid ctx
      else \<exists>j. away_trace is j \<and> userAwaySince ctx = pi_time j
             \<and> (hmdLastKnownPosValid ctx \<longrightarrow> hmdLastKnownPosWhenAway ctx = pi_hmdPos j))
     \<and> warmRestartTickId ctx = int (length (filter (\<lambda>k. pi_activity k \<noteq> ActUnknown) is))"

lemma away_trace_start: "\<not> pi_present j \<Longrightarrow> away_trace (is @ [j]) j"
  unfolding away_trace_def by (intro exI [of _ "is"] exI [of _ "[]"]) simp

lemma away_trace_on: "away_trace is j \<Longrightarrow> \<not> pi_present i \<Longrightarrow> away_trace (is @ [i]) j"
  unfolding away_trace_def by (metis append.assoc append_Cons list.pred_inject list_all_append)

lemma unknown_absent: "pi_activity i = ActUnknown \<Longrightarrow> \<not> pi_present i"
  by (simp add: pi_present_def)

lemma presence_tick_inv:
  assumes "presence_inv is ctx"
  shows "presence_inv (is @ [i]) (snd (presence_tick i ctx))"
proof (cases "pi_activity i = ActUnknown")
  case True
  then show ?thesis
    using assms away_trace_on [of "is" _ i] unknown_absent [OF True]
    by (simp add: presence_tick_def presence_inv_def split: if_splits) blast+
next
  case False
  show ?thesis
  proof (cases "pi_present i")
    case True
    then show ?thesis
      using False assms by (auto simp: presence_tick_def presence_inv_def Let_def warm_snap_def)
  next
    case absent: False
    then show ?thesis
      using False assms away_trace_start [OF absent, of "is"] away_trace_on [OF _ absent, of "is"]
      by (cases "lastUserPresent ctx"; cases "pi_hmdPoseValid i")
        (auto simp: presence_tick_def presence_inv_def Let_def)
  qed
qed

definition presence_run :: "presence_input list \<Rightarrow> 'p CalibrationContext \<Rightarrow> 'p CalibrationContext" where
  "presence_run is ctx = fold (\<lambda>i c. snd (presence_tick i c)) is ctx"

lemma presence_run_inv: "presence_inv [] ctx \<Longrightarrow> presence_inv is (presence_run is ctx)"
  by (induction "is" rule: rev_induct) (simp_all add: presence_run_def presence_tick_inv)

lemma presence_tick_snap:
  assumes "fst (presence_tick i ctx)"
  shows "\<not> lastUserPresent ctx" and "pi_present i" and "validProfile ctx"
    and "InContinuousFamily (cal_state ctx)" and "99 \<le> warmRestartTickId ctx"
    and "30 / 100 \<le> (if hmdLastKnownPosValid ctx \<and> pi_hmdPoseValid i
           then vnorm (vsub (pi_hmdPos i) (hmdLastKnownPosWhenAway ctx)) else 0)
      \<or> (0 < userAwaySince ctx \<and> 5 \<le> pi_time i - userAwaySince ctx \<and> pi_time i - userAwaySince ctx \<le> 14400)"
    and "warmRestartGraceSamples (snd (presence_tick i ctx)) = 100"
  using assms by (auto simp: presence_tick_def Let_def ShouldEngage_def engage_input_def warm_constants
      warm_snap_def split: if_splits)


section \<open>The grace window\<close>

lemma validation_tick_grace:
  assumes "0 \<le> warmRestartGraceSamples ctx"
  shows "0 \<le> warmRestartGraceSamples (snd (validation_tick err ctx))
    \<and> warmRestartGraceSamples (snd (validation_tick err ctx)) \<le> max 0 (warmRestartGraceSamples ctx - 1)"
  using assms by (simp add: validation_tick_def accumulate_bias_def Let_def)

lemma validation_tick_idle:
  "warmRestartGraceSamples ctx = 0 \<Longrightarrow> validation_tick err ctx = (False, ctx)"
  by (simp add: validation_tick_def)

text \<open>Between two solves the detector updates the floor, which is part of the input here.\<close>

fun validation_run :: "(real \<times> real \<times> real) list \<Rightarrow> 'p CalibrationContext \<Rightarrow> nat \<times> 'p CalibrationContext" where
  "validation_run [] ctx = (0, ctx)"
| "validation_run ((mad, err) # xs) ctx =
     (let (failed, c) = validation_tick err (ctx\<lparr>autoLockMadFloor := mad\<rparr>);
          (n, d) = validation_run xs c
      in ((if failed then 1 else 0) + n, d))"

lemma validation_run_idle:
  "warmRestartGraceSamples ctx = 0 \<Longrightarrow>
     fst (validation_run xs ctx) = 0 \<and> warmRestartGraceSamples (snd (validation_run xs ctx)) = 0"
proof (induction xs arbitrary: ctx)
  case (Cons x xs)
  then show ?case
    using validation_tick_idle [of "ctx\<lparr>autoLockMadFloor := fst x\<rparr>" "snd x"] Cons.IH [of "ctx\<lparr>autoLockMadFloor := fst x\<rparr>"]
    by (cases x) (simp add: Let_def case_prod_beta)
qed simp

lemma validation_tick_failed:
  "fst (validation_tick err ctx) \<Longrightarrow> warmRestartGraceSamples (snd (validation_tick err ctx)) = 0"
  by (auto simp: validation_tick_def Let_def split: if_splits)

lemma validation_run_bounds:
  "0 \<le> warmRestartGraceSamples ctx \<Longrightarrow> fst (validation_run xs ctx) \<le> 1
     \<and> 0 \<le> warmRestartGraceSamples (snd (validation_run xs ctx))
     \<and> warmRestartGraceSamples (snd (validation_run xs ctx)) \<le> max 0 (warmRestartGraceSamples ctx - int (length xs))"
proof (induction xs arbitrary: ctx)
  case (Cons x xs)
  let ?r = "validation_tick (snd x) (ctx\<lparr>autoLockMadFloor := fst x\<rparr>)"
  have g: "0 \<le> warmRestartGraceSamples (snd ?r)"
    "warmRestartGraceSamples (snd ?r) \<le> max 0 (warmRestartGraceSamples ctx - 1)"
    using validation_tick_grace [of "ctx\<lparr>autoLockMadFloor := fst x\<rparr>" "snd x"] Cons.prems by simp_all
  have run: "validation_run (x # xs) ctx = ((if fst ?r then 1 else 0) + fst (validation_run xs (snd ?r)),
      snd (validation_run xs (snd ?r)))"
    by (cases x) (simp add: Let_def case_prod_beta)
  show ?case
  proof (cases "fst ?r")
    case True
    then show ?thesis
      using validation_run_idle [OF validation_tick_failed [OF True], of xs] by (simp add: run)
  next
    case False
    then show ?thesis
      using Cons.IH [OF g(1)] g(2) by (simp add: run) linarith
  qed
qed simp

text \<open>Validation of a snap ends. Whatever the floor and the errors are, at most a hundred solves
  after a snap the grace window is over, and on the way the recovery has been run at most once.
\<close>

theorem grace_window_ends:
  assumes "fst (presence_tick i ctx)" and "100 \<le> length xs"
  shows "warmRestartGraceSamples (snd (validation_run xs (snd (presence_tick i ctx)))) = 0
    \<and> fst (validation_run xs (snd (presence_tick i ctx))) \<le> 1"
  using validation_run_bounds [of "snd (presence_tick i ctx)" xs] presence_tick_snap(7) [OF assms(1)] assms(2)
  by auto

text \<open>
  The verdicts: a snapped profile is declared settled only with twenty solves behind it, a positive
  floor below 8 mm and a mean error of at most 5 mm; it is declared failed only with a mean error
  above 15 mm after twenty solves, or with a floor above 20 mm at the end of the window. The two
  verdicts exclude each other.
\<close>

lemma validation_verdicts:
  "(EvaluateValidation v = Settled \<longrightarrow> 20 \<le> va_samplesSinceSnap v \<and> 0 < va_madFloorM v
      \<and> va_madFloorM v < 8 / 1000 \<and> va_meanBiasTransM v \<le> 5 / 1000)
   \<and> (EvaluateValidation v = Failed \<longleftrightarrow>
       20 \<le> va_samplesSinceSnap v \<and> 15 / 1000 < va_meanBiasTransM v
       \<or> va_graceEndedThisTick v \<and> 20 / 1000 < va_madFloorM v)"
  by (simp add: EvaluateValidation_def warm_constants)

text \<open>A failed validation discards the profile and restarts the calibration.\<close>

lemma failed_validation_restarts:
  assumes "fst (validation_tick err ctx)"
  shows "cal_state (validate_and_recover e ds now err ctx) = CalContinuous
    \<and> \<not> ps_validProfile (continuousStartSnapshot (validate_and_recover e ds now err ctx))"
proof -
  let ?c = "ClearRuntimeCalibrationForRecovery e (snd (validation_tick err ctx))"
  have "validate_and_recover e ds now err ctx = snd (StartContinuousCalibration e ds now ?c)"
    using assms by (simp add: validate_and_recover_def RecoverFromWedgedCalibration_def Let_def case_prod_beta)
  then show ?thesis
    by (simp add: StartContinuous_profile CaptureProfileSnapshot_def ClearRuntimeCalibrationForRecovery_def)
qed

section \<open>A concrete session\<close>

definition seen :: "activity \<Rightarrow> real \<Rightarrow> presence_input" where
  "seen a t = \<lparr>pi_time = t, pi_vrSystem = Some a, pi_hmdPos = vzero, pi_hmdPoseValid = True,
     pi_errTs = 0, pi_metricsNow = t\<rparr>"

definition warm_context :: "(real \<times> real) CalibrationContext" where
  "warm_context = (new_context line_eigen)\<lparr>cal_state := CalContinuous, validProfile := True\<rparr>"

lemma present_run:
  "lastUserPresent ctx \<Longrightarrow> presence_run (replicate n (seen ActUserInteraction t)) ctx =
     ctx\<lparr>warmRestartTickId := warmRestartTickId ctx + int n\<rparr>"
  by (induction n arbitrary: ctx)
    (simp_all add: presence_run_def presence_tick_def seen_def pi_activity_def pi_present_def)

lemma warm_session_snaps:
  "fst (presence_tick (seen ActUserInteraction 20)
     (presence_run (replicate 98 (seen ActUserInteraction 1) @ [seen ActStandby 10]) warm_context))"
proof -
  have "presence_run (replicate 98 (seen ActUserInteraction 1) @ [seen ActStandby 10]) warm_context =
      snd (presence_tick (seen ActStandby 10) (warm_context\<lparr>warmRestartTickId := 98\<rparr>))"
    using present_run [of warm_context 98 1]
    by (simp add: presence_run_def warm_context_def new_context_def)
  then show ?thesis
    by (simp add: presence_tick_def seen_def pi_activity_def pi_present_def warm_context_def
        new_context_def ShouldEngage_def engage_input_def InContinuousFamily_def warm_constants)
qed


theorem grace_window_ends_witness:
  "warmRestartGraceSamples (snd (validation_run (replicate 100 (0, 0, 0)) (snd (presence_tick
     (seen ActUserInteraction 20) (presence_run (replicate 98 (seen ActUserInteraction 1) @
       [seen ActStandby 10]) warm_context))))) = 0"
  using grace_window_ends [OF warm_session_snaps, of "replicate 100 (0, 0, 0)"] by simp

end
