(* ===== verification/FloorCapture.thy ===== *)
theory FloorCapture
  imports AutoLock
begin

text \<open>
  Capturing the floor height with a controller (\<open>BoundaryFloorCapture.cpp\<close>): the session, the
  smoothed estimate that only moves down, and the marker square.
\<close>

section \<open>The session\<close>

record floor_candidate =
  fc_valid :: bool
  fc_ready :: bool
  fc_stable :: bool
  fc_floorY :: real
  fc_deviceId :: int
  fc_trackingSystem :: string
  fc_pos :: vec3
  fc_sampleCount :: nat
  fc_jitterMeters :: real
  fc_recentDriftMeters :: real

record floor_session =
  fs_active :: bool
  fs_originalFloorY :: real
  fs_originalCeilingY :: real
  fs_recent :: "real list"
  fs_candidate :: floor_candidate

definition no_candidate :: floor_candidate where
  "no_candidate = \<lparr>fc_valid = False, fc_ready = False, fc_stable = False, fc_floorY = 0, fc_deviceId = - 1,
     fc_trackingSystem = [], fc_pos = vzero, fc_sampleCount = 0, fc_jitterMeters = 0, fc_recentDriftMeters = 0\<rparr>"

definition Floor_Begin :: "real \<Rightarrow> real \<Rightarrow> floor_session \<Rightarrow> floor_session" where
  "Floor_Begin originalFloorY originalCeilingY s =
     s\<lparr>fs_active := True, fs_originalFloorY := originalFloorY, fs_originalCeilingY := originalCeilingY,
       fs_recent := [], fs_candidate := no_candidate\<rparr>"

definition Floor_Reset :: "floor_session \<Rightarrow> floor_session" where
  "Floor_Reset s = s\<lparr>fs_active := False, fs_recent := [], fs_candidate := no_candidate\<rparr>"

definition percentileIndex :: "nat \<Rightarrow> nat" where
  "percentileIndex n = min (n - 1) (nat \<lfloor>real (n - 1) * (15 / 100)\<rfloor>)"

definition highPercentileIndex :: "nat \<Rightarrow> nat" where
  "highPercentileIndex n = min (n - 1) (nat \<lceil>real (n - 1) * (85 / 100)\<rceil>)"

record floor_obs =
  fo_pos :: vec3
  fo_finite :: bool
  fo_deviceId :: int
  fo_trackingSystem :: string

text \<open>The readings that count: finite positions between 5 m below and 5 m above the origin.\<close>

definition accepts :: "floor_obs \<Rightarrow> bool" where
  "accepts o' \<longleftrightarrow> fo_finite o' \<and> \<not> (vy (fo_pos o') < - 5 \<or> 5 < vy (fo_pos o'))"

definition floor_estimate :: "floor_candidate \<Rightarrow> real list \<Rightarrow> real \<Rightarrow> real" where
  "floor_estimate c recent y =
     (let estimate = nth_smallest (percentileIndex (length recent)) recent
      in if fc_valid c \<and> y < fc_floorY c then min estimate y else estimate)"

definition next_floor :: "floor_candidate \<Rightarrow> real \<Rightarrow> real" where
  "next_floor c estimate =
     (let smoothed = (if fc_valid c then fc_floorY c + (estimate - fc_floorY c) * (55 / 100) else estimate)
      in if fc_valid c then min (fc_floorY c) smoothed else smoothed)"

definition Floor_Observe :: "floor_obs \<Rightarrow> floor_session \<Rightarrow> bool \<times> floor_session" where
  "Floor_Observe o' s =
     (if \<not> fs_active s then (False, s)
      else if \<not> accepts o' then (False, s)
      else let p = fo_pos o'; y = vy p; c = fs_candidate s;
               recent = keep_last 36 (fs_recent s @ [y]);
               n = length recent;
               wasValid = fc_valid c;
               estimate = floor_estimate c recent y;
               jitter = nth_smallest (highPercentileIndex n) recent - nth_smallest (percentileIndex n) recent;
               drift = (if 2 \<le> n then \<bar>last recent - hd recent\<bar> else 0);
               floorY = next_floor c estimate;
               dx = vx p - vx (fc_pos c); dz = vz p - vz (fc_pos c);
               markerMoved = (\<not> wasValid \<or> (1 / 100) * (1 / 100) < dx * dx + dz * dz);
               floorMoved = (\<not> wasValid \<or> 2 / 1000 < \<bar>floorY - fc_floorY c\<bar>);
               deviceChanged = (\<not> wasValid \<or> fo_deviceId o' \<noteq> fc_deviceId c);
               count = fc_sampleCount c + 1
           in (floorMoved \<or> markerMoved \<or> deviceChanged,
               s\<lparr>fs_recent := recent,
                 fs_candidate := \<lparr>fc_valid = True, fc_ready = (4 \<le> count),
                   fc_stable = (8 \<le> count \<and> jitter \<le> 2 / 100 \<and> drift \<le> 8 / 1000),
                   fc_floorY = floorY, fc_deviceId = fo_deviceId o', fc_trackingSystem = fo_trackingSystem o',
                   fc_pos = p, fc_sampleCount = count, fc_jitterMeters = jitter, fc_recentDriftMeters = drift\<rparr>\<rparr>))"

definition BuildFloorMarkerVertices :: "vec3 \<Rightarrow> bool \<Rightarrow> real \<Rightarrow> real \<Rightarrow> vec3 list" where
  "BuildFloorMarkerVertices p allFinite floorY h =
     (if \<not> allFinite \<or> h \<le> 0 then []
      else [\<lparr>vx = vx p - h, vy = floorY, vz = vz p - h\<rparr>, \<lparr>vx = vx p + h, vy = floorY, vz = vz p - h\<rparr>,
            \<lparr>vx = vx p + h, vy = floorY, vz = vz p + h\<rparr>, \<lparr>vx = vx p - h, vy = floorY, vz = vz p + h\<rparr>])"

section \<open>The floor only moves down, and never below the lowest reading\<close>

definition floor_run :: "floor_obs list \<Rightarrow> floor_session \<Rightarrow> floor_session" where
  "floor_run os s = fold (\<lambda>o' s. snd (Floor_Observe o' s)) os s"

lemma percentileIndex_less: "0 < n \<Longrightarrow> percentileIndex n < n"
  by (simp add: percentileIndex_def)

lemma estimate_ge:
  assumes "recent \<noteq> []" and "\<forall>x\<in>set recent. m \<le> x" and "m \<le> y"
  shows "m \<le> floor_estimate c recent y"
proof -
  have "nth_smallest (percentileIndex (length recent)) recent \<in> set recent"
    using assms(1) by (intro nth_smallest_in percentileIndex_less) simp
  then show ?thesis
    using assms(2,3) by (auto simp: floor_estimate_def Let_def)
qed

lemma next_floor_bounds:
  assumes "m \<le> e" and "fc_valid c \<longrightarrow> m \<le> fc_floorY c"
  shows "m \<le> next_floor c e" and "fc_valid c \<Longrightarrow> next_floor c e \<le> fc_floorY c"
proof -
  have "m \<le> fc_floorY c + (e - fc_floorY c) * (55 / 100)" if "m \<le> fc_floorY c"
    using that assms(1) by (simp add: field_simps)
  then show "m \<le> next_floor c e" and "fc_valid c \<Longrightarrow> next_floor c e \<le> fc_floorY c"
    using assms by (auto simp: next_floor_def Let_def)
qed

lemma next_floor_first: "\<not> fc_valid c \<Longrightarrow> next_floor c e = e"
  by (simp add: next_floor_def)

lemma floor_estimate_single: "floor_estimate c [y] y = y"
  by (simp add: floor_estimate_def percentileIndex_def nth_smallest_def)

text \<open>What the session knows about the readings \<open>ys\<close> it has accepted so far.\<close>

definition floor_inv :: "real list \<Rightarrow> floor_session \<Rightarrow> bool" where
  "floor_inv ys s \<longleftrightarrow> fs_active s \<and> fs_recent s = keep_last 36 ys
     \<and> fc_sampleCount (fs_candidate s) = length ys \<and> fc_valid (fs_candidate s) = (ys \<noteq> [])
     \<and> (ys \<noteq> [] \<longrightarrow> (\<forall>m. (\<forall>y\<in>set ys. m \<le> y) \<longrightarrow> m \<le> fc_floorY (fs_candidate s))
          \<and> fc_floorY (fs_candidate s) \<le> hd ys
          \<and> fc_ready (fs_candidate s) = (4 \<le> length ys))"

lemma keep_last_snoc: "0 < n \<Longrightarrow> keep_last n (keep_last n xs @ [x]) = keep_last n (xs @ [x])"
  by (cases "length xs \<le> n") (auto simp: keep_last_def Suc_diff_le)

lemma set_keep_last: "set (keep_last n xs) \<subseteq> set xs"
  by (simp add: keep_last_def set_drop_subset)

lemma Observe_inv:
  assumes inv: "floor_inv ys s" and acc: "accepts o'"
  shows "floor_inv (ys @ [vy (fo_pos o')]) (snd (Floor_Observe o' s))"
proof -
  let ?y = "vy (fo_pos o')" and ?c = "fs_candidate s"
  let ?r = "keep_last 36 (fs_recent s @ [?y])"
  let ?e = "floor_estimate ?c ?r ?y"
  have r: "?r = keep_last 36 (ys @ [?y])"
    using inv by (simp add: floor_inv_def keep_last_snoc)
  have lower: "m \<le> next_floor ?c ?e" if m: "\<forall>y\<in>set (ys @ [?y]). m \<le> y" for m
  proof (rule next_floor_bounds(1))
    show "m \<le> ?e"
      unfolding r using m set_keep_last [of 36 "ys @ [?y]"]
      by (intro estimate_ge) (auto simp: keep_last_def)
    show "fc_valid ?c \<longrightarrow> m \<le> fc_floorY ?c"
      using inv m by (auto simp: floor_inv_def)
  qed
  have upper: "next_floor ?c ?e \<le> hd (ys @ [?y])"
  proof (cases "ys = []")
    case True
    then show ?thesis
      using inv by (simp add: floor_inv_def next_floor_first keep_last_def floor_estimate_single)
  next
    case False
    then have "next_floor ?c ?e \<le> fc_floorY ?c"
      using inv by (intro next_floor_bounds(2) [of "min ?e (fc_floorY ?c)"]) (auto simp: floor_inv_def)
    then show ?thesis using inv False by (auto simp: floor_inv_def)
  qed
  show ?thesis
    using inv acc lower upper
    by (simp add: floor_inv_def Floor_Observe_def Let_def keep_last_snoc)
qed

lemma Observe_rejected: "\<not> accepts o' \<Longrightarrow> snd (Floor_Observe o' s) = s"
  by (simp add: Floor_Observe_def)

definition readings :: "floor_obs list \<Rightarrow> real list" where
  "readings os = map (\<lambda>o'. vy (fo_pos o')) (filter accepts os)"

lemma floor_run_inv: "floor_inv (readings os) (floor_run os (Floor_Begin f c s))"
proof (induction os rule: rev_induct)
  case Nil
  then show ?case
    by (simp add: floor_run_def readings_def floor_inv_def Floor_Begin_def no_candidate_def keep_last_def)
next
  case (snoc o' os)
  then show ?case
    using Observe_inv [OF snoc.IH, of o'] Observe_rejected [of o']
    by (cases "accepts o'") (simp_all add: floor_run_def readings_def)
qed

text \<open>The captured floor is where the controller has been. After any sequence of observations in a
  session with at least one usable reading, the floor lies between the lowest usable reading and the
  first one, one more observation never raises it, and it is offered to the user exactly when four
  readings have been usable.
\<close>

theorem captured_floor_bounds:
  assumes "readings os \<noteq> []"
    and "s' = floor_run os (Floor_Begin f c s)"
  shows "Min (set (readings os)) \<le> fc_floorY (fs_candidate s')
    \<and> fc_floorY (fs_candidate s') \<le> hd (readings os)
    \<and> fc_floorY (fs_candidate (snd (Floor_Observe o' s'))) \<le> fc_floorY (fs_candidate s')
    \<and> (fc_ready (fs_candidate s') \<longleftrightarrow> 4 \<le> length (readings os))"
proof -
  have inv: "floor_inv (readings os) s'" using floor_run_inv assms(2) by simp
  have "\<forall>y\<in>set (readings os). Min (set (readings os)) \<le> y" by simp
  then have "Min (set (readings os)) \<le> fc_floorY (fs_candidate s')"
    using inv assms(1) by (auto simp: floor_inv_def)
  moreover have "fc_valid (fs_candidate s')" using inv assms(1) by (simp add: floor_inv_def)
  then have "fc_floorY (fs_candidate (snd (Floor_Observe o' s'))) \<le> fc_floorY (fs_candidate s')"
    by (simp add: Floor_Observe_def Let_def next_floor_def)
  ultimately show ?thesis
    using inv assms(1) by (simp add: floor_inv_def)
qed

definition reading :: "real \<Rightarrow> floor_obs" where
  "reading y = \<lparr>fo_pos = \<lparr>vx = 0, vy = y, vz = 0\<rparr>, fo_finite = True, fo_deviceId = 3, fo_trackingSystem = []\<rparr>"

definition idle_session :: floor_session where
  "idle_session = \<lparr>fs_active = False, fs_originalFloorY = 0, fs_originalCeilingY = 25 / 10, fs_recent = [],
     fs_candidate = no_candidate\<rparr>"

theorem captured_floor_bounds_witness:
  "fc_floorY (fs_candidate (floor_run [reading 1, reading 0] (Floor_Begin 0 2 idle_session))) \<le> 1"
  using captured_floor_bounds [of "[reading 1, reading 0]" _ 0 2 idle_session]
  by (simp add: readings_def reading_def accepts_def)

text \<open>
  The floor is not latched at the lowest point: a single touch of a lower point moves it only 55
  percent of the way.
\<close>

lemma single_touch_partial:
  "fc_floorY (fs_candidate (floor_run [reading 1, reading 0] (Floor_Begin 0 2 idle_session))) = 45 / 100"
  by (simp add: floor_run_def Floor_Observe_def Floor_Begin_def idle_session_def reading_def accepts_def
      no_candidate_def keep_last_def floor_estimate_def next_floor_def percentileIndex_def
      nth_smallest_def Let_def)

end
