(* ===== verification/CalPolicies.thy ===== *)
theory CalPolicies
  imports CalLifecycle
begin

text \<open>
  Small policies of the calibration overlay: the sticky choice of the sample-buffer size
  (\<open>CalibrationAutoSpeed.h\<close>, \<open>ResolvedCalibrationSpeed\<close> in \<open>Calibration.cpp\<close>), which trackers are
  hidden (\<open>HeadMountVisibility.h\<close>), and when the headset offset may be solved
  (\<open>HeadMountOffsetPreflight.h\<close>).
\<close>

section \<open>AUTO speed\<close>

datatype Speed = FAST | SLOW | VERY_SLOW | AUTO

text \<open>A fit error that is not finite is \<open>None\<close>.\<close>

definition IsUsableFitRmsMm :: "real option \<Rightarrow> bool" where
  "IsUsableFitRmsMm v \<longleftrightarrow> (case v of None \<Rightarrow> False | Some x \<Rightarrow> 0 \<le> x)"

definition SelectObservedFitRmsMm :: "real option \<Rightarrow> real option \<Rightarrow> real option" where
  "SelectObservedFitRmsMm candidate current =
     (if IsUsableFitRmsMm candidate then candidate
      else if IsUsableFitRmsMm current then current else Some 0)"

definition BucketForObservedFitRmsMm :: "real option \<Rightarrow> Speed" where
  "BucketForObservedFitRmsMm fit =
     (if \<not> IsUsableFitRmsMm fit \<or> the fit < 5 then FAST
      else if the fit < 10 then SLOW else VERY_SLOW)"

record speed_state =
  s_lastResolved :: Speed
  s_pendingResolved :: Speed
  s_pendingTicks :: int

definition speed_init :: speed_state where
  "speed_init = \<lparr>s_lastResolved = SLOW, s_pendingResolved = SLOW, s_pendingTicks = 0\<rparr>"

definition kRequiredStableTicks :: int where "kRequiredStableTicks = 5"

definition speed_evaluate :: "Speed \<Rightarrow> speed_state \<Rightarrow> speed_state" where
  "speed_evaluate candidate s =
     (if candidate = s_lastResolved s then s\<lparr>s_pendingResolved := candidate, s_pendingTicks := 0\<rparr>
      else if candidate = s_pendingResolved s
      then let s = s\<lparr>s_pendingTicks := s_pendingTicks s + 1\<rparr>
           in if kRequiredStableTicks \<le> s_pendingTicks s
              then s\<lparr>s_lastResolved := candidate, s_pendingTicks := 0\<rparr> else s
      else s\<lparr>s_pendingResolved := candidate, s_pendingTicks := 1\<rparr>)"

definition ResolvedCalibrationSpeed ::
    "Speed \<Rightarrow> CalibrationState \<Rightarrow> real option \<Rightarrow> real option \<Rightarrow> speed_state \<Rightarrow> Speed \<times> speed_state" where
  "ResolvedCalibrationSpeed requestedSpeed st rawFit currentFit s =
     (if requestedSpeed \<noteq> AUTO then (requestedSpeed, s)
      else if \<not> InContinuousFamily st then (FAST, s)
      else let s = speed_evaluate (BucketForObservedFitRmsMm (SelectObservedFitRmsMm rawFit currentFit)) s
           in (s_lastResolved s, s))"

definition speed_run :: "Speed list \<Rightarrow> speed_state \<Rightarrow> speed_state" where
  "speed_run cs s = fold speed_evaluate cs s"

lemma Bucket_not_auto [simp]: "BucketForObservedFitRmsMm f \<noteq> AUTO"
  by (simp add: BucketForObservedFitRmsMm_def)

lemma Resolved_not_auto:
  "s_lastResolved s \<noteq> AUTO \<Longrightarrow> fst (ResolvedCalibrationSpeed r st a b s) \<noteq> AUTO"
  by (auto simp: ResolvedCalibrationSpeed_def speed_evaluate_def Let_def dest!: sym [of AUTO]
      intro: Bucket_not_auto [THEN not_sym])

text \<open>Behind the pending count stand as many equal candidates at the end of the history.\<close>

definition speed_inv :: "Speed list \<Rightarrow> speed_state \<Rightarrow> bool" where
  "speed_inv cs s \<longleftrightarrow> 0 \<le> s_pendingTicks s \<and> s_pendingTicks s < 5
     \<and> nat (s_pendingTicks s) \<le> length cs
     \<and> (\<forall>c\<in>set (keep_last (nat (s_pendingTicks s)) cs). c = s_pendingResolved s)
     \<and> (s_pendingTicks s = 0 \<longrightarrow> s_pendingResolved s = s_lastResolved s)"

lemma keep_last_Suc_snoc: "keep_last (Suc n) (xs @ [x]) = keep_last n xs @ [x]"
  by (simp add: keep_last_def)

lemma speed_evaluate_inv: "speed_inv cs s \<Longrightarrow> speed_inv (cs @ [c]) (speed_evaluate c s)"
  by (auto simp: speed_inv_def speed_evaluate_def Let_def kRequiredStableTicks_def nat_add_distrib
      keep_last_Suc_snoc keep_last_Suc_snoc [of 0, simplified] Suc_nat_eq_nat_zadd1 [symmetric])
    (simp_all add: keep_last_def)

lemma speed_run_inv: "speed_inv cs (speed_run cs speed_init)"
  by (induction cs rule: rev_induct)
    (simp_all add: speed_run_def speed_evaluate_inv, simp add: speed_inv_def speed_init_def keep_last_def)

definition agreed :: "int \<Rightarrow> Speed \<Rightarrow> speed_state \<Rightarrow> bool" where
  "agreed k c s \<longleftrightarrow> s_lastResolved s = c
     \<or> (s_pendingResolved s = c \<and> k \<le> s_pendingTicks s \<and> 0 \<le> s_pendingTicks s \<and> s_pendingTicks s < 5)"

lemma agreed_start: "speed_inv cs s \<Longrightarrow> agreed 1 c (speed_evaluate c s)"
  by (auto simp: agreed_def speed_evaluate_def speed_inv_def Let_def kRequiredStableTicks_def)

lemma agreed_next: "agreed k c s \<Longrightarrow> agreed (k + 1) c (speed_evaluate c s)"
  by (auto simp: agreed_def speed_evaluate_def Let_def kRequiredStableTicks_def)

lemma agreed_five: "agreed 5 c s \<Longrightarrow> s_lastResolved s = c"
  by (auto simp: agreed_def)

lemma speed_change:
  assumes "speed_inv cs s" and "s_lastResolved (speed_evaluate c s) \<noteq> s_lastResolved s"
  shows "s_lastResolved (speed_evaluate c s) = c \<and> s_pendingTicks s = 4 \<and> s_pendingResolved s = c"
  using assms by (auto simp: speed_inv_def speed_evaluate_def Let_def kRequiredStableTicks_def split: if_splits)

text \<open>Noise does not change the buffer size. The resolved speed changes on an evaluation only if that
  evaluation and the four before it all asked for the new speed; and it does change once five in a
  row have asked for the same other speed.
\<close>

theorem speed_changes_after_five:
  "(s_lastResolved (speed_run (cs @ [c]) speed_init) = s_lastResolved (speed_run cs speed_init)
     \<or> 4 \<le> length cs \<and> list_all (\<lambda>d. d = c) (keep_last 5 (cs @ [c]))
        \<and> s_lastResolved (speed_run (cs @ [c]) speed_init) = c)
   \<and> s_lastResolved (speed_run (cs @ [c, c, c, c, c]) speed_init) = c"
proof
  let ?s = "speed_run cs speed_init"
  have step: "speed_run (cs @ [c]) speed_init = speed_evaluate c ?s" by (simp add: speed_run_def)
  show "s_lastResolved (speed_run (cs @ [c]) speed_init) = s_lastResolved ?s
     \<or> 4 \<le> length cs \<and> list_all (\<lambda>d. d = c) (keep_last 5 (cs @ [c]))
        \<and> s_lastResolved (speed_run (cs @ [c]) speed_init) = c"
    using speed_change [OF speed_run_inv, of c cs] speed_run_inv [of cs] keep_last_Suc_snoc [of 4 cs c]
    by (auto simp: step speed_inv_def list_all_iff)
  have run: "speed_run (cs @ [c, c, c, c, c]) speed_init =
      speed_evaluate c (speed_evaluate c (speed_evaluate c (speed_evaluate c (speed_evaluate c ?s))))"
    by (simp add: speed_run_def)
  have "agreed (1 + 1 + 1 + 1 + 1) c (speed_run (cs @ [c, c, c, c, c]) speed_init)"
    unfolding run by (intro agreed_next agreed_start [OF speed_run_inv])
  then show "s_lastResolved (speed_run (cs @ [c, c, c, c, c]) speed_init) = c"
    by (intro agreed_five) simp
qed

section \<open>Visibility of trackers\<close>

definition ShouldHideHeadMountTracker :: "'p CalibrationContext \<Rightarrow> int \<Rightarrow> string \<Rightarrow> string \<Rightarrow> bool" where
  "ShouldHideHeadMountTracker ctx openVrId serial trackingSystem =
     (let hm = headMount ctx
      in if openVrId = 0 then False
         else if \<not> hm_hideTracker hm then False
         else if hm_trackerSerial hm = [] \<or> serial = [] then False
         else if serial \<noteq> hm_trackerSerial hm then False
         else if hm_trackerTrackingSystem hm \<noteq> [] \<and> trackingSystem \<noteq> []
                 \<and> trackingSystem \<noteq> hm_trackerTrackingSystem hm then False
         else True)"

definition ShouldHideContinuousTarget :: "'p CalibrationContext \<Rightarrow> int \<Rightarrow> bool" where
  "ShouldHideContinuousTarget ctx openVrId =
     (if openVrId = 0 then False
      else cal_state ctx = CalContinuous \<and> openVrId = targetID ctx \<and> quashTargetInContinuous ctx)"

definition ShouldQuashPublishedTrackerPose :: "'p CalibrationContext \<Rightarrow> int \<Rightarrow> string \<Rightarrow> string \<Rightarrow> bool" where
  "ShouldQuashPublishedTrackerPose ctx openVrId serial trackingSystem \<longleftrightarrow>
     ShouldHideHeadMountTracker ctx openVrId serial trackingSystem \<or> ShouldHideContinuousTarget ctx openVrId"

lemma headset_never_hidden: "\<not> ShouldQuashPublishedTrackerPose ctx 0 serial sys"
  by (simp add: ShouldQuashPublishedTrackerPose_def ShouldHideHeadMountTracker_def
      ShouldHideContinuousTarget_def)

section \<open>Preflight of the offset calibration\<close>

datatype preflight = PfNoContinuousTarget | PfTargetMismatch | PfTrackerNotResolved
  | PfContinuousNotRunning | PfProfileNotReady | PfRelativePoseNotReady | PfHeadMountModeActive | PfReady

definition HeadMountModeUsesOffsetInContinuous :: "HeadMountMode \<Rightarrow> bool" where
  "HeadMountModeUsesOffsetInContinuous mode \<longleftrightarrow> HmAutoPaired \<le> mode"

definition EvaluateOffsetCalibrationPreflight :: "'p CalibrationContext \<Rightarrow> preflight" where
  "EvaluateOffsetCalibrationPreflight ctx =
     (let hm = headMount ctx
      in if \<not> HasContinuousTargetIdentity ctx \<or> hm_trackerSerial hm = [] then PfNoContinuousTarget
         else if \<not> HeadMountMatchesContinuousTarget ctx then PfTargetMismatch
         else if hm_deviceID hm < 0 then PfTrackerNotResolved
         else if cal_state ctx \<noteq> CalContinuous then PfContinuousNotRunning
         else if \<not> validProfile ctx then PfProfileNotReady
         else if \<not> relativePosCalibrated ctx then PfRelativePoseNotReady
         else if HeadMountModeUsesOffsetInContinuous (hm_mode hm) then PfHeadMountModeActive
         else PfReady)"

text \<open>
  When the preflight is green the samples the offset is solved from are those of the physical
  tracker that is bound to the target, never those of the proxy computed from an older offset, and
  the rigidity detector is not being forced.
\<close>

theorem preflight_ready:
  assumes "EvaluateOffsetCalibrationPreflight ctx = PfReady"
  shows "fp_source (current_fingerprint ctx) = SrcPhysicalTracker \<and> HeadMountMatchesContinuousTarget ctx
    \<and> hm_mode (headMount ctx) = HmOff \<and> 0 \<le> hm_deviceID (headMount ctx)
    \<and> \<not> calibratedHeadMountTarget ctx \<and> validProfile ctx \<and> relativePosCalibrated ctx"
proof -
  have "m = HmOff" if "\<not> HmAutoPaired \<le> m" for m
    using that by (cases m) (simp_all add: mode_order)
  then show ?thesis
    using assms by (auto simp: EvaluateOffsetCalibrationPreflight_def Let_def current_fingerprint_def
        SelectHeadMountSampleSource_def HeadMountModeUsesOffsetInContinuous_def
        calibratedHeadMountTarget_def split: if_splits)
qed

end
