(* ===== verification/ProfileApply.thy ===== *)
theory ProfileApply
  imports CalPolicies PoseHook "HOL-Library.Sublist"
begin

text \<open>
  Applying the calibrated profile to the devices
  (\<open>modules/calibration/src/overlay/CalibrationProfileApply.cpp\<close>): the scan over the devices of SteamVR
  that sends to the driver what changed since it was sent last, with its caches. What a blocking send
  does to the driver \<open>'d\<close>, and whether it returned or threw, is the argument \<open>post\<close>; an exception leaves
  the scan where it is. The answers of OpenVR about a device are a record; the rotation that Eigen
  composes of the three angles is an argument. The context argument of the scan is the global context,
  as at every call. What only feeds log lines (counts, adopted trackers) is left out.
\<close>

section \<open>Payloads\<close>

definition field_bytes :: "string \<Rightarrow> byte list" where
  "field_bytes s = (let b = take (MaxTrackingSystemNameLen - 1) (map of_char s)
     in b @ replicate (MaxTrackingSystemNameLen - length b) 0)"

text \<open>What the scan reads of a device: its class, its serial number (empty on an error), its tracking
  system (\<open>None\<close> on an error), and for Pimax devices the eye transform, the render model and the dongle.\<close>

datatype device_class = DcInvalid | DcHmd | DcController | DcOther

record scan_device =
  sc_class :: device_class
  sc_serial :: string
  sc_system :: "string option"
  sc_eyeToHead :: "real list list"
  sc_renderModel :: string
  sc_dongle :: string

record 'p apply_env =
  ae_devices :: "scan_device list"
  ae_quadCount :: nat
  ae_chaperone :: "(bool \<times> bool \<times> nat) option"
  ae_alignment :: alignment_speed
  ae_rotation :: "vec3 \<Rightarrow> quat"

record 'd apply_state =
  ap_lastApplied :: "set_device_transform option list"
  ap_lastSeenSerial :: "string list"
  ap_lastTargetSystem :: string
  ap_lastEnabled :: bool
  ap_lastAlignmentSpeed :: "alignment_speed option"
  ap_lastFallback :: set_tracking_system_fallback
  ap_lastFallbackSent :: bool
  ap_fallbacks :: "string \<rightharpoonup> set_tracking_system_fallback"
  ap_snapNext :: bool
  ap_boundsApplied :: nat
  ap_sends :: nat
  ap_driver :: 'd

type_synonym 'd post = "nat \<Rightarrow> provider_msg \<Rightarrow> 'd \<Rightarrow> bool \<times> 'd"

text \<open>A step tells whether it ran to its end, and the state it left.\<close>

type_synonym 'd applied = "bool \<times> 'd apply_state"

definition and_then :: "'d applied \<Rightarrow> ('d apply_state \<Rightarrow> 'd applied) \<Rightarrow> 'd applied" where
  "and_then r f = (if fst r then f (snd r) else r)"

definition SendBlocking_msg :: "'d post \<Rightarrow> provider_msg \<Rightarrow> 'd apply_state \<Rightarrow> 'd applied" where
  "SendBlocking_msg post m st =
     (let (ok, d) = post (ap_sends st) m (ap_driver st)
      in (ok, st\<lparr>ap_sends := ap_sends st + 1, ap_driver := d\<rparr>))"

definition TransformPayloadEqual :: "set_device_transform \<Rightarrow> set_device_transform \<Rightarrow> bool" where
  "TransformPayloadEqual a b \<longleftrightarrow> sdt_openVRID a = sdt_openVRID b \<and> sdt_enabled a = sdt_enabled b
     \<and> sdt_updateTranslation a = sdt_updateTranslation b \<and> sdt_updateRotation a = sdt_updateRotation b
     \<and> sdt_updateScale a = sdt_updateScale b \<and> sdt_lerp a = sdt_lerp b \<and> sdt_quash a = sdt_quash b
     \<and> sdt_updateQuash a = sdt_updateQuash b \<and> sdt_predictionSmoothness a = sdt_predictionSmoothness b
     \<and> sdt_recalibrateOnMovement a = sdt_recalibrateOnMovement b \<and> sdt_scale a = sdt_scale b
     \<and> sdt_translation a = sdt_translation b \<and> sdt_rotation a = sdt_rotation b
     \<and> sdt_target_system a = sdt_target_system b"

definition FallbackPayloadEqual :: "set_tracking_system_fallback \<Rightarrow> set_tracking_system_fallback \<Rightarrow> bool" where
  "FallbackPayloadEqual a b \<longleftrightarrow> sfb_system_name a = sfb_system_name b \<and> sfb_enabled a = sfb_enabled b
     \<and> sfb_predictionSmoothness a = sfb_predictionSmoothness b
     \<and> sfb_recalibrateOnMovement a = sfb_recalibrateOnMovement b \<and> sfb_scale a = sfb_scale b
     \<and> sfb_translation a = sfb_translation b \<and> sfb_rotation a = sfb_rotation b"

definition SendDeviceTransformIfChanged :: "'d post \<Rightarrow> nat \<Rightarrow> set_device_transform \<Rightarrow> 'd apply_state \<Rightarrow> 'd applied" where
  "SendDeviceTransformIfChanged post devId payload st =
     (if devId \<ge> k_unMaxTrackedDeviceCount then (True, st)
      else if (case ap_lastApplied st ! devId of Some p \<Rightarrow> TransformPayloadEqual p payload | None \<Rightarrow> False) then (True, st)
      else and_then (SendBlocking_msg post (MsgDeviceTransform payload) st)
             (\<lambda>st. (True, st\<lparr>ap_lastApplied := (ap_lastApplied st)[devId := Some payload]\<rparr>)))"

definition fallback_payload :: "string \<Rightarrow> bool \<Rightarrow> vec3 \<Rightarrow> quat \<Rightarrow> real \<Rightarrow> bool \<Rightarrow> set_tracking_system_fallback" where
  "fallback_payload systemName enabled translationCm rotation scale recal =
     \<lparr>sfb_system_name = field_bytes systemName, sfb_enabled = enabled, sfb_translation = vscale (1 / 100) translationCm,
      sfb_rotation = rotation, sfb_scale = scale, sfb_predictionSmoothness = 0, sfb_recalibrateOnMovement = recal\<rparr>"

definition SendFallbackIfChanged :: "'d post \<Rightarrow> string \<Rightarrow> set_tracking_system_fallback \<Rightarrow> 'd apply_state \<Rightarrow> 'd applied" where
  "SendFallbackIfChanged post systemName payload st =
     (if (case ap_fallbacks st systemName of Some f \<Rightarrow> FallbackPayloadEqual f payload | None \<Rightarrow> False) then (True, st)
      else and_then (SendBlocking_msg post (MsgFallback payload) st)
             (\<lambda>st. (True, st\<lparr>ap_fallbacks := (ap_fallbacks st)(systemName \<mapsto> payload), ap_lastFallback := payload,
                            ap_lastFallbackSent := True\<rparr>)))"

definition InvalidateTransformCacheForId :: "nat \<Rightarrow> 'd apply_state \<Rightarrow> 'd apply_state" where
  "InvalidateTransformCacheForId devId st =
     (if devId \<ge> k_unMaxTrackedDeviceCount then st
      else st\<lparr>ap_lastApplied := (ap_lastApplied st)[devId := None], ap_lastSeenSerial := (ap_lastSeenSerial st)[devId := []]\<rparr>)"

definition InvalidateAllTransformCaches :: "'d apply_state \<Rightarrow> 'd apply_state" where
  "InvalidateAllTransformCaches st = st\<lparr>ap_lastApplied := replicate k_unMaxTrackedDeviceCount None,
     ap_lastSeenSerial := replicate k_unMaxTrackedDeviceCount [], ap_lastAlignmentSpeed := None, ap_lastFallbackSent := False\<rparr>"

definition ResolveHeadMountHide :: "'p CalibrationContext \<Rightarrow> nat \<Rightarrow> string \<Rightarrow> 'd apply_state \<Rightarrow> bool" where
  "ResolveHeadMountHide ctx devId trackingSystem st \<longleftrightarrow>
     devId < k_unMaxTrackedDeviceCount \<and> ShouldHideHeadMountTracker ctx (int devId) (ap_lastSeenSerial st ! devId) trackingSystem"

definition disabled_payload :: "nat \<Rightarrow> string \<Rightarrow> bool \<Rightarrow> set_device_transform" where
  "disabled_payload devId trackingSystem hide = \<lparr>sdt_openVRID = devId, sdt_enabled = False, sdt_updateTranslation = True,
     sdt_updateRotation = True, sdt_updateScale = True, sdt_translation = vzero, sdt_rotation = qone, sdt_scale = 1,
     sdt_lerp = False, sdt_quash = hide, sdt_updateQuash = True, sdt_target_system = field_bytes trackingSystem,
     sdt_predictionSmoothness = 0, sdt_recalibrateOnMovement = False\<rparr>"

definition ResetAndDisableOffsets :: "'p CalibrationContext \<Rightarrow> 'd post \<Rightarrow> nat \<Rightarrow> string \<Rightarrow> 'd apply_state \<Rightarrow> 'd applied" where
  "ResetAndDisableOffsets ctx post devId trackingSystem st =
     SendDeviceTransformIfChanged post devId
       (disabled_payload devId trackingSystem (ResolveHeadMountHide ctx devId trackingSystem st)) st"

section \<open>The scan\<close>

definition ShouldBlendCycle :: "bool \<Rightarrow> bool \<Rightarrow> bool \<Rightarrow> bool" where
  "ShouldBlendCycle inContinuousState isFreshlyAdopted snapThisCycle \<longleftrightarrow>
     inContinuousState \<and> \<not> isFreshlyAdopted \<and> \<not> snapThisCycle"

definition kFirstContinuousSnapJumpCm :: real where "kFirstContinuousSnapJumpCm = 3"

definition ShouldSnapFirstContinuousCandidate :: "bool \<Rightarrow> bool \<Rightarrow> bool \<Rightarrow> real \<Rightarrow> real \<Rightarrow> bool" where
  "ShouldSnapFirstContinuousCandidate inContinuousState hasAcceptedSnapshot hasGuardBaseline jumpCm solveUncertaintyCm =
     (let snapThresholdCm = (if solveUncertaintyCm > kFirstContinuousSnapJumpCm then solveUncertaintyCm
                             else kFirstContinuousSnapJumpCm)
      in inContinuousState \<and> \<not> hasAcceptedSnapshot \<and> hasGuardBaseline \<and> snapThresholdCm \<le> jumpCm)"

definition isCrystalHmd :: "real list list \<Rightarrow> bool" where
  "isCrystalHmd m \<longleftrightarrow> take 3 (m ! 0) = [1, 0, 0] \<and> m ! 1 = [0, 1, 0, 0] \<and> m ! 2 = [0, 0, 1, 0]"

definition headset_system :: "scan_device \<Rightarrow> string \<Rightarrow> string" where
  "headset_system dv trackingSystem =
     (if trackingSystem = ''aapvr'' \<and> isCrystalHmd (sc_eyeToHead dv) then ''Pimax Crystal HMD'' else trackingSystem)"

definition device_system :: "scan_device \<Rightarrow> string \<Rightarrow> string" where
  "device_system dv trackingSystem =
     (if sc_class dv = DcController \<and> trackingSystem = ''oculus'' \<and> sublist ''{aapvr}'' (sc_renderModel dv)
         \<and> sublist ''crystal'' (sc_renderModel dv) \<and> sublist ''lighthouse'' (sc_dongle dv)
      then ''Pimax Crystal Controllers'' else trackingSystem)"

definition enabled_payload :: "'p CalibrationContext \<Rightarrow> 'p apply_env \<Rightarrow> bool \<Rightarrow> nat \<Rightarrow> string \<Rightarrow> 'd apply_state \<Rightarrow> set_device_transform" where
  "enabled_payload ctx env snapThisCycle devId trackingSystem st =
     (let isFreshlyAdopted = (case ap_lastApplied st ! devId of None \<Rightarrow> True | Some p \<Rightarrow> \<not> sdt_enabled p)
      in \<lparr>sdt_openVRID = devId, sdt_enabled = True, sdt_updateTranslation = True, sdt_updateRotation = True,
          sdt_updateScale = True, sdt_translation = vscale (1 / 100) (calibratedTranslation ctx),
          sdt_rotation = ae_rotation env (calibratedRotation ctx), sdt_scale = calibratedScale ctx,
          sdt_lerp = ShouldBlendCycle (cal_state ctx = CalContinuous) isFreshlyAdopted snapThisCycle,
          sdt_quash = ShouldQuashPublishedTrackerPose ctx (int devId) (ap_lastSeenSerial st ! devId) trackingSystem,
          sdt_updateQuash = True, sdt_target_system = field_bytes (targetTrackingSystem ctx),
          sdt_predictionSmoothness = 0, sdt_recalibrateOnMovement = recalibrateOnMovement ctx\<rparr>)"

text \<open>A serial number that changed: the slot belongs to another device.\<close>

definition note_serial :: "'p CalibrationContext \<Rightarrow> 'd post \<Rightarrow> nat \<Rightarrow> string \<Rightarrow> 'd apply_state \<Rightarrow> 'd applied" where
  "note_serial ctx post devId newSerial st =
     (if ap_lastSeenSerial st ! devId \<noteq> newSerial
      then let hadPriorSerial = (ap_lastSeenSerial st ! devId \<noteq> []);
               st = st\<lparr>ap_lastSeenSerial := (ap_lastSeenSerial st)[devId := newSerial]\<rparr>
           in if hadPriorSerial
              then ResetAndDisableOffsets ctx post devId [] (st\<lparr>ap_lastApplied := (ap_lastApplied st)[devId := None]\<rparr>)
              else (True, st)
      else (True, st))"

text \<open>One device of the scan; the context carries its \<open>enabled\<close> flag from device to device.\<close>

definition apply_device :: "'p apply_env \<Rightarrow> 'd post \<Rightarrow> bool \<Rightarrow> nat \<Rightarrow> 'p CalibrationContext \<Rightarrow> 'd apply_state
    \<Rightarrow> 'p CalibrationContext \<times> 'd applied" where
  "apply_device env post snapThisCycle devId ctx st =
     (let dv = ae_devices env ! devId
      in if sc_class dv = DcInvalid
         then (ctx, True, if ap_lastSeenSerial st ! devId \<noteq> [] \<or> ap_lastApplied st ! devId \<noteq> None
                          then InvalidateTransformCacheForId devId st else st)
         else let r = note_serial ctx post devId (sc_serial dv) st
              in if \<not> cal_enabled ctx then (ctx, and_then r (ResetAndDisableOffsets ctx post devId []))
                 else case sc_system dv of
                        None \<Rightarrow> (ctx, and_then r (ResetAndDisableOffsets ctx post devId []))
                      | Some sys \<Rightarrow>
                          if devId = 0
                          then let sys = headset_system dv sys;
                                   ctx' = (if fst r \<and> sys \<noteq> referenceTrackingSystem ctx then ctx\<lparr>cal_enabled := False\<rparr> else ctx)
                               in (ctx', and_then r (ResetAndDisableOffsets ctx' post devId sys))
                          else let sys = device_system dv sys
                               in if sys \<noteq> targetTrackingSystem ctx
                                  then (ctx, and_then r (ResetAndDisableOffsets ctx post devId sys))
                                  else (ctx, and_then r (\<lambda>st. SendDeviceTransformIfChanged post devId
                                               (enabled_payload ctx env snapThisCycle devId sys st) st)))"

text \<open>The loop over the devices; it ends at the first exception.\<close>

fun apply_devices :: "'p apply_env \<Rightarrow> 'd post \<Rightarrow> bool \<Rightarrow> nat list \<Rightarrow> 'p CalibrationContext \<Rightarrow> 'd apply_state
    \<Rightarrow> 'p CalibrationContext \<times> 'd applied" where
  "apply_devices env post snap [] ctx st = (ctx, True, st)"
| "apply_devices env post snap (devId # ids) ctx st =
     (let (ctx, ok, st) = apply_device env post snap devId ctx st
      in if ok then apply_devices env post snap ids ctx st else (ctx, False, st))"

definition disable_payload :: "string \<Rightarrow> set_tracking_system_fallback" where
  "disable_payload systemName = \<lparr>sfb_system_name = field_bytes systemName, sfb_enabled = False, sfb_translation = vzero,
     sfb_rotation = qone, sfb_scale = 1, sfb_predictionSmoothness = 0, sfb_recalibrateOnMovement = False\<rparr>"

definition note_target :: "'p CalibrationContext \<Rightarrow> 'd post \<Rightarrow> 'd apply_state \<Rightarrow> 'd applied" where
  "note_target ctx post st =
     (let targetSystemChanged = (targetTrackingSystem ctx \<noteq> ap_lastTargetSystem st)
      in if targetSystemChanged \<or> cal_enabled ctx \<noteq> ap_lastEnabled st
         then and_then
                (if targetSystemChanged \<and> ap_lastTargetSystem st \<noteq> [] \<and> ap_lastFallbackSent st \<and> sfb_enabled (ap_lastFallback st)
                 then SendBlocking_msg post (MsgFallback (disable_payload (ap_lastTargetSystem st))) st
                 else (True, st))
                (\<lambda>st. (True, (InvalidateAllTransformCaches st)\<lparr>ap_lastTargetSystem := targetTrackingSystem ctx,
                         ap_lastEnabled := cal_enabled ctx\<rparr>))
         else (True, st))"

definition note_alignment :: "'p apply_env \<Rightarrow> 'd post \<Rightarrow> 'd apply_state \<Rightarrow> 'd applied" where
  "note_alignment env post st =
     (if ap_lastAlignmentSpeed st \<noteq> Some (ae_alignment env)
      then and_then (SendBlocking_msg post (MsgAlignmentSpeed (ae_alignment env)) st)
             (\<lambda>st. (True, st\<lparr>ap_lastAlignmentSpeed := Some (ae_alignment env)\<rparr>))
      else (True, st))"

definition note_fallback :: "'p CalibrationContext \<Rightarrow> 'p apply_env \<Rightarrow> 'd post \<Rightarrow> 'd apply_state \<Rightarrow> 'd applied" where
  "note_fallback ctx env post st =
     (if cal_enabled ctx \<and> targetTrackingSystem ctx \<noteq> []
      then SendFallbackIfChanged post (targetTrackingSystem ctx)
             (fallback_payload (targetTrackingSystem ctx) True (calibratedTranslation ctx)
                (ae_rotation env (calibratedRotation ctx)) (calibratedScale ctx) (recalibrateOnMovement ctx)) st
      else (True, st))"

definition note_extra :: "'p CalibrationContext \<Rightarrow> 'p apply_env \<Rightarrow> 'd post \<Rightarrow> 'p AdditionalCalibration \<Rightarrow> 'd applied \<Rightarrow> 'd applied" where
  "note_extra ctx env post extra r =
     (if \<not> ex_enabled extra \<or> \<not> ex_valid extra \<or> ex_targetTrackingSystem extra = []
         \<or> ex_targetTrackingSystem extra = targetTrackingSystem ctx then r
      else and_then r (SendFallbackIfChanged post (ex_targetTrackingSystem extra)
             (fallback_payload (ex_targetTrackingSystem extra) True (ex_calibratedTranslation extra)
                (ae_rotation env (ex_calibratedRotation extra)) (ex_calibratedScale extra) (recalibrateOnMovement ctx))))"

text \<open>The chaperone of the profile, if it is valid, with its flag and the size of its geometry, and the
  consumption of the snap flag, both only after an undisturbed loop.\<close>

definition finish_scan :: "'p apply_env \<Rightarrow> bool \<Rightarrow> 'p CalibrationContext \<Rightarrow> 'd apply_state \<Rightarrow> 'd apply_state" where
  "finish_scan env recoverySnap ctx st =
     (let st = (case ae_chaperone env of
                  Some (valid, autoApply, quads) \<Rightarrow>
                    if cal_enabled ctx \<and> valid \<and> autoApply \<and> ae_quadCount env \<noteq> quads
                    then st\<lparr>ap_boundsApplied := ap_boundsApplied st + 1\<rparr> else st
                | None \<Rightarrow> st)
      in if recoverySnap then st\<lparr>ap_snapNext := False\<rparr> else st)"

definition ScanAndApplyProfile :: "'p apply_env option \<Rightarrow> 'd post \<Rightarrow> bool \<Rightarrow> 'p CalibrationContext \<Rightarrow> 'd apply_state
    \<Rightarrow> 'p CalibrationContext \<times> 'd applied" where
  "ScanAndApplyProfile vr post forceSnapThisCycle ctx st =
     (let ctx = ctx\<lparr>cal_enabled := validProfile ctx\<rparr>
      in case vr of
           None \<Rightarrow> (ctx, True, st)
         | Some env \<Rightarrow>
             let recoverySnap = ap_snapNext st;
                 snapThisCycle = (recoverySnap \<or> forceSnapThisCycle);
                 r = and_then (and_then (note_target ctx post st) (note_alignment env post)) (note_fallback ctx env post);
                 (ok, st) = fold (note_extra ctx env post) (additionalCalibrations ctx) r
             in if \<not> ok then (ctx, False, st)
                else let (ctx, ok, st) = apply_devices env post snapThisCycle [0..<k_unMaxTrackedDeviceCount] ctx st
                     in if ok then (ctx, True, finish_scan env recoverySnap ctx st) else (ctx, False, st))"

definition apply_init :: "'d \<Rightarrow> 'd apply_state" where
  "apply_init d = \<lparr>ap_lastApplied = replicate k_unMaxTrackedDeviceCount None,
     ap_lastSeenSerial = replicate k_unMaxTrackedDeviceCount [], ap_lastTargetSystem = [], ap_lastEnabled = False,
     ap_lastAlignmentSpeed = None, ap_lastFallback = \<lparr>sfb_system_name = replicate MaxTrackingSystemNameLen 0,
       sfb_enabled = False, sfb_translation = vzero, sfb_rotation = \<lparr>qw = 0, qx = 0, qy = 0, qz = 0\<rparr>, sfb_scale = 0,
       sfb_predictionSmoothness = 0, sfb_recalibrateOnMovement = False\<rparr>,
     ap_lastFallbackSent = False, ap_fallbacks = Map.empty, ap_snapNext = False, ap_boundsApplied = 0, ap_sends = 0,
     ap_driver = d\<rparr>"

section \<open>The cache of the scan and the driver agree\<close>

lemma TransformPayloadEqual_eq: "TransformPayloadEqual a b \<longleftrightarrow> a = b"
  by (auto simp: TransformPayloadEqual_def intro: set_device_transform.equality)

lemma FallbackPayloadEqual_eq: "FallbackPayloadEqual a b \<longleftrightarrow> a = b"
  by (auto simp: FallbackPayloadEqual_def intro: set_tracking_system_fallback.equality)

text \<open>The device slots the scan sent last, as far as it remembers, hold in the driver.\<close>

definition caches_agree :: "('d \<Rightarrow> bool) \<Rightarrow> ('d \<Rightarrow> nat \<Rightarrow> set_device_transform \<Rightarrow> bool) \<Rightarrow> 'd apply_state \<Rightarrow> bool" where
  "caches_agree ok holds st \<longleftrightarrow> ok (ap_driver st) \<and> length (ap_lastApplied st) = k_unMaxTrackedDeviceCount
     \<and> length (ap_lastSeenSerial st) = k_unMaxTrackedDeviceCount
     \<and> (\<forall>i < k_unMaxTrackedDeviceCount. \<forall>p. ap_lastApplied st ! i = Some p \<longrightarrow> sdt_openVRID p = i \<and> holds (ap_driver st) i p)"

lemma and_then_simps [simp]: "and_then (True, st) f = f st" "and_then (False, st) f = (False, st)"
  by (simp_all add: and_then_def)

lemma and_then_snd:
  "Q (snd r) \<Longrightarrow> (\<And>st. Q st \<Longrightarrow> Q (snd (f st))) \<Longrightarrow> Q (snd (and_then r f))"
  by (cases r) (simp add: and_then_def)

text \<open>What the scan wants of a device whose class is valid.\<close>

definition follows_profile :: "'p CalibrationContext \<Rightarrow> 'p apply_env \<Rightarrow> nat \<Rightarrow> bool" where
  "follows_profile ctx env i \<longleftrightarrow> cal_enabled ctx \<and> i \<noteq> 0 \<and>
     (case sc_system (ae_devices env ! i) of None \<Rightarrow> False
      | Some sys \<Rightarrow> device_system (ae_devices env ! i) sys = targetTrackingSystem ctx)"

definition wanted :: "'p CalibrationContext \<Rightarrow> 'p apply_env \<Rightarrow> nat \<Rightarrow> set_device_transform \<Rightarrow> bool" where
  "wanted ctx env i p \<longleftrightarrow> sdt_openVRID p = i \<and> sdt_enabled p = follows_profile ctx env i
     \<and> sdt_updateTranslation p \<and> sdt_updateRotation p \<and> sdt_updateScale p \<and> sdt_updateQuash p
     \<and> (follows_profile ctx env i \<longrightarrow>
          sdt_translation p = vscale (1 / 100) (calibratedTranslation ctx)
        \<and> sdt_rotation p = ae_rotation env (calibratedRotation ctx) \<and> sdt_scale p = calibratedScale ctx
        \<and> sdt_recalibrateOnMovement p = recalibrateOnMovement ctx
        \<and> sdt_quash p = ShouldQuashPublishedTrackerPose ctx (int i) (sc_serial (ae_devices env ! i)) (targetTrackingSystem ctx))
     \<and> (\<not> follows_profile ctx env i \<and> sdt_quash p \<longrightarrow> i \<noteq> 0 \<and> hm_hideTracker (headMount ctx)
        \<and> sc_serial (ae_devices env ! i) = hm_trackerSerial (headMount ctx))"

lemma wanted_disabled:
  assumes "\<not> follows_profile ctx env i" "hide \<longrightarrow> ShouldHideHeadMountTracker ctx (int i) (sc_serial (ae_devices env ! i)) sys"
  shows "wanted ctx env i (disabled_payload i sys' hide)"
  using assms by (auto simp: wanted_def disabled_payload_def ShouldHideHeadMountTracker_def Let_def split: if_splits)

lemma wanted_enabled:
  assumes "follows_profile ctx env i" "ap_lastSeenSerial st ! i = sc_serial (ae_devices env ! i)"
  shows "wanted ctx env i (enabled_payload ctx env snap i (targetTrackingSystem ctx) st)"
  using assms by (simp add: wanted_def enabled_payload_def Let_def)

text \<open>What the scan relies on: a message that was answered holds, until another one for the same slot is
  sent; a message that failed changed nothing of it.\<close>

locale profile_sink =
  fixes post :: "'d post" and ok :: "'d \<Rightarrow> bool" and holds :: "'d \<Rightarrow> nat \<Rightarrow> set_device_transform \<Rightarrow> bool"
  assumes ok_post: "ok d \<Longrightarrow> ok (snd (post n m d))"
    and stored: "ok d \<Longrightarrow> sdt_openVRID p < k_unMaxTrackedDeviceCount \<Longrightarrow> post n (MsgDeviceTransform p) d = (True, d')
      \<Longrightarrow> holds d' (sdt_openVRID p) p"
    and kept: "ok d \<Longrightarrow> post n m d = (r, d') \<Longrightarrow> i < k_unMaxTrackedDeviceCount \<Longrightarrow> holds d i q
      \<Longrightarrow> (\<And>p. r \<Longrightarrow> m = MsgDeviceTransform p \<Longrightarrow> sdt_openVRID p \<noteq> i) \<Longrightarrow> holds d' i q"
begin

abbreviation agree :: "'d apply_state \<Rightarrow> bool" where
  "agree \<equiv> caches_agree ok holds"

lemma agree_send:
  assumes "agree st" "\<And>p. m \<noteq> MsgDeviceTransform p"
  shows "agree (snd (SendBlocking_msg post m st))"
proof -
  obtain r d' where e: "post (ap_sends st) m (ap_driver st) = (r, d')" by fastforce
  have "ok d'" using ok_post [of "ap_driver st" "ap_sends st" m] assms(1) e by (simp add: caches_agree_def)
  moreover have "holds d' i p" if "i < k_unMaxTrackedDeviceCount" "ap_lastApplied st ! i = Some p" for i p
    using kept [OF _ e that(1)] assms that by (auto simp: caches_agree_def)
  ultimately show ?thesis using assms(1) by (simp add: SendBlocking_msg_def e caches_agree_def)
qed

lemma agree_device:
  assumes "agree st" "sdt_openVRID p = i"
  shows "agree (snd (SendDeviceTransformIfChanged post i p st))"
proof -
  obtain r d' where e: "post (ap_sends st) (MsgDeviceTransform p) (ap_driver st) = (r, d')" by fastforce
  have k: "ok d'" using ok_post [of "ap_driver st" "ap_sends st" "MsgDeviceTransform p"] assms(1) e by (simp add: caches_agree_def)
  have h: "holds d' j q" if "j < k_unMaxTrackedDeviceCount" "ap_lastApplied st ! j = Some q" "j \<noteq> i \<or> \<not> r" for j q
    using kept [OF _ e that(1)] assms that by (auto simp: caches_agree_def)
  have n: "holds d' i p" if "r" "i < k_unMaxTrackedDeviceCount"
    using stored [of "ap_driver st" p "ap_sends st" d'] assms e that by (simp add: caches_agree_def)
  show ?thesis
    using assms k h n by (cases r) (auto simp: SendDeviceTransformIfChanged_def SendBlocking_msg_def e caches_agree_def nth_list_update)
qed

lemma agree_forget:
  "agree st \<Longrightarrow> agree (InvalidateTransformCacheForId i st)" "agree st \<Longrightarrow> agree (InvalidateAllTransformCaches st)"
  by (auto simp: InvalidateTransformCacheForId_def InvalidateAllTransformCaches_def caches_agree_def nth_list_update split: if_splits)

lemma agree_reset: "agree st \<Longrightarrow> agree (snd (ResetAndDisableOffsets ctx post i sys st))"
  by (simp add: ResetAndDisableOffsets_def agree_device disabled_payload_def)

lemma agree_upd [simp]:
  "agree (st\<lparr>ap_lastAlignmentSpeed := a\<rparr>) = agree st" "agree (st\<lparr>ap_lastTargetSystem := s\<rparr>) = agree st"
  "agree (st\<lparr>ap_lastEnabled := b\<rparr>) = agree st" "agree (st\<lparr>ap_fallbacks := f\<rparr>) = agree st"
  "agree (st\<lparr>ap_lastFallback := fb\<rparr>) = agree st" "agree (st\<lparr>ap_lastFallbackSent := b\<rparr>) = agree st"
  "agree (st\<lparr>ap_snapNext := b\<rparr>) = agree st" "agree (st\<lparr>ap_boundsApplied := n\<rparr>) = agree st"
  by (simp_all add: caches_agree_def)

lemma agree_upd2 [simp]:
  "agree (st\<lparr>ap_lastTargetSystem := s, ap_lastEnabled := b\<rparr>) = agree st"
  "agree (st\<lparr>ap_fallbacks := f, ap_lastFallback := fb, ap_lastFallbackSent := b\<rparr>) = agree st"
  by (simp_all add: caches_agree_def)

lemma agree_target: "agree st \<Longrightarrow> agree (snd (note_target ctx post st))"
  unfolding note_target_def Let_def
  by (auto intro!: and_then_snd [where Q = agree] agree_send agree_forget)

lemma agree_alignment: "agree st \<Longrightarrow> agree (snd (note_alignment env post st))"
  unfolding note_alignment_def
  by (auto intro!: and_then_snd [where Q = agree] agree_send)

lemma agree_fallback: "agree st \<Longrightarrow> agree (snd (SendFallbackIfChanged post s f st))"
  unfolding SendFallbackIfChanged_def
  by (auto intro!: and_then_snd [where Q = agree] agree_send)

lemma agree_note_fallback: "agree st \<Longrightarrow> agree (snd (note_fallback ctx env post st))"
  unfolding note_fallback_def by (simp add: agree_fallback)

lemma agree_extras: "agree (snd r) \<Longrightarrow> agree (snd (fold (note_extra ctx env post) es r))"
proof (induction es arbitrary: r)
  case (Cons x es)
  have "agree (snd (note_extra ctx env post x r))"
    using Cons.prems by (auto simp: note_extra_def intro!: and_then_snd [where Q = agree] agree_fallback)
  then show ?case using Cons.IH by simp
qed simp

lemma agree_front:
  "agree st \<Longrightarrow> agree (snd (fold (note_extra ctx env post) es
     (and_then (and_then (note_target ctx post st) (note_alignment env post)) (note_fallback ctx env post))))"
  by (intro agree_extras and_then_snd [where Q = agree] agree_target agree_alignment agree_note_fallback)

end

lemma device_sent:
  assumes "SendDeviceTransformIfChanged post i p st = (True, st')" "i < k_unMaxTrackedDeviceCount"
    "length (ap_lastApplied st) = k_unMaxTrackedDeviceCount"
  shows "ap_lastApplied st' ! i = Some p"
  using assms by (auto simp: SendDeviceTransformIfChanged_def SendBlocking_msg_def and_then_def TransformPayloadEqual_eq
      Let_def split: if_splits option.splits prod.splits)

lemma device_others:
  assumes "SendDeviceTransformIfChanged post i p st = (r, st')"
  shows "ap_lastSeenSerial st' = ap_lastSeenSerial st" "j \<noteq> i \<Longrightarrow> ap_lastApplied st' ! j = ap_lastApplied st ! j"
  using assms by (auto simp: SendDeviceTransformIfChanged_def SendBlocking_msg_def and_then_def
      Let_def split: if_splits option.splits prod.splits)

text \<open>A step for the slot \<open>i\<close> leaves the caches of the other slots.\<close>

definition same_elsewhere :: "nat \<Rightarrow> 'd apply_state \<Rightarrow> 'd apply_state \<Rightarrow> bool" where
  "same_elsewhere i st st' \<longleftrightarrow> (\<forall>j. j \<noteq> i \<longrightarrow> ap_lastApplied st' ! j = ap_lastApplied st ! j
     \<and> ap_lastSeenSerial st' ! j = ap_lastSeenSerial st ! j)"

lemma same_elsewhere_refl [simp]: "same_elsewhere i st st"
  by (simp add: same_elsewhere_def)

lemma same_elsewhere_trans: "same_elsewhere i a b \<Longrightarrow> same_elsewhere i b c \<Longrightarrow> same_elsewhere i a c"
  by (simp add: same_elsewhere_def)

lemma same_elsewhere_device: "same_elsewhere i st (snd (SendDeviceTransformIfChanged post i p st))"
proof -
  obtain r st' where e: "SendDeviceTransformIfChanged post i p st = (r, st')" by fastforce
  show ?thesis using device_others [OF e] by (simp add: same_elsewhere_def e)
qed

lemma same_elsewhere_reset: "same_elsewhere i st (snd (ResetAndDisableOffsets ctx post i sys st))"
  by (simp add: ResetAndDisableOffsets_def same_elsewhere_device)

lemma same_elsewhere_serial: "same_elsewhere i st (snd (note_serial ctx post i s st))"
proof -
  have "same_elsewhere i st (st\<lparr>ap_lastSeenSerial := x[i := s], ap_lastApplied := y[i := None]\<rparr>)"
    if "x = ap_lastSeenSerial st" "y = ap_lastApplied st" for x y
    using that by (simp add: same_elsewhere_def)
  moreover have "same_elsewhere i st (st\<lparr>ap_lastSeenSerial := (ap_lastSeenSerial st)[i := s]\<rparr>)"
    by (simp add: same_elsewhere_def)
  ultimately show ?thesis
    by (auto simp: note_serial_def Let_def intro: same_elsewhere_trans [OF _ same_elsewhere_reset])
qed

text \<open>What every step of \<open>apply_device\<close> keeps, \<open>apply_device\<close> keeps.\<close>

lemma apply_device_rule:
  fixes ctx :: "'p CalibrationContext"
  assumes "Q (InvalidateTransformCacheForId i st)" "\<And>s. Q (snd (note_serial ctx post i s st))" "Q st"
    and reset: "\<And>(c :: 'p CalibrationContext) sys x. Q x \<Longrightarrow> Q (snd (ResetAndDisableOffsets c post i sys x))"
    and send: "\<And>p x. Q x \<Longrightarrow> sdt_openVRID p = i \<Longrightarrow> Q (snd (SendDeviceTransformIfChanged post i p x))"
  shows "Q (snd (snd (apply_device env post snap i ctx st)))"
proof -
  let ?r = "note_serial ctx post i (sc_serial (ae_devices env ! i)) st"
  have r: "Q (snd (and_then ?r (ResetAndDisableOffsets c post i sys)))" for c :: "'p CalibrationContext" and sys
    by (rule and_then_snd [where Q = Q]) (simp_all add: assms)
  have e: "Q (snd (and_then ?r (\<lambda>x. SendDeviceTransformIfChanged post i (enabled_payload ctx env snap i sys x) x)))" for sys
    by (rule and_then_snd [where Q = Q]) (simp_all add: assms enabled_payload_def Let_def)
  show ?thesis
  proof (cases "i = 0")
    case True
    show ?thesis using r [unfolded True] assms(1,3)
      by (simp add: apply_device_def Let_def True split: option.split)
  next
    case False
    show ?thesis using r e assms(1,3) by (simp add: apply_device_def Let_def False split: option.split)
  qed
qed

lemma same_elsewhere_apply: "same_elsewhere i st (snd (snd (apply_device env post snap i ctx st)))"
proof (rule apply_device_rule)
  show "same_elsewhere i st (InvalidateTransformCacheForId i st)"
    by (simp add: InvalidateTransformCacheForId_def same_elsewhere_def)
qed (auto intro: same_elsewhere_serial same_elsewhere_trans same_elsewhere_reset same_elsewhere_device)

context profile_sink
begin

lemma cache_reset: "xs[i := None] ! j = Some p \<longleftrightarrow> xs ! j = Some p \<and> (i \<noteq> j \<or> length xs \<le> j)"
  by (cases "i = j"; cases "j < length xs") (auto simp: list_update_beyond)

lemma agree_serial: "agree st \<Longrightarrow> agree (snd (note_serial ctx post i s st))"
proof -
  assume a: "agree st"
  have "agree (st\<lparr>ap_lastSeenSerial := x[i := s]\<rparr>)" "agree (st\<lparr>ap_lastSeenSerial := x[i := s], ap_lastApplied := y[i := None]\<rparr>)"
    if "x = ap_lastSeenSerial st" "y = ap_lastApplied st" for x y
    using a that by (auto simp: caches_agree_def cache_reset)
  then show ?thesis using a by (simp add: note_serial_def Let_def agree_reset)
qed

lemma agree_apply: "agree st \<Longrightarrow> agree (snd (snd (apply_device env post snap i ctx st)))"
  by (rule apply_device_rule) (simp_all add: agree_forget agree_serial agree_reset agree_device)

lemma agree_devices: "agree st \<Longrightarrow> agree (snd (snd (apply_devices env post snap is ctx st)))"
proof (induction "is" arbitrary: ctx st)
  case (Cons i "is")
  obtain c r s where e: "apply_device env post snap i ctx st = (c, r, s)" by (metis prod_cases3)
  have "agree s" using agree_apply [OF Cons.prems, of env snap i ctx] e by simp
  then show ?case using Cons.IH by (simp add: e Let_def)
qed simp

text \<open>The caches agree with the driver after every scan, also after one that an exception ended.\<close>

lemma agree_scan: "agree st \<Longrightarrow> agree (snd (snd (ScanAndApplyProfile vr post force ctx st)))"
proof (cases vr)
  case (Some env)
  assume a: "agree st"
  let ?ctx = "ctx\<lparr>cal_enabled := validProfile ctx\<rparr>"
  obtain r s where f: "fold (note_extra ?ctx env post) (additionalCalibrations ?ctx)
      (and_then (and_then (note_target ?ctx post st) (note_alignment env post)) (note_fallback ?ctx env post)) = (r, s)"
    by fastforce
  have s: "agree s" using agree_front [OF a, of ?ctx env "additionalCalibrations ?ctx"] f by (metis snd_conv)
  obtain c r' s' where d: "apply_devices env post (ap_snapNext st \<or> force) [0..<k_unMaxTrackedDeviceCount] ?ctx s = (c, r', s')"
    by (metis prod_cases3)
  have s': "agree s'" using agree_devices [OF s, of env] d by (metis snd_conv)
  have "agree (finish_scan env b c s')" for b
    using s' by (auto simp: finish_scan_def Let_def split: option.splits prod.splits)
  then show ?thesis using f s s' d by (simp add: ScanAndApplyProfile_def Some Let_def del: upt_conv_Cons)
qed (simp add: ScanAndApplyProfile_def)

end

lemma serial_noted:
  assumes "note_serial ctx post i s st = (True, st')" "i < length (ap_lastSeenSerial st)"
  shows "ap_lastSeenSerial st' ! i = s"
proof -
  let ?st = "st\<lparr>ap_lastSeenSerial := (ap_lastSeenSerial st)[i := s], ap_lastApplied := (ap_lastApplied st)[i := None]\<rparr>"
  have "ap_lastSeenSerial y ! i = s" if "ResetAndDisableOffsets ctx post i [] ?st = (True, y)" for y
    using device_others(1) [of post i _ ?st True y] that assms(2) by (simp add: ResetAndDisableOffsets_def)
  then show ?thesis using assms by (auto simp: note_serial_def Let_def split: if_splits)
qed

lemma apply_device_ctx:
  "apply_device env post snap i ctx st = (ctx', r) \<Longrightarrow> i \<noteq> 0 \<Longrightarrow> ctx' = ctx"
  by (auto simp: apply_device_def Let_def split: option.splits if_splits)

context profile_sink
begin

lemma reset_wanted:
  assumes "agree st" "i < k_unMaxTrackedDeviceCount" "ResetAndDisableOffsets ctx post i sys st = (True, st')"
    "\<not> follows_profile ctx env i" "ap_lastSeenSerial st ! i = sc_serial (ae_devices env ! i)"
  shows "\<exists>p. ap_lastApplied st' ! i = Some p \<and> wanted ctx env i p"
proof -
  let ?p = "disabled_payload i sys (ResolveHeadMountHide ctx i sys st)"
  have "ap_lastApplied st' ! i = Some ?p"
    using device_sent [of post i ?p st st'] assms(1-3) by (simp add: ResetAndDisableOffsets_def caches_agree_def)
  moreover have "wanted ctx env i ?p"
    using assms by (intro wanted_disabled) (auto simp: ResolveHeadMountHide_def)
  ultimately show ?thesis by blast
qed

lemma enabled_wanted:
  assumes "agree st" "i < k_unMaxTrackedDeviceCount" "follows_profile ctx env i"
    "SendDeviceTransformIfChanged post i (enabled_payload ctx env snap i (targetTrackingSystem ctx) st) st = (True, st')"
    "ap_lastSeenSerial st ! i = sc_serial (ae_devices env ! i)"
  shows "\<exists>p. ap_lastApplied st' ! i = Some p \<and> wanted ctx env i p"
proof -
  have "ap_lastApplied st' ! i = Some (enabled_payload ctx env snap i (targetTrackingSystem ctx) st)"
    using device_sent [OF assms(4,2)] assms(1) by (simp add: caches_agree_def)
  then show ?thesis using wanted_enabled [OF assms(3,5)] by blast
qed

lemma applied:
  assumes "agree st" "i < k_unMaxTrackedDeviceCount" "apply_device env post snap i ctx st = (ctx', True, st')"
    "sc_class (ae_devices env ! i) \<noteq> DcInvalid"
  shows "\<exists>p. ap_lastApplied st' ! i = Some p \<and> wanted ctx' env i p"
proof -
  obtain b st1 where n: "note_serial ctx post i (sc_serial (ae_devices env ! i)) st = (b, st1)" by fastforce
  have b: "b" using assms(3,4) n by (cases b) (auto simp: apply_device_def Let_def split: option.splits if_splits)
  have a1: "agree st1" using agree_serial [OF assms(1), of ctx i "sc_serial (ae_devices env ! i)"] n by simp
  have s1: "ap_lastSeenSerial st1 ! i = sc_serial (ae_devices env ! i)"
    using serial_noted [of ctx post i _ st st1] n b assms(1,2) by (simp add: caches_agree_def)
  note nt = n [unfolded b [THEN eqTrueI]]
  show ?thesis
  proof (cases "follows_profile ctx env i")
    case True
    then obtain sys where "sc_system (ae_devices env ! i) = Some sys" "cal_enabled ctx" "i \<noteq> 0"
      "device_system (ae_devices env ! i) sys = targetTrackingSystem ctx"
      by (auto simp: follows_profile_def split: option.splits)
    then have "ctx' = ctx \<and> SendDeviceTransformIfChanged post i (enabled_payload ctx env snap i (targetTrackingSystem ctx) st1) st1 = (True, st')"
      using assms(3,4) nt by (auto simp: apply_device_def Let_def)
    then have c: "ctx' = ctx"
      and d: "SendDeviceTransformIfChanged post i (enabled_payload ctx env snap i (targetTrackingSystem ctx) st1) st1 = (True, st')"
      by blast+
    show ?thesis unfolding c by (rule enabled_wanted [OF a1 assms(2) True d s1])
  next
    case False
    have "\<exists>sys. ResetAndDisableOffsets ctx' post i sys st1 = (True, st') \<and> \<not> follows_profile ctx' env i"
    proof (cases "i = 0")
      case True
      then show ?thesis using assms(3,4) nt
        by (auto simp: apply_device_def Let_def follows_profile_def split: option.splits if_splits)
    next
      case nz: False
      have "ctx' = ctx" using apply_device_ctx [OF assms(3) nz] .
      then show ?thesis using assms(3,4) nt False nz
        by (auto simp: apply_device_def Let_def follows_profile_def split: option.splits if_splits)
    qed
    then show ?thesis using reset_wanted [OF a1 assms(2) _ _ s1] by blast
  qed
qed

lemma applied_list:
  assumes "agree st" "apply_devices env post snap is ctx st = (ctx', True, st')" "distinct is"
    "\<And>i. i \<in> set is \<Longrightarrow> i \<noteq> 0 \<and> i < k_unMaxTrackedDeviceCount"
  shows "ctx' = ctx \<and> (\<forall>j. j \<notin> set is \<longrightarrow> ap_lastApplied st' ! j = ap_lastApplied st ! j)
    \<and> (\<forall>i \<in> set is. sc_class (ae_devices env ! i) \<noteq> DcInvalid \<longrightarrow> (\<exists>p. ap_lastApplied st' ! i = Some p \<and> wanted ctx env i p))"
  using assms
proof (induction "is" arbitrary: st)
  case (Cons i "is")
  obtain c r s where e: "apply_device env post snap i ctx st = (c, r, s)" by (metis prod_cases3)
  have i: "i \<noteq> 0" "i < k_unMaxTrackedDeviceCount" using Cons.prems(4) by simp_all
  have c: "c = ctx" using apply_device_ctx [OF e i(1)] .
  have r: "r" and d: "apply_devices env post snap is ctx s = (ctx', True, st')"
    using Cons.prems(2) by (auto simp: e c Let_def split: if_splits)
  have s: "agree s" using agree_apply [OF Cons.prems(1), of env snap i ctx] e by simp
  have ih: "ctx' = ctx \<and> (\<forall>j. j \<notin> set is \<longrightarrow> ap_lastApplied st' ! j = ap_lastApplied s ! j)
    \<and> (\<forall>i \<in> set is. sc_class (ae_devices env ! i) \<noteq> DcInvalid \<longrightarrow> (\<exists>p. ap_lastApplied st' ! i = Some p \<and> wanted ctx env i p))"
    using Cons.IH [OF s d] Cons.prems(3,4) by simp
  have o: "ap_lastApplied s ! j = ap_lastApplied st ! j" if "j \<noteq> i" for j
    using same_elsewhere_apply [of i st env post snap ctx] e that by (simp add: same_elsewhere_def)
  have w: "\<exists>p. ap_lastApplied s ! i = Some p \<and> wanted ctx env i p" if "sc_class (ae_devices env ! i) \<noteq> DcInvalid"
    using applied [OF Cons.prems(1) i(2) _ that, of snap ctx ctx s] e r c by simp
  show ?case using ih o w Cons.prems(3) by auto
qed simp

text \<open>After a scan that ran to its end the driver holds for every connected device what the scan wants.\<close>

lemma scan_reaches:
  assumes "agree st" "ScanAndApplyProfile (Some env) post force ctx st = (ctx', True, st')"
    "i < k_unMaxTrackedDeviceCount" "sc_class (ae_devices env ! i) \<noteq> DcInvalid"
  shows "\<exists>p. wanted ctx' env i p \<and> holds (ap_driver st') i p"
proof -
  let ?ctx = "ctx\<lparr>cal_enabled := validProfile ctx\<rparr>" and ?snap = "ap_snapNext st \<or> force"
  let ?front = "fold (note_extra ?ctx env post) (additionalCalibrations ?ctx)
      (and_then (and_then (note_target ?ctx post st) (note_alignment env post)) (note_fallback ?ctx env post))"
  obtain r s where f: "?front = (r, s)" by fastforce
  have s: "agree s" using agree_front [OF assms(1), of ?ctx env "additionalCalibrations ?ctx"] f by (metis snd_conv)
  have r: r using assms(2) f by (cases r) (simp_all add: ScanAndApplyProfile_def Let_def del: upt_conv_Cons)
  obtain c b t where d: "apply_devices env post ?snap [0..<k_unMaxTrackedDeviceCount] ?ctx s = (c, b, t)"
    by (metis prod_cases3)
  have bt: b "ctx' = c" "st' = finish_scan env (ap_snapNext st) c t"
    using assms(2) f r d by (auto simp: ScanAndApplyProfile_def Let_def simp del: upt_conv_Cons split: if_splits)
  obtain c0 b0 s0 where e: "apply_device env post ?snap 0 ?ctx s = (c0, b0, s0)" by (metis prod_cases3)
  have u: "[0..<k_unMaxTrackedDeviceCount] = 0 # [1..<k_unMaxTrackedDeviceCount]"
    by (simp add: k_unMaxTrackedDeviceCount_def upt_rec [of 0])
  have b0: b0 and d0: "apply_devices env post ?snap [1..<k_unMaxTrackedDeviceCount] c0 s0 = (c, True, t)"
    using d bt(1) by (auto simp: u e Let_def simp del: upt_conv_Cons split: if_splits)
  have a0: "agree s0" using agree_apply [OF s, of env ?snap 0 ?ctx] e by simp
  have l: "c = c0 \<and> (\<forall>j. j \<notin> set [1..<k_unMaxTrackedDeviceCount] \<longrightarrow> ap_lastApplied t ! j = ap_lastApplied s0 ! j)
    \<and> (\<forall>i \<in> set [1..<k_unMaxTrackedDeviceCount]. sc_class (ae_devices env ! i) \<noteq> DcInvalid \<longrightarrow>
         (\<exists>p. ap_lastApplied t ! i = Some p \<and> wanted c0 env i p))"
    using applied_list [OF a0 d0] by simp
  have z: "sc_class (ae_devices env ! 0) \<noteq> DcInvalid \<Longrightarrow> \<exists>p. ap_lastApplied s0 ! 0 = Some p \<and> wanted c0 env 0 p"
    using applied [OF s, of 0] e b0 by (simp add: k_unMaxTrackedDeviceCount_def)
  have "\<exists>p. ap_lastApplied t ! i = Some p \<and> wanted c env i p"
    using l z assms(3,4) by (cases "i = 0") auto
  moreover have "agree t" using agree_devices [OF s, of env] d by (metis snd_conv)
  moreover have "ap_driver st' = ap_driver t"
    by (auto simp: bt(3) finish_scan_def Let_def split: option.splits prod.splits)
  ultimately show ?thesis using assms(3) bt(2) by (auto simp: caches_agree_def)
qed

end

section \<open>What the driver keeps of a slot\<close>

text \<open>Everything the driver does but handling a transform of the device: the switches stay, and while the
  device has a transform of its own, so do its target, scale and blending mode.\<close>

definition tf_kept :: "device_transform \<Rightarrow> device_transform \<Rightarrow> bool" where
  "tf_kept a b \<longleftrightarrow> tf_enabled b = tf_enabled a \<and> tf_quash b = tf_quash a
     \<and> (tf_enabled a \<and> \<not> tf_fallbackActive a \<longrightarrow> \<not> tf_fallbackActive b \<and> tf_targetTransform b = tf_targetTransform a
        \<and> tf_scale b = tf_scale a \<and> tf_recalibrateOnMovement b = tf_recalibrateOnMovement a)"

definition slots_sized :: "provider \<Rightarrow> bool" where
  "slots_sized pr \<longleftrightarrow> length (pr_transforms pr) = k_unMaxTrackedDeviceCount
     \<and> length (pr_deviceSystem pr) = k_unMaxTrackedDeviceCount"

definition slots_kept :: "provider \<Rightarrow> provider \<Rightarrow> bool" where
  "slots_kept pr pr' \<longleftrightarrow> (slots_sized pr \<longrightarrow> slots_sized pr'
     \<and> (\<forall>i < k_unMaxTrackedDeviceCount. tf_kept (pr_transforms pr ! i) (pr_transforms pr' ! i)))"

lemma tf_kept_refl [simp]: "tf_kept a a"
  by (simp add: tf_kept_def)

lemma slots_kept_trans: "slots_kept a b \<Longrightarrow> slots_kept b c \<Longrightarrow> slots_kept a c"
  unfolding slots_kept_def tf_kept_def by (metis (no_types, lifting))

lemma slots_kept_same:
  "pr_transforms b = pr_transforms a \<Longrightarrow> length (pr_deviceSystem b) = length (pr_deviceSystem a) \<Longrightarrow> slots_kept a b"
  by (simp add: slots_kept_def slots_sized_def)

lemma slots_kept_upd: "tf_kept (pr_transforms pr ! i) (f (pr_transforms pr ! i)) \<Longrightarrow> slots_kept pr (upd_tf i f pr)"
  by (cases "i < length (pr_transforms pr)") (auto simp: slots_kept_def slots_sized_def upd_tf_def nth_list_update)

definition quiet :: "provider_msg \<Rightarrow> bool" where
  "quiet m = (case m of MsgDeviceTransform _ \<Rightarrow> False | _ \<Rightarrow> True)"

definition quiet_hook :: "hook_env \<Rightarrow> bool" where
  "quiet_hook he \<longleftrightarrow> list_all (\<lambda>(_, m). quiet m) (he_window he)"

lemma kept_leave: "tf_fallbackActive a \<Longrightarrow> tf_kept a (leave_fallback now a)"
  by (simp add: tf_kept_def leave_fallback_def)

lemma kept_prediction: "slots_kept pr (SetDevicePrediction m pr)"
  by (auto simp: SetDevicePrediction_def tf_kept_def Let_def intro!: slots_kept_upd slots_kept_same)

lemma kept_fallback: "slots_kept pr (SetTrackingSystemFallback now m pr)"
  by (auto simp: SetTrackingSystemFallback_def Let_def slots_kept_def slots_sized_def kept_leave)

lemma kept_msg: "quiet m \<Longrightarrow> slots_kept pr (handle_msg now m pr)"
  by (cases m) (auto simp: quiet_def handle_msg_def kept_prediction kept_fallback HandleApplyRandomOffset_def
      HandleSetAlignmentSpeedParams_def intro: slots_kept_same)

lemma kept_window: "quiet_hook he \<Longrightarrow> slots_kept pr (run_window he pr)"
proof -
  have "list_all (\<lambda>(_, m). quiet m) ms \<Longrightarrow> slots_kept pr (fold (\<lambda>(now, m). handle_msg now m) ms pr)" for ms
  proof (induction ms arbitrary: pr)
    case (Cons x ms)
    show ?case using Cons.IH [of "handle_msg (fst x) (snd x) pr"] Cons.prems kept_msg [of "snd x" pr "fst x"]
      by (auto split: prod.splits intro: slots_kept_trans)
  qed (simp add: slots_kept_same)
  then show "quiet_hook he \<Longrightarrow> ?thesis" by (simp add: run_window_def quiet_hook_def)
qed

lemma kept_calibrate: "slots_kept pr (fst (calibrate_slot e he i (pr, pose)))"
  by (auto simp: calibrate_slot_def calibrate_def BlendTransform_def tf_kept_def Let_def intro!: slots_kept_upd)

lemma kept_smoothing: "slots_kept pr (fst (smoothing_stage dev he i (pr, pose)))"
proof -
  have a: "tf_kept tf (fst (ApplySmartSmoothing dev he f raw sm (tf, q)))" for tf f raw sm q
    by (simp add: ApplySmartSmoothing_def tf_kept_def Let_def split: prod.split)
  show ?thesis
    using a by (auto simp: smoothing_stage_def Let_def tf_kept_def split: prod.split intro!: slots_kept_upd)
      (metis fst_conv tf_kept_def)+
qed

lemma kept_look_up: "quiet_hook he \<Longrightarrow> slots_kept pr (look_up_system he i pr)"
proof -
  assume "quiet_hook he"
  note w = kept_window [OF this, of pr]
  have "slots_kept pr q" if "pr_transforms q = pr_transforms (run_window he pr)"
    "length (pr_deviceSystem q) = length (pr_deviceSystem (run_window he pr))" for q
    using slots_kept_trans [OF w slots_kept_same] that by blast
  then show ?thesis
    by (auto simp: look_up_system_def Let_def slots_kept_same split: option.splits)
qed

lemma kept_fallback_apply:
  assumes "\<not> tf_enabled (pr_transforms pr ! i)"
  shows "slots_kept pr (fst (fallback_apply e he b i (pr, pose)))"
proof -
  have f: "slots_kept pr (upd_tf i (follow_fallback now fb) pr)" for now fb
    using assms by (intro slots_kept_upd) (simp add: tf_kept_def follow_fallback_def Let_def)
  have l: "slots_kept pr (upd_tf i (\<lambda>tf. if tf_fallbackActive tf then leave_fallback now tf else tf) pr)" for now
    by (intro slots_kept_upd) (simp add: kept_leave)
  have c: "slots_kept pr q" if "calibrate_slot e he i (upd_tf i (follow_fallback now fb) pr, pose) = (q, p)" for q p now fb
    using slots_kept_trans [OF f kept_calibrate [of _ e he i pose]] that by (metis fst_conv)
  have s: "slots_kept a (shmem_write x (snapshotDriverSynthTracker he b i p a))" for a x p
    by (rule slots_kept_same) (simp_all add: snapshotDriverSynthTracker_def)
  show ?thesis
    by (auto simp: fallback_apply_def Let_def l split: option.splits prod.splits intro: slots_kept_trans [OF c s])
qed

lemma kept_device:
  assumes "quiet_hook he" "slots_sized pr" "i < k_unMaxTrackedDeviceCount"
  shows "slots_kept pr (fst (snd (device_stage e he b i (pr, pose))))"
proof -
  let ?p = "upd_tf i (\<lambda>tf. tf\<lparr>tf_prevQuash := tf_quash tf\<rparr>) pr"
  have p: "slots_kept pr ?p" by (intro slots_kept_upd) (simp add: tf_kept_def)
  have s: "slots_kept a (shmem_write x (snapshotDriverSynthTracker he c i q a))" for a x q c
    by (rule slots_kept_same) (simp_all add: snapshotDriverSynthTracker_def)
  have w: "slots_kept a (shmem_write x a)" for a x by (rule slots_kept_same) simp_all
  have c: "slots_kept ?p a" if "calibrate_slot e he i (?p, pose) = (a, q)" for a q
    using kept_calibrate [of ?p e he i pose] that by simp
  have q: "slots_kept ?p (fst (quash_stage e he b t i (?p, pose)))" for t
    using assms(1)
    by (auto simp: quash_stage_def Let_def split: prod.splits
        intro: slots_kept_trans [OF slots_kept_trans [OF c s] kept_window] slots_kept_trans [OF c s]
          slots_kept_trans [OF w kept_window] w)
  have en: "slots_kept ?p (fst (enabled_stage e he b i (?p, pose)))"
    by (auto simp: enabled_stage_def Let_def split: prod.splits intro: slots_kept_trans [OF c s])
  have l: "slots_kept ?p (look_up_system he i ?p)" by (rule kept_look_up [OF assms(1)])
  have f: "slots_kept ?p (fst (fallback_apply e he b i (look_up_system he i ?p, pose)))"
    if "\<not> tf_enabled (pr_transforms ?p ! i)"
  proof (rule slots_kept_trans [OF l kept_fallback_apply])
    have "slots_sized ?p" using assms(2) p by (simp add: slots_kept_def)
    then show "\<not> tf_enabled (pr_transforms (look_up_system he i ?p) ! i)"
      using l that assms(3) by (simp add: slots_kept_def tf_kept_def)
  qed
  have at: "pr_transforms ?p ! i = (pr_transforms pr ! i)\<lparr>tf_prevQuash := tf_quash (pr_transforms pr ! i)\<rparr>"
    using assms(2,3) by (simp add: slots_sized_def)
  show ?thesis
    using slots_kept_trans [OF p q] slots_kept_trans [OF p en] slots_kept_trans [OF p l] slots_kept_trans [OF p f]
    by (simp add: device_stage_def Let_def at)
qed

lemma kept_hook:
  assumes "quiet_hook he" "i < k_unMaxTrackedDeviceCount"
  shows "slots_kept pr (fst (HandleDevicePoseUpdated dev e he i pose pr))"
proof (cases "slots_sized pr")
  case True
  obtain pr0 p0 where s: "smoothing_stage dev he i (pr, apply_debug e i pr pose) = (pr0, p0)" by fastforce
  obtain b pr1 p1 where f: "hook_front dev e he i pose pr = (b, pr1, p1)" using prod_cases3 by blast
  obtain m y pr2 where y: "synth_stage he i pr1 = (m, y, pr2)" using prod_cases3 by blast
  let ?pr3 = "run_configs (he_configs_later he) pr2"
  obtain r pr4 p4 where d: "device_stage e he b i (?pr3, p1) = (r, pr4, p4)" using prod_cases3 by blast
  have k1: "slots_kept pr pr1"
  proof -
    have "slots_kept pr pr0" using kept_smoothing [of pr dev he i "apply_debug e i pr pose"] s by simp
    moreover have "slots_kept pr0 pr1" using f by (auto simp: hook_front_def Let_def s intro!: slots_kept_same)
    ultimately show ?thesis by (rule slots_kept_trans)
  qed
  have k3: "slots_kept pr1 ?pr3"
    using y by (auto simp: synth_stage_def Let_def intro!: slots_kept_same split: option.splits if_splits)
  have k: "slots_kept pr ?pr3" by (rule slots_kept_trans [OF k1 k3])
  then have "slots_sized ?pr3" using True by (simp add: slots_kept_def)
  then have k4: "slots_kept ?pr3 pr4" using kept_device [OF assms(1) _ assms(2), of ?pr3 e b p1] d by simp
  have l: "slots_kept pr4 (fst (phantom_stage he i (source_stage he m y (pr4, p4))))"
    by (auto simp: phantom_stage_def source_stage_def Let_def intro!: slots_kept_same split: option.splits prod.splits)
  show ?thesis
    using slots_kept_trans [OF k k4] slots_kept_trans [OF slots_kept_trans [OF k k4] l]
    by (simp add: HandleDevicePoseUpdated_def f y d Let_def)
qed (simp add: slots_kept_def)

section \<open>The driver as the sink of the scan\<close>

definition slot_agrees :: "provider \<Rightarrow> nat \<Rightarrow> set_device_transform \<Rightarrow> bool" where
  "slot_agrees pr i p \<longleftrightarrow> (let tf = pr_transforms pr ! i in
       tf_enabled tf = sdt_enabled p \<and> (sdt_updateQuash p \<longrightarrow> tf_quash tf = sdt_quash p)
     \<and> (sdt_enabled p \<longrightarrow> \<not> tf_fallbackActive tf \<and> tf_recalibrateOnMovement tf = sdt_recalibrateOnMovement p
        \<and> (sdt_updateTranslation p \<longrightarrow> iso_translation (tf_targetTransform tf) = sdt_translation p)
        \<and> (sdt_updateRotation p \<longrightarrow> iso_rotation (tf_targetTransform tf) = sdt_rotation p)
        \<and> (sdt_updateScale p \<longrightarrow> tf_scale tf = sdt_scale p)))"

lemma slot_agrees_kept:
  "slots_kept a b \<Longrightarrow> slots_sized a \<Longrightarrow> i < k_unMaxTrackedDeviceCount \<Longrightarrow> slot_agrees a i p \<Longrightarrow> slot_agrees b i p"
  by (simp add: slots_kept_def tf_kept_def slot_agrees_def Let_def)

lemma slots_sized_kept: "slots_kept a b \<Longrightarrow> slots_sized a \<Longrightarrow> slots_sized b"
  by (simp add: slots_kept_def)

text \<open>Handling a transform, step by step.\<close>

definition message_switch :: "set_device_transform \<Rightarrow> device_transform \<Rightarrow> device_transform" where
  "message_switch m tf = (let tf = tf\<lparr>tf_enabled := sdt_enabled m, tf_fallbackActive := False\<rparr>;
     tf = (if tf_recalibrateOnMovement tf \<and> \<not> sdt_recalibrateOnMovement m
           then tf\<lparr>tf_blendMotionInitialized := False\<rparr> else tf)
   in tf\<lparr>tf_recalibrateOnMovement := sdt_recalibrateOnMovement m\<rparr>)"

definition message_translation :: "set_device_transform \<Rightarrow> device_transform \<Rightarrow> device_transform" where
  "message_translation m tf = (if sdt_updateTranslation m
     then let tf = tf\<lparr>tf_targetTransform := (tf_targetTransform tf)\<lparr>iso_translation := sdt_translation m\<rparr>\<rparr>
          in if \<not> sdt_lerp m
             then tf\<lparr>tf_transform := (tf_transform tf)\<lparr>iso_translation := iso_translation (tf_targetTransform tf)\<rparr>\<rparr>
             else tf
     else tf)"

definition message_rotation :: "set_device_transform \<Rightarrow> device_transform \<Rightarrow> device_transform" where
  "message_rotation m tf = (if sdt_updateRotation m
     then let tf = tf\<lparr>tf_targetTransform := (tf_targetTransform tf)\<lparr>iso_rotation := sdt_rotation m\<rparr>\<rparr>
          in if \<not> sdt_lerp m
             then tf\<lparr>tf_transform := (tf_transform tf)\<lparr>iso_rotation := iso_rotation (tf_targetTransform tf)\<rparr>\<rparr>
             else tf
     else tf)"

definition message_rest :: "set_device_transform \<Rightarrow> bool \<Rightarrow> device_transform \<Rightarrow> device_transform" where
  "message_rest m wasEnabled tf =
     (let tf = (if sdt_updateScale m then tf\<lparr>tf_scale := sdt_scale m\<rparr> else tf);
          tf = (if sdt_updateQuash m then tf\<lparr>tf_quash := sdt_quash m\<rparr> else tf);
          tf = (if \<not> wasEnabled \<and> tf_enabled tf then tf\<lparr>tf_transform := tf_targetTransform tf\<rparr> else tf)
      in if wasEnabled \<and> \<not> tf_enabled tf then tf\<lparr>tf_targetTransform := tf_transform tf\<rparr> else tf)"

lemma device_of_message_steps:
  "device_of_message m now tf =
     (message_rest m (tf_enabled tf) (message_rotation m (message_translation m (message_switch m tf))))
       \<lparr>tf_lastPoll := now, tf_currentRate := TINY\<rparr>"
  unfolding device_of_message_def message_rest_def message_rotation_def message_translation_def message_switch_def Let_def
  by (rule refl)

lemma message_steps [simp]:
  "tf_enabled (message_switch m tf) = sdt_enabled m" "tf_fallbackActive (message_switch m tf) = False"
  "tf_recalibrateOnMovement (message_switch m tf) = sdt_recalibrateOnMovement m"
  "tf_quash (message_switch m tf) = tf_quash tf"
  by (simp_all add: message_switch_def Let_def)

lemma message_target_steps [simp]:
  "tf_enabled (message_translation m tf) = tf_enabled tf" "tf_fallbackActive (message_translation m tf) = tf_fallbackActive tf"
  "tf_recalibrateOnMovement (message_translation m tf) = tf_recalibrateOnMovement tf"
  "tf_quash (message_translation m tf) = tf_quash tf"
  "tf_enabled (message_rotation m tf) = tf_enabled tf" "tf_fallbackActive (message_rotation m tf) = tf_fallbackActive tf"
  "tf_recalibrateOnMovement (message_rotation m tf) = tf_recalibrateOnMovement tf"
  "tf_quash (message_rotation m tf) = tf_quash tf"
  "sdt_updateTranslation m \<Longrightarrow> iso_translation (tf_targetTransform (message_translation m tf)) = sdt_translation m"
  "sdt_updateRotation m \<Longrightarrow> iso_rotation (tf_targetTransform (message_rotation m tf)) = sdt_rotation m"
  "iso_translation (tf_targetTransform (message_rotation m tf)) = iso_translation (tf_targetTransform tf)"
  by (simp_all add: message_translation_def message_rotation_def Let_def)

lemma message_rest_steps [simp]:
  "tf_enabled (message_rest m w tf) = tf_enabled tf" "tf_fallbackActive (message_rest m w tf) = tf_fallbackActive tf"
  "tf_recalibrateOnMovement (message_rest m w tf) = tf_recalibrateOnMovement tf"
  "tf_quash (message_rest m w tf) = (if sdt_updateQuash m then sdt_quash m else tf_quash tf)"
  "sdt_updateScale m \<Longrightarrow> tf_scale (message_rest m w tf) = sdt_scale m"
  "tf_enabled tf \<Longrightarrow> tf_targetTransform (message_rest m w tf) = tf_targetTransform tf"
  by (simp_all add: message_rest_def Let_def)

lemma device_of_message_fields:
  "tf_enabled (device_of_message p now tf) = sdt_enabled p"
  "tf_quash (device_of_message p now tf) = (if sdt_updateQuash p then sdt_quash p else tf_quash tf)"
  "tf_fallbackActive (device_of_message p now tf) = False"
  "tf_recalibrateOnMovement (device_of_message p now tf) = sdt_recalibrateOnMovement p"
  "sdt_updateScale p \<Longrightarrow> tf_scale (device_of_message p now tf) = sdt_scale p"
  by (simp_all add: device_of_message_steps)

lemma device_of_message_target:
  "sdt_enabled p \<Longrightarrow> sdt_updateTranslation p \<Longrightarrow>
     iso_translation (tf_targetTransform (device_of_message p now tf)) = sdt_translation p"
  "sdt_enabled p \<Longrightarrow> sdt_updateRotation p \<Longrightarrow>
     iso_rotation (tf_targetTransform (device_of_message p now tf)) = sdt_rotation p"
  by (simp_all add: device_of_message_steps)

lemma SetDeviceTransform_transforms:
  "pr_transforms (SetDeviceTransform now p pr) = (if sdt_openVRID p < k_unMaxTrackedDeviceCount
     then (pr_transforms pr)[sdt_openVRID p := device_of_message p now (pr_transforms pr ! sdt_openVRID p)]
     else pr_transforms pr)"
  "length (pr_deviceSystem (SetDeviceTransform now p pr)) = length (pr_deviceSystem pr)"
  by (simp_all add: SetDeviceTransform_def upd_tf_def Let_def)

lemma SetDeviceTransform_slots:
  assumes "slots_sized pr" "i < k_unMaxTrackedDeviceCount"
  shows "slots_sized (SetDeviceTransform now p pr)"
    and "sdt_openVRID p \<noteq> i \<Longrightarrow> slot_agrees (SetDeviceTransform now p pr) i q = slot_agrees pr i q"
    and "sdt_openVRID p = i \<Longrightarrow> slot_agrees (SetDeviceTransform now p pr) i p"
proof -
  show "slots_sized (SetDeviceTransform now p pr)"
    using assms by (simp add: slots_sized_def SetDeviceTransform_transforms)
  show "sdt_openVRID p \<noteq> i \<Longrightarrow> slot_agrees (SetDeviceTransform now p pr) i q = slot_agrees pr i q"
    by (simp add: slot_agrees_def SetDeviceTransform_transforms)
  show "sdt_openVRID p = i \<Longrightarrow> slot_agrees (SetDeviceTransform now p pr) i p"
    using assms by (simp add: slot_agrees_def SetDeviceTransform_transforms slots_sized_def Let_def
        device_of_message_fields device_of_message_target)
qed

text \<open>What reaches the driver besides the messages of the scan, which is the only sender of device
  transforms: messages of other kinds and the poses of the devices.\<close>

definition quiet_event :: "driver_event \<Rightarrow> bool" where
  "quiet_event ev = (case ev of DMsg now m \<Rightarrow> quiet m
     | DPose he i pose \<Rightarrow> quiet_hook he \<and> i < k_unMaxTrackedDeviceCount)"

lemma kept_run: "list_all quiet_event es \<Longrightarrow> slots_kept pr (driver_run dev e es pr)"
proof (induction es arbitrary: pr)
  case Nil
  then show ?case by (simp add: driver_run_def slots_kept_same)
next
  case (Cons ev es)
  have "slots_kept pr (driver_step dev e ev pr)"
    using Cons.prems by (cases ev) (auto simp: driver_step_def quiet_event_def kept_msg kept_hook)
  then show ?case
    using Cons.IH [of "driver_step dev e ev pr"] Cons.prems slots_kept_trans by (auto simp: driver_run_def)
qed

text \<open>For every message whether it arrives or the client throws (it then changed nothing), when it is handled, and what else the
  driver handles before the scan goes on.\<close>

type_synonym apply_schedule = "nat \<Rightarrow> bool \<times> int \<times> driver_event list"

definition driver_post :: "bool \<Rightarrow> eigen_quat \<Rightarrow> apply_schedule \<Rightarrow> provider post" where
  "driver_post dev e sched n m pr =
     (let (arrives, now, es) = sched n
      in (arrives, driver_run dev e (filter quiet_event es) (if arrives then handle_msg now m pr else pr)))"

lemma handle_msg_sized: "slots_sized pr \<Longrightarrow> slots_sized (handle_msg now m pr)"
proof (cases "quiet m")
  case False
  assume s: "slots_sized pr"
  have z: "0 < k_unMaxTrackedDeviceCount" by (simp add: k_unMaxTrackedDeviceCount_def)
  from False obtain p where "m = MsgDeviceTransform p" by (cases m) (auto simp: quiet_def)
  then show ?thesis using SetDeviceTransform_slots(1) [OF s z] by (simp add: handle_msg_def)
qed (blast intro: slots_sized_kept kept_msg)

lemma kept_filtered: "slots_kept pr (driver_run dev e (filter quiet_event es) pr)"
  by (rule kept_run) (simp add: list_all_iff)

interpretation driver_sink: profile_sink "driver_post dev e sched" slots_sized slot_agrees for dev e sched
proof unfold_locales
  fix d n m
  show "slots_sized d \<Longrightarrow> slots_sized (snd (driver_post dev e sched n m d))"
    by (auto simp: driver_post_def Let_def split: prod.split intro: slots_sized_kept [OF kept_filtered] handle_msg_sized)
next
  fix d p n d'
  assume a: "slots_sized d" "sdt_openVRID p < k_unMaxTrackedDeviceCount" "driver_post dev e sched n (MsgDeviceTransform p) d = (True, d')"
  obtain now es where s: "sched n = (True, now, es)" using a(3) by (cases "sched n") (auto simp: driver_post_def)
  have "slot_agrees (SetDeviceTransform now p d) (sdt_openVRID p) p" "slots_sized (SetDeviceTransform now p d)"
    using SetDeviceTransform_slots [OF a(1,2)] by auto
  then show "slot_agrees d' (sdt_openVRID p) p"
    using slot_agrees_kept [OF kept_filtered _ a(2)] a(3) s by (auto simp: driver_post_def handle_msg_def)
next
  fix d n m r d' i q
  assume a: "slots_sized d" "driver_post dev e sched n m d = (r, d')" "i < k_unMaxTrackedDeviceCount" "slot_agrees d i q"
    and o: "\<And>p. r \<Longrightarrow> m = MsgDeviceTransform p \<Longrightarrow> sdt_openVRID p \<noteq> i"
  obtain b now es where s: "sched n = (b, now, es)" using prod_cases3 by blast
  let ?d = "if b then handle_msg now m d else d"
  have d: "d' = driver_run dev e (filter quiet_event es) ?d" "r = b" using a(2) s by (auto simp: driver_post_def)
  have z: "slots_sized ?d" using a(1) handle_msg_sized by simp
  have "slot_agrees ?d i q"
  proof (cases "b \<and> \<not> quiet m")
    case True
    then obtain p where p: "m = MsgDeviceTransform p" by (cases m) (auto simp: quiet_def)
    show ?thesis using SetDeviceTransform_slots(2) [OF a(1,3)] o [OF _ p] a(4) True by (simp add: p handle_msg_def d)
  next
    case False
    then show ?thesis using slot_agrees_kept [OF kept_msg a(1,3,4)] a(4) by auto
  qed
  then show "slot_agrees d' i q" using slot_agrees_kept [OF kept_filtered z a(3)] d by simp
qed

section \<open>The profile reaches the driver\<close>

datatype 'p apply_event =
    ApScan "'p apply_env option" bool "'p CalibrationContext"
  | ApInvalidate
  | ApSnapNext
  | ApDriver "driver_event list"

definition apply_step :: "bool \<Rightarrow> eigen_quat \<Rightarrow> apply_schedule \<Rightarrow> 'p apply_event \<Rightarrow> provider apply_state \<Rightarrow> provider apply_state" where
  "apply_step dev e sched s st = (case s of
      ApScan vr force ctx \<Rightarrow> snd (snd (ScanAndApplyProfile vr (driver_post dev e sched) force ctx st))
    | ApInvalidate \<Rightarrow> InvalidateAllTransformCaches st
    | ApSnapNext \<Rightarrow> st\<lparr>ap_snapNext := True\<rparr>
    | ApDriver es \<Rightarrow> st\<lparr>ap_driver := driver_run dev e (filter quiet_event es) (ap_driver st)\<rparr>)"

definition apply_run :: "bool \<Rightarrow> eigen_quat \<Rightarrow> apply_schedule \<Rightarrow> 'p apply_event list \<Rightarrow> provider \<Rightarrow> provider apply_state" where
  "apply_run dev e sched steps pr = fold (apply_step dev e sched) steps (apply_init pr)"

lemma agree_step: "caches_agree slots_sized slot_agrees st \<Longrightarrow> caches_agree slots_sized slot_agrees (apply_step dev e sched s st)"
proof (cases s)
  case (ApDriver es)
  assume a: "caches_agree slots_sized slot_agrees st"
  then show ?thesis
    using slot_agrees_kept [OF kept_filtered] slots_sized_kept [OF kept_filtered]
    by (simp add: apply_step_def ApDriver caches_agree_def)
qed (simp_all add: apply_step_def driver_sink.agree_scan driver_sink.agree_forget)

lemma agree_run: "slots_sized pr \<Longrightarrow> caches_agree slots_sized slot_agrees (apply_run dev e sched steps pr)"
proof -
  assume s: "slots_sized pr"
  have "caches_agree slots_sized slot_agrees st \<Longrightarrow> caches_agree slots_sized slot_agrees (fold (apply_step dev e sched) steps st)" for st
    by (induction steps arbitrary: st) (simp_all add: agree_step)
  moreover have "caches_agree slots_sized slot_agrees (apply_init pr)"
    using s by (simp add: caches_agree_def apply_init_def)
  ultimately show ?thesis by (simp add: apply_run_def)
qed

text \<open>The profile is in use: it is valid, and no connected headset of another tracking system says otherwise.\<close>

definition headset_fits :: "'p CalibrationContext \<Rightarrow> 'p apply_env \<Rightarrow> bool" where
  "headset_fits ctx env \<longleftrightarrow> sc_class (ae_devices env ! 0) = DcInvalid
     \<or> (case sc_system (ae_devices env ! 0) of None \<Rightarrow> True
        | Some sys \<Rightarrow> headset_system (ae_devices env ! 0) sys = referenceTrackingSystem ctx)"

definition in_use :: "'p CalibrationContext \<Rightarrow> 'p apply_env \<Rightarrow> bool" where
  "in_use ctx env \<longleftrightarrow> validProfile ctx \<and> headset_fits ctx env"

lemma headset_fits_enabled [simp]: "headset_fits (ctx\<lparr>cal_enabled := b\<rparr>) env = headset_fits ctx env"
  by (simp add: headset_fits_def split: option.split)

lemma apply_headset_ctx:
  "apply_device env post snap 0 ctx st = (ctx', True, st') \<Longrightarrow>
   ctx' = ctx\<lparr>cal_enabled := cal_enabled ctx \<and> headset_fits ctx env\<rparr>"
  by (auto simp: apply_device_def headset_fits_def Let_def and_then_def split: option.splits if_splits)

lemma apply_devices_ctx:
  "apply_devices env post snap is ctx st = (ctx', r) \<Longrightarrow> 0 \<notin> set is \<Longrightarrow> ctx' = ctx"
proof (induction "is" arbitrary: st)
  case (Cons i "is")
  obtain c b s where e: "apply_device env post snap i ctx st = (c, b, s)" by (metis prod_cases3)
  then have "c = ctx" using apply_device_ctx [OF e] Cons.prems(2) by simp
  then show ?case using Cons by (auto simp: e Let_def split: if_splits)
qed simp

lemma scan_ids: "[0..<k_unMaxTrackedDeviceCount] = 0 # [1..<k_unMaxTrackedDeviceCount]"
  by (simp add: k_unMaxTrackedDeviceCount_def upt_rec [of 0])

lemma scan_ctx:
  assumes "ScanAndApplyProfile (Some env) post force ctx st = (ctx', True, st')"
  shows "ctx' = ctx\<lparr>cal_enabled := in_use ctx env\<rparr>"
proof -
  let ?ctx = "ctx\<lparr>cal_enabled := validProfile ctx\<rparr>" and ?snap = "ap_snapNext st \<or> force"
  obtain r s where f: "fold (note_extra ?ctx env post) (additionalCalibrations ?ctx)
      (and_then (and_then (note_target ?ctx post st) (note_alignment env post)) (note_fallback ?ctx env post)) = (r, s)"
    by fastforce
  obtain c0 b0 s0 where e: "apply_device env post ?snap 0 ?ctx s = (c0, b0, s0)" by (metis prod_cases3)
  obtain c b t where d: "apply_devices env post ?snap [1..<k_unMaxTrackedDeviceCount] c0 s0 = (c, b, t)"
    by (metis prod_cases3)
  have "c = c0" using apply_devices_ctx [OF d] by simp
  moreover have "r" "b0" "ctx' = c"
    using assms f e d by (auto simp: ScanAndApplyProfile_def scan_ids Let_def simp del: upt_conv_Cons split: if_splits)
  ultimately show ?thesis
    using apply_headset_ctx [of env post ?snap ?ctx s c0 s0] e by (simp add: in_use_def)
qed

lemma follows_in_use:
  "follows_profile (ctx\<lparr>cal_enabled := in_use ctx env\<rparr>) env i \<longleftrightarrow> in_use ctx env \<and> i \<noteq> 0 \<and>
     (case sc_system (ae_devices env ! i) of None \<Rightarrow> False
      | Some sys \<Rightarrow> device_system (ae_devices env ! i) sys = targetTrackingSystem ctx)"
  by (simp add: follows_profile_def split: option.split)

lemma scan_outcome:
  assumes "slots_sized pr" and "i < k_unMaxTrackedDeviceCount"
    and "ScanAndApplyProfile (Some env) (driver_post dev e sched) force ctx (apply_run dev e sched steps pr) = (ctx', True, st)"
    and "sc_class (ae_devices env ! i) \<noteq> DcInvalid"
  defines "tf \<equiv> pr_transforms (ap_driver st) ! i"
    and "follows \<equiv> follows_profile (ctx\<lparr>cal_enabled := in_use ctx env\<rparr>) env i"
  shows "ctx' = ctx\<lparr>cal_enabled := in_use ctx env\<rparr>"
    and "tf_enabled tf = follows"
    and "follows \<Longrightarrow> tf_targetTransform tf = \<lparr>iso_rotation = ae_rotation env (calibratedRotation ctx),
           iso_translation = vscale (1 / 100) (calibratedTranslation ctx)\<rparr>"
    and "follows \<Longrightarrow> tf_scale tf = calibratedScale ctx \<and> tf_recalibrateOnMovement tf = recalibrateOnMovement ctx"
    and "follows \<Longrightarrow> tf_quash tf = ShouldQuashPublishedTrackerPose ctx' (int i) (sc_serial (ae_devices env ! i))
           (targetTrackingSystem ctx)"
    and "i = 0 \<Longrightarrow> \<not> tf_enabled tf \<and> \<not> tf_quash tf"
proof -
  show c: "ctx' = ctx\<lparr>cal_enabled := in_use ctx env\<rparr>" using scan_ctx [OF assms(3)] .
  obtain p where "wanted ctx' env i p" "slot_agrees (ap_driver st) i p"
    using driver_sink.scan_reaches [OF agree_run [OF assms(1)] assms(3,2,4)] by blast
  note w = this
  have en: "sdt_enabled p = follows" using w(1) by (simp add: wanted_def follows_def c)
  note agrees = w(2) [unfolded slot_agrees_def Let_def, folded tf_def]
  note wants = w(1) [unfolded wanted_def c, folded follows_def]
  show "tf_enabled tf = follows" using agrees en by simp
  show "tf_targetTransform tf = \<lparr>iso_rotation = ae_rotation env (calibratedRotation ctx),
      iso_translation = vscale (1 / 100) (calibratedTranslation ctx)\<rparr>" if follows
  proof (rule iso_transform.equality)
    show "iso_rotation (tf_targetTransform tf) = iso_rotation \<lparr>iso_rotation = ae_rotation env (calibratedRotation ctx),
      iso_translation = vscale (1 / 100) (calibratedTranslation ctx)\<rparr>"
      using agrees wants that en by simp
    show "iso_translation (tf_targetTransform tf) = iso_translation \<lparr>iso_rotation = ae_rotation env (calibratedRotation ctx),
      iso_translation = vscale (1 / 100) (calibratedTranslation ctx)\<rparr>"
      using agrees wants that en by simp
  qed simp
  show "tf_scale tf = calibratedScale ctx \<and> tf_recalibrateOnMovement tf = recalibrateOnMovement ctx" if follows
    using agrees wants that en by simp
  show "tf_quash tf = ShouldQuashPublishedTrackerPose ctx' (int i) (sc_serial (ae_devices env ! i))
      (targetTrackingSystem ctx)" if follows
    using agrees wants that c by simp
  show "\<not> tf_enabled tf \<and> \<not> tf_quash tf" if "i = 0"
  proof -
    have "\<not> follows" using that by (simp add: follows_def follows_profile_def)
    then show ?thesis using agrees wants that by simp
  qed
qed


section \<open>A scan of a driver that answers runs to its end\<close>

lemma and_then_fst: "fst r \<Longrightarrow> (\<And>st. fst (f st)) \<Longrightarrow> fst (and_then r f)"
  by (simp add: and_then_def)

lemma scan_completes:
  fixes ctx :: "'p CalibrationContext"
  assumes "\<And>n m d. fst (post n m d)"
  shows "fst (snd (ScanAndApplyProfile vr post force ctx st))"
proof -
  have s: "fst (SendBlocking_msg post m st)" for m st
    using assms [of "ap_sends st" m "ap_driver st"]
    by (cases "post (ap_sends st) m (ap_driver st)") (simp add: SendBlocking_msg_def)
  have d: "fst (SendDeviceTransformIfChanged post i p st)" for i p st
    by (auto simp: SendDeviceTransformIfChanged_def intro: and_then_fst s split: option.split)
  have r: "fst (ResetAndDisableOffsets c post i sys st)" for c :: "'p CalibrationContext" and i sys st
    by (simp add: ResetAndDisableOffsets_def d)
  have n: "fst (note_serial c post i w st)" for c :: "'p CalibrationContext" and i w st
    by (simp add: note_serial_def Let_def r)
  have a: "fst (snd (apply_device env post snap i c st))" for env snap i and c :: "'p CalibrationContext" and st
    by (auto simp: apply_device_def Let_def intro!: and_then_fst n r d split: option.split)
  have l: "fst (snd (apply_devices env post snap is c st))" for env snap "is" and c :: "'p CalibrationContext" and st
  proof (induction "is" arbitrary: c st)
    case (Cons i "is")
    obtain c' b s' where e: "apply_device env post snap i c st = (c', b, s')" by (metis prod_cases3)
    have b using a [of env snap i c st] by (simp add: e)
    then show ?case using Cons.IH [of c' s'] by (simp add: e Let_def)
  qed simp
  have fb: "fst (SendFallbackIfChanged post w f st)" for w f st
    by (auto simp: SendFallbackIfChanged_def intro: and_then_fst s split: option.split)
  have x: "fst r \<Longrightarrow> fst (fold (note_extra c env post) es r)" for c :: "'p CalibrationContext" and env es r
    by (induction es arbitrary: r) (simp_all add: note_extra_def and_then_fst fb)
  have t: "fst (note_target c post st)" "fst (note_alignment env post st)" "fst (note_fallback c env post st)"
    for c :: "'p CalibrationContext" and env st
    by (auto simp: note_target_def note_alignment_def note_fallback_def Let_def fb intro!: and_then_fst s)
  show ?thesis
  proof (cases vr)
    case (Some env)
    let ?c = "ctx\<lparr>cal_enabled := validProfile ctx\<rparr>"
    obtain b s' where f: "fold (note_extra ?c env post) (additionalCalibrations ?c)
        (and_then (and_then (note_target ?c post st) (note_alignment env post)) (note_fallback ?c env post)) = (b, s')"
      by fastforce
    have "fst (fold (note_extra ?c env post) (additionalCalibrations ?c)
        (and_then (and_then (note_target ?c post st) (note_alignment env post)) (note_fallback ?c env post)))"
      by (intro x and_then_fst t)
    then have b by (simp only: f fst_conv)
    obtain c' b' t' where e: "apply_devices env post (ap_snapNext st \<or> force) [0..<k_unMaxTrackedDeviceCount] ?c s' = (c', b', t')"
      by (metis prod_cases3)
    have b' using l [of env "ap_snapNext st \<or> force" "[0..<k_unMaxTrackedDeviceCount]" ?c s'] by (simp only: e fst_conv snd_conv)
    then show ?thesis using f e \<open>b\<close> by (simp add: ScanAndApplyProfile_def Some Let_def del: upt_conv_Cons)
  qed (simp add: ScanAndApplyProfile_def)
qed

section \<open>Examples\<close>

definition no_device :: scan_device where
  "no_device = \<lparr>sc_class = DcInvalid, sc_serial = [], sc_system = None, sc_eyeToHead = [], sc_renderModel = [], sc_dongle = []\<rparr>"

definition scan_env :: "scan_device list \<Rightarrow> 'p apply_env" where
  "scan_env ds = \<lparr>ae_devices = ds @ replicate (k_unMaxTrackedDeviceCount - length ds) no_device, ae_quadCount = 0,
     ae_chaperone = None, ae_alignment = init_alignment_speed, ae_rotation = (\<lambda>_. qone)\<rparr>"

definition demo_device :: "device_class \<Rightarrow> string \<Rightarrow> string \<Rightarrow> scan_device" where
  "demo_device c s sys = no_device\<lparr>sc_class := c, sc_serial := s, sc_system := Some sys\<rparr>"

definition demo_profile :: "string \<Rightarrow> (real \<times> real) CalibrationContext" where
  "demo_profile target = (new_context line_eigen)\<lparr>validProfile := True, referenceTrackingSystem := ''oculus'',
     targetTrackingSystem := target, calibratedScale := 1, calibratedTranslation := \<lparr>vx = 100, vy = 0, vz = 0\<rparr>\<rparr>"

lemma demo_profile_fields [simp]:
  "validProfile (demo_profile t)" "referenceTrackingSystem (demo_profile t) = ''oculus''"
  "targetTrackingSystem (demo_profile t) = t" "calibratedScale (demo_profile t) = 1"
  "calibratedTranslation (demo_profile t) = \<lparr>vx = 100, vy = 0, vz = 0\<rparr>" "additionalCalibrations (demo_profile t) = []"
  by (simp_all add: demo_profile_def new_context_def)

lemma scan_env_devices:
  "i < length ds \<Longrightarrow> ae_devices (scan_env ds) ! i = ds ! i"
  "length ds \<le> i \<Longrightarrow> i < k_unMaxTrackedDeviceCount \<Longrightarrow> ae_devices (scan_env ds) ! i = no_device"
  by (simp_all add: scan_env_def nth_append)

lemma demo_device_fields [simp]:
  "sc_class (demo_device c s sys) = c" "sc_serial (demo_device c s sys) = s" "sc_system (demo_device c s sys) = Some sys"
  "sc_class no_device = DcInvalid"
  by (simp_all add: demo_device_def no_device_def)

definition headset_and_tracker :: "(real \<times> real) apply_env" where
  "headset_and_tracker = scan_env [demo_device DcHmd ''H1'' ''oculus'', demo_device DcOther ''T1'' ''lighthouse'']"

lemma demo_provider_sized: "slots_sized (demo_provider h)"
  by (simp add: slots_sized_def demo_provider_def hook_eval)


section \<open>The fallback of a tracking system\<close>

text \<open>A driver that keeps the messages.\<close>

definition record_post :: "provider_msg list post" where
  "record_post n m d = (True, d @ [m])"

lemma apply_devices_none:
  "(\<And>i. i \<in> set is \<Longrightarrow> sc_class (ae_devices env ! i) = DcInvalid \<and> ap_lastSeenSerial st ! i = [] \<and> ap_lastApplied st ! i = None)
   \<Longrightarrow> apply_devices env post snap is ctx st = (ctx, True, st)"
  by (induction "is") (simp_all add: apply_device_def)

definition recorded :: "(real \<times> real) apply_env \<Rightarrow> (real \<times> real) CalibrationContext list \<Rightarrow> provider_msg list apply_state" where
  "recorded env cs = fold (\<lambda>ctx st. snd (snd (ScanAndApplyProfile (Some env) record_post False ctx st))) cs (apply_init [])"

definition shared_fallback :: "string \<Rightarrow> set_tracking_system_fallback" where
  "shared_fallback s = fallback_payload s True \<lparr>vx = 100, vy = 0, vz = 0\<rparr> qone 1 True"

definition no_caches :: "provider_msg list apply_state \<Rightarrow> bool" where
  "no_caches st \<longleftrightarrow> ap_lastSeenSerial st = replicate k_unMaxTrackedDeviceCount []
     \<and> ap_lastApplied st = replicate k_unMaxTrackedDeviceCount None \<and> \<not> ap_snapNext st"

definition front :: "string \<Rightarrow> provider_msg list apply_state \<Rightarrow> provider_msg list applied" where
  "front t st = and_then (and_then (note_target (demo_profile t\<lparr>cal_enabled := True\<rparr>) record_post st)
     (note_alignment (scan_env []) record_post)) (note_fallback (demo_profile t\<lparr>cal_enabled := True\<rparr>) (scan_env []) record_post)"

lemmas front_eval = front_def note_target_def note_alignment_def note_fallback_def SendFallbackIfChanged_def
  SendBlocking_msg_def record_post_def InvalidateAllTransformCaches_def FallbackPayloadEqual_eq Let_def

lemma front_caches: "no_caches st \<Longrightarrow> fst (front t st) \<and> no_caches (snd (front t st))"
  by (simp add: front_eval no_caches_def split: option.split)

lemma scan_env_fields [simp]:
  "ae_chaperone (scan_env ds) = None" "ae_rotation (scan_env ds) v = qone" "ae_alignment (scan_env ds) = init_alignment_speed"
  by (simp_all add: scan_env_def)

lemma empty_scan:
  assumes "no_caches st"
  shows "snd (snd (ScanAndApplyProfile (Some (scan_env [])) record_post False (demo_profile t) st)) = snd (front t st)"
proof -
  obtain s where f: "front t st = (True, s)" using front_caches [OF assms, of t] by (cases "front t st") auto
  then have n: "no_caches s" using front_caches [OF assms, of t] by simp
  have l: "apply_devices (scan_env []) record_post False [0..<k_unMaxTrackedDeviceCount] c s = (c, True, s)"
    for c :: "(real \<times> real) CalibrationContext"
    by (rule apply_devices_none) (use n in \<open>simp add: scan_env_devices no_caches_def\<close>)
  show ?thesis
    using f assms by (simp add: ScanAndApplyProfile_def Let_def l finish_scan_def no_caches_def front_def del: upt_conv_Cons)
qed

text \<open>Going from one target system to another and back leaves the fallback of the first one disabled: the
  cache of the fallbacks still holds the payload that the disabling message overwrote in the driver.\<close>

lemma fallback_not_restored:
  assumes "a \<noteq> b" "a \<noteq> []" "b \<noteq> []"
  shows "filter (\<lambda>m. case m of MsgFallback _ \<Rightarrow> True | _ \<Rightarrow> False)
      (ap_driver (recorded (scan_env []) [demo_profile a, demo_profile b, demo_profile a])) =
    [MsgFallback (shared_fallback a), MsgFallback (disable_payload a), MsgFallback (shared_fallback b),
     MsgFallback (disable_payload b)]"
proof -
  let ?s0 = "apply_init [] :: provider_msg list apply_state"
  let ?s1 = "snd (front a ?s0)" and ?s2 = "snd (front b (snd (front a ?s0)))"
  have n0: "no_caches ?s0" by (simp add: no_caches_def apply_init_def)
  have n1: "no_caches ?s1" using front_caches [OF n0] by blast
  have n2: "no_caches ?s2" using front_caches [OF n1] by blast
  have r: "recorded (scan_env []) [demo_profile a, demo_profile b, demo_profile a] = snd (front a ?s2)"
    by (simp add: recorded_def empty_scan [OF n0] empty_scan [OF n1] empty_scan [OF n2])
  have s1: "?s1 = ?s0\<lparr>ap_lastTargetSystem := a, ap_lastEnabled := True, ap_lastAlignmentSpeed := Some init_alignment_speed,
      ap_lastFallback := shared_fallback a, ap_lastFallbackSent := True, ap_fallbacks := [a \<mapsto> shared_fallback a],
      ap_sends := 2, ap_driver := [MsgAlignmentSpeed init_alignment_speed, MsgFallback (shared_fallback a)]\<rparr>"
    using assms by (simp add: front_eval apply_init_def shared_fallback_def demo_profile_def new_context_def)
  have e: "sfb_enabled (shared_fallback x)" for x by (simp add: shared_fallback_def fallback_payload_def)
  have s2: "?s2 = ?s0\<lparr>ap_lastTargetSystem := b, ap_lastEnabled := True, ap_lastAlignmentSpeed := Some init_alignment_speed,
      ap_lastFallback := shared_fallback b, ap_lastFallbackSent := True,
      ap_fallbacks := [a \<mapsto> shared_fallback a, b \<mapsto> shared_fallback b], ap_sends := 5,
      ap_driver := [MsgAlignmentSpeed init_alignment_speed, MsgFallback (shared_fallback a), MsgFallback (disable_payload a),
        MsgAlignmentSpeed init_alignment_speed, MsgFallback (shared_fallback b)]\<rparr>"
    unfolding s1 using assms e
    by (simp add: front_eval apply_init_def shared_fallback_def [of b] demo_profile_def new_context_def)
  show ?thesis
    unfolding r s2 using assms e by (simp add: front_eval apply_init_def shared_fallback_def demo_profile_def new_context_def)
qed

text \<open>A headset of another tracking system: the devices get their transforms disabled, but the fallback of
  the target system was sent enabled before the loop found the headset, and nothing disables it; a
  disabled device follows the fallback of its tracking system in the driver.\<close>

lemma apply_devices_append:
  "apply_devices env post snap xs ctx st = (c, True, s) \<Longrightarrow>
   apply_devices env post snap (xs @ ys) ctx st = apply_devices env post snap ys c s"
proof (induction xs arbitrary: ctx st)
  case (Cons x xs)
  obtain c' b s' where e: "apply_device env post snap x ctx st = (c', b, s')" by (metis prod_cases3)
  show ?case using Cons by (cases b) (simp_all add: e Let_def)
qed simp

definition foreign_headset :: "(real \<times> real) apply_env" where
  "foreign_headset = scan_env [demo_device DcHmd ''H2'' ''vive'', demo_device DcOther ''T1'' ''lighthouse'']"

lemma foreign_headset_keeps_fallback:
  "ap_driver (recorded foreign_headset [demo_profile ''lighthouse'']) =
     [MsgAlignmentSpeed init_alignment_speed, MsgFallback (shared_fallback ''lighthouse''),
      MsgDeviceTransform (disabled_payload 0 ''vive'' False), MsgDeviceTransform (disabled_payload 1 [] False)]"
proof -
  let ?c = "demo_profile ''lighthouse''\<lparr>cal_enabled := True\<rparr>"
  let ?s0 = "apply_init [] :: provider_msg list apply_state"
  let ?s1 = "?s0\<lparr>ap_lastTargetSystem := ''lighthouse'', ap_lastEnabled := True, ap_lastAlignmentSpeed := Some init_alignment_speed,
      ap_lastFallback := shared_fallback ''lighthouse'', ap_lastFallbackSent := True,
      ap_fallbacks := [''lighthouse'' \<mapsto> shared_fallback ''lighthouse''],
      ap_sends := 2, ap_driver := [MsgAlignmentSpeed init_alignment_speed, MsgFallback (shared_fallback ''lighthouse'')]\<rparr>"
  let ?s2 = "?s1\<lparr>ap_sends := 4, ap_driver := ap_driver ?s1 @ [MsgDeviceTransform (disabled_payload 0 ''vive'' False),
      MsgDeviceTransform (disabled_payload 1 [] False)],
      ap_lastSeenSerial := (ap_lastSeenSerial ?s0)[0 := ''H2'', 1 := ''T1''],
      ap_lastApplied := (ap_lastApplied ?s0)[0 := Some (disabled_payload 0 ''vive'' False), 1 := Some (disabled_payload 1 [] False)]\<rparr>"
  let ?c' = "?c\<lparr>cal_enabled := False\<rparr>"
  have f: "and_then (and_then (note_target ?c record_post ?s0) (note_alignment foreign_headset record_post))
      (note_fallback ?c foreign_headset record_post) = (True, ?s1)"
    by (simp add: front_eval foreign_headset_def apply_init_def shared_fallback_def demo_profile_def new_context_def)
  have d: "ae_devices foreign_headset ! 0 = demo_device DcHmd ''H2'' ''vive''"
    "ae_devices foreign_headset ! Suc 0 = demo_device DcOther ''T1'' ''lighthouse''"
    "\<And>i. 2 \<le> i \<Longrightarrow> i < k_unMaxTrackedDeviceCount \<Longrightarrow> ae_devices foreign_headset ! i = no_device"
    by (simp_all add: foreign_headset_def scan_env_devices)
  have h: "\<not> ShouldHideHeadMountTracker (demo_profile t\<lparr>cal_enabled := e\<rparr>) i w y" for t e i w y
    by (simp add: ShouldHideHeadMountTracker_def demo_profile_def new_context_def empty_head_mount_def Let_def)
  have n: "(1 :: nat) < k_unMaxTrackedDeviceCount" "Suc 0 < k_unMaxTrackedDeviceCount" "0 < k_unMaxTrackedDeviceCount"
    by (simp_all add: k_unMaxTrackedDeviceCount_def)
  note eval = apply_device_def note_serial_def ResetAndDisableOffsets_def ResolveHeadMountHide_def
    SendDeviceTransformIfChanged_def SendBlocking_msg_def record_post_def apply_init_def headset_system_def Let_def
  have d0: "apply_device foreign_headset record_post False 0 ?c ?s1 =
      (?c', True, ?s1\<lparr>ap_sends := 3, ap_driver := ap_driver ?s1 @ [MsgDeviceTransform (disabled_payload 0 ''vive'' False)],
         ap_lastSeenSerial := (ap_lastSeenSerial ?s0)[0 := ''H2''],
         ap_lastApplied := (ap_lastApplied ?s0)[0 := Some (disabled_payload 0 ''vive'' False)]\<rparr>)"
    using n h by (simp add: eval d)
  have d1: "apply_devices foreign_headset record_post False [0, 1] ?c ?s1 = (?c', True, ?s2)"
    using n h by (simp add: d0 eval d)
  have l: "apply_devices foreign_headset record_post False [2..<k_unMaxTrackedDeviceCount] ?c' ?s2 = (?c', True, ?s2)"
    by (rule apply_devices_none) (simp add: d apply_init_def)
  have u: "[0..<k_unMaxTrackedDeviceCount] = [0, 1] @ [2..<k_unMaxTrackedDeviceCount]"
    using upt_conv_Cons [of 0 k_unMaxTrackedDeviceCount] upt_conv_Cons [of 1 k_unMaxTrackedDeviceCount] n
    by (simp add: numeral_2_eq_2)
  have all: "apply_devices foreign_headset record_post False [0..<k_unMaxTrackedDeviceCount] ?c ?s1 = (?c', True, ?s2)"
    unfolding u apply_devices_append [OF d1] by (rule l)
  have sn: "\<not> ap_snapNext ?s0" by (simp add: apply_init_def)
  have "snd (snd (ScanAndApplyProfile (Some foreign_headset) record_post False (demo_profile ''lighthouse'') ?s0)) =
      finish_scan foreign_headset False ?c' ?s2"
    using f all sn by (simp add: ScanAndApplyProfile_def Let_def del: upt_conv_Cons)
  then show ?thesis by (simp add: recorded_def finish_scan_def foreign_headset_def)
qed

end
