(* ===== verification/Fingers.thy ===== *)
theory Fingers
  imports DriverSynth OneEuro WordBytes "HOL-Library.Sublist"
begin

text \<open>
  Finger smoothing: the configuration words of the provider
  (\<open>core/src/driver/ServerTrackedDeviceProviderConfigPacking.cpp\<close>, \<open>ServerTrackedDeviceProvider.cpp\<close>),
  the bone arithmetic (\<open>modules/smoothing/src/driver/SkeletalSmoothingMath.cpp\<close>) and the hooks of the
  skeletal input components (\<open>SkeletalHookInjector.cpp\<close>). Floats are exact reals. A hook and a
  configuration request are one step each; the window between the two halves of a request is
  \<open>publish_fingers\<close>. What only feeds log lines (counters, windows of worst deltas) is left out.
\<close>

section \<open>The configuration\<close>

record finger_config =
  fg_master_enabled :: bool
  fg_smoothness :: byte
  fg_finger_mask :: u16
  fg_per_finger :: "byte list"

definition PackFingerHeader :: "finger_config \<Rightarrow> u64" where
  "PackFingerHeader cfg = word_of_bytes
     [byte_of_bool (fg_master_enabled cfg), fg_smoothness cfg, ucast (fg_finger_mask cfg),
      ucast (drop_bit 8 (fg_finger_mask cfg)), 0, fg_per_finger cfg ! 8, fg_per_finger cfg ! 9, 0]"

definition PackFingerLow :: "finger_config \<Rightarrow> u64" where
  "PackFingerLow cfg = word_of_bytes (take 8 (fg_per_finger cfg))"

definition UnpackFingerSmoothing :: "u64 \<Rightarrow> u64 \<Rightarrow> finger_config" where
  "UnpackFingerSmoothing header low =
     \<lparr>fg_master_enabled = (byte_at header 0 \<noteq> 0), fg_smoothness = byte_at header 1,
      fg_finger_mask = ucast (byte_at header 2) OR push_bit 8 (ucast (byte_at header 3)),
      fg_per_finger = map (byte_at low) [0..<8] @ [byte_at header 5, byte_at header 6]\<rparr>"

definition effective_smoothness :: "finger_config \<Rightarrow> nat \<Rightarrow> byte" where
  "effective_smoothness cfg idx =
     (let perFinger = fg_per_finger cfg ! idx in if perFinger \<noteq> 0 then perFinger else fg_smoothness cfg)"

definition IsFingerSmoothed :: "finger_config \<Rightarrow> nat \<Rightarrow> bool" where
  "IsFingerSmoothed cfg idx =
     (if \<not> fg_master_enabled cfg then False
      else if \<not> bit (fg_finger_mask cfg) idx then False
      else effective_smoothness cfg idx \<noteq> 0)"

definition ComputeFingerSmoothingReseedBits :: "finger_config \<Rightarrow> finger_config \<Rightarrow> u16" where
  "ComputeFingerSmoothingReseedBits prev next' =
     fold (\<lambda>i bits. if \<not> IsFingerSmoothed prev i \<and> IsFingerSmoothed next' i then bits OR push_bit i 1 else bits)
       [0..<10] 0"

section \<open>Bones\<close>

record bone =
  bn_position :: vec3
  bn_w :: real
  bn_orientation :: quat

definition Lerpf :: "real \<Rightarrow> real \<Rightarrow> real \<Rightarrow> real" where
  "Lerpf a b t = a + (b - a) * t"

definition Bone_SlerpQuat :: "quat \<Rightarrow> quat \<Rightarrow> real \<Rightarrow> quat" where
  "Bone_SlerpQuat a b t =
     (let dot = QuatDot a b;
          b = (if dot < 0 then qneg b else b);
          dot = (if dot < 0 then - dot else dot)
      in if dot > 9995 / 10000
         then let r = qmap2 (\<lambda>x y. Lerpf x y t) a b;
                  len = sqrt (qnorm2 r)
              in if len > 0 then qmap2 (\<lambda>x _. x * (1 / len)) r r else r
         else let theta_0 = arccos dot;
                  sin_theta_0 = sin theta_0;
                  theta = theta_0 * t;
                  sin_theta = sin theta;
                  s1 = cos theta - dot * sin_theta / sin_theta_0;
                  s2 = sin_theta / sin_theta_0
              in qmap2 (\<lambda>x y. s1 * x + s2 * y) a b)"

definition FingerIndexForBone :: "nat \<Rightarrow> nat option" where
  "FingerIndexForBone bone =
     (if 2 \<le> bone \<and> bone \<le> 5 then Some 0
      else if 6 \<le> bone \<and> bone \<le> 10 then Some 1
      else if 11 \<le> bone \<and> bone \<le> 15 then Some 2
      else if 16 \<le> bone \<and> bone \<le> 20 then Some 3
      else if 21 \<le> bone \<and> bone \<le> 25 then Some 4
      else None)"

definition SmoothnessToAlpha :: "byte \<Rightarrow> real" where
  "SmoothnessToAlpha smoothness =
     (let s = real (unat smoothness); s = (if s > 100 then 100 else s) in 1 - (s / 100) * (95 / 100))"

section \<open>The hooks\<close>

record hand_state =
  ha_initialized :: bool
  ha_reseed_pending :: "bool list"
  ha_previous :: "bone list"

definition zero_bone :: bone where
  "zero_bone = \<lparr>bn_position = vzero, bn_w = 0, bn_orientation = \<lparr>qw = 0, qx = 0, qy = 0, qz = 0\<rparr>\<rparr>"

definition HandState_init :: hand_state where
  "HandState_init = \<lparr>ha_initialized = False, ha_reseed_pending = replicate 5 False, ha_previous = replicate 31 zero_bone\<rparr>"

text \<open>The two words of the provider, and the variables of the hooks: whether a driver is set, the hand
  of each component and the state of the left and of the right hand.\<close>

record skeletal =
  sk_header :: u64
  sk_low :: u64
  sk_driver :: bool
  sk_handedness :: "u64 \<rightharpoonup> nat"
  sk_hands :: "hand_state list"

definition Skeletal_init :: skeletal where
  "Skeletal_init = \<lparr>sk_header = 0, sk_low = 0, sk_driver = False, sk_handedness = Map.empty,
     sk_hands = [HandState_init, HandState_init]\<rparr>"

definition MarkFingersNeedReseed :: "u16 \<Rightarrow> skeletal \<Rightarrow> skeletal" where
  "MarkFingersNeedReseed bits sk =
     (if bits = 0 then sk
      else sk\<lparr>sk_hands := map (\<lambda>h. (sk_hands sk ! h)\<lparr>ha_reseed_pending :=
              map (\<lambda>f. bit bits (h * 5 + f) \<or> ha_reseed_pending (sk_hands sk ! h) ! f) [0..<5]\<rparr>) [0..<2]\<rparr>)"

definition publish_fingers :: "finger_config \<Rightarrow> skeletal \<Rightarrow> skeletal" where
  "publish_fingers cfg sk = sk\<lparr>sk_header := PackFingerHeader cfg, sk_low := PackFingerLow cfg\<rparr>"

definition GetFingerSmoothingConfig :: "skeletal \<Rightarrow> finger_config" where
  "GetFingerSmoothingConfig sk = UnpackFingerSmoothing (sk_header sk) (sk_low sk)"

definition SetFingerSmoothingConfig :: "finger_config \<Rightarrow> skeletal \<Rightarrow> skeletal" where
  "SetFingerSmoothingConfig cfg sk =
     (let newHeader = PackFingerHeader cfg; newLow = PackFingerLow cfg;
          oldHeader = sk_header sk; oldLow = sk_low sk;
          sk = publish_fingers cfg sk
      in if oldHeader \<noteq> newHeader \<or> oldLow \<noteq> newLow
         then MarkFingersNeedReseed (ComputeFingerSmoothingReseedBits (UnpackFingerSmoothing oldHeader oldLow) cfg) sk
         else sk)"

definition Skeletal_Init :: "skeletal \<Rightarrow> skeletal" where
  "Skeletal_Init sk = sk\<lparr>sk_driver := True, sk_handedness := Map.empty, sk_hands := [HandState_init, HandState_init]\<rparr>"

definition Skeletal_Shutdown :: "skeletal \<Rightarrow> skeletal" where
  "Skeletal_Shutdown sk = sk\<lparr>sk_handedness := Map.empty,
     sk_hands := map (\<lambda>h. h\<lparr>ha_initialized := False, ha_reseed_pending := replicate 5 False\<rparr>) (sk_hands sk)\<rparr>"

text \<open>The hand that the path of a skeleton names, and the hook of a creation that succeeded.\<close>

definition hand_of_path :: "string \<Rightarrow> nat option" where
  "hand_of_path path =
     (if sublist ''/left'' path then Some 0 else if sublist ''/right'' path then Some 1 else None)"

definition DetourPublicCreateSkeletonComponent :: "bool \<Rightarrow> u64 \<Rightarrow> string option \<Rightarrow> skeletal \<Rightarrow> skeletal" where
  "DetourPublicCreateSkeletonComponent ok handle path sk =
     (case (if ok \<and> handle \<noteq> 0 then path else None) of
        None \<Rightarrow> sk
      | Some p \<Rightarrow>
          (case hand_of_path p of
             None \<Rightarrow> sk
           | Some hand \<Rightarrow>
               let kept = (\<lambda>h. if sk_handedness sk h = Some hand \<and> h \<noteq> handle then None else sk_handedness sk h)
               in sk\<lparr>sk_handedness := kept(handle \<mapsto> hand),
                     sk_hands := (sk_hands sk)[hand := (sk_hands sk ! hand)\<lparr>ha_initialized := False\<rparr>]\<rparr>))"

definition smooth_bone :: "real \<Rightarrow> bone \<Rightarrow> bone \<Rightarrow> bone" where
  "smooth_bone alpha prev inb =
     \<lparr>bn_position = vmap2 (\<lambda>x y. Lerpf x y alpha) (bn_position prev) (bn_position inb), bn_w = bn_w inb,
      bn_orientation = Bone_SlerpQuat (bn_orientation prev) (bn_orientation inb) alpha\<rparr>"

definition output_bone :: "finger_config \<Rightarrow> nat \<Rightarrow> hand_state \<Rightarrow> bone list \<Rightarrow> nat \<Rightarrow> bone" where
  "output_bone cfg hand st pTransforms i =
     (case FingerIndexForBone i of
        None \<Rightarrow> pTransforms ! i
      | Some finger \<Rightarrow>
          let alpha = SmoothnessToAlpha (effective_smoothness cfg (hand * 5 + finger))
          in if \<not> bit (fg_finger_mask cfg) (hand * 5 + finger) then pTransforms ! i
             else if ha_reseed_pending st ! finger then pTransforms ! i
             else if alpha \<ge> 1 then pTransforms ! i
             else smooth_bone alpha (ha_previous st ! i) (pTransforms ! i))"

definition smooth_hand :: "finger_config \<Rightarrow> nat \<Rightarrow> bone list \<Rightarrow> hand_state \<Rightarrow> bone list \<times> hand_state" where
  "smooth_hand cfg hand pTransforms st =
     (if \<not> ha_initialized st
      then (pTransforms, st\<lparr>ha_initialized := True, ha_previous := pTransforms\<rparr>)
      else let smoothed = map (output_bone cfg hand st pTransforms) [0..<31]
           in (smoothed, st\<lparr>ha_reseed_pending := replicate 5 False, ha_previous := smoothed\<rparr>))"

definition anySmoothing :: "finger_config \<Rightarrow> nat \<Rightarrow> bool" where
  "anySmoothing cfg hand = list_ex (\<lambda>f. effective_smoothness cfg (hand * 5 + f) \<noteq> 0) [0..<5]"

text \<open>What the hook hands on for a frame of a component; the array is \<open>None\<close> for a null pointer.\<close>

definition DetourPublicUpdateSkeletonComponent :: "u64 \<Rightarrow> bone list option \<Rightarrow> skeletal \<Rightarrow> bone list option \<times> skeletal" where
  "DetourPublicUpdateSkeletonComponent handle arr sk =
     (case arr of
        None \<Rightarrow> (None, sk)
      | Some pTransforms \<Rightarrow>
          if \<not> sk_driver sk \<or> length pTransforms \<noteq> 31 then (arr, sk)
          else let cfg = GetFingerSmoothingConfig sk
               in case sk_handedness sk handle of
                    None \<Rightarrow> (arr, sk)
                  | Some hand \<Rightarrow>
                      if \<not> anySmoothing cfg hand then (arr, sk)
                      else let (smoothed, st) = smooth_hand cfg hand pTransforms (sk_hands sk ! hand)
                           in (Some smoothed, sk\<lparr>sk_hands := (sk_hands sk)[hand := st]\<rparr>))"

section \<open>Reading back the configuration\<close>

lemma take_8_10: "length (xs :: 'a list) = 10 \<Longrightarrow> take 8 xs @ [xs ! 8, xs ! 9] = xs"
  by (rule nth_equalityI) (auto simp: nth_append less_Suc_eq numeral_eq_Suc)

lemma finger_config_roundtrip:
  assumes "length (fg_per_finger cfg) = 10"
  shows "GetFingerSmoothingConfig (SetFingerSmoothingConfig cfg sk) = cfg"
proof -
  have words: "sk_header (SetFingerSmoothingConfig cfg sk) = PackFingerHeader cfg"
      "sk_low (SetFingerSmoothingConfig cfg sk) = PackFingerLow cfg"
    by (simp_all add: SetFingerSmoothingConfig_def publish_fingers_def MarkFingersNeedReseed_def Let_def)
  have "map (byte_at (PackFingerLow cfg)) [0..<8] = take 8 (fg_per_finger cfg)"
    using assms by (auto intro!: nth_equalityI simp: PackFingerLow_def byte_at_word_of_bytes simp del: word_of_bytes.simps)
  then show ?thesis
    by (simp add: GetFingerSmoothingConfig_def words UnpackFingerSmoothing_def PackFingerHeader_def
        byte_at_word_of_bytes u16_bytes take_8_10 [OF assms] del: word_of_bytes.simps)
qed

section \<open>Blending\<close>

lemma bit_fold_or:
  "\<forall>i\<in>set is. i < 16 \<Longrightarrow> bit (fold (\<lambda>i b. if P i then b OR push_bit i 1 else b) is (b :: u16)) j
     \<longleftrightarrow> bit b j \<or> (j \<in> set is \<and> P j)"
  by (induction "is" arbitrary: b) (auto simp: bit_simps)

lemma reseed_bits:
  "bit (ComputeFingerSmoothingReseedBits prev nxt) i
     \<longleftrightarrow> i < 10 \<and> \<not> IsFingerSmoothed prev i \<and> IsFingerSmoothed nxt i"
  by (auto simp: ComputeFingerSmoothingReseedBits_def bit_fold_or)

lemma SmoothnessToAlpha_range: "5 / 100 \<le> SmoothnessToAlpha s" "s \<noteq> 0 \<Longrightarrow> SmoothnessToAlpha s < 1"
proof -
  show "5 / 100 \<le> SmoothnessToAlpha s" by (auto simp: SmoothnessToAlpha_def Let_def)
  assume "s \<noteq> 0"
  then have "0 < real (unat s)" by (metis gr0I of_nat_0_less_iff unsigned_0 unsigned_word_eqI)
  then show "SmoothnessToAlpha s < 1" by (simp add: SmoothnessToAlpha_def Let_def)
qed

lemma FingerIndex_range: "FingerIndexForBone i = Some f \<Longrightarrow> f < 5 \<and> i < 31"
  by (auto simp: FingerIndexForBone_def split: if_splits)

lemma smooth_bone_between:
  assumes "0 \<le> alpha" "alpha \<le> 1"
  shows "vbetween (bn_position prev) (bn_position inb) (bn_position (smooth_bone alpha prev inb))"
proof -
  have "vmap2 (\<lambda>x y. Lerpf x y alpha) (bn_position prev) (bn_position inb)
      = vmap2 (blend_component alpha) (bn_position prev) (bn_position inb)"
    by (simp add: vmap2_def Lerpf_def blend_component_def algebra_simps)
  then show ?thesis using assms by (simp add: smooth_bone_def vbetween_def vmap2_def blend_component_between)
qed


section \<open>What a component was shown last\<close>

datatype skeletal_event =
    SkConfig finger_config
  | SkInit
  | SkShutdown
  | SkCreate bool u64 "string option"
  | SkFrame u64 "bone list option"

text \<open>Beside the state, the last whole array that was handed on for each component.\<close>

fun skeletal_step :: "skeletal_event \<Rightarrow> skeletal \<times> (u64 \<rightharpoonup> bone list) \<Rightarrow> skeletal \<times> (u64 \<rightharpoonup> bone list)" where
  "skeletal_step (SkConfig cfg) (sk, shown) = (SetFingerSmoothingConfig cfg sk, shown)"
| "skeletal_step SkInit (sk, shown) = (Skeletal_Init sk, shown)"
| "skeletal_step SkShutdown (sk, shown) = (Skeletal_Shutdown sk, shown)"
| "skeletal_step (SkCreate ok h path) (sk, shown) = (DetourPublicCreateSkeletonComponent ok h path sk, shown)"
| "skeletal_step (SkFrame h arr) (sk, shown) =
     (let (out, sk) = DetourPublicUpdateSkeletonComponent h arr sk
      in (sk, case out of Some bs \<Rightarrow> (if length bs = 31 then shown(h \<mapsto> bs) else shown) | None \<Rightarrow> shown))"

definition skeletal_run :: "skeletal_event list \<Rightarrow> skeletal \<times> (u64 \<rightharpoonup> bone list)" where
  "skeletal_run evs = fold skeletal_step evs (Skeletal_init, Map.empty)"

definition config_ok :: "finger_config \<Rightarrow> bool" where
  "config_ok cfg \<longleftrightarrow> length (fg_per_finger cfg) = 10 \<and> fg_master_enabled cfg"

definition hands_ok :: "skeletal \<Rightarrow> bool" where
  "hands_ok sk \<longleftrightarrow> length (sk_hands sk) = 2 \<and> (\<forall>k<2. length (ha_reseed_pending (sk_hands sk ! k)) = 5)
     \<and> (\<forall>h k. sk_handedness sk h = Some k \<longrightarrow> k < 2)
     \<and> (\<forall>h h' k. sk_handedness sk h = Some k \<and> sk_handedness sk h' = Some k \<longrightarrow> h = h')
     \<and> (\<not> sk_driver sk \<longrightarrow> (\<forall>k<2. \<not> ha_initialized (sk_hands sk ! k)))"

definition settings_ok :: "finger_config \<Rightarrow> bool" where
  "settings_ok cfg \<longleftrightarrow> fg_master_enabled cfg \<or> (\<forall>i<10. effective_smoothness cfg i = 0)"

text \<open>A finger that will be blended starts from what its component was shown last.\<close>

definition seeded :: "finger_config \<Rightarrow> nat \<Rightarrow> hand_state \<Rightarrow> bone list option \<Rightarrow> bool" where
  "seeded cfg k st shown \<longleftrightarrow> (ha_initialized st \<longrightarrow>
     (\<forall>f<5. IsFingerSmoothed cfg (k * 5 + f) \<and> \<not> ha_reseed_pending st ! f \<longrightarrow>
        (\<exists>last. shown = Some last \<and> (\<forall>i. FingerIndexForBone i = Some f \<longrightarrow> last ! i = ha_previous st ! i))))"

definition finger_inv :: "skeletal \<times> (u64 \<rightharpoonup> bone list) \<Rightarrow> bool" where
  "finger_inv s \<longleftrightarrow> hands_ok (fst s) \<and> settings_ok (GetFingerSmoothingConfig (fst s))
     \<and> (\<forall>h k. sk_handedness (fst s) h = Some k \<longrightarrow>
          seeded (GetFingerSmoothingConfig (fst s)) k (sk_hands (fst s) ! k) (snd s h))"

lemma unsmoothed_zero: "\<not> IsFingerSmoothed (UnpackFingerSmoothing 0 0) i" "settings_ok (UnpackFingerSmoothing 0 0)"
proof -
  have "effective_smoothness (UnpackFingerSmoothing 0 0) i = 0" if "i < 10" for i
    using that by (auto simp: effective_smoothness_def UnpackFingerSmoothing_def byte_at_def nth_append Let_def less_Suc_eq numeral_eq_Suc)
  then show "settings_ok (UnpackFingerSmoothing 0 0)" by (simp add: settings_ok_def)
  show "\<not> IsFingerSmoothed (UnpackFingerSmoothing 0 0) i"
    by (simp add: IsFingerSmoothed_def UnpackFingerSmoothing_def byte_at_def)
qed

lemma finger_inv_init: "finger_inv (Skeletal_init, Map.empty)"
  by (auto simp: finger_inv_def hands_ok_def Skeletal_init_def GetFingerSmoothingConfig_def unsmoothed_zero
      HandState_init_def less_2_cases_iff)

lemma mark_fields [simp]:
  "sk_header (MarkFingersNeedReseed b sk) = sk_header sk" "sk_low (MarkFingersNeedReseed b sk) = sk_low sk"
  "sk_driver (MarkFingersNeedReseed b sk) = sk_driver sk" "sk_handedness (MarkFingersNeedReseed b sk) = sk_handedness sk"
  by (simp_all add: MarkFingersNeedReseed_def)

lemma mark_length [simp]: "length (sk_hands sk) = 2 \<Longrightarrow> length (sk_hands (MarkFingersNeedReseed b sk)) = 2"
  by (simp add: MarkFingersNeedReseed_def)

lemma mark_hand:
  assumes "length (sk_hands sk) = 2" "k < 2" "\<forall>k<2. length (ha_reseed_pending (sk_hands sk ! k)) = 5"
  shows "ha_initialized (sk_hands (MarkFingersNeedReseed b sk) ! k) = ha_initialized (sk_hands sk ! k)"
    "ha_previous (sk_hands (MarkFingersNeedReseed b sk) ! k) = ha_previous (sk_hands sk ! k)"
    "length (ha_reseed_pending (sk_hands (MarkFingersNeedReseed b sk) ! k)) = 5"
    "f < 5 \<Longrightarrow> ha_reseed_pending (sk_hands (MarkFingersNeedReseed b sk) ! k) ! f
       = (bit b (k * 5 + f) \<or> ha_reseed_pending (sk_hands sk ! k) ! f)"
  using assms by (auto simp: MarkFingersNeedReseed_def)

lemma config_inv:
  assumes "finger_inv (sk, shown)" "config_ok cfg"
  shows "finger_inv (SetFingerSmoothingConfig cfg sk, shown)"
proof -
  let ?sk = "SetFingerSmoothingConfig cfg sk" and ?old = "GetFingerSmoothingConfig sk"
  have len: "length (sk_hands sk) = 2" "\<forall>k<2. length (ha_reseed_pending (sk_hands sk ! k)) = 5"
    using assms(1) by (auto simp: finger_inv_def hands_ok_def)
  have get: "GetFingerSmoothingConfig ?sk = cfg"
    using assms(2) by (simp add: finger_config_roundtrip config_ok_def)
  have eq: "?sk = publish_fingers cfg sk \<and> ?old = cfg
      \<or> ?sk = MarkFingersNeedReseed (ComputeFingerSmoothingReseedBits ?old cfg) (publish_fingers cfg sk)"
    using get by (auto simp: SetFingerSmoothingConfig_def GetFingerSmoothingConfig_def Let_def publish_fingers_def)
  have pub: "sk_hands (publish_fingers c sk) = sk_hands sk" "sk_handedness (publish_fingers c sk) = sk_handedness sk"
    "sk_driver (publish_fingers c sk) = sk_driver sk" for c
    by (simp_all add: publish_fingers_def)
  note mh = mark_hand [of "publish_fingers cfg sk", unfolded pub, OF len(1) _ len(2)]
  have hands: "hands_ok ?sk"
    using eq assms(1) unfolding finger_inv_def hands_ok_def by (elim disjE) (simp_all add: pub mh)
  have seed: "seeded cfg k (sk_hands ?sk ! k) (shown h)" if "sk_handedness ?sk h = Some k" for h k
  proof -
    have k: "sk_handedness sk h = Some k" "k < 2" using that eq assms(1) by (auto simp: pub finger_inv_def hands_ok_def)
    then have old: "seeded ?old k (sk_hands sk ! k) (shown h)" using assms(1) by (simp add: finger_inv_def)
    from eq show ?thesis
    proof
      assume "?sk = publish_fingers cfg sk \<and> ?old = cfg" then show ?thesis using old by (simp add: pub)
    next
      assume *: "?sk = MarkFingersNeedReseed (ComputeFingerSmoothingReseedBits ?old cfg) (publish_fingers cfg sk)"
      show ?thesis unfolding seeded_def
      proof (intro impI allI)
        fix f assume init: "ha_initialized (sk_hands ?sk ! k)" and f: "f < 5"
          and on: "IsFingerSmoothed cfg (k * 5 + f) \<and> \<not> ha_reseed_pending (sk_hands ?sk ! k) ! f"
        then have "\<not> ha_reseed_pending (sk_hands sk ! k) ! f" "IsFingerSmoothed ?old (k * 5 + f)"
          using k(2) by (auto simp: * mh reseed_bits)
        then show "\<exists>last. shown h = Some last \<and> (\<forall>i. FingerIndexForBone i = Some f \<longrightarrow> last ! i = ha_previous (sk_hands ?sk ! k) ! i)"
          using old init f k(2) by (simp add: * mh seeded_def)
      qed
    qed
  qed
  show ?thesis using hands seed get assms(2) by (simp add: finger_inv_def settings_ok_def config_ok_def)
qed


lemma init_inv: "finger_inv (sk, shown) \<Longrightarrow> finger_inv (Skeletal_Init sk, shown)"
  by (auto simp: finger_inv_def hands_ok_def Skeletal_Init_def GetFingerSmoothingConfig_def HandState_init_def less_2_cases_iff)

lemma shutdown_inv: "finger_inv (sk, shown) \<Longrightarrow> finger_inv (Skeletal_Shutdown sk, shown)"
  by (auto simp: finger_inv_def hands_ok_def Skeletal_Shutdown_def GetFingerSmoothingConfig_def)

lemma create_inv:
  assumes "finger_inv (sk, shown)"
  shows "finger_inv (DetourPublicCreateSkeletonComponent ok h path sk, shown)"
proof (cases "DetourPublicCreateSkeletonComponent ok h path sk = sk")
  case False
  then obtain p k where k: "hand_of_path p = Some k"
    and eq: "DetourPublicCreateSkeletonComponent ok h path sk =
      sk\<lparr>sk_handedness := (\<lambda>h'. if sk_handedness sk h' = Some k \<and> h' \<noteq> h then None else sk_handedness sk h')(h \<mapsto> k),
         sk_hands := (sk_hands sk)[k := (sk_hands sk ! k)\<lparr>ha_initialized := False\<rparr>]\<rparr>"
    by (auto simp: DetourPublicCreateSkeletonComponent_def Let_def split: option.splits if_splits)
  from k have "k < 2" by (auto simp: hand_of_path_def split: if_splits)
  with assms show ?thesis
    unfolding eq finger_inv_def hands_ok_def GetFingerSmoothingConfig_def
    by (auto simp: nth_list_update seeded_def split: if_splits)
qed (use assms in simp)

lemma smooth_hand_fields:
  assumes "smooth_hand cfg k bs st = (out, st')" "length bs = 31" "length (ha_reseed_pending st) = 5"
  shows "length out = 31" "ha_initialized st'" "ha_previous st' = out" "length (ha_reseed_pending st') = 5"
  using assms by (auto simp: smooth_hand_def Let_def split: if_splits)

lemma idle_hand:
  assumes "\<not> anySmoothing cfg k" "f < 5"
  shows "\<not> IsFingerSmoothed cfg (k * 5 + f)"
  using assms by (auto simp: anySmoothing_def list_ex_iff IsFingerSmoothed_def)

lemma frame_cases:
  obtains (raw) "DetourPublicUpdateSkeletonComponent h arr sk = (arr, sk)"
      "\<And>k. sk_handedness sk h = Some k \<Longrightarrow> (\<exists>bs. arr = Some bs \<and> length bs = 31) \<Longrightarrow>
         \<not> sk_driver sk \<or> \<not> anySmoothing (GetFingerSmoothingConfig sk) k"
    | (smoothed) k bs out st where "sk_handedness sk h = Some k" "arr = Some bs" "length bs = 31" "sk_driver sk"
      "smooth_hand (GetFingerSmoothingConfig sk) k bs (sk_hands sk ! k) = (out, st)"
      "DetourPublicUpdateSkeletonComponent h arr sk = (Some out, sk\<lparr>sk_hands := (sk_hands sk)[k := st]\<rparr>)"
proof (cases "\<exists>k bs. sk_handedness sk h = Some k \<and> arr = Some bs \<and> length bs = 31 \<and> sk_driver sk
    \<and> anySmoothing (GetFingerSmoothingConfig sk) k")
  case True
  then obtain k bs where *: "sk_handedness sk h = Some k" "arr = Some bs" "length bs = 31" "sk_driver sk"
    "anySmoothing (GetFingerSmoothingConfig sk) k" by blast
  obtain out st where "smooth_hand (GetFingerSmoothingConfig sk) k bs (sk_hands sk ! k) = (out, st)" by fastforce
  with * show ?thesis by (intro smoothed) (auto simp: DetourPublicUpdateSkeletonComponent_def Let_def)
next
  case False
  then show ?thesis by (intro raw) (auto simp: DetourPublicUpdateSkeletonComponent_def Let_def split: option.splits)
qed

lemma frame_inv:
  assumes "finger_inv (sk, shown)"
  shows "finger_inv (skeletal_step (SkFrame h arr) (sk, shown))"
proof (cases rule: frame_cases [of h arr sk])
  case raw
  show ?thesis
  proof (cases "\<exists>bs. arr = Some bs \<and> length bs = 31")
    case True
    then obtain bs where bs: "arr = Some bs" "length bs = 31" by blast
    have "seeded (GetFingerSmoothingConfig sk) k (sk_hands sk ! k) (Some bs)" if "sk_handedness sk h = Some k" for k
    proof -
      have "\<not> ha_initialized (sk_hands sk ! k) \<or> \<not> anySmoothing (GetFingerSmoothingConfig sk) k"
        using raw(2) [OF that True] that assms by (auto simp: finger_inv_def hands_ok_def)
      then show ?thesis using idle_hand by (auto simp: seeded_def)
    qed
    then show ?thesis using assms raw(1) bs by (auto simp: finger_inv_def)
  next
    case False
    then show ?thesis using assms raw(1) by (auto split: option.splits)
  qed
next
  case (smoothed k bs out st)
  have k: "k < 2" "length (sk_hands sk) = 2" "length (ha_reseed_pending (sk_hands sk ! k)) = 5"
    using assms smoothed(1) by (auto simp: finger_inv_def hands_ok_def)
  note st = smooth_hand_fields [OF smoothed(5,3) k(3)]
  have step: "skeletal_step (SkFrame h arr) (sk, shown) = (sk\<lparr>sk_hands := (sk_hands sk)[k := st]\<rparr>, shown(h \<mapsto> out))"
    using smoothed st(1) by simp
  have one: "sk_handedness sk h' = Some k \<Longrightarrow> h' = h" for h'
    using assms smoothed(1) by (auto simp: finger_inv_def hands_ok_def)
  have cfg: "GetFingerSmoothingConfig (sk\<lparr>sk_hands := hs\<rparr>) = GetFingerSmoothingConfig sk" for hs
    by (simp add: GetFingerSmoothingConfig_def)
  have "hands_ok (sk\<lparr>sk_hands := (sk_hands sk)[k := st]\<rparr>)"
    using assms st k smoothed(4) by (auto simp: finger_inv_def hands_ok_def nth_list_update)
  moreover have "seeded (GetFingerSmoothingConfig sk) k' ((sk_hands sk)[k := st] ! k') ((shown(h \<mapsto> out)) h')"
    if "sk_handedness sk h' = Some k'" for h' k'
  proof (cases "k' = k")
    case True
    then show ?thesis using one that st k by (auto simp: seeded_def)
  next
    case False
    then have "h' \<noteq> h" using that smoothed(1) by auto
    then show ?thesis using False that assms by (simp add: finger_inv_def)
  qed
  ultimately show ?thesis using assms unfolding step finger_inv_def by (simp add: cfg)
qed

lemma finger_run_inv:
  assumes "\<forall>cfg. SkConfig cfg \<in> set evs \<longrightarrow> config_ok cfg"
  shows "finger_inv (skeletal_run evs)"
  using assms unfolding skeletal_run_def
proof (induction evs rule: rev_induct)
  case (snoc ev evs)
  obtain sk shown where s: "fold skeletal_step evs (Skeletal_init, Map.empty) = (sk, shown)" by fastforce
  have "finger_inv (sk, shown)" using snoc by (simp add: s)
  then show ?case using snoc.prems
    by (cases ev) (simp_all add: s config_inv init_inv shutdown_inv create_inv frame_inv del: skeletal_step.simps(5))
qed (simp add: finger_inv_init)




definition all_fingers :: finger_config where
  "all_fingers = \<lparr>fg_master_enabled = True, fg_smoothness = 60, fg_finger_mask = 0x03FF,
     fg_per_finger = [0, 0, 0, 0, 0, 10, 20, 30, 40, 50]\<rparr>"

definition flat_hand :: "real \<Rightarrow> bone list" where
  "flat_hand x = replicate 31 \<lparr>bn_position = \<lparr>vx = x, vy = 0, vz = 0\<rparr>, bn_w = 1, bn_orientation = qone\<rparr>"

definition left_hand_session :: "skeletal_event list" where
  "left_hand_session = [SkInit, SkConfig all_fingers, SkCreate True 5 (Some ''/skeleton/hand/left''),
     SkFrame 5 (Some (flat_hand 0)), SkFrame 5 (Some (flat_hand 0))]"

lemma update_hands_on: "\<exists>out sk'. DetourPublicUpdateSkeletonComponent h (Some bs) sk = (Some out, sk')"
  by (cases rule: frame_cases [of h "Some bs" sk]) auto


section \<open>Settling\<close>

lemma Distance3_Lerpf: "a \<le> 1 \<Longrightarrow> Distance3 (vmap2 (\<lambda>x y. Lerpf x y a) v w) w = (1 - a) * Distance3 v w"
  using Distance3_step [of a v w] by (simp add: Lerpf_def mult.commute)

text \<open>C25: A smoothed finger is never frozen. While the tracked hand holds one pose, at any configuration every bone
  that the filter keeps comes closer to its tracked position by at least a twentieth with every frame.
\<close>

theorem finger_settles:
  assumes "ha_initialized st" and "length bs = 31" and "i < 31"
  shows "Distance3 (bn_position (ha_previous (((\<lambda>s. snd (smooth_hand cfg k bs s)) ^^ n) st) ! i)) (bn_position (bs ! i))
     \<le> (19 / 20) ^ n * Distance3 (bn_position (ha_previous st ! i)) (bn_position (bs ! i))"
proof -
  let ?g = "\<lambda>s. snd (smooth_hand cfg k bs s)" and ?d = "\<lambda>b. Distance3 (bn_position b) (bn_position (bs ! i))"
  have step: "ha_initialized (?g s) \<and> ?d (ha_previous (?g s) ! i) \<le> 19 / 20 * ?d (ha_previous s ! i)"
    if "ha_initialized s" for s
  proof -
    have prev: "ha_previous (?g s) ! i = output_bone cfg k s bs i" and init: "ha_initialized (?g s)"
      using that assms(3) by (simp_all add: smooth_hand_def Let_def)
    have "output_bone cfg k s bs i = bs ! i \<or> (\<exists>sm. SmoothnessToAlpha sm < 1
        \<and> output_bone cfg k s bs i = smooth_bone (SmoothnessToAlpha sm) (ha_previous s ! i) (bs ! i))"
      by (auto simp: output_bone_def Let_def not_le split: option.splits)
    then consider "output_bone cfg k s bs i = bs ! i"
      | alpha where "5 / 100 \<le> alpha" "alpha \<le> 1" "output_bone cfg k s bs i = smooth_bone alpha (ha_previous s ! i) (bs ! i)"
      using SmoothnessToAlpha_range(1) less_imp_le by blast
    then show ?thesis
    proof cases
      case 1
      then show ?thesis using init prev Distance3_nonneg by (simp add: Distance3_refl)
    next
      case 2
      have "?d (smooth_bone alpha (ha_previous s ! i) (bs ! i)) = (1 - alpha) * ?d (ha_previous s ! i)"
        using 2(2) by (simp add: smooth_bone_def Distance3_Lerpf)
      also have "\<dots> \<le> 19 / 20 * ?d (ha_previous s ! i)"
        using 2(1) Distance3_nonneg by (intro mult_right_mono) auto
      finally show ?thesis using init prev 2(3) by simp
    qed
  qed
  have "ha_initialized ((?g ^^ n) st) \<and> ?d (ha_previous ((?g ^^ n) st) ! i) \<le> (19 / 20) ^ n * ?d (ha_previous st ! i)"
  proof (induction n)
    case (Suc n)
    then have "?d (ha_previous (?g ((?g ^^ n) st)) ! i) \<le> 19 / 20 * ((19 / 20) ^ n * ?d (ha_previous st ! i))"
      using step [of "(?g ^^ n) st"] by linarith
    then show ?case using Suc step [of "(?g ^^ n) st"] by simp
  qed (simp add: assms(1))
  then show ?thesis by blast
qed


theorem finger_settles_witness:
  "Distance3 (bn_position (ha_previous (((\<lambda>s. snd (smooth_hand all_fingers 0 (flat_hand 1) s)) ^^ 3)
       (HandState_init\<lparr>ha_initialized := True, ha_previous := flat_hand 0\<rparr>)) ! 7)) (bn_position (flat_hand 1 ! 7))
     \<le> (19 / 20) ^ 3 * Distance3 (bn_position (flat_hand 0 ! 7)) (bn_position (flat_hand 1 ! 7))"
  using finger_settles [of "HandState_init\<lparr>ha_initialized := True, ha_previous := flat_hand 0\<rparr>" "flat_hand 1" 7 3 all_fingers 0]
  by (simp add: flat_hand_def)

section \<open>Rotations\<close>

text \<open>Blending two unit rotations gives a unit rotation.\<close>

lemma sin_identity: "(cos (t * x) - cos t * s) * (cos (t * x) - cos t * s) + s * s + 2 * ((cos (t * x) - cos t * s) * s * cos t)
    = (1 :: real)" if "s * sin t = sin (t * x)"
proof -
  have "(cos (t * x) - cos t * s) * (cos (t * x) - cos t * s) + s * s + 2 * ((cos (t * x) - cos t * s) * s * cos t)
      = cos (t * x) * cos (t * x) + s * s * (1 - cos t * cos t)"
    by (simp add: algebra_simps)
  also have "1 - cos t * cos t = sin t * sin t" using sin_squared_eq [of t] by (simp add: power2_eq_square)
  also have "s * s * (sin t * sin t) = (s * sin t) * (s * sin t)" by (simp add: algebra_simps)
  finally show ?thesis using that sin_cos_squared_add [of "t * x"] by (simp add: power2_eq_square algebra_simps)
qed

lemma qnorm2_mix: "qnorm2 (qmap2 (\<lambda>x y. c * x + d * y) a b) = c * c * qnorm2 a + d * d * qnorm2 b + 2 * (c * d * QuatDot a b)"
  by (simp add: qnorm2_def qmap2_def QuatDot_def algebra_simps)

lemma QuatDot_bound: "qnorm2 a = 1 \<Longrightarrow> qnorm2 b = 1 \<Longrightarrow> \<bar>QuatDot a b\<bar> \<le> 1"
proof -
  assume 1: "qnorm2 a = 1" "qnorm2 b = 1"
  have "0 \<le> qnorm2 (qmap2 (\<lambda>x y. 1 * x + 1 * y) a b)" "0 \<le> qnorm2 (qmap2 (\<lambda>x y. 1 * x + (- 1) * y) a b)"
    by (simp_all add: qnorm2_nonneg)
  then show ?thesis unfolding qnorm2_mix using 1 by simp
qed

lemma Bone_SlerpQuat_unit:
  assumes "qnorm2 a = 1" "qnorm2 b = 1" "0 \<le> t" "t \<le> 1"
  shows "qnorm2 (Bone_SlerpQuat a b t) = 1"
proof -
  define b' where "b' = (if QuatDot a b < 0 then qneg b else b)"
  have dot: "QuatDot a b' = (if QuatDot a b < 0 then - QuatDot a b else QuatDot a b)" and b': "qnorm2 b' = 1"
    using assms(2) by (auto simp: b'_def QuatDot_def qneg_def qnorm2_def algebra_simps)
  have pos: "0 \<le> QuatDot a b'" using dot by simp
  have eq: "Bone_SlerpQuat a b t = (if QuatDot a b' > 9995 / 10000
       then let r = qmap2 (\<lambda>x y. Lerpf x y t) a b'; len = sqrt (qnorm2 r)
            in if len > 0 then qmap2 (\<lambda>x _. x * (1 / len)) r r else r
       else qmap2 (\<lambda>x y. (cos (arccos (QuatDot a b') * t) - QuatDot a b' * sin (arccos (QuatDot a b') * t) / sin (arccos (QuatDot a b'))) * x
            + sin (arccos (QuatDot a b') * t) / sin (arccos (QuatDot a b')) * y) a b')"
    unfolding Bone_SlerpQuat_def Let_def b'_def [symmetric] dot [symmetric] ..
  show ?thesis
  proof (cases "QuatDot a b' > 9995 / 10000")
    case True
    let ?r = "qmap2 (\<lambda>x y. Lerpf x y t) a b'"
    have "?r = qmap2 (\<lambda>x y. (1 - t) * x + t * y) a b'" by (simp add: Lerpf_def algebra_simps)
    then have "qnorm2 ?r = (1 - t) * (1 - t) + t * t + 2 * ((1 - t) * t * QuatDot a b')"
      using assms(1) b' by (simp add: qnorm2_mix)
    moreover have "0 \<le> (1 - t) * t * QuatDot a b'" using assms(3,4) pos by simp
    moreover have "0 < (1 - t) * (1 - t) + t * t"
      by (simp add: sum_squares_gt_zero_iff)
    ultimately have "0 < qnorm2 ?r" by linarith
    moreover have "qnorm2 (qmap2 (\<lambda>x _. x * (1 / l)) r r) = qnorm2 r / (l * l)" for r l
      by (simp add: qnorm2_def qmap2_def add_divide_distrib)
    ultimately show ?thesis using True by (simp add: eq Let_def)
  next
    case False
    let ?t = "arccos (QuatDot a b')"
    have cos: "cos ?t = QuatDot a b'" using QuatDot_bound [OF assms(1) b'] pos by (simp add: cos_arccos_abs)
    have "sin ?t \<noteq> 0"
    proof
      assume "sin ?t = 0"
      then have "\<bar>cos ?t\<bar> = 1" using sin_cos_squared_add [of ?t] by (auto simp: power2_eq_1_iff)
      then show False using cos False pos by simp
    qed
    then have "sin (?t * t) / sin ?t * sin ?t = sin (?t * t)" by simp
    let ?s2 = "sin (?t * t) / sin ?t"
    let ?s1 = "cos (?t * t) - QuatDot a b' * ?s2"
    have "?s1 * ?s1 + ?s2 * ?s2 + 2 * (?s1 * ?s2 * QuatDot a b') = 1"
      using sin_identity [OF \<open>?s2 * sin ?t = sin (?t * t)\<close>] unfolding cos .
    moreover have "Bone_SlerpQuat a b t = qmap2 (\<lambda>x y. ?s1 * x + ?s2 * y) a b'"
      using False unfolding eq by (simp only: if_False times_divide_eq_right)
    ultimately show ?thesis using assms(1) b' by (simp only: qnorm2_mix mult_1_right)
  qed
qed

section \<open>The window of a request\<close>

lemma get_published:
  assumes "length (fg_per_finger cfg) = 10"
  shows "GetFingerSmoothingConfig (publish_fingers cfg sk) = cfg"
proof -
  have "sk_header (publish_fingers cfg sk) = sk_header (SetFingerSmoothingConfig cfg sk)"
    "sk_low (publish_fingers cfg sk) = sk_low (SetFingerSmoothingConfig cfg sk)"
    by (simp_all add: SetFingerSmoothingConfig_def publish_fingers_def MarkFingersNeedReseed_def Let_def)
  then show ?thesis using finger_config_roundtrip [OF assms, of sk] by (simp add: GetFingerSmoothingConfig_def)
qed

text \<open>A configuration is published before the fingers it switches on are marked. A frame in between is blended
  with the pose the hand had when smoothing was last on.\<close>

lemma publish_before_mark:
  assumes "sk_driver sk" "sk_handedness sk h = Some k" "length bs = 31" "i < 31" "FingerIndexForBone i = Some f"
    and "ha_initialized (sk_hands sk ! k)" "\<not> ha_reseed_pending (sk_hands sk ! k) ! f"
    and "length (fg_per_finger cfg) = 10" "bit (fg_finger_mask cfg) (k * 5 + f)"
    and "effective_smoothness cfg (k * 5 + f) \<noteq> 0"
  shows "\<exists>out sk'. DetourPublicUpdateSkeletonComponent h (Some bs) (publish_fingers cfg sk) = (Some out, sk')
    \<and> out ! i = smooth_bone (SmoothnessToAlpha (effective_smoothness cfg (k * 5 + f))) (ha_previous (sk_hands sk ! k) ! i) (bs ! i)"
proof -
  note get = get_published [OF assms(8), of sk]
  have "f < 5" using FingerIndex_range [OF assms(5)] by simp
  then have "anySmoothing cfg k" using assms(10) by (auto simp: anySmoothing_def list_ex_iff)
  moreover have "output_bone cfg k (sk_hands sk ! k) bs i =
      smooth_bone (SmoothnessToAlpha (effective_smoothness cfg (k * 5 + f))) (ha_previous (sk_hands sk ! k) ! i) (bs ! i)"
    using assms SmoothnessToAlpha_range(2) [OF assms(10)] by (simp add: output_bone_def Let_def)
  ultimately show ?thesis
    using assms get by (auto simp: DetourPublicUpdateSkeletonComponent_def Let_def publish_fingers_def smooth_hand_def)
qed

text \<open>The hook does not read the master switch.\<close>

lemma master_switch_ignored:
  assumes "length (fg_per_finger cfg) = 10"
  shows "fst (DetourPublicUpdateSkeletonComponent h arr (publish_fingers (cfg\<lparr>fg_master_enabled := b\<rparr>) sk))
    = fst (DetourPublicUpdateSkeletonComponent h arr (publish_fingers cfg sk))"
proof -
  have eff: "effective_smoothness (cfg\<lparr>fg_master_enabled := b\<rparr>) = effective_smoothness cfg"
    by (rule ext) (simp add: effective_smoothness_def Let_def)
  have "anySmoothing (cfg\<lparr>fg_master_enabled := b\<rparr>) k = anySmoothing cfg k" for k
    by (simp add: anySmoothing_def eff)
  moreover have "smooth_hand (cfg\<lparr>fg_master_enabled := b\<rparr>) k bs st = smooth_hand cfg k bs st" for k bs st
  proof -
    have "output_bone (cfg\<lparr>fg_master_enabled := b\<rparr>) k st bs = output_bone cfg k st bs"
      by (rule ext) (simp add: output_bone_def eff cong: option.case_cong)
    then show ?thesis by (simp add: smooth_hand_def)
  qed
  moreover have "sk_hands (publish_fingers c sk) = sk_hands sk" "sk_driver (publish_fingers c sk) = sk_driver sk"
    "sk_handedness (publish_fingers c sk) = sk_handedness sk" for c by (simp_all add: publish_fingers_def)
  ultimately show ?thesis using assms
    by (auto simp: DetourPublicUpdateSkeletonComponent_def Let_def get_published split: option.splits prod.splits)
qed

end
