(* ===== verification/Spec2Isabelle.thy ===== *)
theory Spec2Isabelle
  imports PoseHook LearningTypes FaceRing PoseShmem InputHealth IpcClient Liveness WarmRestart FloorCapture ProfileApply Fingers
begin

text \<open>
  OpenVR-WKPairDriver couples devices of several tracking systems in SteamVR. A driver, loaded by
  SteamVR, hosts feature modules; an overlay application configures them over named pipes; sidecar
  processes deliver face tracking, captions and inferred poses; shared-memory segments carry what is
  too frequent for a pipe. Paths below are relative to \<open>src/\<close>.

  \<^bold>\<open>Shared memory\<close> (\<open>core/src/common/Protocol.h\<close>). \<open>SeqLock\<close> models the per-slot sequence lock,
  first as whole operations and then with every load, store and byte copy as a step of an
  \<open>inductive\<close> relation: a read that succeeds is never torn. \<open>Shmem\<close> has creation and opening of the
  segments and the InputHealth slot table (locale \<open>slot_table\<close>), \<open>FaceRing\<close> the face-tracking frame
  ring, which refines the list of published frames, \<open>PoseShmem\<close> the ring of driver poses with its
  telemetry. \<open>InputHealth\<close> puts publisher and reader of the InputHealth segment at its two ends.

  \<^bold>\<open>IPC\<close>. \<open>Protocol\<close> has the messages (\<open>ProtocolPayloads.h\<close>). \<open>IpcServer\<close> has the feature flags, the
  activation of the modules, the routing of a request to the module of its pipe and the server
  thread with its completion routines (\<open>core/src/driver/\<close>): requests are handled one after the other,
  a pipe reaches only its own feature. \<open>IpcClient\<close> has the overlay's end
  (\<open>core/src/overlay/IpcClientBase.cpp\<close>). \<open>Connect\<close> and \<open>SendBlocking\<close> call each other there, so
  the model counts the nesting with a depth argument. A send connects at most once before and once
  after its exchange, and a handshake is a send on an open pipe which reconnects at most once and
  whose own handshake does not retry further: five levels, \<open>ipc_depth\<close>, are enough, and
  \<open>blocking_send_returns\<close> shows that the depth never runs out. The theorem below this header joins
  the two ends.

  \<^bold>\<open>OSC router\<close> (\<open>modules/oscrouter/src/driver/\<close>). \<open>OscWire\<close>: packet writer, reader, parser and
  bundle dispatcher, with round trips and bounds for arbitrary input. \<open>OscPattern\<close>: the address
  pattern matcher, equal to a reference semantics of globs. \<open>RouteTable\<close> refines a finite map of
  bounded capacity (locales \<open>bounded_insert\<close> and \<open>bounded_map\<close> of \<open>BoundedMap\<close>), \<open>SendQueue\<close> a
  bounded queue (locale \<open>bounded_fifo\<close>). \<open>OscRouter\<close> composes them: request handlers, publishing,
  the send worker and the publish pipe, with an invariant over every interleaving.

  \<^bold>\<open>Host supervisor\<close> (\<open>core/src/common/HostSupervisorBase.cpp\<close>). \<open>HostSupervisor\<close> interleaves the
  monitor thread with the caller of \<open>Start\<close>, \<open>Stop\<close> and \<open>Restart\<close>, one section under the mutex or one
  atomic access per step: bounds of backoff and breaker, termination of the monitor, and the process
  left behind by a stop in the window before a spawn.

  \<^bold>\<open>Phantom trackers\<close> (\<open>modules/phantom/src/driver/\<close>). \<open>Dropout\<close>: the ladder from real to lost poses.
  \<open>PhantomData\<close>: pose history, roles and hashes. \<open>Kinematics\<close>: quaternions, rigid-offset fallback,
  dead reckoning and blending. \<open>Phantom\<close>: requests, pose hook, override and virtual trackers.

  \<^bold>\<open>Device poses\<close> (\<open>core/src/driver/ServerTrackedDeviceProvider*.cpp\<close>). \<open>DriverSynth\<close>: the headset pose
  composed from a tracker on the head and the blender that changes between it and the headset's own
  pose (\<open>DriverSynthCompose.h\<close>): no jump, no early return, and an end to every fade. \<open>OneEuro\<close>: the
  smoothing filter (\<open>SmartSmoothingShadowMath.h\<close>), which neither overshoots nor freezes.
  \<open>PoseTransforms\<close>: isometries, the state of the provider and the handlers of its requests.
  \<open>PoseHook\<close>: the whole pose hook, stage by stage, with the requests that arrive where it has released
  its mutex as arguments; a calibrated device is published between its transform and its target, a
  hidden one displaced, and the headset follows only the tracker configured now.

  \<^bold>\<open>Input health\<close> (\<open>core/src/common/inputhealth/\<close>, \<open>modules/inputhealth/src/\<close>). \<open>HealthStats\<close>: the
  streaming statistics, equal to their batch definitions. \<open>HealthRules\<close>: path classes, rest rules and
  presence counts. \<open>HealthDriver\<close>: the components, the hooks that observe and compensate them, the
  compensation table (a map), staging and reset. \<open>Learning\<close>: the overlay's learning engine with its
  profiles. \<open>LearningSync\<close> joins the two: the driver compensates only what the profiles hold, under
  every sequence of operations (\<open>engine_step\<close>). \<open>LearningTypes\<close>: what is learned is well formed and
  survives a restart.

  \<^bold>\<open>Calibration\<close> (\<open>modules/calibration/src/overlay/\<close>). \<open>CalContext\<close> has the state \<open>CalibrationContext\<close>
  of \<open>Calibration.h\<close> as far as the decision logic uses it. Around it, one theory per part of the
  tick: \<open>AutoLock\<close>, the detector of rigidly attached pairs (locale \<open>lock_detector\<close>, interpreted for
  the primary pair and for the additional pairs: it locks only a still user, releases a broken pair
  within five seconds and tolerates outliers); \<open>Liveness\<close>, lost and frozen trackers and the anchor
  gate; \<open>GeometryShift\<close>, the recovery from a moved base station with its grace, cooldown and
  common-mode suppressions, the wedge detector, the watchdog and the legal state transitions;
  \<open>CalLifecycle\<close>, starting, ending and recovering a calibration, profile snapshots, device lookup and
  the guard against mixing sample sources; \<open>WarmRestart\<close>, restoring a profile after a break and
  validating it; \<open>FloorCapture\<close>, the floor of the boundary; \<open>CalPolicies\<close>, buffer speed, hiding of
  trackers and the offset preflight. \<open>ProfileApply\<close>: the scan that sends the profile to the driver,
  with its caches and the exceptions of its sends. The locale \<open>profile_sink\<close> says what the scan needs of
  the receiving side (a payload that was answered holds until the next one for its slot); its
  interpretation on the driver of \<open>PoseHook\<close>, with poses and other messages between any two sends,
  gives that a scan that runs to its end leaves every device as the profile wants it.

  \<^bold>\<open>Fingers\<close> (\<open>modules/smoothing/src/driver/\<close>, \<open>ServerTrackedDeviceProviderConfigPacking.cpp\<close>). \<open>Fingers\<close>: the
  packed configuration, the mapping of skeleton components to hands and the smoothing of the bones; a
  smoothed bone lies between what was shown and what came in, and settles.

  \<^bold>\<open>Conventions\<close>. Machine integers are words; C strings are byte lists without the terminator; doubles
  are exact reals where arithmetic matters and bit patterns where the bits do, and a flag or an option
  stands for \<open>isfinite\<close> where the code tests it. Errors are values. Answers of Windows, of the
  sockets, of OpenVR, the clock and the operations of Eigen (the record \<open>eigen\<close>) are arguments: the
  theorems hold for all of them, under named hypotheses where the code relies on more. Logging is
  left out. \<open>Prelude\<close> has the shared types, list facts and the collections \<open>ring_simps\<close> and
  \<open>handler_simps\<close>.

  \<^bold>\<open>Order of the work\<close>. The transport first (segments, IPC, router, supervisor), then the phantom
  module, the calibration decisions, the pose hook of the driver, the input-health module, the scan of the
  profile and the fingers.

  \<^bold>\<open>Not modelled\<close>. The least-squares solver and other numerical code over Eigen matrices, because a
  model over exact reals says nothing about its rounding; the installation of the hooks by patching
  function tables, which rests on MinHook and the OpenVR driver interface; the captions, face-tracking
  and Quest sidecars (speech models, managed code, network and adb); user interface, configuration
  files (the JSON of the profiles included), logs and bug reports, which are presentation and
  file-system I/O; vendored libraries and the test harness.
\<close>

section \<open>Overlay and driver together\<close>

text \<open>
  A pipe with a driver of this development at its other end: every request that has been written is
  handled by the request router in the order of the writes, and a read returns the response to the
  last request written.
\<close>

fun driver_after :: "handler_env \<Rightarrow> u32 \<Rightarrow> driver \<Rightarrow> wire_event list \<Rightarrow> driver" where
  "driver_after e msk d [] = d"
| "driver_after e msk d (ev # l) =
     (case ev of EvWrite req \<Rightarrow> snd (IPCServer_HandleRequest e msk req (driver_after e msk d l))
      | _ \<Rightarrow> driver_after e msk d l)"

fun last_response :: "handler_env \<Rightarrow> u32 \<Rightarrow> driver \<Rightarrow> wire_event list \<Rightarrow> response" where
  "last_response e msk d [] = ResponseInvalid"
| "last_response e msk d (ev # l) =
     (case ev of EvWrite req \<Rightarrow> fst (IPCServer_HandleRequest e msk req (driver_after e msk d l))
      | _ \<Rightarrow> last_response e msk d l)"

definition driver_pipe :: "handler_env \<Rightarrow> u32 \<Rightarrow> driver \<Rightarrow> win_pipe" where
  "driver_pipe e msk d = \<lparr>wp_open = (\<lambda>l. None), wp_mode = (\<lambda>l. None), wp_write = (\<lambda>l. WriteOk),
     wp_read = (\<lambda>l. ReadOk (last_response e msk d l) 0)\<rparr>"

lemma handshake_served [simp]:
  "IPCServer_HandleRequest e msk RequestHandshake d = (ResponseHandshake Version, d)"
  by (simp add: IPCServer_HandleRequest_def HandleIpcRequest_def)

lemma driver_pipe_exchange:
  "cl_pipe c \<Longrightarrow> exchange (driver_pipe e msk d) req c =
     (Inr (fst (IPCServer_HandleRequest e msk req (driver_after e msk d (cl_log c))), 0),
      logged EvReceive (logged (EvWrite req) c))"
  by (simp add: exchange_def Client_Send_def Client_Receive_def driver_pipe_def)

lemma driver_pipe_retrying:
  "cl_pipe c \<Longrightarrow> exchange_retrying conn (driver_pipe e msk d) req c = exchange (driver_pipe e msk d) req c"
  by (simp add: exchange_retrying_def driver_pipe_exchange)

lemma driver_pipe_open:
  "\<not> cl_pipe c \<Longrightarrow> open_pipe (driver_pipe e msk d) name c =
     (None, logged EvMode (logged EvOpen (c\<lparr>cl_pipeName := name, cl_pipe := True\<rparr>)))"
  by (simp add: open_pipe_def driver_pipe_def Client_Close_def Let_def logged_def)

lemma driver_pipe_connect:
  assumes "\<not> cl_pipe c"
  shows "\<exists>c'. Connect (Suc (Suc n)) (driver_pipe e msk d) name c = (None, c') \<and> cl_pipe c'
    \<and> driver_after e msk d (cl_log c') = driver_after e msk d (cl_log c)
    \<and> cl_generation c' = cl_generation c + 1 \<and> cl_mismatch c' = Matching"
  using assms
  by (simp add: driver_pipe_open driver_pipe_retrying driver_pipe_exchange ensure_open_def
      check_handshake_def Let_def) (simp add: logged_def)

text \<open>C5: A request that the overlay sends is handled by the driver exactly once and answered truthfully:
  over a working pipe, connected or not, the call returns the response that the driver's router
  gives to the request in the state left by all earlier requests, and afterwards the driver is in
  the state the router leaves.
\<close>

theorem overlay_driver_request:
  assumes "cl_pipe c \<or> cl_pipeName c \<noteq> []"
  shows "\<exists>c'. SendBlocking ipc_depth (driver_pipe e msk d) req c =
      (Inr (fst (IPCServer_HandleRequest e msk req (driver_after e msk d (cl_log c))), 0), c')
    \<and> cl_pipe c'
    \<and> driver_after e msk d (cl_log c') = snd (IPCServer_HandleRequest e msk req (driver_after e msk d (cl_log c)))"
proof -
  have depth: "ipc_depth = Suc (Suc (Suc (Suc (Suc 0))))" by (simp add: ipc_depth_def)
  show ?thesis
  proof (cases "cl_pipe c")
    case True
    then show ?thesis by (simp add: depth ensure_open_def driver_pipe_retrying driver_pipe_exchange)
  next
    case False
    obtain c' where c': "Connect (Suc (Suc (Suc (Suc 0)))) (driver_pipe e msk d) (cl_pipeName c) c = (None, c')"
      "cl_pipe c'" "driver_after e msk d (cl_log c') = driver_after e msk d (cl_log c)"
      using driver_pipe_connect [OF False] by blast
    have "ensure_open (\<lambda>name c. Connect (Suc (Suc (Suc (Suc 0)))) (driver_pipe e msk d) name c) c = (None, c')"
      using False assms c'(1) by (simp only: ensure_open_def if_True simp_thms if_False)
    then show ?thesis
      unfolding depth SendBlocking.simps(2) using c'(2,3)
      by (simp add: driver_pipe_retrying driver_pipe_exchange del: Connect.simps)
  qed
qed

theorem overlay_driver_request_witness:
  "\<exists>c'. SendBlocking ipc_depth (driver_pipe demo_env kFeatureCalibration demo_driver) RequestDebugOffset
       (fresh_client\<lparr>cl_pipeName := ''calibration''\<rparr>) =
      (Inr (fst (IPCServer_HandleRequest demo_env kFeatureCalibration RequestDebugOffset demo_driver), 0), c')"
  using overlay_driver_request [of "fresh_client\<lparr>cl_pipeName := ''calibration''\<rparr>" demo_env
      kFeatureCalibration demo_driver RequestDebugOffset]
  by (auto simp: fresh_client_def)

end
